(* ===== verification/Prelude.thy ===== *)
theory Prelude
  imports Main "HOL-Library.Word" "HOL-Library.List_Lexorder" "HOL-Library.Char_ord"
    "HOL-Library.Product_Lexorder" "HOL-Library.Sublist"
begin

text \<open>
  Shared vocabulary of the development: results with an error message, the fixed-width integer
  operations of Rust that the sources use, UTF-8 byte strings with the string functions of the
  standard library the sources call, and decimal printing and reading. The SQL statements are in
  \<open>Sql\<close> and the interface locales of status machines and guarded step systems in \<open>Machines\<close>.

  A Rust \<open>String\<close> is the list of its UTF-8 bytes, so \<open>len()\<close> is \<open>length\<close> and byte comparisons (SQLite's
  BINARY collation, \<open>Ord for str\<close>) are the lexicographic order on byte lists.
\<close>

named_theorems result_simps \<open>unfolding of the result combinators\<close>
named_theorems rust_int_simps \<open>bounds of the fixed-width integer operations\<close>
named_theorems sql_simps \<open>effects of the SQL statement forms\<close>

section \<open>Results\<close>

type_synonym 'a result = "string + 'a"

abbreviation Ok :: "'a \<Rightarrow> 'e + 'a" where
  "Ok \<equiv> Inr"

abbreviation Err :: "'e \<Rightarrow> 'e + 'a" where
  "Err \<equiv> Inl"

text \<open>The question mark operator: continue with the value, return early with the error.\<close>

definition res_bind :: "'e + 'a \<Rightarrow> ('a \<Rightarrow> 'e + 'b) \<Rightarrow> 'e + 'b" where
  "res_bind r f = (case r of Inl e \<Rightarrow> Inl e | Inr x \<Rightarrow> f x)"

text \<open>An early return with an error when a condition fails.\<close>

definition ensure :: "bool \<Rightarrow> 'e \<Rightarrow> 'e + unit" where
  "ensure b e = (if b then Inr () else Inl e)"

definition ok_or :: "'e \<Rightarrow> 'a option \<Rightarrow> 'e + 'a" where
  "ok_or e v = (case v of None \<Rightarrow> Inl e | Some x \<Rightarrow> Inr x)"

definition map_err :: "('e \<Rightarrow> 'f) \<Rightarrow> 'e + 'a \<Rightarrow> 'f + 'a" where
  "map_err f r = (case r of Inl e \<Rightarrow> Inl (f e) | Inr x \<Rightarrow> Inr x)"

definition is_ok :: "'e + 'a \<Rightarrow> bool" where
  "is_ok r = (case r of Inl _ \<Rightarrow> False | Inr _ \<Rightarrow> True)"

lemma res_bind_Inl [simp]: "res_bind (Inl e) f = Inl e"
  by (simp add: res_bind_def)

lemma res_bind_Inr [simp]: "res_bind (Inr x) f = f x"
  by (simp add: res_bind_def)

lemma res_bind_eq_Inr [result_simps]:
  "res_bind r f = Inr y \<longleftrightarrow> (\<exists>x. r = Inr x \<and> f x = Inr y)"
  by (cases r) auto

lemma res_bind_eq_Inl [result_simps]:
  "res_bind r f = Inl e \<longleftrightarrow> r = Inl e \<or> (\<exists>x. r = Inr x \<and> f x = Inl e)"
  by (cases r) auto

lemma map_err_eq_Inr [simp]: "map_err f r = Inr x \<longleftrightarrow> r = Inr x"
  by (cases r) (auto simp: map_err_def)

lemma map_err_Inr [simp]: "map_err f (Inr x) = Inr x"
  by (simp add: map_err_def)

lemma ensure_eq_Inr [simp]: "ensure b e = Inr u \<longleftrightarrow> b"
  by (simp add: ensure_def)

lemma ensure_eq_Inl [simp]: "ensure b e = Inl e' \<longleftrightarrow> \<not> b \<and> e' = e"
  by (auto simp: ensure_def)

lemma ensure_True [simp]: "ensure True e = Inr ()"
  by (simp add: ensure_def)

lemma ensure_False [simp]: "ensure False e = Inl e"
  by (simp add: ensure_def)

lemma ok_or_eq_Inr [simp]: "ok_or e v = Inr x \<longleftrightarrow> v = Some x"
  by (cases v) (auto simp: ok_or_def)

lemma ok_or_eq_Inl [simp]: "ok_or e v = Inl e' \<longleftrightarrow> v = None \<and> e' = e"
  by (cases v) (auto simp: ok_or_def)

lemma ok_or_Some [simp]: "ok_or e (Some x) = Inr x"
  by (simp add: ok_or_def)

lemma ok_or_None [simp]: "ok_or e None = Inl e"
  by (simp add: ok_or_def)

lemma is_ok_iff: "is_ok r \<longleftrightarrow> (\<exists>x. r = Inr x)"
  by (cases r) (auto simp: is_ok_def)

lemma is_ok_simps [simp]: "is_ok (Inr x)" "\<not> is_ok (Inl e)"
  by (simp_all add: is_ok_def)

text \<open>Left-to-right iteration with early return: \<open>for x in xs { s = f(s, x)?; }\<close>.\<close>

fun fold_result :: "('s \<Rightarrow> 'x \<Rightarrow> 'e + 's) \<Rightarrow> 's \<Rightarrow> 'x list \<Rightarrow> 'e + 's" where
  "fold_result f s [] = Inr s"
| "fold_result f s (x # xs) = res_bind (f s x) (\<lambda>s'. fold_result f s' xs)"

text \<open>\<open>collect::<Result<Vec<_>, _>>()\<close>.\<close>

fun map_result :: "('x \<Rightarrow> 'e + 'y) \<Rightarrow> 'x list \<Rightarrow> 'e + 'y list" where
  "map_result f [] = Inr []"
| "map_result f (x # xs) = res_bind (f x) (\<lambda>y. res_bind (map_result f xs) (\<lambda>ys. Inr (y # ys)))"

lemma fold_result_invariant:
  assumes "fold_result f s xs = Inr s'" and "P s"
    and "\<And>s x s'. x \<in> set xs \<Longrightarrow> P s \<Longrightarrow> f s x = Inr s' \<Longrightarrow> P s'"
  shows "P s'"
  using assms
proof (induction xs arbitrary: s)
  case Nil
  then show ?case by simp
next
  case (Cons x xs)
  from Cons.prems(1) obtain s1 where s1: "f s x = Inr s1" and rest: "fold_result f s1 xs = Inr s'"
    by (auto simp: res_bind_eq_Inr)
  have "P s1" using Cons.prems(2,3) s1 by (meson list.set_intros(1))
  then show ?case using Cons.IH [OF rest] Cons.prems(3) by (meson list.set_intros(2))
qed

lemma map_result_pass: "(\<And>x. x \<in> set xs \<Longrightarrow> f x = Ok x) \<Longrightarrow> map_result f xs = Ok xs"
  by (induction xs) (auto simp: result_simps)

lemma map_result_Inr_iff:
  "map_result f xs = Inr ys \<longleftrightarrow> list_all2 (\<lambda>x y. f x = Inr y) xs ys"
proof (induction xs arbitrary: ys)
  case Nil
  then show ?case by auto
next
  case (Cons x xs)
  then show ?case
    by (cases ys) (auto simp: res_bind_eq_Inr list_all2_Cons1)
qed

section \<open>Fixed-width integers\<close>

type_synonym i64 = int

definition i64_max :: int where
  "i64_max = 9223372036854775807"

definition i64_min :: int where
  "i64_min = - 9223372036854775808"

definition u32_max :: nat where
  "u32_max = 4294967295"

definition u64_max :: nat where
  "u64_max = 18446744073709551615"

definition i64_checked_add :: "int \<Rightarrow> int \<Rightarrow> int option" where
  "i64_checked_add a b = (if i64_min \<le> a + b \<and> a + b \<le> i64_max then Some (a + b) else None)"

definition i64_saturating_add :: "int \<Rightarrow> int \<Rightarrow> int" where
  "i64_saturating_add a b = max i64_min (min i64_max (a + b))"

text \<open>\<open>i64::try_from\<close> of an unsigned value.\<close>

definition i64_try_from :: "nat \<Rightarrow> int option" where
  "i64_try_from n = (if int n \<le> i64_max then Some (int n) else None)"

definition u64_checked_add :: "nat \<Rightarrow> nat \<Rightarrow> nat option" where
  "u64_checked_add a b = (if a + b \<le> u64_max then Some (a + b) else None)"

definition u64_saturating_add :: "nat \<Rightarrow> nat \<Rightarrow> nat" where
  "u64_saturating_add a b = min u64_max (a + b)"

definition u64_saturating_mul :: "nat \<Rightarrow> nat \<Rightarrow> nat" where
  "u64_saturating_mul a b = min u64_max (a * b)"

definition u32_checked_add :: "nat \<Rightarrow> nat \<Rightarrow> nat option" where
  "u32_checked_add a b = (if a + b \<le> u32_max then Some (a + b) else None)"

definition u32_saturating_add :: "nat \<Rightarrow> nat \<Rightarrow> nat" where
  "u32_saturating_add a b = min u32_max (a + b)"

text \<open>\<open>u32::try_from\<close> of a signed column.\<close>

definition u32_try_from :: "int \<Rightarrow> nat option" where
  "u32_try_from i = (if 0 \<le> i \<and> i \<le> int u32_max then Some (nat i) else None)"

lemma i64_saturating_add_ge [rust_int_simps]: "0 \<le> b \<Longrightarrow> a \<le> i64_max \<Longrightarrow> a \<le> i64_saturating_add a b"
  by (simp add: i64_saturating_add_def)

lemma i64_saturating_add_gt [rust_int_simps]:
  "0 < b \<Longrightarrow> a < i64_max \<Longrightarrow> a < i64_saturating_add a b"
  by (simp add: i64_saturating_add_def)

lemma i64_checked_add_Some [simp]:
  "i64_checked_add a b = Some c \<longleftrightarrow> c = a + b \<and> i64_min \<le> a + b \<and> a + b \<le> i64_max"
  by (auto simp: i64_checked_add_def)

lemma u64_saturating_add_le [rust_int_simps]: "u64_saturating_add a b \<le> u64_max"
  by (simp add: u64_saturating_add_def)

lemma u32_saturating_add_le [rust_int_simps]: "u32_saturating_add a b \<le> u32_max"
  by (simp add: u32_saturating_add_def)

lemma u64_saturating_add_assoc:
  "u64_saturating_add (u64_saturating_add a b) c = u64_saturating_add a (u64_saturating_add b c)"
  by (simp add: u64_saturating_add_def min_def)

lemma u32_saturating_add_assoc:
  "u32_saturating_add (u32_saturating_add a b) c = u32_saturating_add a (u32_saturating_add b c)"
  by (simp add: u32_saturating_add_def min_def)

lemma u64_saturating_add_commute: "u64_saturating_add a b = u64_saturating_add b a"
  by (simp add: u64_saturating_add_def add.commute)

lemma u32_saturating_add_commute: "u32_saturating_add a b = u32_saturating_add b a"
  by (simp add: u32_saturating_add_def add.commute)

section \<open>Byte strings\<close>

text \<open>
  The whitespace scalar values that \<open>str::trim\<close> removes, by the length of their UTF-8 encoding:
  U+0009 to U+000D and U+0020; U+0085 and U+00A0; U+1680, U+2000 to U+200A, U+2028, U+2029, U+202F,
  U+205F and U+3000.
\<close>

definition ws1 :: "string list" where
  "ws1 = [[CHR 0x09], [CHR 0x0A], [CHR 0x0B], [CHR 0x0C], [CHR 0x0D], [CHR 0x20]]"

definition ws2 :: "string list" where
  "ws2 = [[CHR 0xC2, CHR 0x85], [CHR 0xC2, CHR 0xA0]]"

definition ws3 :: "string list" where
  "ws3 = [[CHR 0xE1, CHR 0x9A, CHR 0x80],
     [CHR 0xE2, CHR 0x80, CHR 0x80], [CHR 0xE2, CHR 0x80, CHR 0x81], [CHR 0xE2, CHR 0x80, CHR 0x82],
     [CHR 0xE2, CHR 0x80, CHR 0x83], [CHR 0xE2, CHR 0x80, CHR 0x84], [CHR 0xE2, CHR 0x80, CHR 0x85],
     [CHR 0xE2, CHR 0x80, CHR 0x86], [CHR 0xE2, CHR 0x80, CHR 0x87], [CHR 0xE2, CHR 0x80, CHR 0x88],
     [CHR 0xE2, CHR 0x80, CHR 0x89], [CHR 0xE2, CHR 0x80, CHR 0x8A], [CHR 0xE2, CHR 0x80, CHR 0xA8],
     [CHR 0xE2, CHR 0x80, CHR 0xA9], [CHR 0xE2, CHR 0x80, CHR 0xAF], [CHR 0xE2, CHR 0x81, CHR 0x9F],
     [CHR 0xE3, CHR 0x80, CHR 0x80]]"

text \<open>Bytes of the whitespace scalar at the front (at the end) of a string, 0 when there is none.\<close>

definition ws_front :: "string \<Rightarrow> nat" where
  "ws_front s = (if take 1 s \<in> set ws1 then 1 else if take 2 s \<in> set ws2 then 2
     else if take 3 s \<in> set ws3 then 3 else 0)"

definition take_last :: "nat \<Rightarrow> 'a list \<Rightarrow> 'a list" where
  "take_last n s = drop (length s - n) s"

definition ws_back :: "string \<Rightarrow> nat" where
  "ws_back s = (if take_last 1 s \<in> set ws1 then 1 else if take_last 2 s \<in> set ws2 then 2
     else if take_last 3 s \<in> set ws3 then 3 else 0)"

lemma ws_front_Nil [simp]: "ws_front [] = 0"
  by (simp add: ws_front_def ws1_def ws2_def ws3_def)

lemma ws_back_Nil [simp]: "ws_back [] = 0"
  by (simp add: ws_back_def take_last_def ws1_def ws2_def ws3_def)

function trim_start :: "string \<Rightarrow> string" where
  "trim_start s = (if ws_front s = 0 then s else trim_start (drop (ws_front s) s))"
  by pat_completeness auto
termination
proof (relation "measure length")
  show "wf (measure (length :: string \<Rightarrow> nat))" by simp
next
  fix s :: string
  assume "ws_front s \<noteq> 0"
  moreover from this have "s \<noteq> []" by auto
  ultimately show "(drop (ws_front s) s, s) \<in> measure length" by simp
qed

function trim_end :: "string \<Rightarrow> string" where
  "trim_end s = (if ws_back s = 0 then s else trim_end (take (length s - ws_back s) s))"
  by pat_completeness auto
termination
proof (relation "measure length")
  show "wf (measure (length :: string \<Rightarrow> nat))" by simp
next
  fix s :: string
  assume "ws_back s \<noteq> 0"
  moreover from this have "s \<noteq> []" by auto
  ultimately show "(take (length s - ws_back s) s, s) \<in> measure length" by simp
qed

declare trim_start.simps [simp del] trim_end.simps [simp del]

definition trim :: "string \<Rightarrow> string" where
  "trim s = trim_end (trim_start s)"

abbreviation blank :: "string \<Rightarrow> bool" where
  "blank s \<equiv> trim s = []"

lemma trim_Nil [simp]: "trim [] = []"
  by (simp add: trim_def trim_start.simps trim_end.simps)

lemma trim_start_suffix: "suffix (trim_start s) s"
proof (induction s rule: trim_start.induct)
  case (1 s)
  show ?case
  proof (cases "ws_front s = 0")
    case True
    then show ?thesis by (simp add: trim_start.simps [of s])
  next
    case False
    with 1 have "suffix (trim_start (drop (ws_front s) s)) (drop (ws_front s) s)" by simp
    then have "suffix (trim_start (drop (ws_front s) s)) s"
      using suffix_drop suffix_order.order_trans by blast
    with False show ?thesis by (simp add: trim_start.simps [of s])
  qed
qed

lemma trim_end_prefix: "prefix (trim_end s) s"
proof (induction s rule: trim_end.induct)
  case (1 s)
  show ?case
  proof (cases "ws_back s = 0")
    case True
    then show ?thesis by (simp add: trim_end.simps [of s])
  next
    case False
    with 1 have "prefix (trim_end (take (length s - ws_back s) s)) (take (length s - ws_back s) s)"
      by simp
    then have "prefix (trim_end (take (length s - ws_back s) s)) s"
      using take_is_prefix prefix_order.order_trans by blast
    with False show ?thesis by (simp add: trim_end.simps [of s])
  qed
qed

lemma trim_sublist: "sublist (trim s) s"
  unfolding trim_def
  by (meson prefix_imp_sublist suffix_imp_sublist sublist_order.order_trans trim_end_prefix
      trim_start_suffix)

lemma length_trim_le: "length (trim s) \<le> length s"
  using sublist_length_le trim_sublist by blast

lemma ws_front_prefix: "prefix p t \<Longrightarrow> ws_front t = 0 \<Longrightarrow> ws_front p = 0"
proof -
  assume "prefix p t" and t: "ws_front t = 0"
  then obtain r where tp: "t = p @ r" by (auto elim: prefixE)
  have len: "\<forall>w \<in> set ws1. length w = 1" "\<forall>w \<in> set ws2. length w = 2" "\<forall>w \<in> set ws3. length w = 3"
    by (simp_all add: ws1_def ws2_def ws3_def)
  have "take n p \<notin> set W" if "take n t \<notin> set W" "\<forall>w \<in> set W. length w = n" for n W
  proof
    assume w: "take n p \<in> set W"
    then have "length (take n p) = n" using that(2) by blast
    then have "take n t = take n p" unfolding tp by simp
    then show False using that(1) w by simp
  qed
  then have "take 1 p \<notin> set ws1" "take 2 p \<notin> set ws2" "take 3 p \<notin> set ws3"
    using t len by (auto simp: ws_front_def split: if_splits)
  then show "ws_front p = 0" by (simp add: ws_front_def)
qed

lemma ws_front_trim_start: "ws_front (trim_start s) = 0"
  by (induction s rule: trim_start.induct) (subst trim_start.simps, simp)

lemma ws_back_trim_end: "ws_back (trim_end s) = 0"
  by (induction s rule: trim_end.induct) (subst trim_end.simps, simp)

lemma trim_fixed: "ws_front s = 0 \<Longrightarrow> ws_back s = 0 \<Longrightarrow> trim s = s"
  by (simp add: trim_def trim_start.simps trim_end.simps)

lemma trim_idem [simp]: "trim (trim s) = trim s"
proof (rule trim_fixed)
  show "ws_front (trim s) = 0"
    unfolding trim_def by (rule ws_front_prefix [OF trim_end_prefix ws_front_trim_start])
  show "ws_back (trim s) = 0" unfolding trim_def by (rule ws_back_trim_end)
qed

text \<open>A string that starts and ends with a visible ASCII character is its own trimming.\<close>

definition is_ascii_graphic :: "char \<Rightarrow> bool" where
  "is_ascii_graphic c \<longleftrightarrow> 33 \<le> (of_char c :: nat) \<and> (of_char c :: nat) \<le> 126"

lemma ws_front_graphic:
  assumes "is_ascii_graphic c"
  shows "ws_front (c # s) = 0"
proof -
  have "\<forall>w \<in> set (ws1 @ ws2 @ ws3). \<not> is_ascii_graphic (hd w)"
    by (simp add: ws1_def ws2_def ws3_def is_ascii_graphic_def)
  moreover have "hd (take (Suc n) (c # s)) = c" for n by simp
  ultimately have "take (Suc n) (c # s) \<notin> set (ws1 @ ws2 @ ws3)" for n using assms by metis
  from this [of 0] this [of 1] this [of 2] show ?thesis by (simp add: ws_front_def numeral_2_eq_2 numeral_3_eq_3)
qed

lemma ws_back_graphic:
  assumes "s \<noteq> []" and "is_ascii_graphic (last s)"
  shows "ws_back s = 0"
proof -
  have "\<forall>w \<in> set (ws1 @ ws2 @ ws3). \<not> is_ascii_graphic (last w)"
    by (simp add: ws1_def ws2_def ws3_def is_ascii_graphic_def)
  moreover have "last (take_last (Suc n) s) = last s" for n using assms(1) by (simp add: take_last_def last_drop)
  ultimately have "take_last (Suc n) s \<notin> set (ws1 @ ws2 @ ws3)" for n using assms(2) by metis
  from this [of 0] this [of 1] this [of 2] show ?thesis by (simp add: ws_back_def numeral_2_eq_2 numeral_3_eq_3)
qed

lemma trim_graphic:
  assumes "s \<noteq> []" and "is_ascii_graphic (hd s)" and "is_ascii_graphic (last s)"
  shows "trim s = s"
  using assms ws_front_graphic [of "hd s" "tl s"] ws_back_graphic by (intro trim_fixed) simp_all

lemma not_blank_nonempty: "\<not> blank s \<Longrightarrow> s \<noteq> []"
  by auto

text \<open>ASCII classes, on a byte.\<close>

definition to_ascii_lowercase :: "string \<Rightarrow> string" where
  "to_ascii_lowercase s = map (\<lambda>c. if 65 \<le> (of_char c :: nat) \<and> (of_char c :: nat) \<le> 90
     then char_of ((of_char c :: nat) + 32) else c) s"

definition is_ascii_digit :: "char \<Rightarrow> bool" where
  "is_ascii_digit c = (CHR ''0'' \<le> c \<and> c \<le> CHR ''9'')"

definition is_ascii_alphabetic :: "char \<Rightarrow> bool" where
  "is_ascii_alphabetic c =
     ((CHR ''a'' \<le> c \<and> c \<le> CHR ''z'') \<or> (CHR ''A'' \<le> c \<and> c \<le> CHR ''Z''))"

definition is_ascii_alphanumeric :: "char \<Rightarrow> bool" where
  "is_ascii_alphanumeric c = (is_ascii_alphabetic c \<or> is_ascii_digit c)"

definition is_ascii_lowercase :: "char \<Rightarrow> bool" where
  "is_ascii_lowercase c \<longleftrightarrow> c \<in> set ''abcdefghijklmnopqrstuvwxyz''"

definition lowercase_hex :: "char \<Rightarrow> bool" where
  "lowercase_hex c \<longleftrightarrow> is_ascii_digit c \<or> c \<in> set ''abcdef''"

definition is_ascii_byte :: "char \<Rightarrow> bool" where
  "is_ascii_byte c = ((of_char c :: nat) < 128)"

text \<open>\<open>s.split(c)\<close>, \<open>s.split_once(c)\<close>, \<open>s.rsplit_once(c)\<close>, \<open>s.contains(sub)\<close> and friends.\<close>

fun split_on :: "'a \<Rightarrow> 'a list \<Rightarrow> 'a list list" where
  "split_on c [] = [[]]"
| "split_on c (x # xs) = (if x = c then [] # split_on c xs
     else (case split_on c xs of [] \<Rightarrow> [[x]] | w # ws \<Rightarrow> (x # w) # ws))"

definition split_once :: "'a \<Rightarrow> 'a list \<Rightarrow> ('a list \<times> 'a list) option" where
  "split_once c s = (case dropWhile (\<lambda>x. x \<noteq> c) s of [] \<Rightarrow> None
     | _ # rest \<Rightarrow> Some (takeWhile (\<lambda>x. x \<noteq> c) s, rest))"

definition rsplit_once :: "'a \<Rightarrow> 'a list \<Rightarrow> ('a list \<times> 'a list) option" where
  "rsplit_once c s = (case split_once c (rev s) of None \<Rightarrow> None
     | Some (after, before) \<Rightarrow> Some (rev before, rev after))"

fun contains_sub :: "string \<Rightarrow> string \<Rightarrow> bool" where
  "contains_sub p [] = (p = [])"
| "contains_sub p (x # xs) = (prefix p (x # xs) \<or> contains_sub p xs)"

definition strip_prefix :: "'a list \<Rightarrow> 'a list \<Rightarrow> 'a list option" where
  "strip_prefix p s = (if prefix p s then Some (drop (length p) s) else None)"

definition trim_start_matches :: "'a \<Rightarrow> 'a list \<Rightarrow> 'a list" where
  "trim_start_matches c s = dropWhile (\<lambda>x. x = c) s"

definition trim_end_matches :: "'a \<Rightarrow> 'a list \<Rightarrow> 'a list" where
  "trim_end_matches c s = rev (dropWhile (\<lambda>x. x = c) (rev s))"

definition trim_matches :: "'a \<Rightarrow> 'a list \<Rightarrow> 'a list" where
  "trim_matches c s = trim_end_matches c (trim_start_matches c s)"

definition replace_byte :: "'a \<Rightarrow> 'a \<Rightarrow> 'a list \<Rightarrow> 'a list" where
  "replace_byte a b s = map (\<lambda>x. if x = a then b else x) s"

fun replace_first :: "string \<Rightarrow> string \<Rightarrow> string \<Rightarrow> string" where
  "replace_first p r [] = (if p = [] then r else [])"
| "replace_first p r (x # xs) =
     (if prefix p (x # xs) then r @ drop (length p) (x # xs) else x # replace_first p r xs)"

fun join_with :: "'a list \<Rightarrow> 'a list list \<Rightarrow> 'a list" where
  "join_with sep [] = []"
| "join_with sep [w] = w"
| "join_with sep (w # v # ws) = w @ sep @ join_with sep (v # ws)"

lemma split_on_ne [simp]: "split_on c s \<noteq> []"
  by (induction s) (auto split: list.splits)

lemma join_split_on: "join_with [c] (split_on c s) = s"
proof (induction s)
  case Nil
  then show ?case by simp
next
  case (Cons x xs)
  obtain w ws where w: "split_on c xs = w # ws" using split_on_ne by (meson list.exhaust)
  show ?case
  proof (cases "x = c")
    case True
    then show ?thesis using Cons w by simp
  next
    case False
    then show ?thesis using Cons w by (cases ws) auto
  qed
qed

lemma split_on_append: "split_on c (xs @ c # ys) = split_on c xs @ split_on c ys"
  by (induction xs) (auto split: list.split)

lemma split_on_subset: "w \<in> set (split_on c s) \<Longrightarrow> set w \<subseteq> set s"
  by (induction s arbitrary: w) (fastforce split: list.splits if_splits)+

lemma contains_sub_prefix: "prefix p s \<Longrightarrow> contains_sub p s"
  by (cases s) auto

lemma trim_end_matches_subset: "set (trim_end_matches c s) \<subseteq> set s"
  by (auto simp: trim_end_matches_def dest: set_dropWhileD)

lemma trim_start_matches_subset: "set (trim_start_matches c s) \<subseteq> set s"
  by (auto simp: trim_start_matches_def dest: set_dropWhileD)

lemma replace_byte_id: "a \<notin> set s \<Longrightarrow> replace_byte a b s = s"
  by (induction s) (auto simp: replace_byte_def)

lemma find_same: "List.find (\<lambda>y. y = x) ys = (if x \<in> set ys then Some x else None)"
  by (induction ys) auto

lemma split_on_no_sep: "w \<in> set (split_on c s) \<Longrightarrow> c \<notin> set w"
proof (induction s arbitrary: w)
  case Nil
  then show ?case by simp
next
  case (Cons x xs)
  obtain v vs where v: "split_on c xs = v # vs" using split_on_ne by (meson list.exhaust)
  show ?case
  proof (cases "x = c")
    case True
    then show ?thesis using Cons by auto
  next
    case False
    then show ?thesis using Cons v by auto
  qed
qed

lemma strip_prefix_Some: "strip_prefix p s = Some r \<longleftrightarrow> s = p @ r"
  by (auto simp: strip_prefix_def prefix_def)

lemma replace_first_at_front: "p \<noteq> [] \<Longrightarrow> replace_first p r (p @ s) = r @ s"
  by (cases p) auto

section \<open>Decimal numerals\<close>

definition digit_char :: "nat \<Rightarrow> char" where
  "digit_char d = char_of (48 + d)"

fun show_nat :: "nat \<Rightarrow> string" where
  "show_nat n = (if n < 10 then [digit_char n] else show_nat (n div 10) @ [digit_char (n mod 10)])"

declare show_nat.simps [simp del]

definition show_int :: "int \<Rightarrow> string" where
  "show_int i = (if i < 0 then CHR ''-'' # show_nat (nat (- i)) else show_nat (nat i))"

definition digit_value :: "char \<Rightarrow> nat" where
  "digit_value c = of_char c - 48"

definition decimal_value :: "string \<Rightarrow> nat" where
  "decimal_value s = foldl (\<lambda>acc c. acc * 10 + digit_value c) 0 s"

lemma of_char_digit_char [simp]: "d < 10 \<Longrightarrow> (of_char (digit_char d) :: nat) = 48 + d"
  by (simp add: digit_char_def)

lemma digit_value_digit_char [simp]: "d < 10 \<Longrightarrow> digit_value (digit_char d) = d"
  by (simp add: digit_value_def)

lemma is_ascii_digit_iff: "is_ascii_digit c \<longleftrightarrow> 48 \<le> (of_char c :: nat) \<and> (of_char c :: nat) \<le> 57"
  by (simp add: is_ascii_digit_def less_eq_char_def)

lemma is_ascii_digit_digit_char [simp]: "d < 10 \<Longrightarrow> is_ascii_digit (digit_char d)"
  by (simp add: is_ascii_digit_iff)

lemma decimal_value_snoc [simp]: "decimal_value (s @ [c]) = decimal_value s * 10 + digit_value c"
  by (simp add: decimal_value_def)

lemma decimal_value_show_nat [simp]: "decimal_value (show_nat n) = n"
proof (induction n rule: show_nat.induct)
  case (1 n)
  show ?case
  proof (cases "n < 10")
    case True
    then show ?thesis by (simp add: show_nat.simps [of n] decimal_value_def)
  next
    case False
    with 1 show ?thesis by (simp add: show_nat.simps [of n])
  qed
qed

lemma show_nat_inject [simp]: "show_nat m = show_nat n \<longleftrightarrow> m = n"
  by (metis decimal_value_show_nat)

lemma show_nat_digits: "c \<in> set (show_nat n) \<Longrightarrow> is_ascii_digit c"
proof (induction n rule: show_nat.induct)
  case (1 n)
  then show ?case
    by (cases "n < 10") (auto simp: show_nat.simps [of n])
qed

lemma show_nat_ne [simp]: "show_nat n \<noteq> []"
  by (simp add: show_nat.simps [of n])

lemma show_nat_leading: "9 < n \<Longrightarrow> hd (show_nat n) \<noteq> CHR ''0''"
proof (induction n rule: show_nat.induct)
  case (1 n)
  have step: "hd (show_nat n) = hd (show_nat (n div 10))"
    using 1(2) by (subst show_nat.simps) (simp add: hd_append)
  show ?case
  proof (cases "9 < n div 10")
    case True
    then show ?thesis using 1 step by simp
  next
    case False
    with 1(2) have "hd (show_nat n) = digit_char (n div 10)"
      unfolding step by (simp add: show_nat.simps [of "n div 10"])
    moreover have "digit_char (n div 10) \<noteq> CHR ''0''"
    proof
      assume "digit_char (n div 10) = CHR ''0''"
      then have "(of_char (digit_char (n div 10)) :: nat) = of_char (CHR ''0'')" by simp
      with 1(2) False show False by simp
    qed
    ultimately show ?thesis by simp
  qed
qed

lemma digit_not_minus: "c \<in> set (show_nat n) \<Longrightarrow> c \<noteq> CHR ''-'' \<and> c \<noteq> CHR '':''"
  by (drule show_nat_digits) (auto simp: is_ascii_digit_iff)

lemma show_int_inject [simp]: "show_int i = show_int j \<longleftrightarrow> i = j"
proof
  assume eq: "show_int i = show_int j"
  have hdn: "hd (show_nat n) \<noteq> CHR ''-''" for n
    using digit_not_minus [of "hd (show_nat n)" n] by simp
  show "i = j"
    using eq hdn [of "nat i"] hdn [of "nat j"]
    by (auto simp: show_int_def split: if_splits) (metis list.sel(1))+
qed simp

lemma show_int_no_colon: "CHR '':'' \<notin> set (show_int i)"
  using digit_not_minus by (auto simp: show_int_def)

lemma show_nat_no_colon: "CHR '':'' \<notin> set (show_nat n)"
  using digit_not_minus by auto

text \<open>
  Identifiers are joined with colons. The part after the last colon can be read back when it holds
  no colon itself.
\<close>

lemma append_colon_cancel:
  assumes "a @ CHR '':'' # x = b @ CHR '':'' # y"
    and "CHR '':'' \<notin> set x" and "CHR '':'' \<notin> set y"
  shows "a = b \<and> x = y"
proof -
  have "takeWhile (\<lambda>c. c \<noteq> CHR '':'') (rev (a @ CHR '':'' # x)) = rev x"
    using assms(2) by (subst rev_append) (auto simp: takeWhile_append)
  moreover have "takeWhile (\<lambda>c. c \<noteq> CHR '':'') (rev (b @ CHR '':'' # y)) = rev y"
    using assms(3) by (subst rev_append) (auto simp: takeWhile_append)
  ultimately have "x = y" using assms(1) by simp
  with assms(1) show ?thesis by simp
qed

end
