(* ===== verification/Sql.thy ===== *)
theory Sql
  imports Prelude
begin

text \<open>
  The SQL statement forms the SQLite adapter uses, over a table kept as the list of its rows in
  insertion order: \<open>UPDATE ... WHERE\<close> with its row count, \<open>DELETE ... WHERE\<close>, a single-row
  \<open>SELECT\<close>, a filtered \<open>SELECT ... ORDER BY ... LIMIT ... OFFSET\<close>, and the uniqueness of a key
  column that a \<open>PRIMARY KEY\<close> or \<open>UNIQUE\<close> constraint enforces.
\<close>

definition sql_update :: "('r \<Rightarrow> bool) \<Rightarrow> ('r \<Rightarrow> 'r) \<Rightarrow> 'r list \<Rightarrow> 'r list" where
  "sql_update P f rows = map (\<lambda>r. if P r then f r else r) rows"

definition sql_count :: "('r \<Rightarrow> bool) \<Rightarrow> 'r list \<Rightarrow> nat" where
  "sql_count P rows = length (filter P rows)"

definition sql_delete :: "('r \<Rightarrow> bool) \<Rightarrow> 'r list \<Rightarrow> 'r list" where
  "sql_delete P rows = filter (\<lambda>r. \<not> P r) rows"

definition sql_find :: "('r \<Rightarrow> bool) \<Rightarrow> 'r list \<Rightarrow> 'r option" where
  "sql_find P rows = List.find P rows"

definition sql_select :: "('r \<Rightarrow> bool) \<Rightarrow> ('r \<Rightarrow> 'k::linorder) \<Rightarrow> 'r list \<Rightarrow> 'r list" where
  "sql_select P key rows = sort_key key (filter P rows)"

definition sql_page :: "nat \<Rightarrow> nat \<Rightarrow> 'r list \<Rightarrow> 'r list" where
  "sql_page limit offset rows = take limit (drop offset rows)"

definition unique_by :: "('r \<Rightarrow> 'k) \<Rightarrow> 'r list \<Rightarrow> bool" where
  "unique_by key rows = distinct (map key rows)"

lemma map_key_sql_update [sql_simps]:
  assumes "\<And>r. r \<in> set rows \<Longrightarrow> P r \<Longrightarrow> key (f r) = key r"
  shows "map key (sql_update P f rows) = map key rows"
  using assms by (induction rows) (auto simp: sql_update_def)

lemma key_image_sql_update [sql_simps]:
  assumes "\<And>r. r \<in> set rows \<Longrightarrow> P r \<Longrightarrow> key (f r) = key r"
  shows "key ` set (sql_update P f rows) = key ` set rows"
  using map_key_sql_update [of rows P key f] assms by (metis list.set_map)

lemma unique_by_sql_update:
  assumes "\<And>r. r \<in> set rows \<Longrightarrow> P r \<Longrightarrow> key (f r) = key r"
  shows "unique_by key (sql_update P f rows) = unique_by key rows"
  using map_key_sql_update [of rows P key f] assms by (simp add: unique_by_def)

lemma unique_by_sql_delete: "unique_by key rows \<Longrightarrow> unique_by key (sql_delete P rows)"
  by (simp add: unique_by_def sql_delete_def distinct_map_filter)

lemma unique_by_snoc [simp]:
  "unique_by key (rows @ [r]) \<longleftrightarrow> unique_by key rows \<and> key r \<notin> key ` set rows"
  by (auto simp: unique_by_def)

lemma unique_by_Nil [simp]: "unique_by key []"
  by (simp add: unique_by_def)

lemma unique_byD: "unique_by key rows \<Longrightarrow> r \<in> set rows \<Longrightarrow> r' \<in> set rows \<Longrightarrow> key r = key r' \<Longrightarrow> r = r'"
  by (auto simp: unique_by_def distinct_map inj_on_def)

lemma set_sql_update [sql_simps]: "set (sql_update P f rows) = (\<lambda>r. if P r then f r else r) ` set rows"
  by (simp add: sql_update_def)

lemma bex_sql_update [sql_simps]:
  "(\<exists>r \<in> set (sql_update P f rows). Q r) \<longleftrightarrow> (\<exists>r \<in> set rows. Q (if P r then f r else r))"
  by (auto simp: sql_update_def)

lemma ball_sql_update [sql_simps]:
  "(\<forall>r \<in> set (sql_update P f rows). Q r) \<longleftrightarrow> (\<forall>r \<in> set rows. Q (if P r then f r else r))"
  by (auto simp: sql_update_def)

lemma length_sql_update [simp]: "length (sql_update P f rows) = length rows"
  by (simp add: sql_update_def)

lemma sql_update_none: "sql_count P rows = 0 \<Longrightarrow> sql_update P f rows = rows"
  by (auto simp: sql_count_def sql_update_def filter_empty_conv intro: map_idI)

lemma sql_count_eq_0: "sql_count P rows = 0 \<longleftrightarrow> (\<forall>r \<in> set rows. \<not> P r)"
  by (simp add: sql_count_def filter_empty_conv)

lemma sql_count_pos: "0 < sql_count P rows \<longleftrightarrow> (\<exists>r \<in> set rows. P r)"
  using sql_count_eq_0 [of P rows] by auto

lemma sql_count_le: "sql_count P rows \<le> length rows"
  by (simp add: sql_count_def)

lemma sql_find_Some: "sql_find P rows = Some r \<Longrightarrow> r \<in> set rows \<and> P r"
  by (auto simp: sql_find_def find_Some_iff)

lemma sql_find_None: "sql_find P rows = None \<longleftrightarrow> (\<forall>r \<in> set rows. \<not> P r)"
  by (auto simp: sql_find_def find_None_iff)

lemma sql_find_unique:
  assumes "unique_by key rows"
  shows "sql_find (\<lambda>r. key r = k) rows = Some r \<longleftrightarrow> r \<in> set rows \<and> key r = k"
proof
  assume "sql_find (\<lambda>r. key r = k) rows = Some r"
  then show "r \<in> set rows \<and> key r = k" by (rule sql_find_Some)
next
  assume r: "r \<in> set rows \<and> key r = k"
  then obtain r' where r': "sql_find (\<lambda>r. key r = k) rows = Some r'"
    using sql_find_None [of "\<lambda>r. key r = k" rows] by (cases "sql_find (\<lambda>r. key r = k) rows") auto
  with sql_find_Some [OF r'] r assms show "sql_find (\<lambda>r. key r = k) rows = Some r"
    using unique_byD by fastforce
qed

text \<open>At most one row satisfies a condition that fixes the unique key.\<close>

lemma sql_count_unique:
  assumes "unique_by key rows" and "\<And>r. P r \<Longrightarrow> key r = k"
  shows "sql_count P rows \<le> 1"
proof -
  have "distinct (map key (filter P rows))"
    using assms(1) by (simp add: unique_by_def distinct_map_filter)
  moreover have "set (map key (filter P rows)) \<subseteq> {k}" using assms(2) by auto
  ultimately have "length (map key (filter P rows)) \<le> card {k}"
    by (metis card_mono distinct_card finite.emptyI finite.insertI)
  then show ?thesis by (simp add: sql_count_def)
qed

text \<open>
  Looking a row up after an update that keeps keys: the row with that key, changed when the
  condition held of it.
\<close>

lemma sql_find_update:
  assumes "\<And>r. r \<in> set rows \<Longrightarrow> P r \<Longrightarrow> key (f r) = key r"
  shows "sql_find (\<lambda>r. key r = k) (sql_update P f rows) =
    map_option (\<lambda>r. if P r then f r else r) (sql_find (\<lambda>r. key r = k) rows)"
  using assms by (induction rows) (auto simp: sql_find_def sql_update_def)

lemma sql_find_update_other:
  assumes "\<And>r. r \<in> set rows \<Longrightarrow> P r \<Longrightarrow> key (f r) = key r" and "\<And>r. r \<in> set rows \<Longrightarrow> P r \<Longrightarrow> key r \<noteq> k"
  shows "sql_find (\<lambda>r. key r = k) (sql_update P f rows) = sql_find (\<lambda>r. key r = k) rows"
  using assms by (induction rows) (auto simp: sql_find_def sql_update_def)

lemma sql_find_map: "(\<And>r. key (f r) = key r) \<Longrightarrow> sql_find (\<lambda>r. key r = k) (map f rows) = map_option f (sql_find (\<lambda>r. key r = k) rows)"
  by (induction rows) (simp_all add: sql_find_def)

lemma sql_find_snoc:
  "sql_find P (rows @ [r]) = (case sql_find P rows of Some r' \<Rightarrow> Some r' | None \<Rightarrow> if P r then Some r else None)"
  by (induction rows) (auto simp: sql_find_def)

lemma set_sql_select [simp]: "set (sql_select P key rows) = {r \<in> set rows. P r}"
  by (simp add: sql_select_def)

lemma length_sql_select [simp]: "length (sql_select P key rows) = sql_count P rows"
  by (simp add: sql_select_def sql_count_def)

lemma sorted_sql_select: "sorted (map key (sql_select P key rows))"
  by (simp add: sql_select_def)

lemma unique_by_filter: "unique_by key rows \<Longrightarrow> unique_by key (filter P rows)"
  by (simp add: unique_by_def distinct_map_filter)

lemma mset_sql_select: "distinct rows \<Longrightarrow> distinct (sql_select P key rows)"
  by (simp add: sql_select_def)

lemma unique_by_distinct: "unique_by key rows \<Longrightarrow> distinct rows"
  by (simp add: unique_by_def distinct_map)

lemma unique_by_sql_select:
  assumes "unique_by key rows"
  shows "unique_by key (sql_select P ord rows)"
proof -
  have "distinct (sql_select P ord rows)"
    using assms by (simp add: mset_sql_select unique_by_distinct)
  moreover have "inj_on key (set (sql_select P ord rows))"
    using assms by (auto simp: unique_by_def distinct_map intro: inj_on_subset)
  ultimately show ?thesis by (simp add: unique_by_def distinct_map)
qed

lemma unique_by_take: "unique_by key rows \<Longrightarrow> unique_by key (take n rows)"
  by (metis append_take_drop_id distinct_append map_append unique_by_def)

lemma sql_select_conj: "sql_select (\<lambda>r. P r \<and> Q r) key rows = filter Q (sql_select P key rows)"
  by (simp add: sql_select_def filter_sort conj_commute)

lemma filter_after_last:
  assumes "sorted (map key (xs @ ys))" and "distinct (map key (xs @ ys))" and "xs \<noteq> []"
  shows "filter (\<lambda>r. key (last xs) < key r) (xs @ ys) = ys"
proof -
  have below: "\<not> key (last xs) < key x" if "x \<in> set xs" for x
  proof -
    obtain i where i: "i < length xs" "x = xs ! i" using \<open>x \<in> set xs\<close> by (metis in_set_conv_nth)
    have "map key xs ! i \<le> map key xs ! (length xs - 1)"
      using assms(1) i(1) by (intro sorted_nth_mono) (auto simp: sorted_append)
    then show ?thesis using i assms(3) by (simp add: last_conv_nth not_less)
  qed
  have above: "key (last xs) < key y" if "y \<in> set ys" for y
  proof -
    have "key (last xs) \<le> key y" using assms(1,3) \<open>y \<in> set ys\<close> by (auto simp: sorted_append)
    moreover have "key (last xs) \<noteq> key y" using assms(2,3) \<open>y \<in> set ys\<close> by (metis IntI distinct_append empty_iff image_eqI last_in_set list.set_map map_append)
    ultimately show ?thesis by simp
  qed
  show ?thesis using below above by simp
qed

lemma take_then_drop: "xs = take n L \<Longrightarrow> L = xs @ drop (length xs) L"
  by (cases "length L \<le> n") simp_all

lemma sql_find_delete:
  assumes "unique_by key rows"
  shows "sql_find (\<lambda>r. key r = k) (sql_delete P rows) =
    (case sql_find (\<lambda>r. key r = k) rows of None \<Rightarrow> None | Some r \<Rightarrow> if P r then None else Some r)"
proof (cases "sql_find (\<lambda>r. key r = k) rows")
  case None
  then have "sql_find (\<lambda>r. key r = k) (sql_delete P rows) = None" by (auto simp: sql_find_None sql_delete_def)
  with None show ?thesis by simp
next
  case (Some r)
  then have r: "r \<in> set rows" "key r = k" by (auto dest: sql_find_Some)
  show ?thesis
  proof (cases "P r")
    case True
    then have "\<forall>q \<in> set (sql_delete P rows). key q \<noteq> k" using r unique_byD [OF assms] by (auto simp: sql_delete_def)
    with True Some show ?thesis by (simp add: sql_find_None)
  next
    case False
    with r have "sql_find (\<lambda>r. key r = k) (sql_delete P rows) = Some r"
      unfolding sql_find_unique [OF unique_by_sql_delete [OF assms]] by (simp add: sql_delete_def)
    with False Some show ?thesis by simp
  qed
qed

end
