(* ===== verification/Machines.thy ===== *)
theory Machines
  imports Prelude
begin

text \<open>
  Runs of a labelled step relation and the interface locales that lift one-step facts to runs:
  invariants, status machines with absorbing terminal states, and stores whose entities move
  along such a machine.
\<close>

inductive run :: "('s \<Rightarrow> 'e \<Rightarrow> 's \<Rightarrow> bool) \<Rightarrow> 's \<Rightarrow> 'e list \<Rightarrow> 's \<Rightarrow> bool"
  for step :: "'s \<Rightarrow> 'e \<Rightarrow> 's \<Rightarrow> bool" where
  run_nil: "run step s [] s"
| run_cons: "step s e s1 \<Longrightarrow> run step s1 es s2 \<Longrightarrow> run step s (e # es) s2"

inductive_cases run_nilE: "run step s [] s'"
inductive_cases run_consE: "run step s (e # es) s'"

lemma run_append: "run step s es s1 \<Longrightarrow> run step s1 fs s2 \<Longrightarrow> run step s (es @ fs) s2"
  by (induction rule: run.induct) (auto intro: run.intros)

lemma run_single: "step s e s' \<Longrightarrow> run step s [e] s'"
  by (auto intro: run.intros)

locale invariant_system =
  fixes step :: "'s \<Rightarrow> 'e \<Rightarrow> 's \<Rightarrow> bool" and inv :: "'s \<Rightarrow> bool"
  assumes step_inv: "inv s \<Longrightarrow> step s e s' \<Longrightarrow> inv s'"
begin

lemma run_inv: "run step s es s' \<Longrightarrow> inv s \<Longrightarrow> inv s'"
  by (induction rule: run.induct) (auto intro: step_inv)

text \<open>A fact that every step keeps under the invariant, for the labels of the run.\<close>

lemma run_keeps:
  assumes "run step s es s'" and "inv s" and "P s"
    and "\<And>s e s'. e \<in> set es \<Longrightarrow> inv s \<Longrightarrow> P s \<Longrightarrow> step s e s' \<Longrightarrow> P s'"
  shows "P s'"
  using assms
proof (induction rule: run.induct)
  case (run_nil s)
  then show ?case by simp
next
  case (run_cons s e s1 es s2)
  have "P s1" using run_cons.hyps(1) run_cons.prems by (meson list.set_intros(1))
  moreover have "inv s1" using run_cons.hyps(1) run_cons.prems(1) step_inv by blast
  ultimately show ?case using run_cons.IH run_cons.prems(3) by (meson list.set_intros(2))
qed

text \<open>A numeric or other reflexive and transitive relation that every step respects.\<close>

lemma run_relates:
  assumes "run step s es s'" and "inv s"
    and refl: "\<And>s. R s s" and trans: "\<And>a b c. R a b \<Longrightarrow> R b c \<Longrightarrow> R a c"
    and step: "\<And>s e s'. inv s \<Longrightarrow> step s e s' \<Longrightarrow> R s s'"
  shows "R s s'"
  using assms(1,2)
proof (induction rule: run.induct)
  case (run_nil s)
  show ?case by (rule refl)
next
  case (run_cons s e s1 es s2)
  then show ?case by (meson step step_inv trans)
qed

end

locale status_machine =
  fixes can :: "'st \<Rightarrow> 'st \<Rightarrow> bool" and terminal :: "'st \<Rightarrow> bool"
  assumes can_refl: "can x x"
    and terminal_final: "terminal x \<Longrightarrow> can x y \<Longrightarrow> y = x"
begin

lemma terminal_chain: "can\<^sup>*\<^sup>* x y \<Longrightarrow> terminal x \<Longrightarrow> y = x"
  by (induction rule: rtranclp_induct) (auto dest: terminal_final)

end

text \<open>
  A store of entities with a status each: entities never disappear and every step moves each of
  them along the machine. Terminal entities then keep their status over every run.
\<close>

locale status_store = invariant_system step inv + status_machine can terminal
  for step :: "'s \<Rightarrow> 'e \<Rightarrow> 's \<Rightarrow> bool" and inv :: "'s \<Rightarrow> bool"
    and can :: "'st \<Rightarrow> 'st \<Rightarrow> bool" and terminal :: "'st \<Rightarrow> bool" +
  fixes status_of :: "'s \<Rightarrow> 'id \<Rightarrow> 'st option"
  assumes step_status: "inv s \<Longrightarrow> step s e s' \<Longrightarrow> status_of s i = Some x \<Longrightarrow>
    \<exists>y. status_of s' i = Some y \<and> can x y"
begin

lemma run_status:
  "run step s es s' \<Longrightarrow> inv s \<Longrightarrow> status_of s i = Some x \<Longrightarrow>
    \<exists>y. status_of s' i = Some y \<and> can\<^sup>*\<^sup>* x y"
proof (induction arbitrary: x rule: run.induct)
  case (run_nil s)
  then show ?case by auto
next
  case (run_cons s e s1 es s2)
  then obtain z where z: "status_of s1 i = Some z" "can x z" using step_status by blast
  moreover have "inv s1" using run_cons step_inv by blast
  ultimately obtain y where "status_of s2 i = Some y" "can\<^sup>*\<^sup>* z y" using run_cons.IH by blast
  with z show ?case by (meson converse_rtranclp_into_rtranclp)
qed

lemma run_terminal:
  "run step s es s' \<Longrightarrow> inv s \<Longrightarrow> status_of s i = Some x \<Longrightarrow> terminal x \<Longrightarrow> status_of s' i = Some x"
  using run_status terminal_chain by blast

end

text \<open>
  A store of exclusive leases: an entity has at most one holder, and a token becomes a holder only
  by an operation that mints it. A token that is not the holder stays so until it is minted.
\<close>

locale lease_store = invariant_system step inv
  for step :: "'s \<Rightarrow> 'e \<Rightarrow> 's \<Rightarrow> bool" and inv :: "'s \<Rightarrow> bool" +
  fixes holder :: "'s \<Rightarrow> 'id \<Rightarrow> 'tok option" and mints :: "'e \<Rightarrow> 'id \<Rightarrow> 'tok \<Rightarrow> bool"
  assumes step_holder: "inv s \<Longrightarrow> step s e s' \<Longrightarrow> holder s' i = Some t \<Longrightarrow> holder s i = Some t \<or> mints e i t"
begin

lemma run_not_holder:
  assumes "run step s es s'" and "inv s" and "holder s i \<noteq> Some t" and "\<And>e. e \<in> set es \<Longrightarrow> \<not> mints e i t"
  shows "holder s' i \<noteq> Some t"
  using assms(1-3) by (rule run_keeps) (use assms(4) step_holder in blast)

end

section \<open>Threads\<close>

text \<open>
  A fixed family of threads is the list of the phases they are in; the counters a program keeps of
  its threads are compared with the number of threads in a phase.
\<close>

lemma count_list_update:
  assumes "i < length xs"
  shows "count_list (xs[i := v]) q + (if xs ! i = q then 1 else 0) =
    count_list xs q + (if v = q then 1 else 0)"
  using assms
proof (induction xs arbitrary: i)
  case (Cons x xs)
  show ?case
  proof (cases i)
    case (Suc j)
    then show ?thesis using Cons.IH [of j] Cons.prems by auto
  qed simp
qed simp

lemma count_list_pos: "i < length xs \<Longrightarrow> xs ! i = q \<Longrightarrow> 0 < count_list xs q"
  by (metis count_list_0_iff gr0I nth_mem)

lemma count_list_pos_nth: "0 < count_list xs q \<Longrightarrow> \<exists>i < length xs. xs ! i = q"
  by (metis count_list_0_iff in_set_conv_nth less_irrefl)

lemma count_list_replicate [simp]: "count_list (replicate n x) q = (if x = q then n else 0)"
  by (induction n) auto

lemma count_list_le_length: "count_list xs q \<le> length xs"
  by (induction xs) auto

end
