(* ===== verification/Float64.thy ===== *)
theory Float64
  imports Prelude Complex_Main "HOL-Library.Log_Nat"
begin

text \<open>
  The part of Rust's \<open>f64\<close> the retry backoff computes with: IEEE 754 binary64 values as a sign and
  a rational or infinite magnitude, rounding to nearest with ties to even, multiplication,
  reciprocal, \<open>powi\<close> by repeated squaring, \<open>min\<close>, and the saturating cast to \<open>u64\<close>.
\<close>

datatype magnitude = Fin rat | Inf

datatype f64 = NaN | Num (f64_neg: bool) (f64_mag: magnitude)

definition pow2 :: "int \<Rightarrow> rat" where
  "pow2 e = (if 0 \<le> e then 2 ^ nat e else 1 / 2 ^ nat (- e))"

definition ilog2 :: "rat \<Rightarrow> int" where
  "ilog2 q = (let (a, b) = quotient_of q;
                  e = int (floorlog 2 (nat a)) - int (floorlog 2 (nat b))
              in if pow2 e \<le> q then e else e - 1)"

definition round_half_even :: "rat \<Rightarrow> int" where
  "round_half_even x = (let f = \<lfloor>x\<rfloor>; d = x - of_int f in
     if d < 1 / 2 then f else if 1 / 2 < d then f + 1 else if even f then f else f + 1)"

definition round_f64 :: "rat \<Rightarrow> magnitude" where
  "round_f64 q = (if q = 0 then Fin 0 else
     let u = max (ilog2 q - 52) (- 1074);
         r = of_int (round_half_even (q / pow2 u)) * pow2 u
     in if 2 ^ 1024 \<le> r then Inf else Fin r)"

definition f64_of_nat :: "nat \<Rightarrow> f64" where
  "f64_of_nat n = Num False (round_f64 (of_nat n))"

fun f64_mul :: "f64 \<Rightarrow> f64 \<Rightarrow> f64" where
  "f64_mul (Num s (Fin x)) (Num t (Fin y)) = Num (s \<noteq> t) (round_f64 (x * y))"
| "f64_mul (Num s Inf) (Num t (Fin y)) = (if y = 0 then NaN else Num (s \<noteq> t) Inf)"
| "f64_mul (Num s (Fin x)) (Num t Inf) = (if x = 0 then NaN else Num (s \<noteq> t) Inf)"
| "f64_mul (Num s Inf) (Num t Inf) = Num (s \<noteq> t) Inf"
| "f64_mul _ _ = NaN"

fun f64_recip :: "f64 \<Rightarrow> f64" where
  "f64_recip (Num s (Fin x)) = Num s (if x = 0 then Inf else round_f64 (1 / x))"
| "f64_recip (Num s Inf) = Num s (Fin 0)"
| "f64_recip NaN = NaN"

function powi_loop :: "f64 \<Rightarrow> f64 \<Rightarrow> nat \<Rightarrow> f64" where
  "powi_loop r a n = (let r' = (if odd n then f64_mul r a else r) in
     if n div 2 = 0 then r' else powi_loop r' (f64_mul a a) (n div 2))"
  by auto
termination
  by (relation "measure (\<lambda>(r, a, n). n)") auto

declare powi_loop.simps [simp del]

definition f64_powi :: "f64 \<Rightarrow> int \<Rightarrow> f64" where
  "f64_powi a n = (let r = powi_loop (Num False (Fin 1)) a (nat \<bar>n\<bar>) in
     if n < 0 then f64_recip r else r)"

fun f64_is_finite :: "f64 \<Rightarrow> bool" where
  "f64_is_finite (Num _ (Fin _)) = True"
| "f64_is_finite _ = False"

fun f64_is_sign_negative :: "f64 \<Rightarrow> bool" where
  "f64_is_sign_negative (Num s _) = s"
| "f64_is_sign_negative NaN = False"

fun mag_less :: "magnitude \<Rightarrow> magnitude \<Rightarrow> bool" where
  "mag_less (Fin x) (Fin y) = (x < y)"
| "mag_less (Fin _) Inf = True"
| "mag_less Inf _ = False"

fun f64_less :: "f64 \<Rightarrow> f64 \<Rightarrow> bool" where
  "f64_less (Num False a) (Num False b) = mag_less a b"
| "f64_less (Num True a) (Num True b) = mag_less b a"
| "f64_less (Num True a) (Num False b) = (a \<noteq> Fin 0 \<or> b \<noteq> Fin 0)"
| "f64_less (Num False a) (Num True b) = False"
| "f64_less _ _ = False"

fun f64_min :: "f64 \<Rightarrow> f64 \<Rightarrow> f64" where
  "f64_min NaN y = y"
| "f64_min x NaN = x"
| "f64_min x y = (if f64_less y x then y else x)"

fun f64_to_u64 :: "f64 \<Rightarrow> nat" where
  "f64_to_u64 (Num False (Fin x)) = min u64_max (nat \<lfloor>x\<rfloor>)"
| "f64_to_u64 (Num False Inf) = u64_max"
| "f64_to_u64 _ = 0"

text \<open>Every integer up to \<open>2 ^ 53\<close> is a binary64 value.\<close>

lemma round_half_even_of_int [simp]: "round_half_even (of_int k) = k"
  by (simp add: round_half_even_def Let_def)

lemma pow2_pos: "0 < pow2 e"
  by (simp add: pow2_def)

lemma floorlog_le: "n < 2 ^ k \<Longrightarrow> floorlog 2 n \<le> k"
  by (rule floorlog_leI) auto

lemma quotient_of_nat: "quotient_of (of_nat n) = (int n, 1)"
  by (simp add: of_nat_rat quotient_of_Fract Rat.normalize_def)

lemma ilog2_of_nat_le:
  assumes "n < 2 ^ 53"
  shows "ilog2 (of_nat n) \<le> 52"
proof -
  have "floorlog 2 n \<le> 53" using assms by (rule floorlog_le)
  moreover have "floorlog 2 1 = 1" by (simp add: floorlog_def)
  ultimately show ?thesis by (auto simp: ilog2_def quotient_of_nat Let_def)
qed

lemma round_f64_below:
  assumes "n < 2 ^ 53"
  shows "round_f64 (of_nat n) = Fin (of_nat n)"
proof (cases "n = 0")
  case False
  define u where "u = max (ilog2 (of_nat n) - 52) (- 1074)"
  have u: "u \<le> 0" using ilog2_of_nat_le [OF assms] by (simp add: u_def)
  then have "(of_nat n :: rat) / pow2 u = of_int (int n * 2 ^ nat (- u))"
    by (auto simp: pow2_def)
  then have "of_int (round_half_even (of_nat n / pow2 u)) * pow2 u = (of_nat n :: rat)"
    using round_half_even_of_int [of "int n * 2 ^ nat (- u)"] u by (auto simp: pow2_def)
  moreover have "(of_nat n :: rat) < 2 ^ 1024"
  proof -
    have "(of_nat n :: rat) < 2 ^ 53" using assms by (metis of_nat_less_iff of_nat_numeral of_nat_power)
    also have "\<dots> \<le> (2::rat) ^ 1024" by (rule power_increasing) auto
    finally show ?thesis .
  qed
  ultimately show ?thesis using False by (simp add: round_f64_def u_def [symmetric] Let_def)
qed (simp add: round_f64_def)

lemma pow2_numeral [simp]: "pow2 (numeral k) = 2 ^ numeral k" "pow2 0 = 1" "pow2 1 = 2"
  by (simp_all add: pow2_def)

lemma round_f64_of_nat:
  assumes "n \<le> 2 ^ 53"
  shows "round_f64 (of_nat n) = Fin (of_nat n)"
proof (cases "n = 2 ^ 53")
  case True
  have one: "floorlog 2 (Suc 0) = Suc 0" by (simp add: floorlog_def)
  have "floorlog 2 (1 * 2 ^ 53) = 54" by (subst floorlog_power) (simp_all add: one)
  then have "ilog2 (2 ^ 53) = 53"
    using quotient_of_nat [of "2 ^ 53"] one by (simp add: ilog2_def)
  then have "round_f64 (2 ^ 53) = Fin (2 ^ 53)"
    using round_half_even_of_int [of "2 ^ 52"] by (simp add: round_f64_def Let_def)
  then show ?thesis using True by simp
next
  case False
  then show ?thesis using assms by (intro round_f64_below) simp
qed

end
