(* ===== verification/Reliability.thy ===== *)
theory Reliability
  imports Machines Float64
begin

text \<open>
  The reliability contract of the core (\<open>core/src/session/reliability.rs\<close>): the runtime job and
  dead letter status machines, the retry backoff with its deterministic jitter, the lease reclaim
  budget, and the records and requests that the store ports exchange.
\<close>

unbundle bit_operations_syntax

section \<open>Job identity and status\<close>

abbreviation AGENT_RUN_LIFECYCLE_JOB_KIND :: string where
  "AGENT_RUN_LIFECYCLE_JOB_KIND \<equiv> ''agent_run.lifecycle''"

definition RUNTIME_JOB_TERMINAL_EVENT :: string where
  "RUNTIME_JOB_TERMINAL_EVENT = ''runtime_job.terminal''"

definition agent_run_id_byte :: "char \<Rightarrow> bool" where
  "agent_run_id_byte c \<longleftrightarrow> is_ascii_alphanumeric c \<or> c \<in> {CHR ''_'', CHR ''-'', CHR ''.''}"

definition agent_run_lifecycle_job_id :: "string \<Rightarrow> string result" where
  "agent_run_lifecycle_job_id agent_run_id =
     (let agent_run_id = trim agent_run_id in
      if agent_run_id = [] \<or> 128 < length agent_run_id \<or> \<not> list_all agent_run_id_byte agent_run_id
      then Err ''agent_run_lifecycle_agent_run_id_invalid''
      else Ok (''agent_run.lifecycle:'' @ agent_run_id))"

datatype RuntimeJobStatus =
  Queued | Leased | Running | Succeeded | Failed | DeadLettered | Cancelled

definition is_terminal :: "RuntimeJobStatus \<Rightarrow> bool" where
  "is_terminal s \<longleftrightarrow> s \<in> {Succeeded, Failed, DeadLettered, Cancelled}"

definition can_transition_to :: "RuntimeJobStatus \<Rightarrow> RuntimeJobStatus \<Rightarrow> bool" where
  "can_transition_to s n \<longleftrightarrow>
     (s, n) \<in> {(Queued, Leased), (Queued, Cancelled),
               (Leased, Running), (Leased, Queued), (Leased, Succeeded), (Leased, Failed),
               (Leased, DeadLettered), (Leased, Cancelled),
               (Running, Queued), (Running, Succeeded), (Running, Failed),
               (Running, DeadLettered), (Running, Cancelled)} \<or> s = n"

interpretation job_status: status_machine can_transition_to is_terminal
  by unfold_locales (auto simp: can_transition_to_def is_terminal_def)

section \<open>Retry backoff\<close>

record RuntimeBackoffPolicy =
  base_delay_ms :: nat
  max_delay_ms :: nat
  multiplier :: f64
  jitter_ms :: nat

definition default_backoff_policy :: RuntimeBackoffPolicy where
  "default_backoff_policy = \<lparr>base_delay_ms = 2000, max_delay_ms = 60000,
     multiplier = Num False (Fin 2), jitter_ms = 250\<rparr>"

definition u32_as_i32 :: "nat \<Rightarrow> int" where
  "u32_as_i32 n = (if n < 2 ^ 31 then int n else int n - 2 ^ 32)"

definition retry_backoff_ms :: "RuntimeBackoffPolicy \<Rightarrow> nat \<Rightarrow> nat" where
  "retry_backoff_ms policy attempt =
     (let safe_attempt = max attempt 1;
          exponent = safe_attempt - 1;
          backoff = f64_mul (f64_of_nat (base_delay_ms policy))
                            (f64_powi (multiplier policy) (u32_as_i32 exponent));
          backoff = (if \<not> f64_is_finite backoff \<or> f64_is_sign_negative backoff
                     then f64_of_nat (max_delay_ms policy) else backoff)
      in f64_to_u64 (f64_min backoff (f64_of_nat (max_delay_ms policy))))"

definition fnv_step :: "64 word \<Rightarrow> char \<Rightarrow> 64 word" where
  "fnv_step hash byte = (hash XOR of_nat (of_char byte)) * 1099511628211"

definition retry_jitter_ms :: "RuntimeBackoffPolicy \<Rightarrow> nat \<Rightarrow> string \<Rightarrow> int \<Rightarrow> nat" where
  "retry_jitter_ms policy attempt job now_ms =
     (if jitter_ms policy = 0 then 0 else
      let hash = foldl fnv_step 1469598103934665603 job;
          hash = hash XOR of_nat (max attempt 1);
          hash = hash XOR of_int now_ms
      in unat hash mod u64_saturating_add (jitter_ms policy) 1)"

definition runtime_job_retry_delay_ms :: "RuntimeBackoffPolicy \<Rightarrow> nat \<Rightarrow> string \<Rightarrow> int \<Rightarrow> int" where
  "runtime_job_retry_delay_ms policy attempt job now_ms =
     (let capped = retry_backoff_ms policy attempt;
          jitter = retry_jitter_ms policy attempt job now_ms;
          total = u64_saturating_add capped jitter
      in if int total \<le> i64_max then int total else i64_max)"

lemma retry_jitter_le: "retry_jitter_ms policy attempt job now_ms \<le> jitter_ms policy"
proof (cases "jitter_ms policy = 0")
  case False
  then have "u64_saturating_add (jitter_ms policy) 1 > 0"
    and "u64_saturating_add (jitter_ms policy) 1 \<le> Suc (jitter_ms policy)"
    by (auto simp: u64_saturating_add_def u64_max_def)
  then show ?thesis
    using False by (auto simp: retry_jitter_ms_def Let_def intro: less_Suc_eq_le [THEN iffD1]
        order.strict_trans2 [OF mod_less_divisor])
qed (simp add: retry_jitter_ms_def)

lemma f64_min_to_u64_le:
  assumes "f64_is_finite x" and "\<not> f64_is_sign_negative x" and "n \<le> 2 ^ 53"
  shows "f64_to_u64 (f64_min x (f64_of_nat n)) \<le> n"
proof -
  obtain q where x: "x = Num False (Fin q)"
    using assms(1,2) by (cases x rule: f64_is_finite.cases) auto
  show ?thesis
  proof (cases "rat_of_nat n < q")
    case True
    then show ?thesis using assms(3) x by (simp add: f64_of_nat_def round_f64_of_nat)
  next
    case False
    then have "nat \<lfloor>q\<rfloor> \<le> n" by (metis floor_of_nat floor_mono linorder_not_less nat_int nat_mono)
    with False show ?thesis using assms(3) x by (simp add: f64_of_nat_def round_f64_of_nat)
  qed
qed

lemma retry_backoff_le:
  assumes "max_delay_ms policy \<le> 2 ^ 53"
  shows "retry_backoff_ms policy attempt \<le> max_delay_ms policy"
proof -
  have "f64_is_finite (f64_of_nat (max_delay_ms policy))"
    and "\<not> f64_is_sign_negative (f64_of_nat (max_delay_ms policy))"
    using round_f64_of_nat [OF assms] by (simp_all add: f64_of_nat_def)
  then show ?thesis
    using f64_min_to_u64_le [OF _ _ assms] by (simp add: retry_backoff_ms_def Let_def)
qed

text \<open>
  C4: For a policy whose maximum delay is at most 2^53 ms, a retry delay is never negative, never
  exceeds the policy's maximum delay by more than the policy's jitter, and fits a 64-bit timestamp,
  whatever the multiplier (negative, infinite and NaN included), the attempt number, the job and the
  clock. The maximum passes through a binary64 number, which holds every integer up to 2^53 exactly; a
  larger one may be rounded up, and the delay with it.
\<close>

theorem retry_delay_bounded:
  assumes "max_delay_ms policy \<le> 2 ^ 53"
  shows "0 \<le> runtime_job_retry_delay_ms policy attempt job now_ms \<and>
    runtime_job_retry_delay_ms policy attempt job now_ms \<le> int (max_delay_ms policy) + int (jitter_ms policy) \<and>
    runtime_job_retry_delay_ms policy attempt job now_ms \<le> i64_max"
  using retry_backoff_le [OF assms, of attempt] retry_jitter_le [of policy attempt job now_ms]
  by (auto simp: runtime_job_retry_delay_ms_def Let_def u64_saturating_add_def i64_max_def)

theorem retry_delay_bounded_witness:
  "0 \<le> runtime_job_retry_delay_ms \<lparr>base_delay_ms = 1, max_delay_ms = 10, multiplier = NaN, jitter_ms = 5\<rparr> 9 ''j'' 7 \<and>
   runtime_job_retry_delay_ms \<lparr>base_delay_ms = 1, max_delay_ms = 10, multiplier = NaN, jitter_ms = 5\<rparr> 9 ''j'' 7 \<le> 15"
  using retry_delay_bounded
    [of "\<lparr>base_delay_ms = 1, max_delay_ms = 10, multiplier = NaN, jitter_ms = 5\<rparr>" 9 "''j''" 7] by simp

section \<open>Default policy\<close>

lemma round_f64_numeral [simp]:
  "numeral k \<le> (2 ^ 53 :: nat) \<Longrightarrow> round_f64 (numeral k) = Fin (numeral k)"
  using round_f64_of_nat [of "numeral k"] by simp

lemma round_f64_one [simp]: "round_f64 1 = Fin 1"
  using round_f64_of_nat [of 1] by simp

lemma powi_loop_eval:
  "powi_loop r a 0 = r"
  "powi_loop r a (Suc 0) = f64_mul r a"
  "2 \<le> n \<Longrightarrow> powi_loop r a n =
     powi_loop (if odd n then f64_mul r a else r) (f64_mul a a) (n div 2)"
  using powi_loop.simps [of r a 0] powi_loop.simps [of r a "Suc 0"] powi_loop.simps [of r a n]
  by (simp_all add: Let_def div_eq_0_iff)

lemma default_backoff_doubles:
  assumes "1 \<le> attempt" and "attempt \<le> 6"
  shows "retry_backoff_ms default_backoff_policy attempt = min 60000 (2000 * 2 ^ (attempt - 1))"
proof -
  have "attempt \<in> {1, 2, 3, 4, 5, 6}" using assms by auto
  then show ?thesis
    by (auto simp: retry_backoff_ms_def default_backoff_policy_def f64_of_nat_def f64_powi_def
        u32_as_i32_def powi_loop_eval u64_max_def)
qed

lemma retry_delay_small:
  assumes "retry_backoff_ms policy attempt = c" and "c \<le> 2 ^ 53" and "jitter_ms policy \<le> 2 ^ 53"
  shows "int c \<le> runtime_job_retry_delay_ms policy attempt job now_ms"
    and "runtime_job_retry_delay_ms policy attempt job now_ms \<le> int c + int (jitter_ms policy)"
  using assms retry_jitter_le [of policy attempt job now_ms]
  by (simp_all add: runtime_job_retry_delay_ms_def Let_def u64_saturating_add_def u64_max_def i64_max_def)

lemma default_delay_range:
  assumes "1 \<le> attempt" and "attempt \<le> 6"
  shows "int (min 60000 (2000 * 2 ^ (attempt - 1))) \<le> runtime_job_retry_delay_ms default_backoff_policy attempt job now_ms"
    and "runtime_job_retry_delay_ms default_backoff_policy attempt job now_ms
       \<le> int (min 60000 (2000 * 2 ^ (attempt - 1))) + 250"
  using retry_delay_small [OF default_backoff_doubles [OF assms]]
  by (simp_all add: default_backoff_policy_def)

text \<open>
  Under the default policy the delays of the first six attempts double from two seconds until
  the one minute cap, and the jitter never reorders them: each attempt waits strictly longer than
  the one before it, for any pair of jobs and clock readings.
\<close>

theorem default_backoff_strictly_increasing:
  assumes "1 \<le> attempt" and "attempt \<le> 5"
  shows "2000 * 2 ^ (attempt - 1) \<le> runtime_job_retry_delay_ms default_backoff_policy attempt job now_ms \<and>
    runtime_job_retry_delay_ms default_backoff_policy attempt job now_ms
      < runtime_job_retry_delay_ms default_backoff_policy (Suc attempt) job' now_ms'"
proof -
  have "attempt \<in> {1, 2, 3, 4, 5}" using assms by auto
  then show ?thesis
    using default_delay_range [of attempt job now_ms] default_delay_range [of "Suc attempt" job' now_ms'] by auto
qed

theorem default_backoff_strictly_increasing_witness:
  "4000 \<le> runtime_job_retry_delay_ms default_backoff_policy 2 ''job-a'' 100 \<and>
   runtime_job_retry_delay_ms default_backoff_policy 2 ''job-a'' 100
     < runtime_job_retry_delay_ms default_backoff_policy 3 ''job-b'' 5"
  using default_backoff_strictly_increasing [of 2 "''job-a''" 100 "''job-b''" 5] by simp

section \<open>Lease reclaim budget\<close>

abbreviation RUNTIME_JOB_LEASE_RECLAIM_BATCH_LIMIT :: nat where
  "RUNTIME_JOB_LEASE_RECLAIM_BATCH_LIMIT \<equiv> 100"

record RuntimeJobLeaseReclaimPolicy =
  max_reclaims :: nat
  backoff :: RuntimeBackoffPolicy

definition default_lease_reclaim_policy :: RuntimeJobLeaseReclaimPolicy where
  "default_lease_reclaim_policy = \<lparr>max_reclaims = 3, backoff = default_backoff_policy\<rparr>"

record RuntimeJobLeaseReclaimDecision =
  reclaim_count :: nat
  decision_status :: RuntimeJobStatus
  not_before_ms :: int
  reason :: string

definition decide :: "RuntimeJobLeaseReclaimPolicy \<Rightarrow> string \<Rightarrow> nat \<Rightarrow> RuntimeJobStatus \<Rightarrow> int \<Rightarrow>
    RuntimeJobLeaseReclaimDecision result" where
  "decide policy job previous_reclaim_count prior_status now_ms =
     res_bind (ensure (prior_status \<in> {Leased, Running})
       ''only leased or running jobs can consume the lease reclaim budget'') (\<lambda>_.
     res_bind (ok_or ''lease reclaim count overflow'' (u32_checked_add previous_reclaim_count 1)) (\<lambda>reclaim_count.
     let exhausted = max_reclaims policy < reclaim_count;
         delay_ms = (if exhausted then 0
                     else runtime_job_retry_delay_ms (backoff policy) reclaim_count job now_ms) in
     res_bind (ok_or ''lease reclaim deadline overflow'' (i64_checked_add now_ms delay_ms)) (\<lambda>not_before.
     Ok \<lparr>reclaim_count = reclaim_count,
         decision_status = (if exhausted then DeadLettered else Queued),
         not_before_ms = not_before,
         reason = (if exhausted then ''lease_reclaim_budget_exhausted''
                   else if prior_status = Running then ''worker_crashed_reclaimed''
                   else ''lease_expired_reclaimed'')\<rparr>)))"

lemma decide_Ok_iff:
  "decide policy job n st now = Ok d \<longleftrightarrow>
     st \<in> {Leased, Running} \<and> Suc n \<le> u32_max \<and>
     i64_min \<le> not_before_ms d \<and> not_before_ms d \<le> i64_max \<and>
     d = \<lparr>reclaim_count = Suc n,
          decision_status = (if max_reclaims policy \<le> n then DeadLettered else Queued),
          not_before_ms = (if max_reclaims policy \<le> n then now
            else now + runtime_job_retry_delay_ms (backoff policy) (Suc n) job now),
          reason = (if max_reclaims policy \<le> n then ''lease_reclaim_budget_exhausted''
                    else if st = Running then ''worker_crashed_reclaimed'' else ''lease_expired_reclaimed'')\<rparr>"
  by (auto simp: decide_def Let_def result_simps u32_checked_add_def i64_checked_add_def
      less_Suc_eq_le split: option.splits if_splits)

text \<open>
  Under the default reclaim policy a decision raises the reclaim count by one; the job goes
  back to the queue exactly while fewer than three reclaims were spent, and then not before two
  seconds, doubled per earlier reclaim, have passed; otherwise it is dead lettered at once. Both
  moves are transitions the status machine allows.
\<close>

theorem reclaim_budget_decision:
  assumes "decide default_lease_reclaim_policy job n st now = Ok d"
  shows "reclaim_count d = n + 1 \<and>
    decision_status d = (if n < 3 then Queued else DeadLettered) \<and>
    (if n < 3 then now + 2000 * 2 ^ n \<le> not_before_ms d \<and> not_before_ms d \<le> now + 2000 * 2 ^ n + 250
     else not_before_ms d = now) \<and>
    can_transition_to st (decision_status d)"
proof (cases "n < 3")
  case True
  then have "n \<in> {0, 1, 2}" by auto
  then show ?thesis
    using assms True default_delay_range [of "Suc n" job now]
    by (auto simp: decide_Ok_iff default_lease_reclaim_policy_def can_transition_to_def)
next
  case False
  then show ?thesis
    using assms by (auto simp: decide_Ok_iff default_lease_reclaim_policy_def can_transition_to_def)
qed

theorem reclaim_budget_decision_witness:
  "\<exists>d. decide default_lease_reclaim_policy ''crashed-job'' 3 Running 100 = Ok d \<and>
     decision_status d = DeadLettered \<and> reclaim_count d = 4 \<and> not_before_ms d = 100"
proof -
  let ?d = "\<lparr>reclaim_count = 4, decision_status = DeadLettered, not_before_ms = 100,
    reason = ''lease_reclaim_budget_exhausted''\<rparr>"
  have d: "decide default_lease_reclaim_policy ''crashed-job'' 3 Running 100 = Ok ?d"
    by (simp add: decide_Ok_iff default_lease_reclaim_policy_def u32_max_def i64_min_def i64_max_def)
  with reclaim_budget_decision [OF d] show ?thesis by auto
qed

end
