(* ===== verification/RuntimeDb.thy ===== *)
theory RuntimeDb
  imports Sql Reliability
begin

text \<open>
  The records of the reliability ports (\<open>core/src/session/reliability.rs\<close>), the rows of the tables
  they are kept in (\<open>runtime_sqlite/src/sqlite_store/sqlite_schema.rs\<close>) and the database as the
  record of its tables. A text column that holds rendered JSON is represented by the JSON value it
  renders, a status column by the status it names; the reading and writing of the status text is
  given and shown to round trip.
\<close>

section \<open>Jobs\<close>

record RuntimeJobRecord =
  job_id :: string
  job_kind :: string
  status :: RuntimeJobStatus
  run_at_ms :: int
  lease_owner :: "string option"
  lease_expires_at_ms :: "int option"
  heartbeat_at_ms :: "int option"
  retry_count :: nat
  max_retries :: nat
  backoff_policy :: RuntimeBackoffPolicy
  idempotency_key :: string
  session_id :: "string option"
  branch_id :: "string option"
  checkpoint_id :: "string option"
  payload_ref :: "string option"
  output_refs :: "string list"
  last_error :: "string option"
  created_at_ms :: int
  updated_at_ms :: int

record runtime_job_row = RuntimeJobRecord +
  lease_reclaim_count :: nat
  lease_reclaim_not_before_ms :: "int option"

datatype ScheduleRuntimeJobDisposition = Inserted | Existing

record ScheduleRuntimeJobResult =
  schedule_disposition :: ScheduleRuntimeJobDisposition
  schedule_job :: RuntimeJobRecord

record ClaimDueRuntimeJobsRequest =
  due_now_ms :: int
  worker_id :: string
  due_job_id :: "string option"
  due_job_kind :: "string option"
  due_session_id :: "string option"
  due_limit :: nat
  due_lease_ms :: nat

record ListRuntimeJobsRequest =
  list_statuses :: "RuntimeJobStatus list"
  list_job_kind :: "string option"
  list_session_id :: "string option"
  list_branch_id :: "string option"
  list_limit :: nat
  list_offset :: nat

record CompleteRuntimeJobRequest =
  complete_job_id :: string
  complete_lease_owner :: string
  complete_output_refs :: "string list"
  completed_at_ms :: int

record StartRuntimeJobRequest =
  start_job_id :: string
  start_lease_owner :: string
  started_at_ms :: int

record RenewRuntimeJobLeaseRequest =
  renew_job_id :: string
  renew_lease_owner :: string
  renew_heartbeat_at_ms :: int
  renew_lease_ms :: nat

record YieldRuntimeJobRequest =
  yield_job_id :: string
  yield_lease_owner :: string
  yielded_at_ms :: int
  yield_run_at_ms :: int
  yield_transition_reason :: string

record WakeRuntimeJobRequest =
  wake_job_id :: string
  wake_source_job_id :: string
  woken_at_ms :: int
  wake_transition_reason :: string

datatype WakeRuntimeJobDisposition = Woken | AlreadyRunnable | Active | Terminal

datatype RuntimeJobFailureDisposition = RetryScheduled | FailedFinally | DeadLetteredFinally

record FailRuntimeJobRequest =
  fail_job_id :: string
  fail_lease_owner :: string
  failed_at_ms :: int
  fail_last_error :: string
  next_run_at_ms :: "int option"
  fail_disposition :: RuntimeJobFailureDisposition

record CancelRuntimeJobRequest =
  expected_lease_owner :: "string option"
  cancel_job_id :: string
  cancel_reason :: string
  cancelled_at_ms :: int
  expected_status :: "RuntimeJobStatus option"

section \<open>Outbox and events\<close>

record RuntimeJobOutboxRecord =
  outbox_job_id :: string
  outbox_event_type :: string
  published_at_ms :: "int option"
  generation :: nat

datatype RuntimeJobOutboxPublishDisposition = Published | AlreadyPublished | Stale

datatype json = JNull | JBool bool | JInt int | JStr string | JArr "json list" | JObj "(string \<times> json) list"

datatype EventVisibility = User | Internal

record RuntimeEvent =
  event_id :: string
  event_session_id :: string
  task_id :: "string option"
  event_type :: string
  at_ms :: int
  visibility :: EventVisibility
  payload_json :: json

section \<open>Resource claims\<close>

record ResourceClaimRecord =
  resource_kind :: string
  resource_key :: string
  owner :: string
  owner_kind :: string
  claim_session_id :: "string option"
  claim_branch_id :: "string option"
  expires_at_ms :: int
  metadata_json :: string
  claim_created_at_ms :: int
  claim_updated_at_ms :: int

section \<open>Dead letters\<close>

datatype DeadLetterStatus = Open | Replaying | Replayed | Dismissed

definition dead_letter_is_terminal :: "DeadLetterStatus \<Rightarrow> bool" where
  "dead_letter_is_terminal s \<longleftrightarrow> s \<in> {Replayed, Dismissed}"

definition dead_letter_can_transition_to :: "DeadLetterStatus \<Rightarrow> DeadLetterStatus \<Rightarrow> bool" where
  "dead_letter_can_transition_to s n \<longleftrightarrow>
     (s, n) \<in> {(Open, Replaying), (Open, Dismissed), (Replaying, Replayed), (Replaying, Open)} \<or> s = n"

record DeadLetterReplayPolicy =
  max_replays :: nat
  reuse_idempotency_key :: bool
  fork_on_conflict :: bool

definition default_dead_letter_replay_policy :: DeadLetterReplayPolicy where
  "default_dead_letter_replay_policy =
     \<lparr>max_replays = 3, reuse_idempotency_key = True, fork_on_conflict = False\<rparr>"

record DeadLetterRecord =
  dead_letter_id :: string
  original_job_id :: string
  dl_job_kind :: string
  dl_status :: DeadLetterStatus
  dl_session_id :: "string option"
  dl_branch_id :: "string option"
  dl_checkpoint_id :: "string option"
  dl_payload_ref :: "string option"
  dl_idempotency_key :: string
  failure_reason :: string
  dl_last_error :: string
  attempts :: nat
  first_failed_at_ms :: int
  last_failed_at_ms :: int
  replay_policy :: DeadLetterReplayPolicy
  replayed_job_id :: "string option"
  dismissed_by :: "string option"
  dismissed_reason :: "string option"
  dl_updated_at_ms :: int

section \<open>The database\<close>

record db =
  runtime_jobs :: "runtime_job_row list"
  runtime_job_outbox :: "RuntimeJobOutboxRecord list"
  runtime_events :: "RuntimeEvent list"
  resource_claims :: "ResourceClaimRecord list"
  dead_letters :: "DeadLetterRecord list"

type_synonym 'a tx = "db \<Rightarrow> ('a \<times> db) result"

definition empty_db :: db where
  "empty_db = \<lparr>runtime_jobs = [], runtime_job_outbox = [], runtime_events = [],
     resource_claims = [], dead_letters = []\<rparr>"

text \<open>
  \<open>commit_job_write\<close>: the write runs inside a transaction, its error rolls the transaction back and
  is returned, its success is committed.
\<close>

definition commit_job_write :: "'a tx \<Rightarrow> db \<Rightarrow> 'a result \<times> db" where
  "commit_job_write write_tx db =
     (case write_tx db of Inl e \<Rightarrow> (Err e, db) | Inr (v, db') \<Rightarrow> (Ok v, db'))"

lemma commit_job_write_Ok: "write_tx db = Inr (v, db') \<Longrightarrow> commit_job_write write_tx db = (Ok v, db')"
  by (simp add: commit_job_write_def)

lemma commit_job_write_Err: "fst (commit_job_write write_tx db) = Err e \<Longrightarrow> snd (commit_job_write write_tx db) = db"
  by (auto simp: commit_job_write_def split: sum.splits prod.splits)

lemma commit_job_write_cases:
  obtains (committed) v db' where "write_tx db = Inr (v, db')" "commit_job_write write_tx db = (Ok v, db')"
  | (rolled_back) e where "write_tx db = Inl e" "commit_job_write write_tx db = (Err e, db)"
  by (cases "write_tx db") (auto simp: commit_job_write_def)

section \<open>Status columns\<close>

fun runtime_job_status_to_db :: "RuntimeJobStatus \<Rightarrow> string" where
  "runtime_job_status_to_db Queued = ''queued''"
| "runtime_job_status_to_db Leased = ''leased''"
| "runtime_job_status_to_db Running = ''running''"
| "runtime_job_status_to_db Succeeded = ''succeeded''"
| "runtime_job_status_to_db Failed = ''failed''"
| "runtime_job_status_to_db DeadLettered = ''dead_lettered''"
| "runtime_job_status_to_db Cancelled = ''cancelled''"

definition runtime_job_status_from_db :: "string \<Rightarrow> RuntimeJobStatus result" where
  "runtime_job_status_from_db raw =
     (if raw \<in> {''queued'', ''Queued''} then Ok Queued
      else if raw \<in> {''leased'', ''Leased''} then Ok Leased
      else if raw \<in> {''running'', ''Running''} then Ok Running
      else if raw \<in> {''succeeded'', ''Succeeded''} then Ok Succeeded
      else if raw \<in> {''failed'', ''Failed''} then Ok Failed
      else if raw \<in> {''dead_lettered'', ''DeadLettered''} then Ok DeadLettered
      else if raw \<in> {''cancelled'', ''Cancelled''} then Ok Cancelled
      else Err (''unknown runtime job status: '' @ raw))"

fun dead_letter_status_to_db :: "DeadLetterStatus \<Rightarrow> string" where
  "dead_letter_status_to_db Open = ''open''"
| "dead_letter_status_to_db Replaying = ''replaying''"
| "dead_letter_status_to_db Replayed = ''replayed''"
| "dead_letter_status_to_db Dismissed = ''dismissed''"

definition dead_letter_status_from_db :: "string \<Rightarrow> DeadLetterStatus result" where
  "dead_letter_status_from_db raw =
     (if raw \<in> {''open'', ''Open''} then Ok Open
      else if raw \<in> {''replaying'', ''Replaying''} then Ok Replaying
      else if raw \<in> {''replayed'', ''Replayed''} then Ok Replayed
      else if raw \<in> {''dismissed'', ''Dismissed''} then Ok Dismissed
      else Err (''unknown dead letter status: '' @ raw))"

lemma runtime_job_status_roundtrip [simp]:
  "runtime_job_status_from_db (runtime_job_status_to_db s) = Ok s"
  by (cases s) (simp_all add: runtime_job_status_from_db_def)

lemma dead_letter_status_roundtrip [simp]:
  "dead_letter_status_from_db (dead_letter_status_to_db s) = Ok s"
  by (cases s) (simp_all add: dead_letter_status_from_db_def)

lemma runtime_job_status_to_db_inject [simp]:
  "runtime_job_status_to_db s = runtime_job_status_to_db t \<longleftrightarrow> s = t"
  by (metis runtime_job_status_roundtrip sum.inject(2))

end
