(* ===== verification/JobStore.thy ===== *)
theory JobStore
  imports RuntimeDb
begin

text \<open>
  The SQLite runtime job store (\<open>runtime_sqlite/src/sqlite_store/sqlite_reliability.rs\<close>, and the
  event and service operations of \<open>sqlite_runtime.rs\<close> and \<open>job_store.rs\<close>): one definition per
  operation, each a transaction on the database that returns an error and leaves the database
  unchanged, or a value and the new database.
\<close>

section \<open>Loading jobs\<close>

definition to_i64 :: "nat \<Rightarrow> int result" where
  "to_i64 n = ok_or (''usize to i64 overflow: '' @ show_nat n) (i64_try_from n)"

definition conversion_error :: "nat \<Rightarrow> string" where
  "conversion_error i = ''Conversion error from type Integer at index: '' @ show_nat i @
     '', out of range integral type conversion attempted''"

definition row_to_runtime_job :: "runtime_job_row \<Rightarrow> RuntimeJobRecord result" where
  "row_to_runtime_job row =
     res_bind (ensure (retry_count row \<le> u32_max) (conversion_error 6)) (\<lambda>_.
     res_bind (ensure (max_retries row \<le> u32_max) (conversion_error 7)) (\<lambda>_.
     Ok (RuntimeJobRecord.truncate row)))"

definition load_first :: "string \<Rightarrow> runtime_job_row option \<Rightarrow> RuntimeJobRecord option result" where
  "load_first what found = (case found of None \<Rightarrow> Ok None
     | Some row \<Rightarrow> res_bind (map_err (\<lambda>e. ''query '' @ what @ '' failed: '' @ e) (row_to_runtime_job row)) (\<lambda>job.
         Ok (Some job)))"

definition load_runtime_job_by_id :: "string \<Rightarrow> db \<Rightarrow> RuntimeJobRecord option result" where
  "load_runtime_job_by_id j db =
     load_first ''load_runtime_job_by_id'' (sql_find (\<lambda>r. job_id r = j) (runtime_jobs db))"

definition load_runtime_job_by_kind_and_idempotency ::
    "string \<Rightarrow> string \<Rightarrow> db \<Rightarrow> RuntimeJobRecord option result" where
  "load_runtime_job_by_kind_and_idempotency kind key db =
     load_first ''load_runtime_job_by_kind_and_idempotency''
       (sql_find (\<lambda>r. job_kind r = kind \<and> idempotency_key r = key) (runtime_jobs db))"

definition job_order :: "'a RuntimeJobRecord_scheme \<Rightarrow> int \<times> int \<times> string" where
  "job_order r = (run_at_ms r, created_at_ms r, job_id r)"

definition load_runtime_jobs_by_ids :: "string list \<Rightarrow> db \<Rightarrow> RuntimeJobRecord list result" where
  "load_runtime_jobs_by_ids ids db =
     (if ids = [] then Ok [] else
      res_bind (map_result (\<lambda>r. map_err (\<lambda>e. ''decode runtime job by ids failed: '' @ e) (row_to_runtime_job r))
        (filter (\<lambda>r. job_id r \<in> set ids) (runtime_jobs db))) (\<lambda>jobs.
      Ok (sort_key job_order jobs)))"

definition list_runtime_jobs_with_filters :: "ListRuntimeJobsRequest \<Rightarrow> db \<Rightarrow> RuntimeJobRecord list result" where
  "list_runtime_jobs_with_filters req db =
     (let conditions = (\<lambda>r.
        (list_statuses req = [] \<or> status r \<in> set (list_statuses req)) \<and>
        (case list_job_kind req of None \<Rightarrow> True | Some k \<Rightarrow> job_kind r = k) \<and>
        (case list_session_id req of None \<Rightarrow> True | Some s \<Rightarrow> session_id r = Some s) \<and>
        (case list_branch_id req of None \<Rightarrow> True | Some b \<Rightarrow> branch_id r = Some b)) in
      res_bind (to_i64 (list_limit req)) (\<lambda>_.
      res_bind (to_i64 (list_offset req)) (\<lambda>_.
      map_result (\<lambda>r. map_err (\<lambda>e. ''decode list_runtime_jobs row failed: '' @ e) (row_to_runtime_job r))
        (sql_page (list_limit req) (list_offset req) (sql_select conditions job_order (runtime_jobs db))))))"

section \<open>Scheduling\<close>

definition insert_runtime_job :: "RuntimeJobRecord \<Rightarrow> bool tx" where
  "insert_runtime_job job db =
     (if \<exists>r \<in> set (runtime_jobs db). job_id r = job_id job \<or>
           (job_kind r = job_kind job \<and> idempotency_key r = idempotency_key job)
      then Ok (False, db)
      else Ok (True, db\<lparr>runtime_jobs := runtime_jobs db @
             [RuntimeJobRecord.extend job (runtime_job_row.fields 0 None)]\<rparr>))"

definition schedule_with :: "string \<Rightarrow> RuntimeJobRecord \<Rightarrow> ScheduleRuntimeJobResult tx" where
  "schedule_with what job db =
     res_bind (insert_runtime_job job db) (\<lambda>(inserted, db).
     if inserted then Ok (\<lparr>schedule_disposition = Inserted, schedule_job = job\<rparr>, db)
     else res_bind (load_runtime_job_by_kind_and_idempotency (job_kind job) (idempotency_key job) db) (\<lambda>found.
       res_bind (ok_or (what @ '' existing row missing job_kind='' @ job_kind job @
           '' idempotency_key='' @ idempotency_key job) found) (\<lambda>existing.
       Ok (\<lparr>schedule_disposition = Existing, schedule_job = existing\<rparr>, db))))"

definition schedule_runtime_job :: "RuntimeJobRecord \<Rightarrow> ScheduleRuntimeJobResult tx" where
  "schedule_runtime_job job db = schedule_with ''schedule_runtime_job'' job db"

section \<open>Claiming\<close>

definition trimmed_filter :: "string option \<Rightarrow> string option" where
  "trimmed_filter v = (case v of None \<Rightarrow> None | Some s \<Rightarrow> if trim s = [] then None else Some (trim s))"

definition due_condition :: "ClaimDueRuntimeJobsRequest \<Rightarrow> runtime_job_row \<Rightarrow> bool" where
  "due_condition req r \<longleftrightarrow>
     status r = Queued \<and> run_at_ms r \<le> due_now_ms req \<and>
     (case lease_reclaim_not_before_ms r of None \<Rightarrow> run_at_ms r | Some t \<Rightarrow> t) \<le> due_now_ms req \<and>
     (case trimmed_filter (due_job_id req) of None \<Rightarrow> True | Some j \<Rightarrow> job_id r = j) \<and>
     (case trimmed_filter (due_job_kind req) of None \<Rightarrow> True | Some k \<Rightarrow> job_kind r = k) \<and>
     (case trimmed_filter (due_session_id req) of None \<Rightarrow> True | Some s \<Rightarrow> session_id r = Some s)"

definition lease_row :: "(string \<Rightarrow> string) \<Rightarrow> ClaimDueRuntimeJobsRequest \<Rightarrow> int \<Rightarrow> runtime_job_row \<Rightarrow> runtime_job_row" where
  "lease_row nonce req expires r = r\<lparr>status := Leased,
     lease_owner := Some (worker_id req @ '':'' @ nonce (job_id r)),
     lease_expires_at_ms := Some expires,
     updated_at_ms := due_now_ms req,
     heartbeat_at_ms := Some (due_now_ms req)\<rparr>"

fun claim_loop :: "(string \<Rightarrow> string) \<Rightarrow> ClaimDueRuntimeJobsRequest \<Rightarrow> int \<Rightarrow> string list \<Rightarrow> db \<Rightarrow> string list \<times> db" where
  "claim_loop nonce req expires [] db = ([], db)"
| "claim_loop nonce req expires (j # js) db =
     (let queued = (\<lambda>r. job_id r = j \<and> status r = Queued);
          updated = sql_count queued (runtime_jobs db);
          db' = db\<lparr>runtime_jobs := sql_update queued (lease_row nonce req expires) (runtime_jobs db)\<rparr>;
          (ids, db'') = claim_loop nonce req expires js db'
      in (if 0 < updated then j # ids else ids, db''))"

definition claim_due_runtime_jobs :: "(string \<Rightarrow> string) \<Rightarrow> ClaimDueRuntimeJobsRequest \<Rightarrow> RuntimeJobRecord list tx" where
  "claim_due_runtime_jobs nonce req db =
     res_bind (to_i64 (due_limit req)) (\<lambda>_.
     res_bind (ok_or (''lease_ms overflow: '' @ show_nat (due_lease_ms req)) (i64_try_from (due_lease_ms req))) (\<lambda>lease_ms.
     let expires = i64_saturating_add (due_now_ms req) lease_ms;
         due_job_ids = map job_id (take (due_limit req) (sql_select (due_condition req) job_order (runtime_jobs db)));
         (claimed_ids, db') = claim_loop nonce req expires due_job_ids db
     in res_bind (load_runtime_jobs_by_ids claimed_ids db') (\<lambda>claimed. Ok (claimed, db'))))"

section \<open>Lease-holder operations\<close>

definition held :: "string \<Rightarrow> string \<Rightarrow> int \<Rightarrow> runtime_job_row \<Rightarrow> bool" where
  "held j tok now r \<longleftrightarrow> job_id r = j \<and> status r \<in> {Leased, Running} \<and> lease_owner r = Some tok \<and>
     (case lease_expires_at_ms r of None \<Rightarrow> False | Some e \<Rightarrow> now < e)"

definition update_jobs :: "string \<Rightarrow> (runtime_job_row \<Rightarrow> bool) \<Rightarrow> (runtime_job_row \<Rightarrow> runtime_job_row) \<Rightarrow> unit tx" where
  "update_jobs err P f db =
     (if sql_count P (runtime_jobs db) = 0 then Err err
      else Ok ((), db\<lparr>runtime_jobs := sql_update P f (runtime_jobs db)\<rparr>))"

definition start_runtime_job :: "StartRuntimeJobRequest \<Rightarrow> unit tx" where
  "start_runtime_job req =
     update_jobs (''start_runtime_job lease mismatch or job not found: '' @ start_job_id req)
       (\<lambda>r. held (start_job_id req) (start_lease_owner req) (started_at_ms req) r \<and> status r = Leased)
       (\<lambda>r. r\<lparr>status := Running, updated_at_ms := started_at_ms req,
              heartbeat_at_ms := Some (started_at_ms req)\<rparr>)"

definition renew_runtime_job_lease :: "RenewRuntimeJobLeaseRequest \<Rightarrow> unit tx" where
  "renew_runtime_job_lease req db =
     res_bind (ok_or (''lease_ms overflow: '' @ show_nat (renew_lease_ms req)) (i64_try_from (renew_lease_ms req))) (\<lambda>lease_ms.
     let expires = i64_saturating_add (renew_heartbeat_at_ms req) lease_ms;
         mine = held (renew_job_id req) (renew_lease_owner req) (renew_heartbeat_at_ms req)
     in if sql_count mine (runtime_jobs db) \<noteq> 1
        then Err (''renew_runtime_job_lease lease mismatch, expired lease, or job not found: '' @ renew_job_id req)
        else Ok ((), db\<lparr>runtime_jobs := sql_update mine
               (\<lambda>r. r\<lparr>heartbeat_at_ms := Some (renew_heartbeat_at_ms req),
                      lease_expires_at_ms := Some expires,
                      updated_at_ms := renew_heartbeat_at_ms req\<rparr>) (runtime_jobs db)\<rparr>))"

section \<open>Events\<close>

definition sqlite_event_conflict :: string where
  "sqlite_event_conflict = ''UNIQUE constraint failed: runtime_events.event_id''"

definition insert_event :: "string \<Rightarrow> RuntimeEvent \<Rightarrow> unit tx" where
  "insert_event err ev db =
     (if \<exists>e \<in> set (runtime_events db). event_id e = event_id ev
      then Err (err @ '': '' @ sqlite_event_conflict)
      else Ok ((), db\<lparr>runtime_events := runtime_events db @ [ev]\<rparr>))"

definition append_event_conn :: "RuntimeEvent \<Rightarrow> unit tx" where
  "append_event_conn ev = insert_event ''append runtime event failed'' ev"

definition append_event_conn_idempotent :: "RuntimeEvent \<Rightarrow> bool tx" where
  "append_event_conn_idempotent ev db =
     (case sql_find (\<lambda>e. event_id e = event_id ev) (runtime_events db) of
        None \<Rightarrow> Ok (True, db\<lparr>runtime_events := runtime_events db @ [ev]\<rparr>)
      | Some existing \<Rightarrow>
          if existing \<noteq> ev then Err (''runtime_event_idempotency_conflict: eventId='' @ event_id ev)
          else Ok (False, db))"

definition job_event :: "string \<Rightarrow> string option \<Rightarrow> string \<Rightarrow> string \<Rightarrow> int \<Rightarrow> json \<Rightarrow> RuntimeEvent" where
  "job_event eid session job etype at_time payload =
     \<lparr>event_id = eid,
      event_session_id = (case session of Some s \<Rightarrow> s | None \<Rightarrow> ''runtime_job:'' @ job),
      task_id = Some job, event_type = etype, at_ms = at_time, visibility = Internal, payload_json = payload\<rparr>"

section \<open>Yield and wake\<close>

definition yield_event_id :: "YieldRuntimeJobRequest \<Rightarrow> string" where
  "yield_event_id req = ''runtime_job_yield:'' @ yield_job_id req @ '':'' @ yield_lease_owner req @ '':'' @
     show_int (yielded_at_ms req)"

definition yield_payload :: "YieldRuntimeJobRequest \<Rightarrow> json" where
  "yield_payload req = JObj [(''schema'', JStr ''runtime.job.yielded.v1''),
     (''jobId'', JStr (yield_job_id req)), (''leaseOwner'', JStr (yield_lease_owner req)),
     (''yieldedAtMs'', JInt (yielded_at_ms req)), (''runAtMs'', JInt (yield_run_at_ms req)),
     (''transitionReason'', JStr (yield_transition_reason req))]"

definition yield_event :: "YieldRuntimeJobRequest \<Rightarrow> string option \<Rightarrow> RuntimeEvent" where
  "yield_event req session = job_event (yield_event_id req) session (yield_job_id req) ''runtime_job_yielded''
     (yielded_at_ms req) (yield_payload req)"

definition wake_consumed_id :: "string \<Rightarrow> string" where
  "wake_consumed_id wake_id = replace_first ''runtime_job_wake:'' ''runtime_job_wake_consumed:'' wake_id"

definition pending_wakes :: "string \<Rightarrow> RuntimeEvent list \<Rightarrow> RuntimeEvent list" where
  "pending_wakes j evs =
     sql_select (\<lambda>wake. task_id wake = Some j \<and> event_type wake = ''runtime_job_wake_requested'' \<and>
         \<not> (\<exists>consumed \<in> set evs. event_id consumed =
              ''runtime_job_wake_consumed:'' @ drop (length ''runtime_job_wake:'') (event_id wake)))
       (\<lambda>wake. (at_ms wake, event_id wake)) evs"

definition wake_consumed_event :: "YieldRuntimeJobRequest \<Rightarrow> string option \<Rightarrow> string \<Rightarrow> RuntimeEvent" where
  "wake_consumed_event req session wake_id =
     job_event (wake_consumed_id wake_id) session (yield_job_id req) ''runtime_job_wake_consumed'' (yielded_at_ms req)
       (JObj [(''schema'', JStr ''runtime.job.wake_consumed.v1''), (''jobId'', JStr (yield_job_id req)),
          (''wakeEventId'', JStr wake_id), (''consumedAtMs'', JInt (yielded_at_ms req)),
          (''transitionReason'', JStr ''yield_observed_pending_wake'')])"

definition consume_wake :: "YieldRuntimeJobRequest \<Rightarrow> string option \<Rightarrow> db \<Rightarrow> string \<Rightarrow> db result" where
  "consume_wake req session db wake_id =
     res_bind (insert_event ''consume pending runtime job wake failed'' (wake_consumed_event req session wake_id) db)
       (\<lambda>(_, db). Ok db)"

definition yield_replay :: "YieldRuntimeJobRequest \<Rightarrow> unit tx" where
  "yield_replay req db =
     (case sql_find (\<lambda>e. task_id e = Some (yield_job_id req) \<and> event_type e = ''runtime_job_yielded'' \<and>
              at_ms e = yielded_at_ms req) (runtime_events db) of
        Some e \<Rightarrow> if event_id e = yield_event_id req \<and> payload_json e = yield_payload req then Ok ((), db)
                  else Err (''yield_runtime_job idempotency conflict: '' @ yield_job_id req)
      | None \<Rightarrow> Err (''yield_runtime_job lease mismatch or expired: '' @ yield_job_id req))"

definition yield_lease :: "YieldRuntimeJobRequest \<Rightarrow> runtime_job_row \<Rightarrow> unit tx" where
  "yield_lease req job db =
     (let mine = held (yield_job_id req) (yield_lease_owner req) (yielded_at_ms req);
          mismatch = ''yield_runtime_job lease mismatch or expired: '' @ yield_job_id req;
          pending_wake_ids = map event_id (pending_wakes (yield_job_id req) (runtime_events db));
          effective_run_at_ms = (if pending_wake_ids = [] then yield_run_at_ms req else yielded_at_ms req)
      in res_bind (ensure (mine job) mismatch) (\<lambda>_.
         if sql_count mine (runtime_jobs db) \<noteq> 1 then Err mismatch else
         let db = db\<lparr>runtime_jobs := sql_update mine
               (\<lambda>r. r\<lparr>status := Queued, run_at_ms := effective_run_at_ms, updated_at_ms := yielded_at_ms req,
                      lease_owner := None, lease_expires_at_ms := None, heartbeat_at_ms := None\<rparr>)
               (runtime_jobs db)\<rparr> in
         res_bind (insert_event ''append runtime job yield event failed''
           (yield_event req (session_id job)) db) (\<lambda>(_, db).
         res_bind (fold_result (consume_wake req (session_id job)) db pending_wake_ids) (\<lambda>db.
         Ok ((), db)))))"

definition yield_runtime_job :: "YieldRuntimeJobRequest \<Rightarrow> unit tx" where
  "yield_runtime_job req db =
     res_bind (ensure (\<not> (yield_run_at_ms req < yielded_at_ms req \<or> blank (yield_transition_reason req)))
       ''invalid runtime job yield'') (\<lambda>_.
     res_bind (ok_or (''yield_runtime_job not found: '' @ yield_job_id req)
       (sql_find (\<lambda>r. job_id r = yield_job_id req) (runtime_jobs db))) (\<lambda>job.
     if status job = Queued \<and> lease_owner job = None then yield_replay req db
     else yield_lease req job db))"

definition wake_event_id :: "WakeRuntimeJobRequest \<Rightarrow> string" where
  "wake_event_id req = ''runtime_job_wake:'' @ wake_job_id req @ '':'' @ wake_source_job_id req"

definition wake_payload :: "WakeRuntimeJobRequest \<Rightarrow> json" where
  "wake_payload req = JObj [(''schema'', JStr ''runtime.job.wake.v1''), (''jobId'', JStr (wake_job_id req)),
     (''sourceJobId'', JStr (wake_source_job_id req)), (''wokenAtMs'', JInt (woken_at_ms req)),
     (''transitionReason'', JStr (wake_transition_reason req))]"

definition wake_event :: "WakeRuntimeJobRequest \<Rightarrow> string option \<Rightarrow> RuntimeEvent" where
  "wake_event req session = job_event (wake_event_id req) session (wake_job_id req) ''runtime_job_wake_requested''
     (woken_at_ms req) (wake_payload req)"

definition wake_row :: "WakeRuntimeJobRequest \<Rightarrow> runtime_job_row \<Rightarrow> WakeRuntimeJobDisposition tx" where
  "wake_row req job db =
     (let wake_at_ms = max (woken_at_ms req)
            (case lease_reclaim_not_before_ms job of Some t \<Rightarrow> t | None \<Rightarrow> woken_at_ms req)
      in if status job = Queued then
           (if wake_at_ms < run_at_ms job then
              Ok (Woken, db\<lparr>runtime_jobs := sql_update
                (\<lambda>r. job_id r = wake_job_id req \<and> status r = Queued \<and> wake_at_ms < run_at_ms r)
                (\<lambda>r. r\<lparr>run_at_ms := wake_at_ms, updated_at_ms := woken_at_ms req\<rparr>) (runtime_jobs db)\<rparr>)
            else Ok (AlreadyRunnable, db))
         else if status job \<in> {Leased, Running} then Ok (Active, db)
         else Ok (Terminal, db))"

definition wake_runtime_job :: "WakeRuntimeJobRequest \<Rightarrow> WakeRuntimeJobDisposition tx" where
  "wake_runtime_job req db =
     res_bind (ensure (\<not> (blank (wake_job_id req) \<or> blank (wake_source_job_id req) \<or> blank (wake_transition_reason req)))
       ''invalid runtime job wake'') (\<lambda>_.
     res_bind (ok_or (''wake_runtime_job not found: '' @ wake_job_id req)
       (sql_find (\<lambda>r. job_id r = wake_job_id req) (runtime_jobs db))) (\<lambda>job.
     case sql_find (\<lambda>e. event_id e = wake_event_id req) (runtime_events db) of
       Some existing \<Rightarrow>
         if payload_json existing \<noteq> wake_payload req
         then Err (''wake_runtime_job idempotency conflict: '' @ wake_job_id req)
         else wake_row req job db
     | None \<Rightarrow>
         res_bind (insert_event ''append runtime job wake event failed''
           (wake_event req (session_id job)) db) (\<lambda>(_, db). wake_row req job db)))"

section \<open>Terminal outbox\<close>

definition outbox_upsert :: "string \<Rightarrow> string \<Rightarrow> RuntimeJobOutboxRecord list \<Rightarrow> RuntimeJobOutboxRecord list" where
  "outbox_upsert j etype rows =
     (let this_row = (\<lambda>ob. outbox_job_id ob = j \<and> outbox_event_type ob = etype) in
      if sql_count this_row rows = 0
      then rows @ [\<lparr>outbox_job_id = j, outbox_event_type = etype, published_at_ms = None, generation = 0\<rparr>]
      else sql_update this_row (\<lambda>ob. ob\<lparr>published_at_ms := None, generation := generation ob + 1\<rparr>) rows)"

definition upsert_runtime_job_outbox_event :: "string \<Rightarrow> string \<Rightarrow> unit tx" where
  "upsert_runtime_job_outbox_event j etype db =
     (if \<exists>r \<in> set (runtime_jobs db). job_id r = j
      then Ok ((), db\<lparr>runtime_job_outbox := outbox_upsert j etype (runtime_job_outbox db)\<rparr>)
      else Err ''upsert runtime job outbox failed: FOREIGN KEY constraint failed'')"

definition list_pending_runtime_job_outbox_after ::
    "nat \<Rightarrow> string option \<Rightarrow> string option \<Rightarrow> (string \<times> string) option \<Rightarrow> db \<Rightarrow> RuntimeJobOutboxRecord list result" where
  "list_pending_runtime_job_outbox_after limit kind j after db =
     res_bind (to_i64 limit) (\<lambda>_.
     map_result (\<lambda>ob. res_bind (ensure (generation ob \<le> u32_max)
           (''decode runtime job outbox failed: Integer '' @ show_nat (generation ob) @ '' out of range at index 3''))
         (\<lambda>_. Ok ob))
       (take limit (sql_select (\<lambda>ob. published_at_ms ob = None \<and>
           (case kind of None \<Rightarrow> True
            | Some k \<Rightarrow> \<exists>r \<in> set (runtime_jobs db). job_id r = outbox_job_id ob \<and> job_kind r = k) \<and>
           (case j of None \<Rightarrow> True | Some i \<Rightarrow> outbox_job_id ob = i) \<and>
           (case after of None \<Rightarrow> True | Some key \<Rightarrow> key < (outbox_job_id ob, outbox_event_type ob)))
         (\<lambda>ob. (outbox_job_id ob, outbox_event_type ob)) (runtime_job_outbox db))))"

definition list_pending_runtime_job_outbox :: "nat \<Rightarrow> db \<Rightarrow> RuntimeJobOutboxRecord list result" where
  "list_pending_runtime_job_outbox limit db = list_pending_runtime_job_outbox_after limit None None None db"

definition mark_runtime_job_outbox_published ::
    "string \<Rightarrow> string \<Rightarrow> nat \<Rightarrow> int \<Rightarrow> RuntimeJobOutboxPublishDisposition tx" where
  "mark_runtime_job_outbox_published j etype gen published db =
     (let this_row = (\<lambda>ob. outbox_job_id ob = j \<and> outbox_event_type ob = etype);
          pending = (\<lambda>ob. this_row ob \<and> generation ob = gen \<and> published_at_ms ob = None)
      in if sql_count pending (runtime_job_outbox db) = 1
         then Ok (Published, db\<lparr>runtime_job_outbox :=
                sql_update pending (\<lambda>ob. ob\<lparr>published_at_ms := Some published\<rparr>) (runtime_job_outbox db)\<rparr>)
         else res_bind (ok_or ''runtime job outbox row not found'' (sql_find this_row (runtime_job_outbox db))) (\<lambda>stored.
           if generation stored \<noteq> gen then Ok (Stale, db)
           else if published_at_ms stored \<noteq> None then Ok (AlreadyPublished, db)
           else Err ''runtime job outbox publish CAS failed''))"

section \<open>Terminal operations\<close>

definition completed_row :: "CompleteRuntimeJobRequest \<Rightarrow> runtime_job_row \<Rightarrow> runtime_job_row" where
  "completed_row req r = r\<lparr>status := Succeeded, output_refs := complete_output_refs req,
     updated_at_ms := completed_at_ms req, lease_owner := None, lease_expires_at_ms := None, last_error := None\<rparr>"

definition complete_runtime_job_conn :: "CompleteRuntimeJobRequest \<Rightarrow> unit tx" where
  "complete_runtime_job_conn req =
     update_jobs (''complete_runtime_job lease mismatch or job not found: '' @ complete_job_id req)
       (held (complete_job_id req) (complete_lease_owner req) (completed_at_ms req)) (completed_row req)"

definition fail_target :: "FailRuntimeJobRequest \<Rightarrow> (RuntimeJobStatus \<times> int) result" where
  "fail_target req = (case fail_disposition req of
     RetryScheduled \<Rightarrow>
       res_bind (ok_or (''fail_runtime_job retry_scheduled requires next_run_at_ms job_id='' @ fail_job_id req)
         (next_run_at_ms req)) (\<lambda>next. Ok (Queued, next))
   | FailedFinally \<Rightarrow> Ok (Failed, failed_at_ms req)
   | DeadLetteredFinally \<Rightarrow> Ok (DeadLettered, failed_at_ms req))"

definition failed_row :: "FailRuntimeJobRequest \<Rightarrow> RuntimeJobStatus \<Rightarrow> int \<Rightarrow> runtime_job_row \<Rightarrow> runtime_job_row" where
  "failed_row req next_status next_run_at r = r\<lparr>status := next_status, run_at_ms := next_run_at,
     retry_count := retry_count r + 1, lease_owner := None, lease_expires_at_ms := None,
     last_error := Some (fail_last_error req), updated_at_ms := failed_at_ms req\<rparr>"

definition fail_runtime_job_conn :: "FailRuntimeJobRequest \<Rightarrow> unit tx" where
  "fail_runtime_job_conn req db =
     res_bind (fail_target req) (\<lambda>(next_status, next_run_at).
     update_jobs (''fail_runtime_job lease mismatch or job not found: '' @ fail_job_id req)
       (held (fail_job_id req) (fail_lease_owner req) (failed_at_ms req))
       (failed_row req next_status next_run_at) db)"

definition cancel_condition :: "CancelRuntimeJobRequest \<Rightarrow> runtime_job_row \<Rightarrow> bool" where
  "cancel_condition req r \<longleftrightarrow>
     job_id r = cancel_job_id req \<and>
     status r \<notin> {Succeeded, Failed, DeadLettered, Cancelled} \<and>
     (case expected_status req of None \<Rightarrow> True | Some s \<Rightarrow> status r = s) \<and>
     (case expected_lease_owner req of None \<Rightarrow> True
      | Some tok \<Rightarrow> held (cancel_job_id req) tok (cancelled_at_ms req) r)"

definition cancelled_row :: "CancelRuntimeJobRequest \<Rightarrow> runtime_job_row \<Rightarrow> runtime_job_row" where
  "cancelled_row req r = r\<lparr>status := Cancelled, updated_at_ms := cancelled_at_ms req, lease_owner := None,
     lease_expires_at_ms := None,
     last_error := (if last_error r \<in> {None, Some []} then Some (cancel_reason req) else last_error r)\<rparr>"

definition cancel_runtime_job_conn :: "CancelRuntimeJobRequest \<Rightarrow> unit tx" where
  "cancel_runtime_job_conn req =
     update_jobs (''cancel_runtime_job not found or already terminal: '' @ cancel_job_id req)
       (cancel_condition req) (cancelled_row req)"

definition complete_runtime_job :: "CompleteRuntimeJobRequest \<Rightarrow> unit tx" where
  "complete_runtime_job req db =
     res_bind (complete_runtime_job_conn req db) (\<lambda>(_, db).
     upsert_runtime_job_outbox_event (complete_job_id req) RUNTIME_JOB_TERMINAL_EVENT db)"

definition fail_runtime_job :: "FailRuntimeJobRequest \<Rightarrow> unit tx" where
  "fail_runtime_job req db =
     res_bind (fail_runtime_job_conn req db) (\<lambda>(_, db).
     if fail_disposition req \<noteq> RetryScheduled
     then upsert_runtime_job_outbox_event (fail_job_id req) RUNTIME_JOB_TERMINAL_EVENT db
     else Ok ((), db))"

definition cancel_runtime_job :: "CancelRuntimeJobRequest \<Rightarrow> unit tx" where
  "cancel_runtime_job req db =
     res_bind (cancel_runtime_job_conn req db) (\<lambda>(_, db).
     upsert_runtime_job_outbox_event (cancel_job_id req) RUNTIME_JOB_TERMINAL_EVENT db)"

definition service_stop_event :: "CancelRuntimeJobRequest \<Rightarrow> string \<Rightarrow> string option \<Rightarrow> RuntimeEvent" where
  "service_stop_event req session task =
     \<lparr>event_id = ''local_service_stop:'' @ cancel_job_id req, event_session_id = session,
      task_id = task, event_type = ''local_runtime.service_stop.v1'',
      at_ms = cancelled_at_ms req, visibility = Internal,
      payload_json = JObj [(''runtimeJobId'', JStr (cancel_job_id req)), (''source'', JStr ''service'')]\<rparr>"

definition cancel_for_service_shutdown :: "CancelRuntimeJobRequest \<Rightarrow> unit tx" where
  "cancel_for_service_shutdown req db =
     res_bind (cancel_runtime_job_conn req db) (\<lambda>(_, db).
     res_bind (load_runtime_job_by_id (cancel_job_id req) db) (\<lambda>found.
     res_bind (ok_or ''service Job cancellation lost Job'' found) (\<lambda>job.
     res_bind (ok_or ''service Job cancellation parent missing'' (session_id job)) (\<lambda>session.
     res_bind (append_event_conn_idempotent (service_stop_event req session (branch_id job)) db) (\<lambda>(_, db).
     upsert_runtime_job_outbox_event (cancel_job_id req) RUNTIME_JOB_TERMINAL_EVENT db)))))"

definition was_service_stopped :: "string \<Rightarrow> db \<Rightarrow> bool" where
  "was_service_stopped j db \<longleftrightarrow> (\<exists>e \<in> set (runtime_events db).
     event_id e = ''local_service_stop:'' @ j \<and> event_type e = ''local_runtime.service_stop.v1'')"

section \<open>Reclaiming expired leases\<close>

definition expired :: "int \<Rightarrow> runtime_job_row \<Rightarrow> bool" where
  "expired now_ms r \<longleftrightarrow> status r \<in> {Leased, Running} \<and>
     (case lease_expires_at_ms r of None \<Rightarrow> False | Some e \<Rightarrow> e \<le> now_ms)"

definition expired_leases :: "int \<Rightarrow> db \<Rightarrow> runtime_job_row list" where
  "expired_leases now_ms db =
     take RUNTIME_JOB_LEASE_RECLAIM_BATCH_LIMIT
       (sql_select (expired now_ms) (\<lambda>r. (the (lease_expires_at_ms r), job_id r)) (runtime_jobs db))"

definition reclaimed_row :: "int \<Rightarrow> RuntimeJobLeaseReclaimDecision \<Rightarrow> runtime_job_row \<Rightarrow> runtime_job_row" where
  "reclaimed_row now_ms d r = r\<lparr>status := decision_status d, run_at_ms := not_before_ms d,
     updated_at_ms := now_ms, lease_owner := None, lease_expires_at_ms := None,
     lease_reclaim_count := reclaim_count d, lease_reclaim_not_before_ms := Some (not_before_ms d),
     last_error := Some (reason d)\<rparr>"

definition reclaim_event_id :: "string \<Rightarrow> nat \<Rightarrow> string" where
  "reclaim_event_id j n = ''runtime_job_lease_reclaimed:'' @ j @ '':'' @ show_nat n"

definition reclaim_event :: "int \<Rightarrow> RuntimeJobLeaseReclaimDecision \<Rightarrow> runtime_job_row \<Rightarrow> RuntimeEvent" where
  "reclaim_event now_ms d r = job_event (reclaim_event_id (job_id r) (reclaim_count d)) (session_id r) (job_id r)
     ''runtime_job_lease_reclaimed'' now_ms
     (JObj [(''schema'', JStr ''runtime.job.lease_reclaimed.v1''), (''jobId'', JStr (job_id r)),
        (''leaseOwner'', case lease_owner r of None \<Rightarrow> JNull | Some t \<Rightarrow> JStr t),
        (''reclaimCount'', JInt (int (reclaim_count d))),
        (''maxReclaims'', JInt (int (max_reclaims default_lease_reclaim_policy))),
        (''notBeforeMs'', JInt (not_before_ms d)), (''transitionReason'', JStr (reason d)),
        (''previousError'', case last_error r of None \<Rightarrow> JNull | Some t \<Rightarrow> JStr t)])"

definition reclaim_one :: "int \<Rightarrow> db \<Rightarrow> runtime_job_row \<Rightarrow> db result" where
  "reclaim_one now_ms db r =
     res_bind (ensure (lease_reclaim_count r \<le> u32_max) ''out of range integral type conversion attempted'') (\<lambda>_.
     res_bind (decide default_lease_reclaim_policy (job_id r) (lease_reclaim_count r) (status r) now_ms) (\<lambda>d.
     let db = db\<lparr>runtime_jobs := sql_update (\<lambda>q. job_id q = job_id r) (reclaimed_row now_ms d) (runtime_jobs db)\<rparr> in
     res_bind (insert_event ''append expired lease diagnostic failed'' (reclaim_event now_ms d r) db) (\<lambda>(_, db).
     if is_terminal (decision_status d)
     then res_bind (upsert_runtime_job_outbox_event (job_id r) RUNTIME_JOB_TERMINAL_EVENT db) (\<lambda>(_, db). Ok db)
     else Ok db)))"

definition reclaim_expired_runtime_job_leases :: "int \<Rightarrow> nat tx" where
  "reclaim_expired_runtime_job_leases now_ms db =
     (let expired_rows = expired_leases now_ms db in
      res_bind (fold_result (reclaim_one now_ms) db expired_rows) (\<lambda>db.
      Ok (length expired_rows, db)))"

section \<open>Effects\<close>

definition job_row :: "db \<Rightarrow> string \<Rightarrow> runtime_job_row option" where
  "job_row db j = sql_find (\<lambda>r. job_id r = j) (runtime_jobs db)"

lemma job_row_Some_iff:
  "unique_by job_id (runtime_jobs db) \<Longrightarrow> job_row db j = Some r \<longleftrightarrow> r \<in> set (runtime_jobs db) \<and> job_id r = j"
  by (simp add: job_row_def sql_find_unique)

lemma job_row_SomeD: "job_row db j = Some r \<Longrightarrow> r \<in> set (runtime_jobs db) \<and> job_id r = j"
  by (auto simp: job_row_def dest: sql_find_Some)

lemma lease_row_simps [simp]:
  "job_id (lease_row nonce req e r) = job_id r"
  "status (lease_row nonce req e r) = Leased"
  "job_kind (lease_row nonce req e r) = job_kind r"
  "idempotency_key (lease_row nonce req e r) = idempotency_key r"
  by (simp_all add: lease_row_def)

lemma claim_loop_db:
  "snd (claim_loop nonce req e js db) = db\<lparr>runtime_jobs :=
     sql_update (\<lambda>r. job_id r \<in> set js \<and> status r = Queued) (lease_row nonce req e) (runtime_jobs db)\<rparr>"
proof (induction js arbitrary: db)
  case Nil
  show ?case by (simp add: sql_update_def)
next
  case (Cons j js)
  have "sql_update (\<lambda>r. job_id r \<in> set js \<and> status r = Queued) (lease_row nonce req e)
      (sql_update (\<lambda>r. job_id r = j \<and> status r = Queued) (lease_row nonce req e) (runtime_jobs db)) =
    sql_update (\<lambda>r. job_id r \<in> set (j # js) \<and> status r = Queued) (lease_row nonce req e) (runtime_jobs db)"
    by (auto simp: sql_update_def)
  then show ?case by (simp add: Cons.IH Let_def case_prod_beta)
qed

lemma claim_due_effect:
  assumes "claim_due_runtime_jobs nonce req db = Ok (claimed, db')"
  obtains e js where "db' = db\<lparr>runtime_jobs :=
      sql_update (\<lambda>r. job_id r \<in> set js \<and> status r = Queued) (lease_row nonce req e) (runtime_jobs db)\<rparr>"
    and "js = map job_id (take (due_limit req) (sql_select (due_condition req) job_order (runtime_jobs db)))"
    and "load_runtime_jobs_by_ids (fst (claim_loop nonce req e js db)) db' = Ok claimed"
    and "int (due_lease_ms req) \<le> i64_max" and "e = i64_saturating_add (due_now_ms req) (int (due_lease_ms req))"
proof -
  let ?e = "i64_saturating_add (due_now_ms req) (int (due_lease_ms req))"
  let ?js = "map job_id (take (due_limit req) (sql_select (due_condition req) job_order (runtime_jobs db)))"
  have "db' = snd (claim_loop nonce req ?e ?js db)"
    and "load_runtime_jobs_by_ids (fst (claim_loop nonce req ?e ?js db)) db' = Ok claimed"
    and "int (due_lease_ms req) \<le> i64_max"
    using assms by (auto simp: claim_due_runtime_jobs_def result_simps Let_def ok_or_def i64_try_from_def
      case_prod_beta split: if_splits option.splits)
  then show ?thesis using that by (simp add: claim_loop_db)
qed

lemma upsert_outbox_Ok [simp]:
  "upsert_runtime_job_outbox_event j etype db = Ok (u, db') \<longleftrightarrow>
     j \<in> job_id ` set (runtime_jobs db) \<and>
     db' = db\<lparr>runtime_job_outbox := outbox_upsert j etype (runtime_job_outbox db)\<rparr>"
  by (auto simp: upsert_runtime_job_outbox_event_def)

lemma update_jobs_Ok [simp]:
  "update_jobs err P f db = Ok (u, db') \<longleftrightarrow>
     (\<exists>r \<in> set (runtime_jobs db). P r) \<and> db' = db\<lparr>runtime_jobs := sql_update P f (runtime_jobs db)\<rparr>"
  by (auto simp: update_jobs_def sql_count_eq_0)

lemma insert_event_Ok [simp]:
  "insert_event err ev db = Ok (u, db') \<longleftrightarrow>
     event_id ev \<notin> event_id ` set (runtime_events db) \<and> db' = db\<lparr>runtime_events := runtime_events db @ [ev]\<rparr>"
  by (auto simp: insert_event_def) (metis imageI)

lemma held_job_id: "held j tok now r \<Longrightarrow> r \<in> set rows \<Longrightarrow> j \<in> job_id ` set rows"
  by (auto simp: held_def)

lemma complete_effect:
  "complete_runtime_job req db = Ok (u, db') \<longleftrightarrow>
     (\<exists>r \<in> set (runtime_jobs db). held (complete_job_id req) (complete_lease_owner req) (completed_at_ms req) r) \<and>
     db' = db\<lparr>runtime_jobs := sql_update (held (complete_job_id req) (complete_lease_owner req) (completed_at_ms req))
         (completed_row req) (runtime_jobs db),
       runtime_job_outbox := outbox_upsert (complete_job_id req) RUNTIME_JOB_TERMINAL_EVENT (runtime_job_outbox db)\<rparr>"
  by (auto simp: complete_runtime_job_def complete_runtime_job_conn_def result_simps key_image_sql_update
      completed_row_def dest: held_job_id)

lemma fail_conn_effect:
  "fail_runtime_job_conn req db = Ok (u, db') \<longleftrightarrow>
     (\<exists>st run_at. fail_target req = Ok (st, run_at) \<and>
       (\<exists>r \<in> set (runtime_jobs db). held (fail_job_id req) (fail_lease_owner req) (failed_at_ms req) r) \<and>
       db' = db\<lparr>runtime_jobs := sql_update (held (fail_job_id req) (fail_lease_owner req) (failed_at_ms req))
         (failed_row req st run_at) (runtime_jobs db)\<rparr>)"
  by (auto simp: fail_runtime_job_conn_def result_simps)

lemma fail_effect:
  "fail_runtime_job req db = Ok (u, db') \<longleftrightarrow>
     (\<exists>st run_at. fail_target req = Ok (st, run_at) \<and>
       (\<exists>r \<in> set (runtime_jobs db). held (fail_job_id req) (fail_lease_owner req) (failed_at_ms req) r) \<and>
       db' = db\<lparr>runtime_jobs := sql_update (held (fail_job_id req) (fail_lease_owner req) (failed_at_ms req))
         (failed_row req st run_at) (runtime_jobs db),
         runtime_job_outbox := (if fail_disposition req \<noteq> RetryScheduled
           then outbox_upsert (fail_job_id req) RUNTIME_JOB_TERMINAL_EVENT (runtime_job_outbox db)
           else runtime_job_outbox db)\<rparr>)"
proof -
  have "job_id ` set (sql_update P (failed_row req st run_at) rows) = job_id ` set rows" for P st run_at rows
    by (rule key_image_sql_update) (simp add: failed_row_def)
  then show ?thesis
    by (auto simp: fail_runtime_job_def fail_conn_effect result_simps dest: held_job_id)
qed

lemma fail_target_status:
  "fail_target req = Ok (st, run_at) \<Longrightarrow>
     (fail_disposition req = RetryScheduled \<and> st = Queued \<and> next_run_at_ms req = Some run_at) \<or>
     (fail_disposition req = FailedFinally \<and> st = Failed) \<or>
     (fail_disposition req = DeadLetteredFinally \<and> st = DeadLettered)"
  by (auto simp: fail_target_def result_simps ok_or_def split: RuntimeJobFailureDisposition.splits option.splits)

lemma cancel_conn_effect:
  "cancel_runtime_job_conn req db = Ok (u, db') \<longleftrightarrow>
     (\<exists>r \<in> set (runtime_jobs db). cancel_condition req r) \<and>
     db' = db\<lparr>runtime_jobs := sql_update (cancel_condition req) (cancelled_row req) (runtime_jobs db)\<rparr>"
  by (simp add: cancel_runtime_job_conn_def)

lemma reclaim_one_effect:
  assumes "reclaim_one now db r = Ok db'"
  obtains d where "decide default_lease_reclaim_policy (job_id r) (lease_reclaim_count r) (status r) now = Ok d"
    and "event_id (reclaim_event now d r) \<notin> event_id ` set (runtime_events db)"
    and "db' = db\<lparr>runtime_jobs := sql_update (\<lambda>q. job_id q = job_id r) (reclaimed_row now d) (runtime_jobs db),
      runtime_events := runtime_events db @ [reclaim_event now d r],
      runtime_job_outbox := (if is_terminal (decision_status d)
        then outbox_upsert (job_id r) RUNTIME_JOB_TERMINAL_EVENT (runtime_job_outbox db)
        else runtime_job_outbox db)\<rparr>"
  using assms by (fastforce simp: reclaim_one_def result_simps Let_def split: if_splits)

lemma consume_wake_Ok [simp]:
  "consume_wake req session db i = Ok db' \<longleftrightarrow>
     event_id (wake_consumed_event req session i) \<notin> event_id ` set (runtime_events db) \<and>
     db' = db\<lparr>runtime_events := runtime_events db @ [wake_consumed_event req session i]\<rparr>"
  by (auto simp: consume_wake_def result_simps)

lemma consume_wakes_effect:
  assumes "fold_result (consume_wake req session) db ids = Ok db'"
  shows "db' = db\<lparr>runtime_events := runtime_events db @ map (wake_consumed_event req session) ids\<rparr>"
    and "unique_by event_id (runtime_events db) \<Longrightarrow> unique_by event_id (runtime_events db')"
  using assms
proof (induction ids arbitrary: db)
  case (Cons i ids)
  {
    case 1
    then show ?case by (auto simp: result_simps dest!: Cons.IH(1))
  next
    case 2
    then show ?case by (auto simp: result_simps dest!: Cons.IH(2) [rotated])
  }
qed simp_all

lemma yield_effect:
  assumes "yield_runtime_job req db = Ok (u, db')"
  obtains (replay) job where "sql_find (\<lambda>r. job_id r = yield_job_id req) (runtime_jobs db) = Some job"
      "status job = Queued" "db' = db"
  | (released) job run_at where "sql_find (\<lambda>r. job_id r = yield_job_id req) (runtime_jobs db) = Some job"
      "held (yield_job_id req) (yield_lease_owner req) (yielded_at_ms req) job"
      "run_at = (if pending_wakes (yield_job_id req) (runtime_events db) = [] then yield_run_at_ms req else yielded_at_ms req)"
      "event_id (yield_event req (session_id job)) \<notin> event_id ` set (runtime_events db)"
      "db' = db\<lparr>runtime_jobs := sql_update (held (yield_job_id req) (yield_lease_owner req) (yielded_at_ms req))
           (\<lambda>r. r\<lparr>status := Queued, run_at_ms := run_at, updated_at_ms := yielded_at_ms req,
              lease_owner := None, lease_expires_at_ms := None, heartbeat_at_ms := None\<rparr>) (runtime_jobs db),
         runtime_events := runtime_events db @ yield_event req (session_id job) #
           map (wake_consumed_event req (session_id job)) (map event_id (pending_wakes (yield_job_id req) (runtime_events db)))\<rparr>"
      "unique_by event_id (runtime_events db) \<longrightarrow> unique_by event_id (runtime_events db')"
proof -
  from assms obtain job where job: "sql_find (\<lambda>r. job_id r = yield_job_id req) (runtime_jobs db) = Some job"
    and branch: "(if status job = Queued \<and> lease_owner job = None then yield_replay req db else yield_lease req job db) = Ok (u, db')"
    by (auto simp: yield_runtime_job_def result_simps ok_or_def split: option.splits)
  show ?thesis
  proof (cases "status job = Queued \<and> lease_owner job = None")
    case True
    with branch have "db' = db" by (auto simp: yield_replay_def split: option.splits if_splits)
    with job True show ?thesis using replay by blast
  next
    case False
    let ?upd = "\<lambda>run_at. db\<lparr>runtime_jobs := sql_update (held (yield_job_id req) (yield_lease_owner req) (yielded_at_ms req))
           (\<lambda>r. r\<lparr>status := Queued, run_at_ms := run_at, updated_at_ms := yielded_at_ms req,
              lease_owner := None, lease_expires_at_ms := None, heartbeat_at_ms := None\<rparr>) (runtime_jobs db),
            runtime_events := runtime_events db @ [yield_event req (session_id job)]\<rparr>"
    let ?run = "if pending_wakes (yield_job_id req) (runtime_events db) = [] then yield_run_at_ms req else yielded_at_ms req"
    from branch False have h: "held (yield_job_id req) (yield_lease_owner req) (yielded_at_ms req) job"
      and ev: "event_id (yield_event req (session_id job)) \<notin> event_id ` set (runtime_events db)"
      and f: "fold_result (consume_wake req (session_id job)) (?upd ?run)
          (map event_id (pending_wakes (yield_job_id req) (runtime_events db))) = Ok db'"
      by (auto simp: yield_lease_def Let_def result_simps split: if_splits)
    have "unique_by event_id (runtime_events db) \<Longrightarrow> unique_by event_id (runtime_events db')"
      using consume_wakes_effect(2) [OF f] ev by simp
    with consume_wakes_effect(1) [OF f] show ?thesis
      by (intro released [OF job h refl ev]) auto
  qed
qed

lemma wake_effect:
  assumes "wake_runtime_job req db = Ok (v, db')"
  obtains job db1 where "sql_find (\<lambda>r. job_id r = wake_job_id req) (runtime_jobs db) = Some job"
    and "(db1 = db \<and> (\<exists>e \<in> set (runtime_events db). event_id e = wake_event_id req \<and> payload_json e = wake_payload req)) \<or>
      (wake_event_id req \<notin> event_id ` set (runtime_events db) \<and>
       db1 = db\<lparr>runtime_events := runtime_events db @ [wake_event req (session_id job)]\<rparr>)"
    and "runtime_jobs db1 = runtime_jobs db" and "wake_row req job db1 = Ok (v, db')"
proof -
  from assms obtain job where job: "sql_find (\<lambda>r. job_id r = wake_job_id req) (runtime_jobs db) = Some job"
    by (auto simp: wake_runtime_job_def result_simps ok_or_def split: option.splits)
  show ?thesis
  proof (cases "sql_find (\<lambda>e. event_id e = wake_event_id req) (runtime_events db)")
    case None
    then have "wake_event_id req \<notin> event_id ` set (runtime_events db)"
      using sql_find_None [of "\<lambda>e. event_id e = wake_event_id req"] by (metis (mono_tags, lifting) imageE)
    moreover have "wake_row req job (db\<lparr>runtime_events := runtime_events db @ [wake_event req (session_id job)]\<rparr>) = Ok (v, db')"
      using None assms job by (auto simp: wake_runtime_job_def result_simps)
    ultimately show ?thesis using that [OF job] by fastforce
  next
    case (Some e)
    then have "wake_row req job db = Ok (v, db')" and "payload_json e = wake_payload req"
      using assms job by (auto simp: wake_runtime_job_def result_simps split: if_splits)
    with sql_find_Some [OF Some] show ?thesis using that [OF job] by blast
  qed
qed

lemma wake_row_effect:
  assumes "wake_row req job db = Ok (v, db')"
  obtains (unchanged) "db' = db"
  | (moved) wake_at where "status job = Queued" "wake_at < run_at_ms job" "woken_at_ms req \<le> wake_at"
      "\<And>t. lease_reclaim_not_before_ms job = Some t \<Longrightarrow> t \<le> wake_at" "v = Woken"
      "db' = db\<lparr>runtime_jobs := sql_update
          (\<lambda>r. job_id r = wake_job_id req \<and> status r = Queued \<and> wake_at < run_at_ms r)
          (\<lambda>r. r\<lparr>run_at_ms := wake_at, updated_at_ms := woken_at_ms req\<rparr>) (runtime_jobs db)\<rparr>"
proof -
  let ?at = "max (woken_at_ms req) (case lease_reclaim_not_before_ms job of Some t \<Rightarrow> t | None \<Rightarrow> woken_at_ms req)"
  show ?thesis
  proof (cases "status job = Queued \<and> ?at < run_at_ms job")
    case True
    with assms show ?thesis by (intro moved [of ?at]) (auto simp: wake_row_def Let_def)
  next
    case False
    with assms show ?thesis by (intro unchanged) (auto simp: wake_row_def Let_def split: if_splits)
  qed
qed

lemma idempotent_append_effect:
  assumes "append_event_conn_idempotent ev db = Ok (b, db')"
  shows "db' = db\<lparr>runtime_events := if b then runtime_events db @ [ev] else runtime_events db\<rparr>"
    and "b \<longleftrightarrow> event_id ev \<notin> event_id ` set (runtime_events db)"
proof -
  have none: "sql_find (\<lambda>e. event_id e = event_id ev) (runtime_events db) = None \<longleftrightarrow>
      event_id ev \<notin> event_id ` set (runtime_events db)"
    using sql_find_None [of "\<lambda>e. event_id e = event_id ev" "runtime_events db"] by (metis (no_types, lifting) image_iff)
  show "db' = db\<lparr>runtime_events := if b then runtime_events db @ [ev] else runtime_events db\<rparr>"
    and "b \<longleftrightarrow> event_id ev \<notin> event_id ` set (runtime_events db)"
    using assms none by (auto simp: append_event_conn_idempotent_def split: option.splits if_splits)
qed

lemma shutdown_effect:
  assumes "cancel_for_service_shutdown req db = Ok (u, db')"
  obtains evs where "\<exists>r \<in> set (runtime_jobs db). cancel_condition req r"
    and "evs = runtime_events db \<or> (\<exists>e. evs = runtime_events db @ [e] \<and>
      event_id e = ''local_service_stop:'' @ cancel_job_id req \<and> event_type e = ''local_runtime.service_stop.v1'' \<and>
      event_id e \<notin> event_id ` set (runtime_events db))"
    and "db' = db\<lparr>runtime_jobs := sql_update (cancel_condition req) (cancelled_row req) (runtime_jobs db),
      runtime_events := evs,
      runtime_job_outbox := outbox_upsert (cancel_job_id req) RUNTIME_JOB_TERMINAL_EVENT (runtime_job_outbox db)\<rparr>"
proof -
  let ?db1 = "db\<lparr>runtime_jobs := sql_update (cancel_condition req) (cancelled_row req) (runtime_jobs db)\<rparr>"
  from assms obtain session task b db2 where c: "\<exists>r \<in> set (runtime_jobs db). cancel_condition req r"
    and app: "append_event_conn_idempotent (service_stop_event req session task) ?db1 = Ok (b, db2)"
    and db': "db' = db2\<lparr>runtime_job_outbox := outbox_upsert (cancel_job_id req) RUNTIME_JOB_TERMINAL_EVENT (runtime_job_outbox db2)\<rparr>"
    by (auto simp: cancel_for_service_shutdown_def cancel_conn_effect result_simps)
  show ?thesis
    using idempotent_append_effect [OF app] db'
    by (intro that [OF c, of "runtime_events db2"]) (auto simp: service_stop_event_def)
qed

end
