(* ===== verification/DeadLetters.thy ===== *)
theory DeadLetters
  imports JobStore
begin

text \<open>
  Dead letters of the SQLite store (\<open>impl DeadLetterStorePort\<close> in
  \<open>runtime_sqlite/src/sqlite_store/sqlite_reliability.rs\<close>) and the combined dead letter and job
  failure transaction of \<open>sqlite_transactions.rs\<close>.
\<close>

datatype CreateDeadLetterDisposition = DeadLetterInserted | DeadLetterExisting

record CreateDeadLetterResult =
  create_disposition :: CreateDeadLetterDisposition
  create_dead_letter_record :: DeadLetterRecord

record ListDeadLettersRequest =
  dl_list_statuses :: "DeadLetterStatus list"
  dl_list_job_kind :: "string option"
  dl_list_session_id :: "string option"
  dl_list_branch_id :: "string option"
  dl_list_limit :: nat
  dl_list_offset :: nat

record ReplayDeadLetterRequest =
  replay_dead_letter_id :: string
  replay_job :: RuntimeJobRecord
  replayed_at_ms :: int

definition row_to_dead_letter :: "DeadLetterRecord \<Rightarrow> DeadLetterRecord result" where
  "row_to_dead_letter row = res_bind (ensure (attempts row \<le> u32_max) (conversion_error 11)) (\<lambda>_. Ok row)"

definition insert_dead_letter_record :: "DeadLetterRecord \<Rightarrow> bool tx" where
  "insert_dead_letter_record rec db =
     (if \<exists>d \<in> set (dead_letters db). dead_letter_id d = dead_letter_id rec \<or> original_job_id d = original_job_id rec
      then Ok (False, db)
      else Ok (True, db\<lparr>dead_letters := dead_letters db @ [rec]\<rparr>))"

definition load_dead_letter :: "string \<Rightarrow> DeadLetterRecord option \<Rightarrow> DeadLetterRecord option result" where
  "load_dead_letter what found = (case found of None \<Rightarrow> Ok None
     | Some row \<Rightarrow> res_bind (map_err (\<lambda>e. ''query '' @ what @ '' failed: '' @ e) (row_to_dead_letter row)) (\<lambda>d. Ok (Some d)))"

definition load_dead_letter_by_id :: "string \<Rightarrow> db \<Rightarrow> DeadLetterRecord option result" where
  "load_dead_letter_by_id i db =
     load_dead_letter ''load_dead_letter_by_id'' (sql_find (\<lambda>d. dead_letter_id d = i) (dead_letters db))"

definition load_dead_letter_by_original_job :: "string \<Rightarrow> db \<Rightarrow> DeadLetterRecord option result" where
  "load_dead_letter_by_original_job j db =
     load_dead_letter ''load_dead_letter_by_original_job'' (sql_find (\<lambda>d. original_job_id d = j) (dead_letters db))"

definition list_dead_letters_with_filters :: "ListDeadLettersRequest \<Rightarrow> db \<Rightarrow> DeadLetterRecord list result" where
  "list_dead_letters_with_filters req db =
     (let conditions = (\<lambda>d.
        (dl_list_statuses req = [] \<or> dl_status d \<in> set (dl_list_statuses req)) \<and>
        (case dl_list_job_kind req of None \<Rightarrow> True | Some k \<Rightarrow> dl_job_kind d = k) \<and>
        (case dl_list_session_id req of None \<Rightarrow> True | Some s \<Rightarrow> dl_session_id d = Some s) \<and>
        (case dl_list_branch_id req of None \<Rightarrow> True | Some b \<Rightarrow> dl_branch_id d = Some b)) in
      res_bind (to_i64 (dl_list_limit req)) (\<lambda>_.
      res_bind (to_i64 (dl_list_offset req)) (\<lambda>_.
      map_result (\<lambda>d. map_err (\<lambda>e. ''decode list_dead_letters row failed: '' @ e) (row_to_dead_letter d))
        (sql_page (dl_list_limit req) (dl_list_offset req)
          (rev (sql_select conditions (\<lambda>d. (last_failed_at_ms d, dead_letter_id d)) (dead_letters db)))))))"

definition existing_dead_letter :: "string \<Rightarrow> DeadLetterRecord \<Rightarrow> bool \<Rightarrow> db \<Rightarrow> CreateDeadLetterResult result" where
  "existing_dead_letter what rec inserted db =
     (if inserted then Ok \<lparr>create_disposition = DeadLetterInserted, create_dead_letter_record = rec\<rparr>
      else res_bind (load_dead_letter_by_original_job (original_job_id rec) db) (\<lambda>found.
        res_bind (ok_or (what @ '' existing row missing original_job_id='' @ original_job_id rec) found) (\<lambda>d.
        Ok \<lparr>create_disposition = DeadLetterExisting, create_dead_letter_record = d\<rparr>)))"

definition create_dead_letter :: "DeadLetterRecord \<Rightarrow> CreateDeadLetterResult tx" where
  "create_dead_letter rec db =
     res_bind (insert_dead_letter_record rec db) (\<lambda>(inserted, db).
     res_bind (existing_dead_letter ''create_dead_letter'' rec inserted db) (\<lambda>result. Ok (result, db)))"

definition update_dead_letters :: "string \<Rightarrow> string \<Rightarrow> DeadLetterStatus \<Rightarrow>
    (DeadLetterRecord \<Rightarrow> DeadLetterRecord) \<Rightarrow> unit tx" where
  "update_dead_letters err i from_status f db =
     (let this_row = (\<lambda>d. dead_letter_id d = i \<and> dl_status d = from_status) in
      if sql_count this_row (dead_letters db) = 0 then Err (err @ i)
      else Ok ((), db\<lparr>dead_letters := sql_update this_row f (dead_letters db)\<rparr>))"

definition mark_dead_letter_replaying :: "string \<Rightarrow> int \<Rightarrow> unit tx" where
  "mark_dead_letter_replaying i now = update_dead_letters
     ''mark_dead_letter_replaying not found or not open: '' i Open
     (\<lambda>d. d\<lparr>dl_status := Replaying, dl_updated_at_ms := now\<rparr>)"

definition mark_dead_letter_replayed :: "string \<Rightarrow> string option \<Rightarrow> int \<Rightarrow> unit tx" where
  "mark_dead_letter_replayed i replayed now = update_dead_letters
     ''mark_dead_letter_replayed not found or not replaying: '' i Replaying
     (\<lambda>d. d\<lparr>dl_status := Replayed, replayed_job_id := replayed, dl_updated_at_ms := now\<rparr>)"

definition dismiss_dead_letter :: "string \<Rightarrow> string \<Rightarrow> string \<Rightarrow> int \<Rightarrow> unit tx" where
  "dismiss_dead_letter i who why now = update_dead_letters
     ''dismiss_dead_letter not found or not open: '' i Open
     (\<lambda>d. d\<lparr>dl_status := Dismissed, dismissed_by := Some who, dismissed_reason := Some why,
            dl_updated_at_ms := now\<rparr>)"

definition replay_dead_letter :: "ReplayDeadLetterRequest \<Rightarrow> ScheduleRuntimeJobResult tx" where
  "replay_dead_letter req db =
     (let i = replay_dead_letter_id req in
      res_bind (load_dead_letter_by_id i db) (\<lambda>found.
      res_bind (ok_or (''replay_dead_letter not found: '' @ i) found) (\<lambda>d.
      res_bind (ensure (dl_status d = Open) (''replay_dead_letter requires open status: '' @ i)) (\<lambda>_.
      res_bind (ensure (dl_job_kind d = job_kind (replay_job req))
        (''replay_dead_letter job_kind mismatch: dead_letter='' @ dl_job_kind d @ '' replay_job='' @ job_kind (replay_job req))) (\<lambda>_.
      res_bind (ensure (dl_idempotency_key d \<noteq> idempotency_key (replay_job req))
        (''replay_dead_letter requires a new runtime job idempotency_key: '' @ i)) (\<lambda>_.
      res_bind (schedule_with ''replay_dead_letter'' (replay_job req) db) (\<lambda>(result, db).
      res_bind (update_dead_letters ''replay_dead_letter not found or not open: '' i Open
        (\<lambda>d. d\<lparr>dl_status := Replayed, replayed_job_id := Some (job_id (schedule_job result)),
               dl_updated_at_ms := replayed_at_ms req\<rparr>) db) (\<lambda>(_, db).
      Ok (result, db)))))))))"

definition create_dead_letter_and_fail_job ::
    "DeadLetterRecord \<Rightarrow> FailRuntimeJobRequest \<Rightarrow> CreateDeadLetterResult tx" where
  "create_dead_letter_and_fail_job rec fail_job db =
     res_bind (insert_dead_letter_record rec db) (\<lambda>(inserted, db).
     res_bind (fail_runtime_job_conn fail_job db) (\<lambda>(_, db).
     res_bind (if fail_disposition fail_job \<noteq> RetryScheduled
               then upsert_runtime_job_outbox_event (fail_job_id fail_job) RUNTIME_JOB_TERMINAL_EVENT db
               else Ok ((), db)) (\<lambda>(_, db).
     res_bind (existing_dead_letter ''create_dead_letter_and_fail_job'' rec inserted db) (\<lambda>result.
     Ok (result, db)))))"

section \<open>Effects\<close>

lemma dead_letter_and_fail_effect:
  assumes "create_dead_letter_and_fail_job rec req db = Ok (v, db')"
  obtains db1 inserted where "insert_dead_letter_record rec db = Ok (inserted, db1)"
    and "fail_runtime_job req db1 = Ok ((), db')"
  using assms
  by (fastforce simp: create_dead_letter_and_fail_job_def fail_runtime_job_def result_simps split: if_splits)

lemma insert_dead_letter_effect:
  "insert_dead_letter_record rec db = Ok (inserted, db') \<longleftrightarrow>
     (inserted \<longleftrightarrow> dead_letter_id rec \<notin> dead_letter_id ` set (dead_letters db) \<and>
        original_job_id rec \<notin> original_job_id ` set (dead_letters db)) \<and>
     db' = (if inserted then db\<lparr>dead_letters := dead_letters db @ [rec]\<rparr> else db)"
  by (auto simp: insert_dead_letter_record_def image_iff split: if_splits) (metis)+

lemma replay_effect:
  assumes "replay_dead_letter req db = Ok (v, db')"
  obtains db1 d where "schedule_with ''replay_dead_letter'' (replay_job req) db = Ok (v, db1)"
    and "d \<in> set (dead_letters db)" and "dead_letter_id d = replay_dead_letter_id req" and "dl_status d = Open"
    and "dl_job_kind d = job_kind (replay_job req)" and "dl_idempotency_key d \<noteq> idempotency_key (replay_job req)"
    and "db' = db1\<lparr>dead_letters := sql_update (\<lambda>d. dead_letter_id d = replay_dead_letter_id req \<and> dl_status d = Open)
        (\<lambda>d. d\<lparr>dl_status := Replayed, replayed_job_id := Some (job_id (schedule_job v)),
               dl_updated_at_ms := replayed_at_ms req\<rparr>) (dead_letters db1)\<rparr>"
proof -
  from assms obtain d where load: "load_dead_letter_by_id (replay_dead_letter_id req) db = Ok (Some d)"
    by (auto simp: replay_dead_letter_def result_simps Let_def ok_or_def split: option.splits)
  then have "sql_find (\<lambda>d. dead_letter_id d = replay_dead_letter_id req) (dead_letters db) = Some d"
    by (auto simp: load_dead_letter_by_id_def load_dead_letter_def row_to_dead_letter_def result_simps split: option.splits)
  note d = sql_find_Some [OF this]
  show ?thesis
    using assms d load
    by (auto simp: replay_dead_letter_def update_dead_letters_def result_simps Let_def split: if_splits intro!: that [of _ d])
qed

end
