(* ===== verification/ResourceClaims.thy ===== *)
theory ResourceClaims
  imports RuntimeDb
begin

text \<open>
  Resource claims of the SQLite store (\<open>impl ResourceClaimStorePort\<close> in
  \<open>runtime_sqlite/src/sqlite_store/sqlite_reliability.rs\<close>): an expiring, exclusive claim per
  resource kind and key.
\<close>

datatype AcquireResourceClaimDisposition = Acquired | AlreadyOwned | Conflict

record AcquireResourceClaimRequest =
  acquire_resource_kind :: string
  acquire_resource_key :: string
  acquire_owner :: string
  acquire_owner_kind :: string
  acquire_session_id :: "string option"
  acquire_branch_id :: "string option"
  acquire_now_ms :: int
  ttl_ms :: nat
  acquire_metadata_json :: string

record AcquireResourceClaimResult =
  acquire_disposition :: AcquireResourceClaimDisposition
  acquire_claim :: ResourceClaimRecord

record ReleaseResourceClaimRequest =
  release_resource_kind :: string
  release_resource_key :: string
  release_owner :: string
  released_at_ms :: int

definition claim_key :: "ResourceClaimRecord \<Rightarrow> string \<times> string" where
  "claim_key c = (resource_kind c, resource_key c)"

definition load_resource_claim :: "string \<Rightarrow> string \<Rightarrow> db \<Rightarrow> ResourceClaimRecord option" where
  "load_resource_claim kind key db = sql_find (\<lambda>c. claim_key c = (kind, key)) (resource_claims db)"

definition refresh_claim :: "AcquireResourceClaimRequest \<Rightarrow> int \<Rightarrow> ResourceClaimRecord \<Rightarrow> ResourceClaimRecord" where
  "refresh_claim req expires c = c\<lparr>expires_at_ms := expires, metadata_json := acquire_metadata_json req,
     claim_updated_at_ms := acquire_now_ms req\<rparr>"

definition take_over_claim :: "AcquireResourceClaimRequest \<Rightarrow> int \<Rightarrow> ResourceClaimRecord \<Rightarrow> ResourceClaimRecord" where
  "take_over_claim req expires c = c\<lparr>owner := acquire_owner req, owner_kind := acquire_owner_kind req,
     claim_session_id := acquire_session_id req, claim_branch_id := acquire_branch_id req,
     expires_at_ms := expires, metadata_json := acquire_metadata_json req,
     claim_updated_at_ms := acquire_now_ms req\<rparr>"

definition new_claim :: "AcquireResourceClaimRequest \<Rightarrow> int \<Rightarrow> ResourceClaimRecord" where
  "new_claim req expires =
     \<lparr>resource_kind = acquire_resource_kind req, resource_key = acquire_resource_key req,
      owner = acquire_owner req, owner_kind = acquire_owner_kind req,
      claim_session_id = acquire_session_id req, claim_branch_id = acquire_branch_id req,
      expires_at_ms = expires, metadata_json = acquire_metadata_json req,
      claim_created_at_ms = acquire_now_ms req, claim_updated_at_ms = acquire_now_ms req\<rparr>"

definition upsert_claim :: "AcquireResourceClaimRequest \<Rightarrow> int \<Rightarrow> ResourceClaimRecord list \<Rightarrow> ResourceClaimRecord list" where
  "upsert_claim req expires rows =
     (let this_row = (\<lambda>c. claim_key c = (acquire_resource_kind req, acquire_resource_key req)) in
      if sql_count this_row rows = 0 then rows @ [new_claim req expires]
      else sql_update this_row (take_over_claim req expires) rows)"

definition acquire_resource_claim :: "AcquireResourceClaimRequest \<Rightarrow> AcquireResourceClaimResult tx" where
  "acquire_resource_claim req db =
     res_bind (ok_or (''resource claim ttl_ms overflow: '' @ show_nat (ttl_ms req)) (i64_try_from (ttl_ms req))) (\<lambda>ttl.
     let expires = i64_saturating_add (acquire_now_ms req) ttl;
         kind = acquire_resource_kind req; key = acquire_resource_key req;
         acquired = (\<lambda>_::unit.
           let db' = db\<lparr>resource_claims := upsert_claim req expires (resource_claims db)\<rparr> in
           res_bind (ok_or (''acquire_resource_claim inserted row missing kind='' @ kind @ '' key='' @ key)
             (load_resource_claim kind key db')) (\<lambda>claim.
           Ok (\<lparr>acquire_disposition = Acquired, acquire_claim = claim\<rparr>, db')))
     in case load_resource_claim kind key db of
          Some claim \<Rightarrow>
            if acquire_now_ms req < expires_at_ms claim \<and> owner claim \<noteq> acquire_owner req
            then Ok (\<lparr>acquire_disposition = Conflict, acquire_claim = claim\<rparr>, db)
            else if acquire_now_ms req < expires_at_ms claim
            then (let mine = (\<lambda>c. claim_key c = (kind, key) \<and> owner c = acquire_owner req) in
              if sql_count mine (resource_claims db) = 0
              then Err (''refresh resource claim lost row: kind='' @ kind @ '' key='' @ key)
              else Ok (\<lparr>acquire_disposition = AlreadyOwned, acquire_claim = refresh_claim req expires claim\<rparr>,
                       db\<lparr>resource_claims := sql_update mine (refresh_claim req expires) (resource_claims db)\<rparr>))
            else acquired ()
        | None \<Rightarrow> acquired ())"

definition release_resource_claim :: "ReleaseResourceClaimRequest \<Rightarrow> bool tx" where
  "release_resource_claim req db =
     (let mine = (\<lambda>c. claim_key c = (release_resource_kind req, release_resource_key req) \<and>
            owner c = release_owner req)
      in Ok (0 < sql_count mine (resource_claims db),
             db\<lparr>resource_claims := sql_delete mine (resource_claims db)\<rparr>))"

definition reclaim_expired_resource_claims :: "int \<Rightarrow> nat tx" where
  "reclaim_expired_resource_claims now_ms db =
     (let gone = (\<lambda>c. expires_at_ms c \<le> now_ms)
      in Ok (sql_count gone (resource_claims db),
             db\<lparr>resource_claims := sql_delete gone (resource_claims db)\<rparr>))"

section \<open>Effects\<close>

lemma acquire_effect:
  assumes "acquire_resource_claim req db = Ok (v, db')"
  obtains (conflict) c where "load_resource_claim (acquire_resource_kind req) (acquire_resource_key req) db = Some c"
      "acquire_now_ms req < expires_at_ms c" "owner c \<noteq> acquire_owner req"
      "v = \<lparr>acquire_disposition = Conflict, acquire_claim = c\<rparr>" "db' = db"
  | (owned) c e where "load_resource_claim (acquire_resource_kind req) (acquire_resource_key req) db = Some c"
      "acquire_now_ms req < expires_at_ms c" "owner c = acquire_owner req"
      "v = \<lparr>acquire_disposition = AlreadyOwned, acquire_claim = refresh_claim req e c\<rparr>"
      "e = i64_saturating_add (acquire_now_ms req) (int (ttl_ms req))"
      "db' = db\<lparr>resource_claims := sql_update (\<lambda>c. claim_key c = (acquire_resource_kind req, acquire_resource_key req) \<and>
          owner c = acquire_owner req) (refresh_claim req e) (resource_claims db)\<rparr>"
  | (acquired) c' e where
      "\<And>c. load_resource_claim (acquire_resource_kind req) (acquire_resource_key req) db = Some c \<Longrightarrow>
         expires_at_ms c \<le> acquire_now_ms req"
      "v = \<lparr>acquire_disposition = Acquired, acquire_claim = c'\<rparr>"
      "load_resource_claim (acquire_resource_kind req) (acquire_resource_key req) db' = Some c'"
      "e = i64_saturating_add (acquire_now_ms req) (int (ttl_ms req))"
      "db' = db\<lparr>resource_claims := upsert_claim req e (resource_claims db)\<rparr>"
proof -
  let ?load = "load_resource_claim (acquire_resource_kind req) (acquire_resource_key req)"
  have ttl: "i64_try_from (ttl_ms req) = Some (int (ttl_ms req))"
    using assms by (auto simp: acquire_resource_claim_def result_simps ok_or_def i64_try_from_def split: if_splits option.splits)
  note unfolded = assms [unfolded acquire_resource_claim_def ttl, simplified, unfolded Let_def]
  show ?thesis
  proof (cases "\<exists>c. ?load db = Some c \<and> acquire_now_ms req < expires_at_ms c")
    case True
    then obtain c where c: "?load db = Some c" "acquire_now_ms req < expires_at_ms c" by blast
    show ?thesis
    proof (cases "owner c = acquire_owner req")
      case True
      with unfolded c show ?thesis by (intro owned [OF c True _ refl]) (auto split: if_splits)
    next
      case False
      with unfolded c show ?thesis by (intro conflict [OF c False]) auto
    qed
  next
    case False
    with unfolded show ?thesis
      by (intro acquired [OF _ _ _ refl, of "acquire_claim v"])
        (auto simp: result_simps split: option.splits if_splits)
  qed
qed

end
