(* ===== verification/StoreMachine.thy ===== *)
theory StoreMachine
  imports DeadLetters ResourceClaims
begin

text \<open>
  The store as a state machine: every operation of the job, outbox, event, resource claim and dead
  letter ports as one atomic step on the database, and the life cycle of a single job row as a step
  relation that the store's operations refine.
\<close>

section \<open>Operations\<close>

datatype store_op =
    Schedule RuntimeJobRecord
  | Claim "string \<Rightarrow> string" ClaimDueRuntimeJobsRequest
  | Start StartRuntimeJobRequest
  | Renew RenewRuntimeJobLeaseRequest
  | Yield YieldRuntimeJobRequest
  | Wake WakeRuntimeJobRequest
  | Complete CompleteRuntimeJobRequest
  | Fail FailRuntimeJobRequest
  | Cancel CancelRuntimeJobRequest
  | CancelForShutdown CancelRuntimeJobRequest
  | ReclaimLeases int
  | MarkPublished string string nat int
  | AppendEvent RuntimeEvent
  | AppendEventIdempotent RuntimeEvent
  | CreateDeadLetter DeadLetterRecord
  | CreateDeadLetterAndFail DeadLetterRecord FailRuntimeJobRequest
  | MarkReplaying string int
  | MarkReplayed string "string option" int
  | ReplayDeadLetter ReplayDeadLetterRequest
  | DismissDeadLetter string string string int
  | AcquireClaim AcquireResourceClaimRequest
  | ReleaseClaim ReleaseResourceClaimRequest
  | ReclaimClaims int

definition discard :: "'a tx \<Rightarrow> unit tx" where
  "discard f db = res_bind (f db) (\<lambda>(_, db'). Ok ((), db'))"

fun store_tx :: "store_op \<Rightarrow> unit tx" where
  "store_tx (Schedule job) = discard (schedule_runtime_job job)"
| "store_tx (Claim nonce req) = discard (claim_due_runtime_jobs nonce req)"
| "store_tx (Start req) = start_runtime_job req"
| "store_tx (Renew req) = renew_runtime_job_lease req"
| "store_tx (Yield req) = yield_runtime_job req"
| "store_tx (Wake req) = discard (wake_runtime_job req)"
| "store_tx (Complete req) = complete_runtime_job req"
| "store_tx (Fail req) = fail_runtime_job req"
| "store_tx (Cancel req) = cancel_runtime_job req"
| "store_tx (CancelForShutdown req) = cancel_for_service_shutdown req"
| "store_tx (ReclaimLeases now) = discard (reclaim_expired_runtime_job_leases now)"
| "store_tx (MarkPublished j etype gen now) = discard (mark_runtime_job_outbox_published j etype gen now)"
| "store_tx (AppendEvent ev) = append_event_conn ev"
| "store_tx (AppendEventIdempotent ev) = discard (append_event_conn_idempotent ev)"
| "store_tx (CreateDeadLetter rec) = discard (create_dead_letter rec)"
| "store_tx (CreateDeadLetterAndFail rec req) = discard (create_dead_letter_and_fail_job rec req)"
| "store_tx (MarkReplaying i now) = mark_dead_letter_replaying i now"
| "store_tx (MarkReplayed i j now) = mark_dead_letter_replayed i j now"
| "store_tx (ReplayDeadLetter req) = discard (replay_dead_letter req)"
| "store_tx (DismissDeadLetter i who why now) = dismiss_dead_letter i who why now"
| "store_tx (AcquireClaim req) = discard (acquire_resource_claim req)"
| "store_tx (ReleaseClaim req) = discard (release_resource_claim req)"
| "store_tx (ReclaimClaims now) = discard (reclaim_expired_resource_claims now)"

definition exec :: "store_op \<Rightarrow> db \<Rightarrow> db" where
  "exec op db = snd (commit_job_write (store_tx op) db)"

definition store_step :: "db \<Rightarrow> store_op \<Rightarrow> db \<Rightarrow> bool" where
  "store_step db op db' \<longleftrightarrow> db' = exec op db"

lemma exec_Ok: "store_tx op db = Ok (u, db') \<Longrightarrow> exec op db = db'"
  by (simp add: exec_def commit_job_write_def)

lemma exec_cases:
  obtains (ok) "store_tx op db = Ok ((), exec op db)" | (err) e where "store_tx op db = Err e" "exec op db = db"
  by (cases "store_tx op db") (auto simp: exec_def commit_job_write_def)

lemma discard_Ok [simp]: "discard f db = Ok ((), db') \<longleftrightarrow> (\<exists>v. f db = Ok (v, db'))"
  by (cases "f db") (auto simp: discard_def res_bind_def)

text \<open>A job that callers submit: queued, without a lease, with counters of their width.\<close>

definition fresh_job :: "RuntimeJobRecord \<Rightarrow> bool" where
  "fresh_job job \<longleftrightarrow> status job = Queued \<and> lease_owner job = None \<and> lease_expires_at_ms job = None \<and>
     retry_count job \<le> u32_max \<and> max_retries job \<le> u32_max"

text \<open>An event of another writer: outside the name space of the job store's own events.\<close>

definition foreign_event :: "RuntimeEvent \<Rightarrow> bool" where
  "foreign_event ev \<longleftrightarrow> \<not> prefix ''runtime_job_'' (event_id ev) \<and> \<not> prefix ''runtime_job_'' (event_type ev)"

fun op_ok :: "store_op \<Rightarrow> bool" where
  "op_ok (Schedule job) = fresh_job job"
| "op_ok (ReplayDeadLetter req) = fresh_job (replay_job req)"
| "op_ok (AppendEvent ev) = foreign_event ev"
| "op_ok (AppendEventIdempotent ev) = foreign_event ev"
| "op_ok _ = True"

section \<open>Life cycle of a job row\<close>

datatype job_action =
    DoClaim string int int
  | DoStart string int
  | DoRenew string int int
  | DoYield string int int
  | DoWake int int
  | DoComplete string int "string list"
  | DoFail string int RuntimeJobStatus int string
  | DoCancel "string option" int string
  | DoReclaim int RuntimeJobLeaseReclaimDecision

definition lease_live :: "string \<Rightarrow> int \<Rightarrow> runtime_job_row \<Rightarrow> bool" where
  "lease_live tok now r \<longleftrightarrow> status r \<in> {Leased, Running} \<and> lease_owner r = Some tok \<and>
     (\<exists>e. lease_expires_at_ms r = Some e \<and> now < e)"

inductive row_step :: "job_action \<Rightarrow> runtime_job_row \<Rightarrow> runtime_job_row \<Rightarrow> bool" where
  claim: "status r = Queued \<Longrightarrow> run_at_ms r \<le> now \<Longrightarrow>
    (\<And>t. lease_reclaim_not_before_ms r = Some t \<Longrightarrow> t \<le> now) \<Longrightarrow>
    row_step (DoClaim tok now expires) r
      (r\<lparr>status := Leased, lease_owner := Some tok, lease_expires_at_ms := Some expires,
         updated_at_ms := now, heartbeat_at_ms := Some now\<rparr>)"
| start: "lease_live tok now r \<Longrightarrow> status r = Leased \<Longrightarrow>
    row_step (DoStart tok now) r (r\<lparr>status := Running, updated_at_ms := now, heartbeat_at_ms := Some now\<rparr>)"
| renew: "lease_live tok now r \<Longrightarrow>
    row_step (DoRenew tok now expires) r
      (r\<lparr>heartbeat_at_ms := Some now, lease_expires_at_ms := Some expires, updated_at_ms := now\<rparr>)"
| yield: "lease_live tok now r \<Longrightarrow>
    row_step (DoYield tok now run_at) r
      (r\<lparr>status := Queued, run_at_ms := run_at, updated_at_ms := now,
         lease_owner := None, lease_expires_at_ms := None, heartbeat_at_ms := None\<rparr>)"
| wake: "status r = Queued \<Longrightarrow> now \<le> run_at \<Longrightarrow> run_at < run_at_ms r \<Longrightarrow>
    (\<And>t. lease_reclaim_not_before_ms r = Some t \<Longrightarrow> t \<le> run_at) \<Longrightarrow>
    row_step (DoWake now run_at) r (r\<lparr>run_at_ms := run_at, updated_at_ms := now\<rparr>)"
| complete: "lease_live tok now r \<Longrightarrow>
    row_step (DoComplete tok now refs) r
      (r\<lparr>status := Succeeded, output_refs := refs, updated_at_ms := now,
         lease_owner := None, lease_expires_at_ms := None, last_error := None\<rparr>)"
| fail: "lease_live tok now r \<Longrightarrow> st \<in> {Queued, Failed, DeadLettered} \<Longrightarrow>
    row_step (DoFail tok now st run_at err) r
      (r\<lparr>status := st, run_at_ms := run_at, retry_count := retry_count r + 1,
         lease_owner := None, lease_expires_at_ms := None, last_error := Some err, updated_at_ms := now\<rparr>)"
| cancel: "\<not> is_terminal (status r) \<Longrightarrow> (\<And>t. tok = Some t \<Longrightarrow> lease_live t now r) \<Longrightarrow>
    row_step (DoCancel tok now why) r
      (r\<lparr>status := Cancelled, updated_at_ms := now, lease_owner := None, lease_expires_at_ms := None,
         last_error := (if last_error r \<in> {None, Some []} then Some why else last_error r)\<rparr>)"
| reclaim: "expired now r \<Longrightarrow>
    decide default_lease_reclaim_policy (job_id r) (lease_reclaim_count r) (status r) now = Ok d \<Longrightarrow>
    row_step (DoReclaim now d) r (reclaimed_row now d r)"

inductive_cases row_stepE: "row_step a r r'"

text \<open>Which action an operation may perform on a job.\<close>

fun performs :: "store_op \<Rightarrow> string \<Rightarrow> job_action \<Rightarrow> bool" where
  "performs (Claim nonce req) j a = (\<exists>expires.
     a = DoClaim (worker_id req @ '':'' @ nonce j) (due_now_ms req) expires)"
| "performs (Start req) j a = (j = start_job_id req \<and> a = DoStart (start_lease_owner req) (started_at_ms req))"
| "performs (Renew req) j a = (j = renew_job_id req \<and>
     (\<exists>expires. a = DoRenew (renew_lease_owner req) (renew_heartbeat_at_ms req) expires))"
| "performs (Yield req) j a = (j = yield_job_id req \<and>
     (\<exists>run_at. a = DoYield (yield_lease_owner req) (yielded_at_ms req) run_at))"
| "performs (Wake req) j a = (j = wake_job_id req \<and> (\<exists>run_at. a = DoWake (woken_at_ms req) run_at))"
| "performs (Complete req) j a = (j = complete_job_id req \<and>
     a = DoComplete (complete_lease_owner req) (completed_at_ms req) (complete_output_refs req))"
| "performs (Fail req) j a = (j = fail_job_id req \<and>
     (\<exists>st run_at. fail_target req = Ok (st, run_at) \<and>
       a = DoFail (fail_lease_owner req) (failed_at_ms req) st run_at (fail_last_error req)))"
| "performs (CreateDeadLetterAndFail rec req) j a = (j = fail_job_id req \<and>
     (\<exists>st run_at. fail_target req = Ok (st, run_at) \<and>
       a = DoFail (fail_lease_owner req) (failed_at_ms req) st run_at (fail_last_error req)))"
| "performs (Cancel req) j a = (j = cancel_job_id req \<and>
     a = DoCancel (expected_lease_owner req) (cancelled_at_ms req) (cancel_reason req))"
| "performs (CancelForShutdown req) j a = (j = cancel_job_id req \<and>
     a = DoCancel (expected_lease_owner req) (cancelled_at_ms req) (cancel_reason req))"
| "performs (ReclaimLeases now) j a = (\<exists>d. a = DoReclaim now d)"
| "performs _ _ _ = False"

section \<open>Facts of the life cycle\<close>

lemma held_iff_live: "held j tok now r \<longleftrightarrow> job_id r = j \<and> lease_live tok now r"
  by (auto simp: held_def lease_live_def split: option.splits)

lemma reclaimed_row_simps [simp]:
  "job_id (reclaimed_row now d r) = job_id r"
  "job_kind (reclaimed_row now d r) = job_kind r"
  "idempotency_key (reclaimed_row now d r) = idempotency_key r"
  "status (reclaimed_row now d r) = decision_status d"
  "lease_owner (reclaimed_row now d r) = None"
  "lease_expires_at_ms (reclaimed_row now d r) = None"
  "run_at_ms (reclaimed_row now d r) = not_before_ms d"
  "lease_reclaim_count (reclaimed_row now d r) = reclaim_count d"
  "lease_reclaim_not_before_ms (reclaimed_row now d r) = Some (not_before_ms d)"
  by (simp_all add: reclaimed_row_def)

lemma row_step_identity:
  "row_step a r r' \<Longrightarrow> job_id r' = job_id r \<and> job_kind r' = job_kind r \<and> idempotency_key r' = idempotency_key r"
  by (induction rule: row_step.induct) auto

lemma row_step_transition: "row_step a r r' \<Longrightarrow> can_transition_to (status r) (status r')"
  by (induction rule: row_step.induct)
    (auto simp: can_transition_to_def lease_live_def is_terminal_def expired_def decide_Ok_iff
      dest: RuntimeJobStatus.exhaust intro: RuntimeJobStatus.exhaust)

lemma row_step_not_terminal: "row_step a r r' \<Longrightarrow> \<not> is_terminal (status r)"
  by (induction rule: row_step.induct) (auto simp: lease_live_def is_terminal_def expired_def)

text \<open>
  The row invariant: a lease owner and a lease expiry exactly on leased and running jobs, and at
  most three reclaims, or the fourth that dead lettered the job.
\<close>

definition row_ok :: "runtime_job_row \<Rightarrow> bool" where
  "row_ok r \<longleftrightarrow> (status r \<in> {Leased, Running} \<longleftrightarrow> lease_owner r \<noteq> None) \<and>
     (lease_owner r = None \<longleftrightarrow> lease_expires_at_ms r = None) \<and>
     (lease_reclaim_count r \<le> 3 \<or> lease_reclaim_count r = 4 \<and> status r = DeadLettered)"

lemma row_step_ok: "row_step a r r' \<Longrightarrow> row_ok r \<Longrightarrow> row_ok r'"
  by (induction rule: row_step.induct)
    (auto simp: row_ok_def lease_live_def expired_def is_terminal_def decide_Ok_iff default_lease_reclaim_policy_def)

lemma row_step_count: "row_step a r r' \<Longrightarrow> lease_reclaim_count r \<le> lease_reclaim_count r'"
  by (induction rule: row_step.induct) (auto simp: decide_Ok_iff)

section \<open>Refinement of the life cycle\<close>

definition scheduled :: "store_op \<Rightarrow> RuntimeJobRecord \<Rightarrow> bool" where
  "scheduled op job \<longleftrightarrow> op = Schedule job \<or> (\<exists>req. op = ReplayDeadLetter req \<and> job = replay_job req)"

definition new_row :: "RuntimeJobRecord \<Rightarrow> runtime_job_row" where
  "new_row job = RuntimeJobRecord.extend job (runtime_job_row.fields 0 None)"

definition jobs_step :: "store_op \<Rightarrow> runtime_job_row list \<Rightarrow> runtime_job_row list \<Rightarrow> bool" where
  "jobs_step op rows rows' \<longleftrightarrow>
     (\<exists>P f. rows' = sql_update P f rows \<and>
        (\<forall>r \<in> set rows. P r \<longrightarrow> (\<exists>a. performs op (job_id r) a \<and> row_step a r (f r)))) \<or>
     (\<exists>job. scheduled op job \<and> rows' = rows @ [new_row job] \<and>
        (\<forall>r \<in> set rows. job_id r \<noteq> job_id job \<and>
           \<not> (job_kind r = job_kind job \<and> idempotency_key r = idempotency_key job)))"

lemma jobs_step_same: "jobs_step op rows rows"
proof -
  have "rows = sql_update (\<lambda>_. False) id rows" by (simp add: sql_update_def)
  then show ?thesis by (auto simp: jobs_step_def)
qed

lemma jobs_step_update:
  assumes "\<And>r. r \<in> set rows \<Longrightarrow> P r \<Longrightarrow> \<exists>a. performs op (job_id r) a \<and> row_step a r (f r)"
  shows "jobs_step op rows (sql_update P f rows)"
  using assms by (auto simp: jobs_step_def)

lemma jobs_step_insert:
  assumes "insert_runtime_job job db = Ok (b, db')" and "scheduled op job"
  shows "jobs_step op (runtime_jobs db) (runtime_jobs db')"
  using assms jobs_step_same
  by (auto simp: insert_runtime_job_def new_row_def split: if_splits) (auto simp: jobs_step_def new_row_def)

end
