(* ===== verification/StoreRefinement.thy ===== *)
theory StoreRefinement
  imports StoreMachine
begin

text \<open>
  Every committed operation of the store moves each job row by at most one step of the life cycle
  of a job row, and adds only rows that were scheduled. The lemmas below show it per operation and
  \<open>store_tx_jobs\<close> collects them.
\<close>

section \<open>Batches\<close>

definition reclaim_update :: "int \<Rightarrow> runtime_job_row \<Rightarrow> runtime_job_row" where
  "reclaim_update now r =
     (case decide default_lease_reclaim_policy (job_id r) (lease_reclaim_count r) (status r) now of
        Inr d \<Rightarrow> reclaimed_row now d r | Inl e \<Rightarrow> r)"

lemma reclaim_update_job_id [simp]: "job_id (reclaim_update now r) = job_id r"
  by (auto simp: reclaim_update_def split: sum.splits)

lemma reclaim_one_jobs:
  assumes "reclaim_one now db r = Ok db'" and "r \<in> set (runtime_jobs db)" and "unique_by job_id (runtime_jobs db)"
  shows "runtime_jobs db' = sql_update (\<lambda>q. job_id q = job_id r) (reclaim_update now) (runtime_jobs db)"
proof -
  obtain d where d: "decide default_lease_reclaim_policy (job_id r) (lease_reclaim_count r) (status r) now = Ok d"
    and db': "runtime_jobs db' = sql_update (\<lambda>q. job_id q = job_id r) (reclaimed_row now d) (runtime_jobs db)"
    by (rule reclaim_one_effect [OF assms(1)]) simp
  have "reclaim_update now q = reclaimed_row now d q" if "q \<in> set (runtime_jobs db)" "job_id q = job_id r" for q
    using unique_byD [OF assms(3) that(1) assms(2) that(2)] d by (simp add: reclaim_update_def)
  then show ?thesis unfolding db' by (auto simp: sql_update_def)
qed

lemma reclaim_fold_jobs:
  assumes "fold_result (reclaim_one now) db rs = Ok db'" and "unique_by job_id (runtime_jobs db)"
    and "set rs \<subseteq> set (runtime_jobs db)" and "unique_by job_id rs"
  shows "runtime_jobs db' = sql_update (\<lambda>q. job_id q \<in> job_id ` set rs) (reclaim_update now) (runtime_jobs db) \<and>
    (\<forall>r \<in> set rs. \<exists>d. decide default_lease_reclaim_policy (job_id r) (lease_reclaim_count r) (status r) now = Ok d)"
  using assms
proof (induction rs arbitrary: db)
  case Nil
  then show ?case by (simp add: sql_update_def)
next
  case (Cons r rs)
  then obtain db1 where one: "reclaim_one now db r = Ok db1" and rest: "fold_result (reclaim_one now) db1 rs = Ok db'"
    by (auto simp: result_simps)
  have jobs1: "runtime_jobs db1 = sql_update (\<lambda>q. job_id q = job_id r) (reclaim_update now) (runtime_jobs db)"
    using reclaim_one_jobs [OF one] Cons.prems by simp
  have new: "job_id r \<notin> job_id ` set rs" using Cons.prems(4) by (auto simp: unique_by_def)
  have "unique_by job_id (runtime_jobs db1)" using Cons.prems(2) by (simp add: jobs1 unique_by_sql_update)
  moreover have "set rs \<subseteq> set (runtime_jobs db1)"
  proof
    fix q assume "q \<in> set rs"
    with Cons.prems(3) new have "q \<in> set (runtime_jobs db)" "job_id q \<noteq> job_id r"
      by (auto simp: image_iff)
    then show "q \<in> set (runtime_jobs db1)" unfolding jobs1 set_sql_update by (auto intro!: image_eqI [of _ _ q])
  qed
  moreover have "unique_by job_id rs" using Cons.prems(4) by (simp add: unique_by_def)
  ultimately have IH: "runtime_jobs db' = sql_update (\<lambda>q. job_id q \<in> job_id ` set rs) (reclaim_update now) (runtime_jobs db1)"
    and dec: "\<forall>r \<in> set rs. \<exists>d. decide default_lease_reclaim_policy (job_id r) (lease_reclaim_count r) (status r) now = Ok d"
    using Cons.IH [OF rest] by auto
  from reclaim_one_effect [OF one] obtain d where
    "decide default_lease_reclaim_policy (job_id r) (lease_reclaim_count r) (status r) now = Ok d" by metis
  moreover have "runtime_jobs db' = sql_update (\<lambda>q. job_id q \<in> job_id ` set (r # rs)) (reclaim_update now) (runtime_jobs db)"
    unfolding IH jobs1 using new by (auto simp: sql_update_def)
  ultimately show ?case using dec by auto
qed

lemma expired_leases_props:
  assumes "unique_by job_id (runtime_jobs db)"
  shows "set (expired_leases now db) \<subseteq> {r \<in> set (runtime_jobs db). expired now r}"
    and "unique_by job_id (expired_leases now db)"
  using assms by (auto simp: expired_leases_def intro!: unique_by_take unique_by_sql_select dest: in_set_takeD)

lemma reclaim_jobs_step:
  assumes "reclaim_expired_runtime_job_leases now db = Ok (n, db')" and "unique_by job_id (runtime_jobs db)"
  shows "jobs_step (ReclaimLeases now) (runtime_jobs db) (runtime_jobs db')"
proof -
  let ?rs = "expired_leases now db"
  have "fold_result (reclaim_one now) db ?rs = Ok db'"
    using assms(1) by (auto simp: reclaim_expired_runtime_job_leases_def result_simps Let_def)
  from reclaim_fold_jobs [OF this assms(2)] expired_leases_props [OF assms(2), of now]
  have jobs: "runtime_jobs db' = sql_update (\<lambda>q. job_id q \<in> job_id ` set ?rs) (reclaim_update now) (runtime_jobs db)"
    and dec: "\<And>r. r \<in> set ?rs \<Longrightarrow> \<exists>d. decide default_lease_reclaim_policy (job_id r) (lease_reclaim_count r) (status r) now = Ok d"
    by auto
  show ?thesis unfolding jobs
  proof (rule jobs_step_update)
    fix r assume "r \<in> set (runtime_jobs db)" "job_id r \<in> job_id ` set ?rs"
    then have r: "r \<in> set ?rs" using expired_leases_props [OF assms(2), of now] assms(2) by (auto dest: unique_byD)
    then obtain d where d: "decide default_lease_reclaim_policy (job_id r) (lease_reclaim_count r) (status r) now = Ok d"
      using dec by blast
    have "expired now r" using r expired_leases_props [OF assms(2), of now] by auto
    with d show "\<exists>a. performs (ReclaimLeases now) (job_id r) a \<and> row_step a r (reclaim_update now r)"
      by (auto simp: reclaim_update_def intro!: row_step.reclaim)
  qed
qed

lemma claim_jobs_step:
  assumes "claim_due_runtime_jobs nonce req db = Ok (claimed, db')" and "unique_by job_id (runtime_jobs db)"
  shows "jobs_step (Claim nonce req) (runtime_jobs db) (runtime_jobs db')"
proof -
  obtain e js where db': "runtime_jobs db' =
      sql_update (\<lambda>r. job_id r \<in> set js \<and> status r = Queued) (lease_row nonce req e) (runtime_jobs db)"
    and js: "js = map job_id (take (due_limit req) (sql_select (due_condition req) job_order (runtime_jobs db)))"
    by (rule claim_due_effect [OF assms(1)]) simp
  show ?thesis unfolding db'
  proof (rule jobs_step_update)
    fix r assume r: "r \<in> set (runtime_jobs db)" "job_id r \<in> set js \<and> status r = Queued"
    then obtain q where "q \<in> set (take (due_limit req) (sql_select (due_condition req) job_order (runtime_jobs db)))"
      "job_id q = job_id r" unfolding js by auto
    then have "q \<in> set (runtime_jobs db)" "due_condition req q" by (auto dest!: in_set_takeD)
    with \<open>job_id q = job_id r\<close> r assms(2) have "due_condition req r" by (metis unique_byD)
    then have "row_step (DoClaim (worker_id req @ '':'' @ nonce (job_id r)) (due_now_ms req) e) r (lease_row nonce req e r)"
      by (auto simp: lease_row_def due_condition_def intro!: row_step.claim)
    then show "\<exists>a. performs (Claim nonce req) (job_id r) a \<and> row_step a r (lease_row nonce req e r)" by auto
  qed
qed


lemma live_jobs_step:
  assumes "\<And>r. job_id r = j \<Longrightarrow> lease_live tok now r \<Longrightarrow> \<exists>a. performs op j a \<and> row_step a r (f r)"
  shows "jobs_step op rows (sql_update (held j tok now) f rows)"
  using assms by (intro jobs_step_update) (auto simp: held_iff_live)

lemma cancel_jobs_step:
  assumes "\<And>r. performs op (cancel_job_id req) (DoCancel (expected_lease_owner req) (cancelled_at_ms req) (cancel_reason req))"
  shows "jobs_step op rows (sql_update (cancel_condition req) (cancelled_row req) rows)"
proof (rule jobs_step_update)
  fix r assume "cancel_condition req r"
  then have "job_id r = cancel_job_id req" "\<not> is_terminal (status r)"
    "\<And>t. expected_lease_owner req = Some t \<Longrightarrow> lease_live t (cancelled_at_ms req) r"
    by (auto simp: cancel_condition_def held_iff_live is_terminal_def)
  then show "\<exists>a. performs op (job_id r) a \<and> row_step a r (cancelled_row req r)"
    unfolding cancelled_row_def using assms by (metis row_step.cancel)
qed

lemma fail_jobs_step:
  assumes "fail_runtime_job_conn req db = Ok (u, db')" and "\<And>j a. performs (Fail req) j a \<Longrightarrow> performs op j a"
  shows "jobs_step op (runtime_jobs db) (runtime_jobs db')"
proof -
  obtain st run_at where t: "fail_target req = Ok (st, run_at)"
    and jobs: "runtime_jobs db' = sql_update (held (fail_job_id req) (fail_lease_owner req) (failed_at_ms req))
      (failed_row req st run_at) (runtime_jobs db)"
    using assms(1) by (auto simp: fail_conn_effect)
  have "st \<in> {Queued, Failed, DeadLettered}" using fail_target_status [OF t] by auto
  from row_step.fail [OF _ this] show ?thesis unfolding jobs failed_row_def
    by (intro live_jobs_step exI conjI assms(2)) (auto simp: t simp del: add_Suc_right)
qed

lemma schedule_with_jobs:
  assumes "schedule_with what job db = Ok (v, db')" and "scheduled op job"
  shows "jobs_step op (runtime_jobs db) (runtime_jobs db')"
  using assms jobs_step_insert [of job db] by (auto simp: schedule_with_def result_simps split: if_splits)

section \<open>Single-row operations\<close>

lemma start_jobs_step:
  assumes "start_runtime_job req db = Ok (u, db')"
  shows "jobs_step (Start req) (runtime_jobs db) (runtime_jobs db')"
  using assms by (auto simp: start_runtime_job_def held_iff_live intro!: jobs_step_update row_step.start)

lemma renew_jobs_step:
  assumes "renew_runtime_job_lease req db = Ok (u, db')"
  shows "jobs_step (Renew req) (runtime_jobs db) (runtime_jobs db')"
  using assms
  by (auto simp: renew_runtime_job_lease_def result_simps Let_def split: if_splits
      intro!: live_jobs_step exI row_step.renew)

lemma yield_jobs_step:
  assumes "yield_runtime_job req db = Ok (u, db')"
  shows "jobs_step (Yield req) (runtime_jobs db) (runtime_jobs db')"
  using assms
  by (cases rule: yield_effect) (auto simp: jobs_step_same intro!: live_jobs_step exI row_step.yield)

lemma wake_jobs_step:
  assumes "wake_runtime_job req db = Ok (v, db')" and u: "unique_by job_id (runtime_jobs db)"
  shows "jobs_step (Wake req) (runtime_jobs db) (runtime_jobs db')"
proof -
  from wake_effect [OF assms(1)] obtain job db1
    where job: "sql_find (\<lambda>r. job_id r = wake_job_id req) (runtime_jobs db) = Some job"
      and db1: "runtime_jobs db1 = runtime_jobs db" and row: "wake_row req job db1 = Ok (v, db')"
    by metis
  have j: "job \<in> set (runtime_jobs db)" "job_id job = wake_job_id req" using sql_find_Some [OF job] by auto
  from row show ?thesis
  proof (cases rule: wake_row_effect)
    case unchanged
    then show ?thesis by (simp add: db1 jobs_step_same)
  next
    case (moved wake_at)
    have "r = job" if "r \<in> set (runtime_jobs db)" "job_id r = wake_job_id req" for r
      using unique_byD [OF u that(1) j(1)] that j by simp
    then show ?thesis using moved
      by (auto simp: db1 intro!: jobs_step_update exI [of _ "DoWake (woken_at_ms req) wake_at"] row_step.wake)
  qed
qed

section \<open>All operations\<close>

lemma insert_dead_letter_jobs: "insert_dead_letter_record rec db = Ok (b, db') \<Longrightarrow> runtime_jobs db' = runtime_jobs db"
  by (auto simp: insert_dead_letter_effect)

lemma acquire_jobs: "acquire_resource_claim req db = Ok (v, db') \<Longrightarrow> runtime_jobs db' = runtime_jobs db"
  by (erule acquire_effect) simp_all

lemmas quiet_ops = mark_runtime_job_outbox_published_def append_event_conn_def create_dead_letter_def
  mark_dead_letter_replaying_def mark_dead_letter_replayed_def dismiss_dead_letter_def update_dead_letters_def
  release_resource_claim_def reclaim_expired_resource_claims_def

lemma store_tx_jobs:
  assumes u: "unique_by job_id (runtime_jobs db)" and ok: "store_tx op db = Ok ((), db')"
  shows "jobs_step op (runtime_jobs db) (runtime_jobs db')"
proof (cases op)
  case (Schedule job)
  with ok show ?thesis by (auto simp: schedule_runtime_job_def scheduled_def intro: schedule_with_jobs)
next
  case (Complete req)
  with ok show ?thesis by (auto simp: complete_effect completed_row_def intro!: live_jobs_step row_step.complete)
next
  case (Fail req)
  with ok show ?thesis by (auto simp: fail_runtime_job_def result_simps split: if_splits intro: fail_jobs_step)
next
  case (Cancel req)
  with ok show ?thesis by (auto simp: cancel_runtime_job_def cancel_conn_effect result_simps intro!: cancel_jobs_step)
next
  case (CancelForShutdown req)
  with ok show ?thesis by (auto elim!: shutdown_effect intro!: cancel_jobs_step)
next
  case (CreateDeadLetterAndFail rec req)
  with ok obtain db1 b where "insert_dead_letter_record rec db = Ok (b, db1)" and "fail_runtime_job req db1 = Ok ((), db')"
    by (auto elim: dead_letter_and_fail_effect)
  then show ?thesis using CreateDeadLetterAndFail insert_dead_letter_jobs [of rec db b db1]
    by (auto simp: fail_runtime_job_def result_simps split: if_splits dest!: fail_jobs_step [where op = op])
next
  case (ReplayDeadLetter req)
  with ok obtain v where "replay_dead_letter req db = Ok (v, db')" by auto
  then show ?thesis unfolding ReplayDeadLetter
    by (rule replay_effect) (auto simp: scheduled_def intro: schedule_with_jobs)
next
  case (AppendEventIdempotent ev)
  with ok obtain b where "append_event_conn_idempotent ev db = Ok (b, db')" by auto
  from idempotent_append_effect(1) [OF this] show ?thesis by (simp add: jobs_step_same)
qed (use ok u in \<open>auto simp: quiet_ops result_simps Let_def jobs_step_same split: if_splits
      intro: claim_jobs_step start_jobs_step renew_jobs_step yield_jobs_step wake_jobs_step reclaim_jobs_step
      dest: acquire_jobs insert_dead_letter_jobs\<close>)

end
