(* ===== verification/StoreInvariant.thy ===== *)
theory StoreInvariant
  imports StoreRefinement
begin

text \<open>
  The invariant of the job store's tables and its preservation by every operation: keys are unique,
  leases are held exactly by leased and running jobs, the reclaim budget bounds the reclaim count,
  the terminal outbox holds exactly one row per terminal job, and the identifiers of the store's own
  events stay within their name space.
\<close>

section \<open>The invariant\<close>

definition job_key :: "runtime_job_row \<Rightarrow> string \<times> string" where
  "job_key r = (job_kind r, idempotency_key r)"

definition jobs_ok :: "runtime_job_row list \<Rightarrow> bool" where
  "jobs_ok rows \<longleftrightarrow> unique_by job_id rows \<and> unique_by job_key rows \<and> list_all row_ok rows"

definition terminal_ids :: "runtime_job_row list \<Rightarrow> string set" where
  "terminal_ids rows = job_id ` {r \<in> set rows. is_terminal (status r)}"

definition outbox_ok :: "runtime_job_row list \<Rightarrow> RuntimeJobOutboxRecord list \<Rightarrow> bool" where
  "outbox_ok rows outbox \<longleftrightarrow> unique_by outbox_job_id outbox \<and>
     outbox_job_id ` set outbox = terminal_ids rows \<and>
     (\<forall>ob \<in> set outbox. outbox_event_type ob = RUNTIME_JOB_TERMINAL_EVENT \<and> generation ob = 0)"

definition event_ok :: "runtime_job_row list \<Rightarrow> RuntimeEvent \<Rightarrow> bool" where
  "event_ok rows e \<longleftrightarrow>
     (\<forall>j n. event_id e = reclaim_event_id j n \<longrightarrow> (\<exists>r \<in> set rows. job_id r = j \<and> n \<le> lease_reclaim_count r)) \<and>
     (event_type e = ''runtime_job_wake_requested'' \<longrightarrow> prefix ''runtime_job_wake:'' (event_id e))"

text \<open>A wake is marked consumed only after it was requested.\<close>

definition consumes_within :: "RuntimeEvent list \<Rightarrow> RuntimeEvent \<Rightarrow> bool" where
  "consumes_within evs e \<longleftrightarrow> (\<forall>x. event_id e = ''runtime_job_wake_consumed:'' @ x \<longrightarrow>
     ''runtime_job_wake:'' @ x \<in> event_id ` set evs)"

definition events_ok :: "runtime_job_row list \<Rightarrow> RuntimeEvent list \<Rightarrow> bool" where
  "events_ok rows evs \<longleftrightarrow> unique_by event_id evs \<and> (\<forall>e \<in> set evs. event_ok rows e \<and> consumes_within evs e)"

definition wf_store :: "db \<Rightarrow> bool" where
  "wf_store db \<longleftrightarrow> jobs_ok (runtime_jobs db) \<and> outbox_ok (runtime_jobs db) (runtime_job_outbox db) \<and>
     events_ok (runtime_jobs db) (runtime_events db)"

lemma wf_empty: "wf_store empty_db"
  by (simp add: wf_store_def empty_db_def jobs_ok_def outbox_ok_def events_ok_def terminal_ids_def)

section \<open>Jobs\<close>

lemma new_row_simps [simp]:
  "job_id (new_row job) = job_id job" "job_kind (new_row job) = job_kind job"
  "idempotency_key (new_row job) = idempotency_key job" "status (new_row job) = status job"
  "lease_owner (new_row job) = lease_owner job" "lease_expires_at_ms (new_row job) = lease_expires_at_ms job"
  "lease_reclaim_count (new_row job) = 0" "lease_reclaim_not_before_ms (new_row job) = None"
  "run_at_ms (new_row job) = run_at_ms job"
  by (simp_all add: new_row_def RuntimeJobRecord.defs runtime_job_row.defs)

lemma scheduled_fresh: "scheduled op job \<Longrightarrow> op_ok op \<Longrightarrow> fresh_job job"
  by (auto simp: scheduled_def)

lemma fresh_row_ok: "fresh_job job \<Longrightarrow> row_ok (new_row job) \<and> \<not> is_terminal (status (new_row job))"
  by (auto simp: fresh_job_def row_ok_def is_terminal_def)

lemma jobs_step_cases:
  assumes "jobs_step op rows rows'"
  obtains (moved) P f where "rows' = sql_update P f rows"
      "\<And>r. r \<in> set rows \<Longrightarrow> P r \<Longrightarrow> \<exists>a. performs op (job_id r) a \<and> row_step a r (f r)"
  | (added) job where "scheduled op job" "rows' = rows @ [new_row job]"
      "job_id job \<notin> job_id ` set rows" "(job_kind job, idempotency_key job) \<notin> job_key ` set rows"
  using assms unfolding jobs_step_def
proof (elim disjE exE conjE)
  fix P f
  assume "rows' = sql_update P f rows"
    and "\<forall>r \<in> set rows. P r \<longrightarrow> (\<exists>a. performs op (job_id r) a \<and> row_step a r (f r))"
  then show thesis using moved by blast
next
  fix job
  assume "scheduled op job" "rows' = rows @ [new_row job]"
    and "\<forall>r \<in> set rows. job_id r \<noteq> job_id job \<and>
      \<not> (job_kind r = job_kind job \<and> idempotency_key r = idempotency_key job)"
  then show thesis by (intro added [of job]) (force simp: job_key_def)+
qed

lemma row_step_facts:
  assumes "\<exists>a. performs op (job_id r) a \<and> row_step a r r'"
  shows "job_id r' = job_id r" "job_key r' = job_key r" "row_ok r \<Longrightarrow> row_ok r'"
    "lease_reclaim_count r \<le> lease_reclaim_count r'" "\<not> is_terminal (status r)"
  using assms row_step_identity row_step_ok row_step_count row_step_not_terminal unfolding job_key_def by blast+

lemma jobs_step_ok:
  assumes "jobs_step op rows rows'" and "op_ok op" and ok: "jobs_ok rows"
  shows "jobs_ok rows'"
  using assms(1)
proof (cases rule: jobs_step_cases)
  case (moved P f)
  with ok row_step_facts [OF moved(2)] show ?thesis unfolding moved(1) jobs_ok_def
    by (auto simp: unique_by_sql_update set_sql_update list_all_iff)
next
  case (added job)
  then show ?thesis using ok fresh_row_ok [OF scheduled_fresh [OF added(1) assms(2)]]
    by (simp add: jobs_ok_def job_key_def [of "new_row job"])
qed

lemma jobs_step_count_mono:
  assumes "jobs_step op rows rows'" and "r \<in> set rows"
  shows "\<exists>r' \<in> set rows'. job_id r' = job_id r \<and> lease_reclaim_count r \<le> lease_reclaim_count r'"
  using assms(1)
proof (cases rule: jobs_step_cases)
  case (moved P f)
  show ?thesis unfolding moved(1) bex_sql_update
    using assms(2) row_step_facts [OF moved(2) [of r]] by (intro bexI [of _ r]) auto
next
  case (added job)
  then show ?thesis using assms(2) by auto
qed

section \<open>Outbox\<close>

fun terminating :: "job_action \<Rightarrow> bool" where
  "terminating (DoComplete _ _ _) = True"
| "terminating (DoFail _ _ st _ _) = is_terminal st"
| "terminating (DoCancel _ _ _) = True"
| "terminating (DoReclaim _ d) = is_terminal (decision_status d)"
| "terminating _ = False"

lemma row_step_terminating: "row_step a r r' \<Longrightarrow> is_terminal (status r') \<longleftrightarrow> terminating a"
  by (induction rule: row_step.induct) (auto simp: is_terminal_def lease_live_def)

lemma terminal_ids_iff: "x \<in> terminal_ids rows \<longleftrightarrow> (\<exists>r \<in> set rows. job_id r = x \<and> is_terminal (status r))"
  by (auto simp: terminal_ids_def)

lemma terminal_ids_update:
  assumes "\<And>r. r \<in> set rows \<Longrightarrow> P r \<Longrightarrow> job_id (f r) = job_id r \<and> (is_terminal (status (f r)) \<longleftrightarrow> is_terminal (status r))"
  shows "terminal_ids (sql_update P f rows) = terminal_ids rows"
  unfolding set_eq_iff terminal_ids_iff bex_sql_update using assms by (intro allI bex_cong) auto

lemma terminal_ids_single:
  assumes "\<And>r. r \<in> set rows \<Longrightarrow> P r \<Longrightarrow> job_id r = j \<and> job_id (f r) = j \<and> is_terminal (status (f r))"
    and "r0 \<in> set rows" and "P r0"
  shows "terminal_ids (sql_update P f rows) = insert j (terminal_ids rows)"
  unfolding set_eq_iff insert_iff terminal_ids_iff bex_sql_update
proof
  fix x
  show "(\<exists>r \<in> set rows. job_id (if P r then f r else r) = x \<and> is_terminal (status (if P r then f r else r))) \<longleftrightarrow>
      x = j \<or> (\<exists>r \<in> set rows. job_id r = x \<and> is_terminal (status r))" (is "?L \<longleftrightarrow> ?R")
  proof
    assume ?L
    then obtain r where "r \<in> set rows" "job_id (if P r then f r else r) = x" "is_terminal (status (if P r then f r else r))"
      by blast
    then show ?R using assms(1) [of r] by (cases "P r") auto
  next
    assume ?R
    then show ?L
    proof
      assume "x = j"
      with assms show ?L by (intro bexI [of _ r0]) auto
    next
      assume "\<exists>r \<in> set rows. job_id r = x \<and> is_terminal (status r)"
      then show ?L using assms(1) by metis
    qed
  qed
qed

lemma jobs_step_quiet_terminal_ids:
  assumes "jobs_step op rows rows'" and "op_ok op" and "\<And>j a. performs op j a \<Longrightarrow> \<not> terminating a"
  shows "terminal_ids rows' = terminal_ids rows"
  using assms(1)
proof (cases rule: jobs_step_cases)
  case (moved P f)
  then show ?thesis unfolding moved(1)
    using assms(3) row_step_identity row_step_terminating row_step_not_terminal
    by (intro terminal_ids_update) metis
next
  case (added job)
  then show ?thesis using fresh_row_ok [OF scheduled_fresh [OF added(1) assms(2)]]
    by (auto simp: terminal_ids_def)
qed

lemma outbox_ok_terminal:
  assumes "outbox_ok rows outbox" and "terminal_ids rows' = insert j (terminal_ids rows)" and "j \<notin> terminal_ids rows"
  shows "outbox_ok rows' (outbox_upsert j RUNTIME_JOB_TERMINAL_EVENT outbox)"
proof -
  have "sql_count (\<lambda>ob. outbox_job_id ob = j \<and> outbox_event_type ob = RUNTIME_JOB_TERMINAL_EVENT) outbox = 0"
    using assms by (auto simp: sql_count_eq_0 outbox_ok_def)
  then show ?thesis using assms by (auto simp: outbox_upsert_def outbox_ok_def)
qed

text \<open>A single job that is not terminal moves to a terminal status and gets its outbox row.\<close>

lemma outbox_ok_single:
  assumes "outbox_ok rows outbox" and "unique_by job_id rows" and "r0 \<in> set rows" and "P r0"
    and "\<And>r. r \<in> set rows \<Longrightarrow> P r \<Longrightarrow> job_id r = j \<and> (\<exists>a. row_step a r (f r) \<and> terminating a)"
  shows "outbox_ok (sql_update P f rows) (outbox_upsert j RUNTIME_JOB_TERMINAL_EVENT outbox)"
proof (rule outbox_ok_terminal [OF assms(1)])
  have f: "job_id r = j \<and> job_id (f r) = j \<and> is_terminal (status (f r))" "\<not> is_terminal (status r)"
    if r: "r \<in> set rows" "P r" for r
  proof -
    obtain a where a: "row_step a r (f r)" "terminating a" "job_id r = j" using assms(5) [OF r] by blast
    then show "job_id r = j \<and> job_id (f r) = j \<and> is_terminal (status (f r))" "\<not> is_terminal (status r)"
      using row_step_identity [OF a(1)] row_step_terminating [OF a(1)] row_step_not_terminal [OF a(1)] by auto
  qed
  then show "terminal_ids (sql_update P f rows) = insert j (terminal_ids rows)"
    using terminal_ids_single [of rows P j f r0] assms(3,4) by blast
  from f [OF assms(3,4)] assms(2,3) show "j \<notin> terminal_ids rows"
    by (auto simp: terminal_ids_iff dest: unique_byD)
qed

section \<open>Events\<close>

lemma reclaim_event_id_inject [simp]: "reclaim_event_id j n = reclaim_event_id j' n' \<longleftrightarrow> j = j' \<and> n = n'"
  using append_colon_cancel [of j "show_nat n" j' "show_nat n'"] show_nat_no_colon
  by (auto simp: reclaim_event_id_def)

lemma event_ok_mono:
  assumes e: "event_ok rows e" and js: "jobs_step op rows rows'"
  shows "event_ok rows' e"
proof -
  have "\<exists>r \<in> set rows'. job_id r = j \<and> n \<le> lease_reclaim_count r" if "event_id e = reclaim_event_id j n" for j n
  proof -
    from e that obtain r where "r \<in> set rows" "job_id r = j" "n \<le> lease_reclaim_count r"
      unfolding event_ok_def by blast
    with jobs_step_count_mono [OF js] show ?thesis by fastforce
  qed
  with e show ?thesis by (simp add: event_ok_def)
qed

lemma events_ok_mono: "events_ok rows evs \<Longrightarrow> jobs_step op rows rows' \<Longrightarrow> events_ok rows' evs"
  by (auto simp: events_ok_def intro: event_ok_mono)

lemma consumes_within_mono: "consumes_within evs e \<Longrightarrow> consumes_within (evs @ es) e"
  by (auto simp: consumes_within_def)

lemma events_ok_append:
  "events_ok rows evs \<Longrightarrow> event_id e \<notin> event_id ` set evs \<Longrightarrow> event_ok rows e \<Longrightarrow> consumes_within evs e \<Longrightarrow>
     events_ok rows (evs @ [e])"
  by (auto simp: events_ok_def intro: consumes_within_mono)

lemma foreign_event_ok: "foreign_event e \<Longrightarrow> event_ok rows e" "foreign_event e \<Longrightarrow> consumes_within evs e"
  by (auto simp: foreign_event_def event_ok_def reclaim_event_id_def consumes_within_def)

lemma yield_event_ok: "event_ok rows (yield_event req session)" "consumes_within evs (yield_event req session)"
  by (simp_all add: event_ok_def yield_event_def job_event_def yield_event_id_def reclaim_event_id_def consumes_within_def)

lemma wake_event_ok: "event_ok rows (wake_event req session)" "consumes_within evs (wake_event req session)"
  by (simp_all add: event_ok_def wake_event_def job_event_def wake_event_id_def reclaim_event_id_def consumes_within_def)

lemma wake_consumed_id_prefix:
  "wake_consumed_id (''runtime_job_wake:'' @ rest) = ''runtime_job_wake_consumed:'' @ rest"
  unfolding wake_consumed_id_def by (rule replace_first_at_front) simp

lemma wake_consumed_event_id:
  assumes "prefix ''runtime_job_wake:'' i"
  obtains rest where "i = ''runtime_job_wake:'' @ rest"
    and "event_id (wake_consumed_event req session i) = ''runtime_job_wake_consumed:'' @ rest"
proof -
  obtain rest where i: "i = ''runtime_job_wake:'' @ rest" using assms by (auto simp only: prefix_def)
  then have "event_id (wake_consumed_event req session i) = ''runtime_job_wake_consumed:'' @ rest"
    by (simp only: wake_consumed_event_def job_event_def wake_consumed_id_prefix RuntimeEvent.simps)
  with i that show ?thesis by blast
qed

lemma wake_consumed_event_ok:
  assumes "prefix ''runtime_job_wake:'' i"
  shows "event_ok rows (wake_consumed_event req session i)"
    and "i \<in> event_id ` set evs \<Longrightarrow> consumes_within evs (wake_consumed_event req session i)"
proof -
  obtain rest where i: "i = ''runtime_job_wake:'' @ rest"
    and ev: "event_id (wake_consumed_event req session i) = ''runtime_job_wake_consumed:'' @ rest"
    by (rule wake_consumed_event_id [OF assms])
  show "event_ok rows (wake_consumed_event req session i)"
    using ev by (simp add: event_ok_def reclaim_event_id_def) (simp add: wake_consumed_event_def job_event_def)
  show "i \<in> event_id ` set evs \<Longrightarrow> consumes_within evs (wake_consumed_event req session i)"
    unfolding consumes_within_def ev by (auto simp: i)
qed

lemma pending_wake_prefix:
  assumes "events_ok rows evs" and "e \<in> set (pending_wakes j evs)"
  shows "prefix ''runtime_job_wake:'' (event_id e)"
  using assms by (auto simp: events_ok_def event_ok_def pending_wakes_def)

section \<open>Reclaim\<close>

lemma reclaim_one_wf:
  assumes wf: "wf_store db" and r: "r \<in> set (runtime_jobs db)" "expired now r" and ok: "reclaim_one now db r = Ok db'"
  shows "wf_store db'"
proof -
  obtain d where d: "decide default_lease_reclaim_policy (job_id r) (lease_reclaim_count r) (status r) now = Ok d"
    and new: "event_id (reclaim_event now d r) \<notin> event_id ` set (runtime_events db)"
    and db': "db' = db\<lparr>runtime_jobs := sql_update (\<lambda>q. job_id q = job_id r) (reclaimed_row now d) (runtime_jobs db),
      runtime_events := runtime_events db @ [reclaim_event now d r],
      runtime_job_outbox := (if is_terminal (decision_status d)
        then outbox_upsert (job_id r) RUNTIME_JOB_TERMINAL_EVENT (runtime_job_outbox db)
        else runtime_job_outbox db)\<rparr>"
    by (rule reclaim_one_effect [OF ok])
  let ?P = "\<lambda>q. job_id q = job_id r" and ?f = "reclaimed_row now d"
  let ?rows = "runtime_jobs db" and ?rows' = "sql_update ?P ?f (runtime_jobs db)"
  have u: "unique_by job_id ?rows" using wf by (simp add: wf_store_def jobs_ok_def)
  have step: "row_step (DoReclaim now d) q (?f q)" if "q \<in> set ?rows" "?P q" for q
    using unique_byD [OF u that(1) r(1) that(2)] r(2) d by (auto intro: row_step.reclaim)
  then have js: "jobs_step (ReclaimLeases now) ?rows ?rows'" by (intro jobs_step_update) fastforce
  have "jobs_ok ?rows'" using jobs_step_ok [OF js] wf by (simp add: wf_store_def)
  moreover have "outbox_ok ?rows' (runtime_job_outbox db')"
  proof (cases "is_terminal (decision_status d)")
    case True
    then have "outbox_ok ?rows' (outbox_upsert (job_id r) RUNTIME_JOB_TERMINAL_EVENT (runtime_job_outbox db))"
      using wf step by (intro outbox_ok_single [OF _ u r(1)]) (auto simp: wf_store_def intro!: exI [of _ "DoReclaim now d"])
    with True show ?thesis by (simp add: db')
  next
    case False
    then have "terminal_ids ?rows' = terminal_ids ?rows"
      using step row_step_not_terminal by (intro terminal_ids_update) fastforce
    with False wf show ?thesis by (simp add: db' wf_store_def outbox_ok_def)
  qed
  moreover have "events_ok ?rows' (runtime_events db @ [reclaim_event now d r])"
  proof (rule events_ok_append [OF _ new])
    show "events_ok ?rows' (runtime_events db)" using events_ok_mono [OF _ js] wf by (simp add: wf_store_def)
    show "consumes_within (runtime_events db) (reclaim_event now d r)"
      by (simp add: consumes_within_def reclaim_event_def job_event_def reclaim_event_id_def)
    have "?f r \<in> set ?rows'" using r(1) by (auto simp: set_sql_update intro: image_eqI [of _ _ r])
    then show "event_ok ?rows' (reclaim_event now d r)"
      by (auto simp: event_ok_def reclaim_event_def job_event_def intro!: bexI [of _ "?f r"])
  qed
  ultimately show ?thesis by (simp add: wf_store_def db')
qed

text \<open>After one reclaim the rest of the batch is still expired and the store still well formed.\<close>

lemma reclaim_one_rest:
  assumes one: "reclaim_one now db r = Ok db1" and wf: "wf_store db"
    and sub: "set (r # rs) \<subseteq> {r \<in> set (runtime_jobs db). expired now r}" and u: "unique_by job_id (r # rs)"
  shows "wf_store db1" and "set rs \<subseteq> {r \<in> set (runtime_jobs db1). expired now r}" and "unique_by job_id rs"
proof -
  show "wf_store db1" using reclaim_one_wf [OF wf _ _ one] sub by simp
  show "unique_by job_id rs" using u by (simp add: unique_by_def)
  have jobs1: "runtime_jobs db1 = sql_update (\<lambda>q. job_id q = job_id r) (reclaim_update now) (runtime_jobs db)"
    using reclaim_one_jobs [OF one] wf sub by (simp add: wf_store_def jobs_ok_def)
  show "set rs \<subseteq> {r \<in> set (runtime_jobs db1). expired now r}"
  proof
    fix q assume q: "q \<in> set rs"
    with u have "job_id q \<noteq> job_id r" by (auto simp: unique_by_def image_iff)
    with q sub show "q \<in> {r \<in> set (runtime_jobs db1). expired now r}"
      unfolding jobs1 set_sql_update by (auto intro!: image_eqI [of _ _ q])
  qed
qed

lemma reclaim_fold_wf:
  assumes "fold_result (reclaim_one now) db rs = Ok db'" and "wf_store db"
    and "set rs \<subseteq> {r \<in> set (runtime_jobs db). expired now r}" and "unique_by job_id rs"
  shows "wf_store db'"
  using assms
proof (induction rs arbitrary: db)
  case (Cons r rs)
  then obtain db1 where one: "reclaim_one now db r = Ok db1" and rest: "fold_result (reclaim_one now) db1 rs = Ok db'"
    by (auto simp: result_simps)
  show ?case by (rule Cons.IH [OF rest reclaim_one_rest [OF one Cons.prems(2-4)]])
qed simp

lemma reclaim_wf:
  assumes "reclaim_expired_runtime_job_leases now db = Ok (n, db')" and "wf_store db"
  shows "wf_store db'"
proof -
  have u: "unique_by job_id (runtime_jobs db)" using assms(2) by (simp add: wf_store_def jobs_ok_def)
  have "fold_result (reclaim_one now) db (expired_leases now db) = Ok db'"
    using assms(1) by (auto simp: reclaim_expired_runtime_job_leases_def result_simps Let_def)
  then show ?thesis using reclaim_fold_wf assms(2) expired_leases_props [OF u] by blast
qed

section \<open>Terminal operations\<close>

lemma complete_outbox:
  assumes "complete_runtime_job req db = Ok (u, db')" and "outbox_ok (runtime_jobs db) (runtime_job_outbox db)"
    and "unique_by job_id (runtime_jobs db)"
  shows "outbox_ok (runtime_jobs db') (runtime_job_outbox db')"
proof -
  let ?P = "held (complete_job_id req) (complete_lease_owner req) (completed_at_ms req)"
  obtain r where r: "r \<in> set (runtime_jobs db)" "?P r" using assms(1) by (auto simp: complete_effect)
  have "row_step (DoComplete (complete_lease_owner req) (completed_at_ms req) (complete_output_refs req)) q (completed_row req q)"
    if "?P q" for q
    using that unfolding completed_row_def by (intro row_step.complete) (simp add: held_iff_live)
  then have "outbox_ok (sql_update ?P (completed_row req) (runtime_jobs db))
      (outbox_upsert (complete_job_id req) RUNTIME_JOB_TERMINAL_EVENT (runtime_job_outbox db))"
    using r(2) by (intro outbox_ok_single [OF assms(2,3) r(1)]) (fastforce simp: held_iff_live)+
  with assms(1) show ?thesis by (simp add: complete_effect)
qed

lemma cancel_outbox:
  assumes "outbox_ok rows outbox" and "unique_by job_id rows" and "r \<in> set rows" and "cancel_condition req r"
  shows "outbox_ok (sql_update (cancel_condition req) (cancelled_row req) rows)
    (outbox_upsert (cancel_job_id req) RUNTIME_JOB_TERMINAL_EVENT outbox)"
proof (rule outbox_ok_single [OF assms(1-3)])
  show "cancel_condition req r" by (rule assms(4))
next
  fix r assume "cancel_condition req r"
  then show "job_id r = cancel_job_id req \<and> (\<exists>a. row_step a r (cancelled_row req r) \<and> terminating a)"
    unfolding cancelled_row_def
    by (intro conjI exI [of _ "DoCancel (expected_lease_owner req) (cancelled_at_ms req) (cancel_reason req)"] row_step.cancel)
      (auto simp: cancel_condition_def held_iff_live is_terminal_def)
qed

lemma fail_outbox:
  assumes "fail_runtime_job req db = Ok (u, db')" and "outbox_ok (runtime_jobs db) (runtime_job_outbox db)"
    and "unique_by job_id (runtime_jobs db)"
  shows "outbox_ok (runtime_jobs db') (runtime_job_outbox db')"
proof -
  let ?P = "held (fail_job_id req) (fail_lease_owner req) (failed_at_ms req)"
  obtain st run_at r where t: "fail_target req = Ok (st, run_at)" and r: "r \<in> set (runtime_jobs db)" "?P r"
    and jobs: "runtime_jobs db' = sql_update ?P (failed_row req st run_at) (runtime_jobs db)"
    and ob: "runtime_job_outbox db' = (if fail_disposition req \<noteq> RetryScheduled
      then outbox_upsert (fail_job_id req) RUNTIME_JOB_TERMINAL_EVENT (runtime_job_outbox db) else runtime_job_outbox db)"
    using assms(1) unfolding fail_effect by fastforce
  have step: "row_step (DoFail (fail_lease_owner req) (failed_at_ms req) st run_at (fail_last_error req)) q (failed_row req st run_at q)"
    if "?P q" for q
    using that fail_target_status [OF t] unfolding failed_row_def by (intro row_step.fail) (auto simp: held_iff_live)
  show ?thesis
  proof (cases "fail_disposition req = RetryScheduled")
    case True
    then have "st = Queued" using fail_target_status [OF t] by auto
    then have "terminal_ids (runtime_jobs db') = terminal_ids (runtime_jobs db)" unfolding jobs
      by (intro terminal_ids_update) (auto simp: is_terminal_def held_def failed_row_def)
    with True assms(2) show ?thesis by (simp add: ob outbox_ok_def)
  next
    case False
    then have "is_terminal st" using fail_target_status [OF t] by (auto simp: is_terminal_def)
    then have "outbox_ok (runtime_jobs db') (outbox_upsert (fail_job_id req) RUNTIME_JOB_TERMINAL_EVENT (runtime_job_outbox db))"
      unfolding jobs using step r(2) by (intro outbox_ok_single [OF assms(2,3) r(1)]) (fastforce simp: held_iff_live)+
    with False show ?thesis by (simp add: ob)
  qed
qed

lemma outbox_ok_published:
  "outbox_ok rows outbox \<Longrightarrow> outbox_ok rows (sql_update P (\<lambda>ob. ob\<lparr>published_at_ms := x\<rparr>) outbox)"
  by (simp add: outbox_ok_def unique_by_sql_update key_image_sql_update ball_sql_update)

lemma mark_published_outbox:
  assumes "mark_runtime_job_outbox_published j t g now db = Ok (v, db')" and "outbox_ok rows (runtime_job_outbox db)"
  shows "outbox_ok rows (runtime_job_outbox db')"
  using assms outbox_ok_published [of rows "runtime_job_outbox db"]
  by (auto simp: mark_runtime_job_outbox_published_def Let_def result_simps split: if_splits)

section \<open>All operations\<close>

fun quiet_op :: "store_op \<Rightarrow> bool" where
  "quiet_op (Complete _) = False"
| "quiet_op (Fail _) = False"
| "quiet_op (Cancel _) = False"
| "quiet_op (CancelForShutdown _) = False"
| "quiet_op (CreateDeadLetterAndFail _ _) = False"
| "quiet_op (ReclaimLeases _) = False"
| "quiet_op (MarkPublished _ _ _ _) = False"
| "quiet_op _ = True"

lemma quiet_op_not_terminating: "quiet_op op \<Longrightarrow> performs op j a \<Longrightarrow> \<not> terminating a"
  by (cases op) auto

lemma insert_job_other_tables:
  "insert_runtime_job job db = Ok (b, db') \<Longrightarrow> runtime_job_outbox db' = runtime_job_outbox db \<and>
     runtime_events db' = runtime_events db"
  by (auto simp: insert_runtime_job_def split: if_splits)

lemma schedule_other_tables:
  "schedule_with what job db = Ok (v, db') \<Longrightarrow> runtime_job_outbox db' = runtime_job_outbox db \<and>
     runtime_events db' = runtime_events db"
  by (auto simp: schedule_with_def result_simps split: if_splits dest: insert_job_other_tables)

lemma claim_other_tables:
  "claim_due_runtime_jobs nonce req db = Ok (v, db') \<Longrightarrow> runtime_job_outbox db' = runtime_job_outbox db \<and>
     runtime_events db' = runtime_events db"
  by (erule claim_due_effect) simp

lemma replay_other_tables:
  "replay_dead_letter req db = Ok (v, db') \<Longrightarrow> runtime_job_outbox db' = runtime_job_outbox db \<and>
     runtime_events db' = runtime_events db"
  by (erule replay_effect) (auto dest: schedule_other_tables)

lemma acquire_other_tables:
  "acquire_resource_claim req db = Ok (v, db') \<Longrightarrow> runtime_job_outbox db' = runtime_job_outbox db \<and>
     runtime_events db' = runtime_events db"
  by (erule acquire_effect) simp_all

lemma insert_dead_letter_other_tables:
  "insert_dead_letter_record rec db = Ok (b, db') \<Longrightarrow> runtime_job_outbox db' = runtime_job_outbox db \<and>
     runtime_events db' = runtime_events db"
  by (auto simp: insert_dead_letter_effect)

lemmas other_tables = schedule_other_tables claim_other_tables replay_other_tables acquire_other_tables
  insert_dead_letter_other_tables

lemma wake_outbox: "wake_runtime_job req db = Ok (v, db') \<Longrightarrow> runtime_job_outbox db' = runtime_job_outbox db"
  by (erule wake_effect, erule wake_row_effect) auto

lemma yield_outbox: "yield_runtime_job req db = Ok (v, db') \<Longrightarrow> runtime_job_outbox db' = runtime_job_outbox db"
  by (erule yield_effect) auto

lemma quiet_op_outbox:
  assumes "store_tx op db = Ok ((), db')" and "quiet_op op"
  shows "runtime_job_outbox db' = runtime_job_outbox db"
proof (cases op)
  case (AppendEventIdempotent ev)
  with assms obtain b where "append_event_conn_idempotent ev db = Ok (b, db')" by auto
  from idempotent_append_effect(1) [OF this] show ?thesis by simp
qed (use assms in \<open>auto simp: quiet_ops schedule_runtime_job_def start_runtime_job_def renew_runtime_job_lease_def
      result_simps Let_def split: if_splits dest: other_tables wake_outbox yield_outbox\<close>)

lemma store_tx_outbox:
  assumes wf: "wf_store db" and ok: "store_tx op db = Ok ((), db')" and op: "op_ok op"
  shows "outbox_ok (runtime_jobs db') (runtime_job_outbox db')"
proof -
  have u: "unique_by job_id (runtime_jobs db)" and ob: "outbox_ok (runtime_jobs db) (runtime_job_outbox db)"
    using wf by (auto simp: wf_store_def jobs_ok_def)
  show ?thesis
  proof (cases "quiet_op op")
    case True
    then have "terminal_ids (runtime_jobs db') = terminal_ids (runtime_jobs db)"
      using jobs_step_quiet_terminal_ids [OF store_tx_jobs [OF u ok] op] quiet_op_not_terminating by blast
    with ob quiet_op_outbox [OF ok True] show ?thesis by (simp add: outbox_ok_def)
  next
    case False
    with ok show ?thesis
    proof (cases op)
      case (CreateDeadLetterAndFail rec req)
      with ok obtain v where "create_dead_letter_and_fail_job rec req db = Ok (v, db')" by auto
      then obtain db1 b where "insert_dead_letter_record rec db = Ok (b, db1)" "fail_runtime_job req db1 = Ok ((), db')"
        by (rule dead_letter_and_fail_effect)
      with fail_outbox [of req db1] u ob show ?thesis
        using insert_dead_letter_jobs insert_dead_letter_other_tables by metis
    next
      case (ReclaimLeases now)
      with ok wf have "wf_store db'" by (auto dest: reclaim_wf)
      then show ?thesis by (simp add: wf_store_def)
    next
      case (MarkPublished j t g now)
      with ok obtain v where m: "mark_runtime_job_outbox_published j t g now db = Ok (v, db')" by auto
      then have "runtime_jobs db' = runtime_jobs db"
        by (auto simp: mark_runtime_job_outbox_published_def Let_def result_simps split: if_splits)
      with mark_published_outbox [OF m ob] show ?thesis by simp
    qed (use u ob in \<open>auto simp: cancel_runtime_job_def cancel_conn_effect result_simps elim!: shutdown_effect
          intro: complete_outbox fail_outbox cancel_outbox\<close>)
  qed
qed

lemma events_ok_consumed:
  assumes "events_ok rows evs" and "unique_by event_id (evs @ es)"
    and "\<And>e. e \<in> set es \<Longrightarrow> event_ok rows e \<and> consumes_within evs e"
  shows "events_ok rows (evs @ es)"
  using assms by (auto simp: events_ok_def intro: consumes_within_mono)

lemma yield_events:
  assumes "yield_runtime_job req db = Ok (v, db')" and "events_ok rows (runtime_events db)"
  shows "events_ok rows (runtime_events db')"
  using assms(1)
proof (cases rule: yield_effect)
  case (released job run_at)
  have "unique_by event_id (runtime_events db)" using assms(2) by (simp add: events_ok_def)
  with released have "unique_by event_id (runtime_events db')" by blast
  then show ?thesis unfolding released(5)
    using assms(2) pending_wake_prefix [OF assms(2)]
    by (auto intro!: events_ok_consumed yield_event_ok wake_consumed_event_ok simp: pending_wakes_def)
qed (simp add: assms(2))

lemma wake_events:
  assumes "wake_runtime_job req db = Ok (v, db')" and "events_ok rows (runtime_events db)"
  shows "events_ok rows (runtime_events db')"
proof -
  obtain job db1 where ev: "(db1 = db \<and> (\<exists>e \<in> set (runtime_events db). event_id e = wake_event_id req \<and> payload_json e = wake_payload req)) \<or>
      (wake_event_id req \<notin> event_id ` set (runtime_events db) \<and>
       db1 = db\<lparr>runtime_events := runtime_events db @ [wake_event req (session_id job)]\<rparr>)"
    and row: "wake_row req job db1 = Ok (v, db')"
    by (rule wake_effect [OF assms(1)])
  have "events_ok rows (runtime_events db @ [wake_event req (session_id job)])"
    if "wake_event_id req \<notin> event_id ` set (runtime_events db)"
    using that by (intro events_ok_append assms(2) wake_event_ok) (simp add: wake_event_def job_event_def)
  with ev assms(2) have "events_ok rows (runtime_events db1)" by (elim disjE) simp_all
  moreover have "runtime_events db' = runtime_events db1" using row by (rule wake_row_effect) auto
  ultimately show ?thesis by simp
qed

lemma service_stop_event_ok:
  "event_id e = ''local_service_stop:'' @ j \<Longrightarrow> event_type e = ''local_runtime.service_stop.v1'' \<Longrightarrow>
     event_ok rows e \<and> consumes_within evs e"
  by (simp add: event_ok_def reclaim_event_id_def consumes_within_def)

lemma store_tx_events:
  assumes wf: "wf_store db" and ok: "store_tx op db = Ok ((), db')" and op: "op_ok op"
  shows "events_ok (runtime_jobs db') (runtime_events db')"
proof -
  have u: "unique_by job_id (runtime_jobs db)" using wf by (auto simp: wf_store_def jobs_ok_def)
  let ?rows = "runtime_jobs db'"
  have ev: "events_ok ?rows (runtime_events db)"
    using events_ok_mono [OF _ store_tx_jobs [OF u ok]] wf by (simp add: wf_store_def)
  show ?thesis
  proof (cases op)
    case (CancelForShutdown req)
    with ok have "cancel_for_service_shutdown req db = Ok ((), db')" by simp
    then obtain evs where "runtime_events db' = evs" and "evs = runtime_events db \<or> (\<exists>e. evs = runtime_events db @ [e] \<and>
      event_id e = ''local_service_stop:'' @ cancel_job_id req \<and> event_type e = ''local_runtime.service_stop.v1'' \<and>
      event_id e \<notin> event_id ` set (runtime_events db))"
      by (rule shutdown_effect) simp
    then show ?thesis using ev events_ok_append [OF ev] service_stop_event_ok by metis
  next
    case (CreateDeadLetterAndFail rec req)
    with ok obtain v where "create_dead_letter_and_fail_job rec req db = Ok (v, db')" by auto
    then obtain db1 b where "insert_dead_letter_record rec db = Ok (b, db1)" "fail_runtime_job req db1 = Ok ((), db')"
      by (rule dead_letter_and_fail_effect)
    then have "runtime_events db' = runtime_events db" by (auto simp: fail_effect dest: insert_dead_letter_other_tables)
    with ev show ?thesis by simp
  next
    case (ReclaimLeases now)
    with ok wf have "wf_store db'" by (auto dest: reclaim_wf)
    then show ?thesis by (simp add: wf_store_def)
  next
    case (AppendEventIdempotent e)
    with ok obtain b where "append_event_conn_idempotent e db = Ok (b, db')" by auto
    from idempotent_append_effect [OF this] ev op AppendEventIdempotent show ?thesis
      by (auto intro!: events_ok_append foreign_event_ok)
  next
    case (AppendEvent e)
    with ok ev op show ?thesis by (auto simp: append_event_conn_def intro!: events_ok_append foreign_event_ok)
  qed (use ok ev in \<open>auto simp: quiet_ops schedule_runtime_job_def start_runtime_job_def renew_runtime_job_lease_def
        complete_effect fail_effect cancel_runtime_job_def cancel_conn_effect
        result_simps Let_def split: if_splits dest: other_tables intro: wake_events yield_events\<close>)
qed

lemma store_tx_wf:
  assumes "wf_store db" and "store_tx op db = Ok ((), db')" and "op_ok op"
  shows "wf_store db'"
  using assms store_tx_outbox store_tx_events jobs_step_ok [OF store_tx_jobs]
  unfolding wf_store_def jobs_ok_def by blast

lemma exec_wf: "wf_store db \<Longrightarrow> op_ok op \<Longrightarrow> wf_store (exec op db)"
  by (cases rule: exec_cases [of op db]) (auto intro: store_tx_wf)

end
