(* ===== verification/StoreSystem.thy ===== *)
theory StoreSystem
  imports StoreInvariant
begin

text \<open>
  The store as a transition system over admissible operations, and its interpretation as a status
  store (jobs move along the job status machine) and as a lease store (only a claim mints a lease
  token).
\<close>

section \<open>The store as a transition system\<close>

definition admissible_step :: "db \<Rightarrow> store_op \<Rightarrow> db \<Rightarrow> bool" where
  "admissible_step db op db' \<longleftrightarrow> op_ok op \<and> store_step db op db'"

lemma wf_unique: "wf_store db \<Longrightarrow> unique_by job_id (runtime_jobs db)"
  by (simp add: wf_store_def jobs_ok_def)

lemma exec_jobs_step: "wf_store db \<Longrightarrow> jobs_step op (runtime_jobs db) (runtime_jobs (exec op db))"
  by (cases rule: exec_cases [of op db]) (auto intro: store_tx_jobs wf_unique jobs_step_same)

lemma exec_row:
  assumes "wf_store db" and "job_row db j = Some r"
  shows "\<exists>r'. job_row (exec op db) j = Some r' \<and> (r' = r \<or> (\<exists>a. performs op j a \<and> row_step a r r'))"
  using exec_jobs_step [OF assms(1), of op]
proof (cases rule: jobs_step_cases)
  case (moved P f)
  have "job_id (f q) = job_id q" if "q \<in> set (runtime_jobs db)" "P q" for q
    using row_step_facts(1) [OF moved(2) [OF that]] .
  then have "job_row (exec op db) j = Some (if P r then f r else r)"
    using assms(2) unfolding job_row_def moved(1) by (subst sql_find_update) auto
  with moved(2) [of r] job_row_SomeD [OF assms(2)] show ?thesis by auto
next
  case (added job)
  then have "job_row (exec op db) j = Some r" using assms(2) by (simp add: job_row_def sql_find_snoc)
  then show ?thesis by blast
qed

lemma exec_new_row:
  assumes "wf_store db" and "op_ok op" and "job_row db j = None" and "job_row (exec op db) j = Some r"
  shows "\<exists>job. fresh_job job \<and> r = new_row job"
  using exec_jobs_step [OF assms(1), of op]
proof (cases rule: jobs_step_cases)
  case (moved P f)
  have "job_id (f q) = job_id q" if "q \<in> set (runtime_jobs db)" "P q" for q
    using row_step_facts(1) [OF moved(2) [OF that]] .
  then have "job_row (exec op db) j = None"
    using assms(3) unfolding job_row_def moved(1) by (subst sql_find_update) auto
  with assms(4) show ?thesis by simp
next
  case (added job)
  then show ?thesis using assms scheduled_fresh [OF added(1) assms(2)]
    by (auto simp: job_row_def sql_find_snoc split: if_splits)
qed

interpretation job_store: status_store admissible_step wf_store can_transition_to is_terminal
  "\<lambda>db j. map_option status (job_row db j)"
proof
  fix db op db' assume "wf_store db" "admissible_step db op db'"
  then show "wf_store db'" by (auto simp: admissible_step_def store_step_def intro: exec_wf)
next
  fix db op db' j st
  assume wf: "wf_store db" and step: "admissible_step db op db'" and "map_option status (job_row db j) = Some st"
  then obtain r where r: "job_row db j = Some r" "status r = st" by auto
  have db': "db' = exec op db" using step by (simp add: admissible_step_def store_step_def)
  from exec_row [OF wf r(1), of op] show "\<exists>y. map_option status (job_row db' j) = Some y \<and> can_transition_to st y"
    unfolding db' using r(2) row_step_transition job_status.can_refl by fastforce
qed

fun mints_lease :: "store_op \<Rightarrow> string \<Rightarrow> string \<Rightarrow> bool" where
  "mints_lease (Claim nonce req) j tok = (tok = worker_id req @ '':'' @ nonce j)"
| "mints_lease _ _ _ = False"

lemma row_step_holder:
  "row_step a r r' \<Longrightarrow> lease_owner r' = Some t \<Longrightarrow>
     lease_owner r = Some t \<or> (\<exists>now e. a = DoClaim t now e)"
  by (induction rule: row_step.induct) auto

interpretation job_leases: lease_store admissible_step wf_store
  "\<lambda>db j. Option.bind (job_row db j) lease_owner" mints_lease
proof
  fix db op db' j t
  assume wf: "wf_store db" and step: "admissible_step db op db'" and held: "Option.bind (job_row db' j) lease_owner = Some t"
  have db': "db' = exec op db" and op: "op_ok op" using step by (simp_all add: admissible_step_def store_step_def)
  from held obtain r' where r': "job_row db' j = Some r'" "lease_owner r' = Some t" by (auto simp: bind_eq_Some_conv)
  show "Option.bind (job_row db j) lease_owner = Some t \<or> mints_lease op j t"
  proof (cases "job_row db j")
    case None
    with exec_new_row [OF wf op None, of r'] r' db' show ?thesis by (auto simp: fresh_job_def)
  next
    case (Some r)
    with exec_row [OF wf Some, of op] r' db' consider "r' = r" | a where "performs op j a" "row_step a r r'" by auto
    then show ?thesis
    proof cases
      case 2
      from row_step_holder [OF 2(2) r'(2)] 2(1) Some show ?thesis by (cases op) auto
    qed (use Some r' in simp)
  qed
qed

lemma run_exec_iff: "run admissible_step db ops db' \<longleftrightarrow> list_all op_ok ops \<and> db' = fold exec ops db"
proof
  assume "run admissible_step db ops db'"
  then show "list_all op_ok ops \<and> db' = fold exec ops db"
    by (induction rule: run.induct) (auto simp: admissible_step_def store_step_def)
next
  assume "list_all op_ok ops \<and> db' = fold exec ops db"
  then show "run admissible_step db ops db'"
    by (induction ops arbitrary: db) (auto simp: admissible_step_def store_step_def intro: run.intros)
qed

end
