(* ===== verification/StoreSamples.thy ===== *)
theory StoreSamples
  imports StoreSystem
begin

text \<open>
  Concrete store states that the witnesses evaluate: a store with one queued job, the same store
  after a worker claimed the job, and after the worker completed it.
\<close>

definition sample_job :: RuntimeJobRecord where
  "sample_job = \<lparr>job_id = ''job-1'', job_kind = ''worker.noop'', status = Queued, run_at_ms = 10,
     lease_owner = None, lease_expires_at_ms = None, heartbeat_at_ms = None, retry_count = 0, max_retries = 3,
     backoff_policy = default_backoff_policy, idempotency_key = ''key-1'', session_id = Some ''s'',
     branch_id = None, checkpoint_id = None, payload_ref = None, output_refs = [], last_error = None,
     created_at_ms = 5, updated_at_ms = 5\<rparr>"

definition sample_claim :: ClaimDueRuntimeJobsRequest where
  "sample_claim = \<lparr>due_now_ms = 20, worker_id = ''w'', due_job_id = None, due_job_kind = None,
     due_session_id = None, due_limit = 5, due_lease_ms = 100\<rparr>"

definition sample_db :: db where
  "sample_db = exec (Schedule sample_job) empty_db"

definition leased_db :: db where
  "leased_db = exec (Claim (\<lambda>_. ''n'') sample_claim) sample_db"

lemma sample_job_simps [simp]:
  "job_id sample_job = ''job-1''" "job_kind sample_job = ''worker.noop''" "status sample_job = Queued"
  "run_at_ms sample_job = 10" "created_at_ms sample_job = 5" "idempotency_key sample_job = ''key-1''"
  "retry_count sample_job = 0" "max_retries sample_job = 3" "lease_owner sample_job = None"
  "lease_expires_at_ms sample_job = None" "session_id sample_job = Some ''s''"
  by (simp_all add: sample_job_def)

lemma sample_claim_simps [simp]:
  "due_now_ms sample_claim = 20" "worker_id sample_claim = ''w''" "due_job_id sample_claim = None"
  "due_job_kind sample_claim = None" "due_session_id sample_claim = None" "due_limit sample_claim = 5"
  "due_lease_ms sample_claim = 100"
  by (simp_all add: sample_claim_def)

lemma new_row_more [simp]:
  "retry_count (new_row job) = retry_count job" "max_retries (new_row job) = max_retries job"
  "session_id (new_row job) = session_id job" "created_at_ms (new_row job) = created_at_ms job"
  by (simp_all add: new_row_def RuntimeJobRecord.defs runtime_job_row.defs)

lemma lease_row_more [simp]:
  "retry_count (lease_row n q e r) = retry_count r" "max_retries (lease_row n q e r) = max_retries r"
  "lease_owner (lease_row n q e r) = Some (worker_id q @ '':'' @ n (job_id r))"
  "lease_expires_at_ms (lease_row n q e r) = Some e" "session_id (lease_row n q e r) = session_id r"
  "lease_reclaim_count (lease_row n q e r) = lease_reclaim_count r"
  by (simp_all add: lease_row_def)

lemma sample_db_eq: "sample_db = empty_db\<lparr>runtime_jobs := [new_row sample_job]\<rparr>"
  by (simp add: sample_db_def exec_def commit_job_write_def discard_def schedule_runtime_job_def schedule_with_def
      insert_runtime_job_def res_bind_def empty_db_def new_row_def)

lemma i64_small: "i64_saturating_add 20 100 = 120" "i64_try_from 100 = Some 100" "i64_try_from 5 = Some 5"
  by (simp_all add: i64_saturating_add_def i64_try_from_def i64_max_def i64_min_def)

lemma leased_db_eq: "leased_db = empty_db\<lparr>runtime_jobs := [lease_row (\<lambda>_. ''n'') sample_claim 120 (new_row sample_job)]\<rparr>"
  unfolding leased_db_def sample_db_eq
  by (simp add: exec_def commit_job_write_def discard_def claim_due_runtime_jobs_def to_i64_def
      ok_or_def i64_small sql_select_def sql_update_def sql_count_def due_condition_def trimmed_filter_def load_runtime_jobs_by_ids_def
      row_to_runtime_job_def ensure_def u32_max_def res_bind_def empty_db_def)

lemma sample_wf: "wf_store sample_db" "wf_store leased_db"
proof -
  show "wf_store sample_db" unfolding sample_db_def
    by (rule exec_wf [OF wf_empty]) (simp add: fresh_job_def u32_max_def)
  then show "wf_store leased_db" unfolding leased_db_def by (rule exec_wf) simp
qed

lemma sample_rows:
  "job_row sample_db ''job-1'' = Some (new_row sample_job)"
  "job_row leased_db ''job-1'' = Some (lease_row (\<lambda>_. ''n'') sample_claim 120 (new_row sample_job))"
  by (simp_all add: sample_db_eq leased_db_eq job_row_def sql_find_def)

definition sample_complete :: CompleteRuntimeJobRequest where
  "sample_complete = \<lparr>complete_job_id = ''job-1'', complete_lease_owner = ''w:n'',
     complete_output_refs = [''out''], completed_at_ms = 50\<rparr>"

definition done_db :: db where
  "done_db = exec (Complete sample_complete) leased_db"

lemma done_db_eq: "done_db = empty_db\<lparr>
    runtime_jobs := [completed_row sample_complete (lease_row (\<lambda>_. ''n'') sample_claim 120 (new_row sample_job))],
    runtime_job_outbox := [\<lparr>outbox_job_id = ''job-1'', outbox_event_type = RUNTIME_JOB_TERMINAL_EVENT,
      published_at_ms = None, generation = 0\<rparr>]\<rparr>"
proof -
  have "store_tx (Complete sample_complete) leased_db = Ok ((), empty_db\<lparr>
    runtime_jobs := [completed_row sample_complete (lease_row (\<lambda>_. ''n'') sample_claim 120 (new_row sample_job))],
    runtime_job_outbox := [\<lparr>outbox_job_id = ''job-1'', outbox_event_type = RUNTIME_JOB_TERMINAL_EVENT,
      published_at_ms = None, generation = 0\<rparr>]\<rparr>)"
    by (simp add: complete_effect leased_db_eq empty_db_def held_def sql_update_def outbox_upsert_def sql_count_def
        sample_complete_def)
  then show ?thesis unfolding done_db_def by (rule exec_Ok)
qed

lemma done_wf: "wf_store done_db"
  unfolding done_db_def using sample_wf(2) by (rule exec_wf) simp

lemma done_row: "job_row done_db ''job-1'' =
    Some (completed_row sample_complete (lease_row (\<lambda>_. ''n'') sample_claim 120 (new_row sample_job)))"
  by (simp add: done_db_eq job_row_def sql_find_def completed_row_def)

end
