(* ===== verification/JobProperties.thy ===== *)
theory JobProperties
  imports StoreSamples
begin

text \<open>
  Properties of the runtime job store over arbitrary sequences of operations: the life cycle of
  jobs, leases and their fencing, the terminal outbox, claiming, reclaiming, scheduling and wakes.
\<close>

section \<open>Life cycle\<close>

text \<open>
  C1: Refinement: in a well-formed store every operation leaves each existing job row as it is or
  moves it by one step of the job life cycle with an action that the operation is entitled to, and
  no job row ever disappears.
\<close>

theorem store_refines_life_cycle:
  assumes "wf_store db" and "job_row db j = Some r"
  shows "\<exists>r'. job_row (exec op db) j = Some r' \<and> (r' = r \<or> (\<exists>a. performs op j a \<and> row_step a r r'))"
  using assms by (rule exec_row)

theorem store_refines_life_cycle_witness:
  "\<exists>r'. job_row leased_db ''job-1'' = Some r' \<and>
    (\<exists>a. performs (Claim (\<lambda>_. ''n'') sample_claim) ''job-1'' a \<and> row_step a (new_row sample_job) r')"
proof -
  have "new_row sample_job \<noteq> lease_row (\<lambda>_. ''n'') sample_claim 120 (new_row sample_job)"
    by (metis lease_row_simps(2) new_row_simps(4) RuntimeJobStatus.distinct(1) sample_job_simps(3))
  then show ?thesis
    using store_refines_life_cycle [OF sample_wf(1) sample_rows(1), of "Claim (\<lambda>_. ''n'') sample_claim"] sample_rows(2)
    by (auto simp: leased_db_def [symmetric])
qed

text \<open>
  Jobs never disappear and, over any run of the store, move only along the job status machine:
  from a status the job had, its later status is reachable by allowed transitions.
\<close>

theorem job_status_follows_machine:
  assumes "run admissible_step db ops db'" and "wf_store db" and "job_row db j = Some r"
  shows "\<exists>r'. job_row db' j = Some r' \<and> can_transition_to\<^sup>*\<^sup>* (status r) (status r')"
  using job_store.run_status [OF assms(1,2), of j] assms(3) by fastforce

theorem job_status_follows_machine_witness:
  "\<exists>r'. job_row done_db ''job-1'' = Some r' \<and> can_transition_to\<^sup>*\<^sup>* Queued (status r')"
proof -
  have "run admissible_step sample_db [Claim (\<lambda>_. ''n'') sample_claim, Complete sample_complete] done_db"
    by (simp add: run_exec_iff leased_db_def done_db_def)
  from job_status_follows_machine [OF this sample_wf(1) sample_rows(1)] show ?thesis by simp
qed

text \<open>
  A terminal job is final: no run of the store changes any column of its row.
\<close>

theorem terminal_job_frozen:
  assumes "run admissible_step db ops db'" and "wf_store db" and "job_row db j = Some r" and "is_terminal (status r)"
  shows "job_row db' j = Some r"
  using assms(1-3)
proof (rule job_store.run_keeps)
  fix db op db' assume wf: "wf_store db" and row: "job_row db j = Some r" and step: "admissible_step db op db'"
  from exec_row [OF wf row, of op] assms(4) show "job_row db' j = Some r"
    using row_step_not_terminal step by (auto simp: admissible_step_def store_step_def)
qed

theorem terminal_job_frozen_witness:
  "\<exists>db'. run admissible_step done_db [ReclaimLeases 9000, Claim (\<lambda>_. ''m'') sample_claim] db' \<and>
     job_row db' ''job-1'' = job_row done_db ''job-1'' \<and> status (the (job_row db' ''job-1'')) = Succeeded"
proof -
  let ?db' = "exec (Claim (\<lambda>_. ''m'') sample_claim) (exec (ReclaimLeases 9000) done_db)"
  have "run admissible_step done_db [ReclaimLeases 9000, Claim (\<lambda>_. ''m'') sample_claim] ?db'"
    by (simp add: run_exec_iff)
  with terminal_job_frozen [OF this done_wf done_row] show ?thesis
    by (auto simp: done_row is_terminal_def completed_row_def)
qed

section \<open>Leases\<close>

text \<open>
  In every store reached from the empty one, a job has a lease owner and a lease expiry exactly
  while it is leased or running, and has lost at most three leases, or four and is dead lettered.
\<close>

theorem lease_discipline_and_reclaim_budget:
  assumes "run admissible_step empty_db ops db" and "job_row db j = Some r"
  shows "(lease_owner r \<noteq> None \<longleftrightarrow> status r \<in> {Leased, Running}) \<and>
    (lease_expires_at_ms r \<noteq> None \<longleftrightarrow> status r \<in> {Leased, Running}) \<and>
    (lease_reclaim_count r \<le> 3 \<or> lease_reclaim_count r = 4 \<and> status r = DeadLettered)"
proof -
  have "wf_store db" using job_store.run_inv [OF assms(1) wf_empty] .
  then have "row_ok r" using job_row_SomeD [OF assms(2)] by (auto simp: wf_store_def jobs_ok_def list_all_iff)
  then show ?thesis by (auto simp: row_ok_def)
qed

theorem lease_discipline_and_reclaim_budget_witness:
  "\<exists>r. job_row leased_db ''job-1'' = Some r \<and> lease_owner r \<noteq> None \<and> lease_expires_at_ms r \<noteq> None \<and>
     lease_reclaim_count r \<le> 3"
proof -
  have "run admissible_step empty_db [Schedule sample_job, Claim (\<lambda>_. ''n'') sample_claim] leased_db"
    by (simp add: run_exec_iff sample_db_def leased_db_def fresh_job_def u32_max_def)
  from lease_discipline_and_reclaim_budget [OF this sample_rows(2)] show ?thesis by (simp add: sample_rows(2))
qed

text \<open>An operation that acts under a lease token.\<close>

fun uses_lease :: "store_op \<Rightarrow> string \<Rightarrow> string \<Rightarrow> bool" where
  "uses_lease (Start req) j tok = (start_job_id req = j \<and> start_lease_owner req = tok)"
| "uses_lease (Renew req) j tok = (renew_job_id req = j \<and> renew_lease_owner req = tok)"
| "uses_lease (Yield req) j tok = (yield_job_id req = j \<and> yield_lease_owner req = tok)"
| "uses_lease (Complete req) j tok = (complete_job_id req = j \<and> complete_lease_owner req = tok)"
| "uses_lease (Fail req) j tok = (fail_job_id req = j \<and> fail_lease_owner req = tok)"
| "uses_lease (CreateDeadLetterAndFail _ req) j tok = (fail_job_id req = j \<and> fail_lease_owner req = tok)"
| "uses_lease (Cancel req) j tok = (cancel_job_id req = j \<and> expected_lease_owner req = Some tok)"
| "uses_lease (CancelForShutdown req) j tok = (cancel_job_id req = j \<and> expected_lease_owner req = Some tok)"
| "uses_lease _ _ _ = False"

lemma not_held:
  assumes "unique_by job_id (runtime_jobs db)" and "Option.bind (job_row db j) lease_owner \<noteq> Some tok"
    and "r \<in> set (runtime_jobs db)"
  shows "\<not> held j tok now r"
  using assms by (auto simp: held_def job_row_Some_iff [OF assms(1), THEN iffD2])

lemma stale_yield:
  assumes "\<And>r. r \<in> set (runtime_jobs db) \<Longrightarrow> \<not> held (yield_job_id req) (yield_lease_owner req) (yielded_at_ms req) r"
    and "yield_runtime_job req db = Ok (u, db')"
  shows "db' = db"
  using assms(2)
proof (cases rule: yield_effect)
  case (released job run_at)
  then show ?thesis using assms(1) sql_find_Some [OF released(1)] by blast
qed simp

lemma stale_exec:
  assumes wf: "wf_store db" and stale: "Option.bind (job_row db j) lease_owner \<noteq> Some tok" and op: "uses_lease op j tok"
  shows "exec op db = db"
proof (cases rule: exec_cases [of op db])
  case ok
  have no: "\<not> held j tok now r" if "r \<in> set (runtime_jobs db)" for r now
    using not_held [OF wf_unique [OF wf] stale that] .
  have same: "runtime_jobs db1 = runtime_jobs db" if "insert_dead_letter_record rec db = Ok (b, db1)" for rec b db1
    using that by (rule insert_dead_letter_jobs)
  from ok op no show ?thesis
    by (cases op) (fastforce simp: start_runtime_job_def renew_runtime_job_lease_def sql_count_def filter_empty_conv
        complete_effect fail_effect cancel_runtime_job_def cancel_conn_effect cancel_condition_def result_simps Let_def
        dest: same stale_yield [rotated] split: if_splits elim: shutdown_effect dead_letter_and_fail_effect)+
qed
text \<open>
  C2: Fencing: once a lease token is not the owner of a job (the job was reclaimed, released or
  claimed by another worker), then whatever other operations run in between, and as long as no claim
  mints that very token again, every start, renewal, yield, completion, failure or fenced cancellation
  under that token leaves the whole database unchanged. The runs schedule new jobs as queued jobs without a
  lease, and appended events do not imitate those of the store.
\<close>

theorem stale_lease_fenced:
  assumes "run admissible_step db ops db'" and "wf_store db"
    and "Option.bind (job_row db j) lease_owner \<noteq> Some tok"
    and "\<forall>op \<in> set ops. \<not> mints_lease op j tok" and "uses_lease op j tok"
  shows "exec op db' = db'"
proof -
  have "Option.bind (job_row db' j) lease_owner \<noteq> Some tok"
    using job_leases.run_not_holder [OF assms(1-3)] assms(4) by blast
  then show ?thesis using stale_exec [OF job_store.run_inv [OF assms(1,2)]] assms(5) by blast
qed

theorem stale_lease_fenced_witness:
  "exec (Complete sample_complete) (exec (Claim (\<lambda>_. ''other'') sample_claim) sample_db) =
     exec (Claim (\<lambda>_. ''other'') sample_claim) sample_db"
proof (rule stale_lease_fenced)
  show "run admissible_step sample_db [Claim (\<lambda>_. ''other'') sample_claim] (exec (Claim (\<lambda>_. ''other'') sample_claim) sample_db)"
    by (simp add: run_exec_iff)
  show "Option.bind (job_row sample_db ''job-1'') lease_owner \<noteq> Some ''w:n''" by (simp add: sample_rows)
  show "uses_lease (Complete sample_complete) ''job-1'' ''w:n''" by (simp add: sample_complete_def)
qed (simp_all add: sample_wf)

text \<open>The operations that may act on a job while another worker holds its lease.\<close>

fun respects_lease :: "string \<Rightarrow> string \<Rightarrow> int \<Rightarrow> store_op \<Rightarrow> bool" where
  "respects_lease j tok e (ReclaimLeases now) = (now < e)"
| "respects_lease j tok e (Cancel req) = (cancel_job_id req = j \<longrightarrow> expected_lease_owner req \<notin> {None, Some tok})"
| "respects_lease j tok e (CancelForShutdown req) = (cancel_job_id req = j \<longrightarrow> expected_lease_owner req \<notin> {None, Some tok})"
| "respects_lease j tok e op = (\<not> uses_lease op j tok)"

lemma respects_lease_performs:
  assumes "performs op j a" and "row_step a r r'" and "respects_lease j tok e op"
    and "status r \<in> {Leased, Running}" and "lease_owner r = Some tok" and "lease_expires_at_ms r = Some e"
  shows False
  using assms(2,1,3-)
  by (induction rule: row_step.induct; cases op) (auto simp: lease_live_def expired_def)

text \<open>
  Exclusivity: while a lease is held, no sequence of operations of other workers, of claims,
  wakes, schedulers, dead letter or claim maintenance, nor any reclaim before the lease expires,
  changes the job's row; only its holder, an explicit cancellation and a reclaim after expiry can.
\<close>

theorem lease_is_exclusive:
  assumes "run admissible_step db ops db'" and "wf_store db" and "job_row db j = Some r"
    and "status r \<in> {Leased, Running}" and "lease_owner r = Some tok" and "lease_expires_at_ms r = Some e"
    and "\<forall>op \<in> set ops. respects_lease j tok e op"
  shows "job_row db' j = Some r"
  using assms(1-3)
proof (rule job_store.run_keeps)
  fix db op db' assume "op \<in> set ops" and wf: "wf_store db" and row: "job_row db j = Some r" and step: "admissible_step db op db'"
  with assms(7) have "respects_lease j tok e op" by blast
  then have "\<not> (performs op j a \<and> row_step a r r')" for a r' using respects_lease_performs assms(4-6) by blast
  with exec_row [OF wf row, of op] show "job_row db' j = Some r"
    using step by (auto simp: admissible_step_def store_step_def)
qed

theorem lease_is_exclusive_witness:
  "job_row (fold exec [Claim (\<lambda>_. ''m'') sample_claim, ReclaimLeases 119, Schedule sample_job] leased_db) ''job-1'' =
     job_row leased_db ''job-1''"
proof -
  have "run admissible_step leased_db [Claim (\<lambda>_. ''m'') sample_claim, ReclaimLeases 119, Schedule sample_job]
      (fold exec [Claim (\<lambda>_. ''m'') sample_claim, ReclaimLeases 119, Schedule sample_job] leased_db)"
    by (simp add: run_exec_iff fresh_job_def u32_max_def)
  from lease_is_exclusive [OF this sample_wf(2) sample_rows(2)] show ?thesis by (simp add: sample_rows(2))
qed

section \<open>Terminal outbox\<close>

text \<open>
  C3: Transactional outbox: in every store reached from the empty one a job is terminal exactly if
  the outbox holds a delivery for it, there is only one such delivery, it is the terminal event, and
  its generation is 0: no job is ever announced twice. The runs schedule new jobs as queued jobs without a
  lease, which the scheduling call itself does not require, and appended events do not imitate those of the
  store.
\<close>

theorem terminal_outbox_exact:
  assumes "run admissible_step empty_db ops db" and "job_row db j = Some r"
  shows "(is_terminal (status r) \<longleftrightarrow> (\<exists>ob \<in> set (runtime_job_outbox db). outbox_job_id ob = j)) \<and>
    length (filter (\<lambda>ob. outbox_job_id ob = j) (runtime_job_outbox db)) \<le> 1 \<and>
    (\<forall>ob \<in> set (runtime_job_outbox db). outbox_event_type ob = RUNTIME_JOB_TERMINAL_EVENT \<and> generation ob = 0)"
proof -
  have wf: "wf_store db" using job_store.run_inv [OF assms(1) wf_empty] .
  then have ob: "outbox_ok (runtime_jobs db) (runtime_job_outbox db)" by (simp add: wf_store_def)
  have "j \<in> terminal_ids (runtime_jobs db) \<longleftrightarrow> is_terminal (status r)"
    using job_row_SomeD [OF assms(2)] unique_byD [OF wf_unique [OF wf]] by (auto simp: terminal_ids_iff)
  moreover have "sql_count (\<lambda>ob. outbox_job_id ob = j) (runtime_job_outbox db) \<le> 1"
    using ob by (intro sql_count_unique [where key = outbox_job_id]) (auto simp: outbox_ok_def)
  moreover have "j \<in> terminal_ids (runtime_jobs db) \<longleftrightarrow> (\<exists>ob \<in> set (runtime_job_outbox db). outbox_job_id ob = j)"
    using ob by (metis (no_types, lifting) image_iff outbox_ok_def)
  ultimately show ?thesis using ob by (auto simp: outbox_ok_def sql_count_def)
qed

theorem terminal_outbox_exact_witness:
  "\<exists>ob \<in> set (runtime_job_outbox done_db). outbox_job_id ob = ''job-1'' \<and> generation ob = 0"
proof -
  have "run admissible_step empty_db [Schedule sample_job, Claim (\<lambda>_. ''n'') sample_claim, Complete sample_complete] done_db"
    by (simp add: run_exec_iff sample_db_def leased_db_def done_db_def fresh_job_def u32_max_def)
  from terminal_outbox_exact [OF this done_row] show ?thesis by (auto simp: is_terminal_def completed_row_def)
qed

definition keeps_published :: "RuntimeJobOutboxRecord list \<Rightarrow> RuntimeJobOutboxRecord list \<Rightarrow> bool" where
  "keeps_published obs obs' \<longleftrightarrow> {ob \<in> set obs. published_at_ms ob \<noteq> None} \<subseteq> set obs'"

lemma keeps_published_upsert:
  assumes "wf_store db" and "r \<in> set (runtime_jobs db)" and "\<not> is_terminal (status r)"
  shows "keeps_published (runtime_job_outbox db)
    (outbox_upsert (job_id r) RUNTIME_JOB_TERMINAL_EVENT (runtime_job_outbox db))"
proof -
  have "job_id r \<notin> terminal_ids (runtime_jobs db)"
    using assms(2,3) unique_byD [OF wf_unique [OF assms(1)]] by (auto simp: terminal_ids_iff)
  then have "sql_count (\<lambda>ob. outbox_job_id ob = job_id r \<and> outbox_event_type ob = RUNTIME_JOB_TERMINAL_EVENT)
      (runtime_job_outbox db) = 0"
    using assms(1) unfolding wf_store_def outbox_ok_def sql_count_eq_0 by (metis imageI)
  then show ?thesis by (auto simp: keeps_published_def outbox_upsert_def)
qed

lemma keeps_published_held:
  assumes "wf_store db" and "r \<in> set (runtime_jobs db)" and "held j tok now r"
  shows "keeps_published (runtime_job_outbox db) (outbox_upsert j RUNTIME_JOB_TERMINAL_EVENT (runtime_job_outbox db))"
  using keeps_published_upsert [OF assms(1,2)] assms(3) by (auto simp: held_def is_terminal_def)

lemma keeps_published_cancel:
  assumes "wf_store db" and "r \<in> set (runtime_jobs db)" and "cancel_condition req r"
  shows "keeps_published (runtime_job_outbox db)
    (outbox_upsert (cancel_job_id req) RUNTIME_JOB_TERMINAL_EVENT (runtime_job_outbox db))"
  using keeps_published_upsert [OF assms(1,2)] assms(3) by (auto simp: cancel_condition_def is_terminal_def)

lemma keeps_published_refl [simp]: "keeps_published obs obs"
  by (auto simp: keeps_published_def)

lemma keeps_published_trans: "keeps_published a b \<Longrightarrow> keeps_published b c \<Longrightarrow> keeps_published a c"
  by (auto simp: keeps_published_def)

lemma keeps_published_fail:
  assumes "wf_store db" and "fail_runtime_job req db = Ok (u, db')"
  shows "keeps_published (runtime_job_outbox db) (runtime_job_outbox db')"
  using assms keeps_published_held [OF assms(1)] by (fastforce simp: fail_effect)

lemma keeps_published_reclaim_one:
  assumes "wf_store db" and "r \<in> set (runtime_jobs db)" and "expired now r" and "reclaim_one now db r = Ok db'"
  shows "keeps_published (runtime_job_outbox db) (runtime_job_outbox db')"
proof -
  have "\<not> is_terminal (status r)" using assms(3) by (auto simp: expired_def is_terminal_def)
  from keeps_published_upsert [OF assms(1,2) this] show ?thesis
    by - (rule reclaim_one_effect [OF assms(4)], simp)
qed

lemma keeps_published_mark:
  assumes "mark_runtime_job_outbox_published j t g now db = Ok (v, db')"
  shows "keeps_published (runtime_job_outbox db) (runtime_job_outbox db')"
proof -
  have "keeps_published obs (sql_update (\<lambda>ob. outbox_job_id ob = j \<and> outbox_event_type ob = t \<and> generation ob = g \<and>
      published_at_ms ob = None) f obs)" for obs f
    by (force simp: keeps_published_def set_sql_update)
  then show ?thesis using assms
    by (auto simp: mark_runtime_job_outbox_published_def Let_def result_simps conj_assoc split: if_splits)
qed

lemma keeps_published_fold:
  assumes "fold_result (reclaim_one now) db rs = Ok db'" and "wf_store db"
    and "set rs \<subseteq> {r \<in> set (runtime_jobs db). expired now r}" and "unique_by job_id rs"
  shows "keeps_published (runtime_job_outbox db) (runtime_job_outbox db')"
  using assms
proof (induction rs arbitrary: db)
  case (Cons r rs)
  then obtain db1 where one: "reclaim_one now db r = Ok db1" and rest: "fold_result (reclaim_one now) db1 rs = Ok db'"
    by (auto simp: result_simps)
  have r: "r \<in> set (runtime_jobs db)" "expired now r" using Cons.prems(3) by auto
  note next_one = reclaim_one_rest [OF one Cons.prems(2-4)]
  from Cons.IH [OF rest next_one] keeps_published_reclaim_one [OF Cons.prems(2) r one]
  show ?case by (rule keeps_published_trans [rotated])
qed simp

lemma exec_keeps_published:
  assumes wf: "wf_store db"
  shows "keeps_published (runtime_job_outbox db) (runtime_job_outbox (exec op db))"
proof (cases rule: exec_cases [of op db])
  case ok
  show ?thesis
  proof (cases "quiet_op op")
    case True
    then show ?thesis using quiet_op_outbox [OF ok] by simp
  next
    case False
    then show ?thesis
    proof (cases op)
      case (ReclaimLeases now)
      with ok have "fold_result (reclaim_one now) db (expired_leases now db) = Ok (exec op db)"
        by (auto simp: reclaim_expired_runtime_job_leases_def result_simps Let_def)
      then show ?thesis using keeps_published_fold wf expired_leases_props [OF wf_unique [OF wf]] by blast
    next
      case (CreateDeadLetterAndFail rec req)
      with ok obtain v where "create_dead_letter_and_fail_job rec req db = Ok (v, exec op db)" by auto
      then obtain db1 b where ins: "insert_dead_letter_record rec db = Ok (b, db1)"
        and "fail_runtime_job req db1 = Ok ((), exec op db)"
        by (rule dead_letter_and_fail_effect)
      moreover have "wf_store db1" using wf ins by (auto simp: insert_dead_letter_effect wf_store_def)
      ultimately have "keeps_published (runtime_job_outbox db1) (runtime_job_outbox (exec op db))"
        by (intro keeps_published_fail)
      then show ?thesis using insert_dead_letter_other_tables [OF ins] by simp
    next
      case (CancelForShutdown req)
      with ok have "cancel_for_service_shutdown req db = Ok ((), exec op db)" by simp
      then show ?thesis by (rule shutdown_effect) (use keeps_published_cancel [OF wf] in auto)
    qed (use ok wf in \<open>auto simp: complete_effect cancel_runtime_job_def cancel_conn_effect result_simps
          intro: keeps_published_held keeps_published_cancel keeps_published_fail keeps_published_mark\<close>)
  qed
qed simp

text \<open>
  An acknowledged delivery is final: a published outbox row is never changed again and never
  becomes pending, whatever operations run afterwards.
\<close>

theorem published_delivery_final:
  assumes "run admissible_step db ops db'" and "wf_store db"
    and "ob \<in> set (runtime_job_outbox db)" and "published_at_ms ob \<noteq> None"
  shows "ob \<in> set (runtime_job_outbox db')"
  using assms(1-3)
  by (rule job_store.run_keeps)
    (use assms(4) exec_keeps_published in \<open>fastforce simp: keeps_published_def admissible_step_def store_step_def\<close>)

theorem published_delivery_final_witness:
  "\<lparr>outbox_job_id = ''job-1'', outbox_event_type = RUNTIME_JOB_TERMINAL_EVENT, published_at_ms = Some 60, generation = 0\<rparr>
     \<in> set (runtime_job_outbox (fold exec [Complete sample_complete, ReclaimLeases 9000]
          (exec (MarkPublished ''job-1'' RUNTIME_JOB_TERMINAL_EVENT 0 60) done_db)))"
proof (rule published_delivery_final)
  let ?db = "exec (MarkPublished ''job-1'' RUNTIME_JOB_TERMINAL_EVENT 0 60) done_db"
  show "run admissible_step ?db [Complete sample_complete, ReclaimLeases 9000]
      (fold exec [Complete sample_complete, ReclaimLeases 9000] ?db)"
    by (simp add: run_exec_iff)
  show "wf_store ?db" using done_wf by (rule exec_wf) simp
  show "\<lparr>outbox_job_id = ''job-1'', outbox_event_type = RUNTIME_JOB_TERMINAL_EVENT, published_at_ms = Some 60, generation = 0\<rparr>
      \<in> set (runtime_job_outbox ?db)"
    by (simp add: done_db_eq empty_db_def exec_def commit_job_write_def discard_def res_bind_def
        mark_runtime_job_outbox_published_def sql_count_def sql_update_def)
qed simp

end
