(* ===== verification/JobFlow.thy ===== *)
theory JobFlow
  imports StoreSamples
begin

text \<open>How jobs move through the queue: what a claim hands out, how the reclaim of expired leases
  works off its backlog, how scheduling deduplicates by idempotency key, and that a wake is
  never lost between two turns of a job.\<close>

section \<open>Claiming\<close>

definition due_rows :: "ClaimDueRuntimeJobsRequest \<Rightarrow> db \<Rightarrow> runtime_job_row list" where
  "due_rows req db = take (due_limit req) (sql_select (due_condition req) job_order (runtime_jobs db))"

lemma claim_loop_ids:
  assumes "unique_by job_id (runtime_jobs db)" and "distinct js"
    and "\<And>j. j \<in> set js \<Longrightarrow> \<exists>r \<in> set (runtime_jobs db). job_id r = j \<and> status r = Queued"
  shows "fst (claim_loop nonce req e js db) = js"
  using assms
proof (induction js arbitrary: db)
  case (Cons j js)
  let ?P = "\<lambda>r. job_id r = j \<and> status r = Queued"
  let ?db1 = "db\<lparr>runtime_jobs := sql_update ?P (lease_row nonce req e) (runtime_jobs db)\<rparr>"
  have "fst (claim_loop nonce req e js ?db1) = js"
  proof (rule Cons.IH)
    show "unique_by job_id (runtime_jobs ?db1)" using Cons.prems(1) by (simp add: unique_by_sql_update)
    show "distinct js" using Cons.prems(2) by simp
    fix i assume i: "i \<in> set js"
    then obtain r where "r \<in> set (runtime_jobs db)" "job_id r = i" "status r = Queued" "i \<noteq> j"
      using Cons.prems(2,3) by auto
    then show "\<exists>r \<in> set (runtime_jobs ?db1). job_id r = i \<and> status r = Queued"
      by (auto simp: bex_sql_update intro!: bexI [of _ r])
  qed
  moreover have "0 < sql_count ?P (runtime_jobs db)" using Cons.prems(3) [of j] by (auto simp: sql_count_pos)
  ultimately show ?case by (simp add: Let_def case_prod_beta)
qed simp

lemma due_rows_props:
  assumes "unique_by job_id (runtime_jobs db)"
  shows "unique_by job_id (due_rows req db)" and "set (due_rows req db) \<subseteq> {r \<in> set (runtime_jobs db). due_condition req r}"
    and "length (due_rows req db) \<le> due_limit req" and "sorted (map job_order (due_rows req db))"
  using assms sorted_sql_select [of job_order "due_condition req" "runtime_jobs db"]
  by (auto simp: due_rows_def take_map [symmetric] sorted_wrt_take intro!: unique_by_take unique_by_sql_select dest: in_set_takeD)

lemma decode_all:
  "map_result (\<lambda>r. map_err f (row_to_runtime_job r)) rows = Ok jobs \<Longrightarrow> jobs = map RuntimeJobRecord.truncate rows"
  by (induction rows arbitrary: jobs) (auto simp: result_simps row_to_runtime_job_def)

lemma truncate_simps [simp]:
  "job_id (RuntimeJobRecord.truncate r) = job_id r" "job_order (RuntimeJobRecord.truncate r) = job_order r"
  by (simp_all add: RuntimeJobRecord.defs job_order_def)

lemma sort_key_unique:
  assumes "sorted (map k ys)" and "distinct xs" and "distinct ys" and "set xs = set ys" and "inj_on k (set ys)"
  shows "sort_key k xs = ys"
proof (rule map_inj_on)
  have "distinct (map k ys)" "distinct (map k (sort_key k xs))" using assms by (auto simp: distinct_map)
  then show "map k (sort_key k xs) = map k ys"
    using assms by (intro sorted_distinct_set_unique) simp_all
qed (use assms in simp)

lemma job_order_inj: "unique_by job_id xs \<Longrightarrow> inj_on job_order (set xs)"
  by (auto simp: inj_on_def job_order_def dest: unique_byD)

lemma take_sorted_rest:
  assumes "sorted (map k xs)" and "x \<in> set xs" and "x \<notin> set (take n xs)"
  shows "length (take n xs) = n" and "y \<in> set (take n xs) \<Longrightarrow> k y \<le> k x"
proof -
  have x: "x \<in> set (drop n xs)" using assms(2,3) by (metis Un_iff append_take_drop_id set_append)
  then show "length (take n xs) = n" by (cases "n \<le> length xs") auto
  have "sorted (map k (take n xs) @ map k (drop n xs))" using assms(1) by (metis append_take_drop_id map_append)
  then show "y \<in> set (take n xs) \<Longrightarrow> k y \<le> k x" using x by (auto simp: sorted_append)
qed

lemma claim_result:
  assumes wf: "wf_store db" and ok: "claim_due_runtime_jobs nonce req db = Ok (claimed, db')"
  obtains e where "e = i64_saturating_add (due_now_ms req) (int (due_lease_ms req))"
    and "runtime_jobs db' = sql_update (\<lambda>r. r \<in> set (due_rows req db)) (lease_row nonce req e) (runtime_jobs db)"
    and "claimed = map (RuntimeJobRecord.truncate \<circ> lease_row nonce req e) (due_rows req db)"
proof -
  let ?due = "due_rows req db"
  note u = wf_unique [OF wf]
  note due = due_rows_props [OF u, of req]
  obtain e js where db': "db' = db\<lparr>runtime_jobs :=
      sql_update (\<lambda>r. job_id r \<in> set js \<and> status r = Queued) (lease_row nonce req e) (runtime_jobs db)\<rparr>"
    and js: "js = map job_id ?due" and load: "load_runtime_jobs_by_ids (fst (claim_loop nonce req e js db)) db' = Ok claimed"
    and e: "e = i64_saturating_add (due_now_ms req) (int (due_lease_ms req))"
    unfolding due_rows_def by (rule claim_due_effect [OF ok])
  have ids: "fst (claim_loop nonce req e js db) = js"
    using due(1,2) by (intro claim_loop_ids [OF u]) (auto simp: js unique_by_def due_condition_def)
  have cond: "job_id r \<in> set js \<and> status r = Queued \<longleftrightarrow> r \<in> set ?due" if "r \<in> set (runtime_jobs db)" for r
    using that due(2) unique_byD [OF u] by (auto simp: js due_condition_def)
  have jobs': "runtime_jobs db' = sql_update (\<lambda>r. r \<in> set ?due) (lease_row nonce req e) (runtime_jobs db)"
    unfolding db' using cond by (simp add: sql_update_def)
  have "claimed = map (RuntimeJobRecord.truncate \<circ> lease_row nonce req e) ?due"
  proof (cases "?due = []")
    case True
    then show ?thesis using load ids by (simp add: js load_runtime_jobs_by_ids_def)
  next
    case False
    let ?g = "RuntimeJobRecord.truncate \<circ> lease_row nonce req e"
    let ?rows = "filter (\<lambda>r. r \<in> set ?due) (runtime_jobs db)"
    have mem: "job_id r \<in> set js \<longleftrightarrow> r \<in> set ?due" if "r \<in> set (runtime_jobs db)" for r
      using that due(2) unique_byD [OF u] by (auto simp: js)
    have "filter (\<lambda>r. job_id r \<in> set js) (runtime_jobs db') = map (lease_row nonce req e) ?rows"
      unfolding jobs' sql_update_def using mem by (auto simp: filter_map o_def cong: filter_cong if_cong)
    then have "claimed = sort_key job_order (map ?g ?rows)"
      using load ids False by (auto simp: js load_runtime_jobs_by_ids_def result_simps dest!: decode_all)
    also have "\<dots> = map ?g ?due"
    proof (rule sort_key_unique)
      have "map job_order (map ?g ?due) = map job_order ?due"
        by (simp add: job_order_def lease_row_def RuntimeJobRecord.defs)
      then show "sorted (map job_order (map ?g ?due))" using due(4) by (simp only:)
      have "unique_by job_id (map ?g ?due)" "unique_by job_id (map ?g ?rows)"
        using due(1) unique_by_filter [OF u] by (simp_all add: unique_by_def o_def)
      then show "distinct (map ?g ?rows)" "distinct (map ?g ?due)" "inj_on job_order (set (map ?g ?due))"
        by (blast intro: unique_by_distinct job_order_inj)+
      show "set (map ?g ?rows) = set (map ?g ?due)" using due(2) by auto
    qed
    finally show ?thesis .
  qed
  with that e jobs' show ?thesis by blast
qed

text \<open>
  C5: A claim returns at most the requested number of jobs, in order of run time, creation time and
  identifier. Each returned job was queued, due, past its reclaim backoff and matched the filters; it
  is now leased to a fresh token of the worker until the requested expiry. Every due job that is left
  out comes after all returned ones, and is left out only if the limit was reached. No other job is
  touched.
\<close>

theorem claim_due_correct:
  assumes "wf_store db" and "claim_due_runtime_jobs nonce req db = Ok (claimed, db')"
  shows "length claimed \<le> due_limit req \<and> sorted (map job_order claimed) \<and>
    (\<forall>c \<in> set claimed. \<exists>r. job_row db (job_id c) = Some r \<and> due_condition req r \<and>
       (\<exists>q. job_row db' (job_id c) = Some q \<and> c = RuntimeJobRecord.truncate q \<and> status q = Leased \<and>
         lease_owner q = Some (worker_id req @ '':'' @ nonce (job_id c)) \<and>
         lease_expires_at_ms q = Some (i64_saturating_add (due_now_ms req) (int (due_lease_ms req))))) \<and>
    (\<forall>r \<in> set (runtime_jobs db). due_condition req r \<and> job_id r \<notin> job_id ` set claimed \<longrightarrow>
       length claimed = due_limit req \<and> (\<forall>c \<in> set claimed. job_order c \<le> job_order r)) \<and>
    (\<forall>j. j \<notin> job_id ` set claimed \<longrightarrow> job_row db' j = job_row db j)"
proof -
  note u = wf_unique [OF assms(1)]
  note due = due_rows_props [OF u, of req]
  obtain e where e: "e = i64_saturating_add (due_now_ms req) (int (due_lease_ms req))"
    and jobs': "runtime_jobs db' = sql_update (\<lambda>r. r \<in> set (due_rows req db)) (lease_row nonce req e) (runtime_jobs db)"
    and cl: "claimed = map (RuntimeJobRecord.truncate \<circ> lease_row nonce req e) (due_rows req db)"
    by (rule claim_result [OF assms])
  have row': "job_row db' j = map_option (\<lambda>r. if r \<in> set (due_rows req db) then lease_row nonce req e r else r) (job_row db j)" for j
    unfolding job_row_def jobs' by (rule sql_find_update) simp
  have ids: "job_id ` set claimed = job_id ` set (due_rows req db)" unfolding cl by force
  show ?thesis
  proof (intro conjI ballI allI impI)
    show "length claimed \<le> due_limit req" using due(3) by (simp add: cl)
    have order: "map job_order claimed = map job_order (due_rows req db)"
      by (simp add: cl job_order_def lease_row_def RuntimeJobRecord.defs)
    then show "sorted (map job_order claimed)" using due(4) by (simp only:)
    fix c assume "c \<in> set claimed"
    then obtain r where r: "r \<in> set (due_rows req db)" "c = RuntimeJobRecord.truncate (lease_row nonce req e r)"
      by (auto simp: cl)
    then have "job_row db (job_id c) = Some r" "due_condition req r" using due(2) by (auto simp: job_row_Some_iff [OF u])
    with r row' [of "job_id c"] show "\<exists>r. job_row db (job_id c) = Some r \<and> due_condition req r \<and>
       (\<exists>q. job_row db' (job_id c) = Some q \<and> c = RuntimeJobRecord.truncate q \<and> status q = Leased \<and>
         lease_owner q = Some (worker_id req @ '':'' @ nonce (job_id c)) \<and>
         lease_expires_at_ms q = Some (i64_saturating_add (due_now_ms req) (int (due_lease_ms req))))"
      by (simp add: e)
  next
    fix r assume r: "r \<in> set (runtime_jobs db)" "due_condition req r \<and> job_id r \<notin> job_id ` set claimed"
    then have "r \<in> set (sql_select (due_condition req) job_order (runtime_jobs db))" "r \<notin> set (due_rows req db)"
      by (auto simp: ids)
    note rest = take_sorted_rest [OF sorted_sql_select this(1) this(2) [unfolded due_rows_def]]
    show "length claimed = due_limit req" using rest(1) by (simp add: cl due_rows_def)
    fix c assume "c \<in> set claimed"
    then obtain q where "q \<in> set (due_rows req db)" "job_order c = job_order q"
      by (auto simp: cl job_order_def lease_row_def RuntimeJobRecord.defs)
    with rest(2) show "job_order c \<le> job_order r" by (simp add: due_rows_def)
  next
    fix j assume "j \<notin> job_id ` set claimed"
    then show "job_row db' j = job_row db j"
      unfolding ids row' by (cases "job_row db j") (auto dest: job_row_SomeD)
  qed
qed

theorem claim_due_correct_witness:
  "\<exists>claimed db'. claim_due_runtime_jobs (\<lambda>_. ''n'') sample_claim sample_db = Ok (claimed, db') \<and>
     length claimed \<le> 5 \<and> sorted (map job_order claimed) \<and> db' = leased_db"
proof -
  have "store_tx (Claim (\<lambda>_. ''n'') sample_claim) sample_db = Ok ((), leased_db)"
    unfolding leased_db_eq sample_db_eq
    by (simp add: claim_due_runtime_jobs_def to_i64_def ok_or_def i64_small sql_select_def sql_update_def sql_count_def
        due_condition_def trimmed_filter_def load_runtime_jobs_by_ids_def row_to_runtime_job_def ensure_def u32_max_def
        res_bind_def empty_db_def)
  then obtain claimed where c: "claim_due_runtime_jobs (\<lambda>_. ''n'') sample_claim sample_db = Ok (claimed, leased_db)" by auto
  with claim_due_correct [OF sample_wf(1) c] show ?thesis by auto
qed

section \<open>Reclaiming\<close>

lemma reclaim_one_succeeds:
  assumes wf: "wf_store db" and r: "r \<in> set (runtime_jobs db)" "expired now r"
    and now: "i64_min \<le> now" "now + 8250 \<le> i64_max"
  shows "\<exists>db'. reclaim_one now db r = Ok db'"
proof -
  have st: "status r \<in> {Leased, Running}" using r(2) by (simp add: expired_def)
  have "row_ok r" using wf r(1) by (auto simp: wf_store_def jobs_ok_def list_all_iff)
  then have c: "lease_reclaim_count r \<le> 3" using st by (auto simp: row_ok_def)
  let ?n = "lease_reclaim_count r"
  let ?nb = "if 3 \<le> ?n then now else now + runtime_job_retry_delay_ms default_backoff_policy (Suc ?n) (job_id r) now"
  have nb: "i64_min \<le> ?nb \<and> ?nb \<le> i64_max"
  proof (cases "3 \<le> ?n")
    case False
    then have "?n \<in> {0, 1, 2}" by auto
    then show ?thesis using False now default_delay_range [of "Suc ?n" "job_id r" now] by auto
  qed (use now in simp)
  obtain d where d: "decide default_lease_reclaim_policy (job_id r) ?n (status r) now = Ok d"
    using st c nb decide_Ok_iff [of default_lease_reclaim_policy "job_id r" ?n "status r" now]
    by (fastforce simp: default_lease_reclaim_policy_def u32_max_def)
  then have cnt: "reclaim_count d = Suc ?n" by (simp add: decide_Ok_iff)
  have "event_id (reclaim_event now d r) \<notin> event_id ` set (runtime_events db)"
  proof
    assume "event_id (reclaim_event now d r) \<in> event_id ` set (runtime_events db)"
    then obtain e where e: "e \<in> set (runtime_events db)" "event_id e = reclaim_event_id (job_id r) (Suc ?n)"
      by (auto simp: reclaim_event_def job_event_def cnt)
    then obtain q where "q \<in> set (runtime_jobs db)" "job_id q = job_id r" "Suc ?n \<le> lease_reclaim_count q"
      using wf unfolding wf_store_def events_ok_def event_ok_def by blast
    with r(1) wf_unique [OF wf] show False by (metis not_less_eq_eq order_refl unique_byD)
  qed
  then have ins: "insert_event err (reclaim_event now d r) (db\<lparr>runtime_jobs := rows\<rparr>) =
      Ok ((), db\<lparr>runtime_jobs := rows, runtime_events := runtime_events db @ [reclaim_event now d r]\<rparr>)" for err rows
    by simp
  have "job_id r \<in> job_id ` set (sql_update (\<lambda>q. job_id q = job_id r) (reclaimed_row now d) (runtime_jobs db))"
    using r(1) by (simp add: key_image_sql_update)
  then obtain q where "q \<in> set (sql_update (\<lambda>q. job_id q = job_id r) (reclaimed_row now d) (runtime_jobs db))" "job_id q = job_id r"
    by fastforce
  then show ?thesis using c d
    by (auto simp: reclaim_one_def res_bind_def Let_def ins upsert_runtime_job_outbox_event_def u32_max_def)
qed

lemma reclaim_fold_succeeds:
  assumes "wf_store db" and "set rs \<subseteq> {r \<in> set (runtime_jobs db). expired now r}" and "unique_by job_id rs"
    and "i64_min \<le> now" "now + 8250 \<le> i64_max"
  shows "\<exists>db'. fold_result (reclaim_one now) db rs = Ok db'"
  using assms(1-3)
proof (induction rs arbitrary: db)
  case (Cons r rs)
  obtain db1 where one: "reclaim_one now db r = Ok db1"
    using reclaim_one_succeeds [OF Cons.prems(1) _ _ assms(4,5), of r] Cons.prems(2) by auto
  from Cons.IH [OF reclaim_one_rest [OF one Cons.prems]] one show ?case by (simp add: res_bind_def)
qed simp

lemma sql_count_update_split:
  assumes "\<And>r. r \<in> set rows \<Longrightarrow> P r \<Longrightarrow> Q r \<and> \<not> Q (f r)"
  shows "sql_count Q (sql_update P f rows) = sql_count Q rows - sql_count P rows \<and> sql_count P rows \<le> sql_count Q rows"
  using assms
proof (induction rows)
  case (Cons r rows)
  have "sql_count P rows \<le> sql_count Q rows" using Cons by simp
  with Cons show ?case by (auto simp: sql_update_def sql_count_def)
qed (simp add: sql_update_def sql_count_def)

lemma sql_count_members:
  assumes "unique_by key rows" and "set xs \<subseteq> set rows" and "unique_by key xs"
  shows "sql_count (\<lambda>r. key r \<in> key ` set xs) rows = length xs"
proof -
  have "filter (\<lambda>r. key r \<in> key ` set xs) rows = filter (\<lambda>r. r \<in> set xs) rows"
    using assms(1,2) by (intro filter_cong) (auto dest: unique_byD)
  then have "set (filter (\<lambda>r. key r \<in> key ` set xs) rows) = set xs" using assms(2) by auto
  moreover have "distinct (filter (\<lambda>r. key r \<in> key ` set xs) rows)" using unique_by_distinct [OF assms(1)] by simp
  ultimately show ?thesis unfolding sql_count_def
    using unique_by_distinct [OF assms(3)] by (metis distinct_card)
qed

lemma reclaim_round:
  assumes wf: "wf_store db" and now: "i64_min \<le> now" "now + 8250 \<le> i64_max"
  shows "\<exists>db'. reclaim_expired_runtime_job_leases now db = Ok (min 100 (sql_count (expired now) (runtime_jobs db)), db') \<and>
    wf_store db' \<and> sql_count (expired now) (runtime_jobs db') = sql_count (expired now) (runtime_jobs db) - 100"
proof -
  let ?rs = "expired_leases now db"
  note u = wf_unique [OF wf]
  note rs = expired_leases_props [OF u, of now]
  obtain db' where f: "fold_result (reclaim_one now) db ?rs = Ok db'" using reclaim_fold_succeeds [OF wf rs now] by blast
  have len: "length ?rs = min 100 (sql_count (expired now) (runtime_jobs db))"
    by (simp add: expired_leases_def)
  then have ok: "reclaim_expired_runtime_job_leases now db = Ok (min 100 (sql_count (expired now) (runtime_jobs db)), db')"
    by (simp add: reclaim_expired_runtime_job_leases_def Let_def f res_bind_def)
  have jobs: "runtime_jobs db' = sql_update (\<lambda>q. job_id q \<in> job_id ` set ?rs) (reclaim_update now) (runtime_jobs db)"
    and dec: "\<And>r. r \<in> set ?rs \<Longrightarrow> \<exists>d. decide default_lease_reclaim_policy (job_id r) (lease_reclaim_count r) (status r) now = Ok d"
    using reclaim_fold_jobs [OF f u _ rs(2)] rs(1) by auto
  have gone: "expired now r \<and> \<not> expired now (reclaim_update now r)"
    if "r \<in> set (runtime_jobs db)" "job_id r \<in> job_id ` set ?rs" for r
  proof -
    have r: "r \<in> set ?rs" using that rs(1) u by (auto dest: unique_byD)
    then show ?thesis using dec [OF r] rs(1) by (auto simp: reclaim_update_def expired_def)
  qed
  have "sql_count (\<lambda>q. job_id q \<in> job_id ` set ?rs) (runtime_jobs db) = length ?rs"
    using rs by (intro sql_count_members [OF u]) auto
  then have "sql_count (expired now) (runtime_jobs db') = sql_count (expired now) (runtime_jobs db) - 100"
    using sql_count_update_split [of "runtime_jobs db" "\<lambda>q. job_id q \<in> job_id ` set ?rs" "expired now" "reclaim_update now"] gone
    unfolding jobs len by auto
  with ok reclaim_wf [OF ok wf] show ?thesis by blast
qed

text \<open>
  C6: Reclaiming makes progress: in a well-formed store and unless the clock is within nine seconds
  of the end of time, the maintenance call never fails, reclaims exactly the hundred earliest expired
  leases or all of them if there are fewer, and repeating it as often as the backlog divided by
  hundred (rounded up) leaves no expired lease.
\<close>

theorem reclaim_drains_backlog:
  assumes "wf_store db" and "i64_min \<le> now" and "now + 8250 \<le> i64_max"
    and "sql_count (expired now) (runtime_jobs db) \<le> 100 * k"
  shows "(\<exists>db'. reclaim_expired_runtime_job_leases now db = Ok (min 100 (sql_count (expired now) (runtime_jobs db)), db')) \<and>
    (\<forall>r \<in> set (runtime_jobs ((exec (ReclaimLeases now) ^^ k) db)). \<not> expired now r)"
proof -
  have "sql_count (expired now) (runtime_jobs ((exec (ReclaimLeases now) ^^ k) db)) =
      sql_count (expired now) (runtime_jobs db) - 100 * k \<and> wf_store ((exec (ReclaimLeases now) ^^ k) db)" for k
  proof (induction k)
    case (Suc k)
    let ?db = "(exec (ReclaimLeases now) ^^ k) db"
    obtain n db' where "reclaim_expired_runtime_job_leases now ?db = Ok (n, db')" "wf_store db'"
      "sql_count (expired now) (runtime_jobs db') = sql_count (expired now) (runtime_jobs ?db) - 100"
      using reclaim_round [OF _ assms(2,3)] Suc by blast
    moreover from this(1) have "exec (ReclaimLeases now) ?db = db'" by (intro exec_Ok) auto
    ultimately show ?case using Suc by simp
  qed (use assms(1) in simp)
  then show ?thesis using reclaim_round [OF assms(1-3)] assms(4) by (force simp: sql_count_eq_0 [symmetric])
qed

theorem reclaim_drains_backlog_witness:
  "(\<exists>db'. reclaim_expired_runtime_job_leases 500 leased_db = Ok (1, db')) \<and>
   sql_count (expired 500) (runtime_jobs (exec (ReclaimLeases 500) leased_db)) = 0"
proof -
  have "sql_count (expired 500) (runtime_jobs leased_db) = 1"
    by (simp add: leased_db_eq sql_count_def expired_def)
  with reclaim_drains_backlog [OF sample_wf(2), of 500 1] show ?thesis
    by (simp add: i64_min_def i64_max_def sql_count_eq_0)
qed

section \<open>Scheduling\<close>

lemma run_keeps_key:
  assumes "run admissible_step db ops db'" and "wf_store db" and "\<exists>r. job_row db j = Some r \<and> job_key r = k"
  shows "\<exists>r. job_row db' j = Some r \<and> job_key r = k"
  using assms
proof (rule job_store.run_keeps)
  fix db op db'
  assume wf: "wf_store db" and row: "\<exists>r. job_row db j = Some r \<and> job_key r = k" and step: "admissible_step db op db'"
  then obtain r where r: "job_row db j = Some r" "job_key r = k" by blast
  from exec_row [OF wf r(1), of op] r(2) row_step_identity step show "\<exists>r. job_row db' j = Some r \<and> job_key r = k"
    by (fastforce simp: admissible_step_def store_step_def job_key_def)
qed

lemma load_by_key_Ok:
  assumes "load_runtime_job_by_kind_and_idempotency kind key db = Ok (Some job)"
  shows "\<exists>r \<in> set (runtime_jobs db). job_key r = (kind, key) \<and> job = RuntimeJobRecord.truncate r"
proof (cases "sql_find (\<lambda>r. job_kind r = kind \<and> idempotency_key r = key) (runtime_jobs db)")
  case (Some r)
  with assms sql_find_Some [OF Some] show ?thesis
    by (auto simp: load_runtime_job_by_kind_and_idempotency_def load_first_def row_to_runtime_job_def result_simps job_key_def)
qed (use assms in \<open>simp add: load_runtime_job_by_kind_and_idempotency_def load_first_def\<close>)

lemma insert_job_effect:
  "insert_runtime_job job db = Ok (b, db') \<longleftrightarrow>
     (b \<longleftrightarrow> job_id job \<notin> job_id ` set (runtime_jobs db) \<and>
        (job_kind job, idempotency_key job) \<notin> job_key ` set (runtime_jobs db)) \<and>
     db' = (if b then db\<lparr>runtime_jobs := runtime_jobs db @ [new_row job]\<rparr> else db)"
proof -
  have "(\<exists>r \<in> set (runtime_jobs db). job_id r = job_id job \<or>
          (job_kind r = job_kind job \<and> idempotency_key r = idempotency_key job)) \<longleftrightarrow>
      \<not> (job_id job \<notin> job_id ` set (runtime_jobs db) \<and>
        (job_kind job, idempotency_key job) \<notin> job_key ` set (runtime_jobs db))"
    by (force simp: job_key_def)
  then show ?thesis unfolding insert_runtime_job_def new_row_def by auto
qed

lemma schedule_Ok:
  assumes "schedule_with what job db = Ok (res, db')" and "wf_store db"
  shows "\<exists>r. job_row db' (job_id (schedule_job res)) = Some r \<and> job_key r = (job_kind job, idempotency_key job)"
    and "(job_kind job, idempotency_key job) \<in> job_key ` set (runtime_jobs db) \<Longrightarrow>
      schedule_disposition res = Existing \<and> db' = db"
proof -
  consider (new) "schedule_disposition res = Inserted" "schedule_job res = job" "db' = db\<lparr>runtime_jobs := runtime_jobs db @ [new_row job]\<rparr>"
      "job_id job \<notin> job_id ` set (runtime_jobs db)" "(job_kind job, idempotency_key job) \<notin> job_key ` set (runtime_jobs db)"
    | (old) "schedule_disposition res = Existing" "db' = db"
      "load_runtime_job_by_kind_and_idempotency (job_kind job) (idempotency_key job) db = Ok (Some (schedule_job res))"
    using assms(1)
    by (auto simp: schedule_with_def insert_job_effect result_simps ok_or_def
        split: if_splits option.splits)
  note cases = this
  show "\<exists>r. job_row db' (job_id (schedule_job res)) = Some r \<and> job_key r = (job_kind job, idempotency_key job)"
    using cases
  proof cases
    case new
    then have "job_row db' (job_id job) = Some (new_row job)"
      using sql_find_None [of "\<lambda>r. job_id r = job_id job" "runtime_jobs db"]
      by (auto simp: job_row_def sql_find_snoc image_iff split: option.splits)
    then show ?thesis using new by (simp add: job_key_def)
  next
    case old
    from load_by_key_Ok [OF old(3)] show ?thesis
      using old(2) by (auto simp: job_row_Some_iff [OF wf_unique [OF assms(2)]] RuntimeJobRecord.defs)
  qed
  show "schedule_disposition res = Existing \<and> db' = db"
    if "(job_kind job, idempotency_key job) \<in> job_key ` set (runtime_jobs db)"
    using cases that by cases auto
qed

text \<open>
  Scheduling is idempotent per job kind and idempotency key: after a job was scheduled, and
  whatever operations ran since, scheduling any job with the same kind and key inserts nothing and
  returns the job that is already there.
\<close>

theorem schedule_deduplicates:
  assumes "wf_store db" and "fresh_job job" and "schedule_runtime_job job db = Ok (res, db1)"
    and "run admissible_step db1 ops db2"
    and "job_kind job2 = job_kind job" and "idempotency_key job2 = idempotency_key job"
    and "schedule_runtime_job job2 db2 = Ok (res2, db3)"
  shows "schedule_disposition res2 = Existing \<and> job_id (schedule_job res2) = job_id (schedule_job res) \<and> db3 = db2"
proof -
  let ?k = "(job_kind job, idempotency_key job)"
  note scheduled = assms(3,7) [unfolded schedule_runtime_job_def]
  have "exec (Schedule job) db = db1" using assms(3) by (intro exec_Ok) auto
  then have wf1: "wf_store db1" using exec_wf [OF assms(1), of "Schedule job"] assms(2) by simp
  then have wf2: "wf_store db2" using job_store.run_inv [OF assms(4)] by blast
  obtain r where r: "job_row db2 (job_id (schedule_job res)) = Some r" "job_key r = ?k"
    using run_keeps_key [OF assms(4) wf1 schedule_Ok(1) [OF scheduled(1) assms(1)]] by blast
  obtain q where q: "job_row db3 (job_id (schedule_job res2)) = Some q" "job_key q = ?k"
    using schedule_Ok(1) [OF scheduled(2) wf2] assms(5,6) by auto
  have same: "schedule_disposition res2 = Existing" "db3 = db2"
    using schedule_Ok(2) [OF scheduled(2) wf2] r job_row_SomeD [OF r(1)] assms(5,6) by (auto simp: rev_image_eqI)
  have "unique_by job_key (runtime_jobs db2)" using wf2 by (simp add: wf_store_def jobs_ok_def)
  then have "q = r" using r q same job_row_SomeD unique_byD by metis
  then show ?thesis using same r q job_row_SomeD by metis
qed

theorem schedule_deduplicates_witness:
  "\<exists>res2 db3. schedule_runtime_job (sample_job\<lparr>job_id := ''job-2''\<rparr>) leased_db = Ok (res2, db3) \<and>
     schedule_disposition res2 = Existing \<and> job_id (schedule_job res2) = ''job-1'' \<and> db3 = leased_db"
proof -
  have s: "schedule_runtime_job sample_job empty_db = Ok (\<lparr>schedule_disposition = Inserted, schedule_job = sample_job\<rparr>, sample_db)"
    by (simp add: sample_db_eq schedule_runtime_job_def schedule_with_def insert_runtime_job_def res_bind_def empty_db_def new_row_def)
  have r: "run admissible_step sample_db [Claim (\<lambda>_. ''n'') sample_claim] leased_db" by (simp add: run_exec_iff leased_db_def)
  obtain res2 db3 where s2: "schedule_runtime_job (sample_job\<lparr>job_id := ''job-2''\<rparr>) leased_db = Ok (res2, db3)"
    by (simp add: leased_db_eq schedule_runtime_job_def schedule_with_def insert_runtime_job_def res_bind_def empty_db_def
        load_runtime_job_by_kind_and_idempotency_def load_first_def sql_find_def row_to_runtime_job_def ensure_def u32_max_def ok_or_def)
  have "fresh_job sample_job" by (simp add: fresh_job_def u32_max_def)
  from schedule_deduplicates [OF wf_empty this s r _ _ s2] s2 show ?thesis by simp
qed
section \<open>Wakes\<close>

text \<open>The events that an operation appends, and which of them mark a wake as consumed.\<close>

definition consumes_for :: "store_op \<Rightarrow> RuntimeEvent list \<Rightarrow> RuntimeEvent \<Rightarrow> bool" where
  "consumes_for op evs e \<longleftrightarrow> (\<forall>x. event_id e = ''runtime_job_wake_consumed:'' @ x \<longrightarrow>
     (\<exists>req. op = Yield req \<and>
       (\<exists>w \<in> set (pending_wakes (yield_job_id req) evs). event_id w = ''runtime_job_wake:'' @ x)))"

definition appends :: "store_op \<Rightarrow> RuntimeEvent list \<Rightarrow> RuntimeEvent list \<Rightarrow> bool" where
  "appends op evs evs' \<longleftrightarrow> (\<exists>es. evs' = evs @ es \<and> (\<forall>e \<in> set es. consumes_for op evs e))"

lemma appends_same [simp]: "appends op evs evs"
  by (auto simp: appends_def)

lemma appends_plain:
  assumes "\<And>x. event_id e \<noteq> ''runtime_job_wake_consumed:'' @ x"
  shows "appends op evs (evs @ [e])"
  using assms by (auto simp: appends_def consumes_for_def)

lemma not_consumed_ids:
  "event_id (yield_event req session) \<noteq> ''runtime_job_wake_consumed:'' @ x"
  "event_id (wake_event wreq session) \<noteq> ''runtime_job_wake_consumed:'' @ x"
  "event_id (reclaim_event now d r) \<noteq> ''runtime_job_wake_consumed:'' @ x"
  "''local_service_stop:'' @ j \<noteq> ''runtime_job_wake_consumed:'' @ x"
  by (simp_all add: yield_event_def wake_event_def reclaim_event_def job_event_def yield_event_id_def wake_event_id_def
      reclaim_event_id_def)

lemma foreign_not_consumed: "foreign_event e \<Longrightarrow> event_id e \<noteq> ''runtime_job_wake_consumed:'' @ x"
  by (auto simp: foreign_event_def)

lemma yield_appends:
  assumes "wf_store db" and "yield_runtime_job req db = Ok (u, db')"
  shows "appends (Yield req) (runtime_events db) (runtime_events db')"
  using assms(2)
proof (cases rule: yield_effect)
  case (released job run_at)
  have ok: "events_ok (runtime_jobs db) (runtime_events db)" using assms(1) by (simp add: wf_store_def)
  let ?es = "yield_event req (session_id job) #
      map (wake_consumed_event req (session_id job)) (map event_id (pending_wakes (yield_job_id req) (runtime_events db)))"
  have "\<exists>w \<in> set (pending_wakes (yield_job_id req) (runtime_events db)). event_id w = ''runtime_job_wake:'' @ x"
    if e: "e \<in> set ?es" "event_id e = ''runtime_job_wake_consumed:'' @ x" for e x
  proof -
    from e not_consumed_ids(1) obtain w where w: "w \<in> set (pending_wakes (yield_job_id req) (runtime_events db))"
      "e = wake_consumed_event req (session_id job) (event_id w)" by auto
    from wake_consumed_event_id [OF pending_wake_prefix [OF ok w(1)], of req "session_id job"] obtain rest where
      "event_id w = ''runtime_job_wake:'' @ rest" "event_id e = ''runtime_job_wake_consumed:'' @ rest"
      unfolding w(2) by metis
    with e(2) w(1) show ?thesis by (metis same_append_eq)
  qed
  then show ?thesis unfolding released(5) appends_def consumes_for_def by (intro exI [of _ ?es]) auto
qed simp

lemma wake_appends:
  assumes "wake_runtime_job req db = Ok (v, db')"
  shows "appends op (runtime_events db) (runtime_events db')"
proof -
  obtain job db1 where ev: "(db1 = db \<and> (\<exists>e \<in> set (runtime_events db). event_id e = wake_event_id req \<and> payload_json e = wake_payload req)) \<or>
      (wake_event_id req \<notin> event_id ` set (runtime_events db) \<and>
       db1 = db\<lparr>runtime_events := runtime_events db @ [wake_event req (session_id job)]\<rparr>)"
    and row: "wake_row req job db1 = Ok (v, db')"
    by (rule wake_effect [OF assms])
  have "runtime_events db' = runtime_events db1" using row by (rule wake_row_effect) auto
  moreover have "appends op (runtime_events db) (runtime_events db1)"
    using ev appends_plain [OF not_consumed_ids(2)] by (elim disjE) simp_all
  ultimately show ?thesis by simp
qed

lemma reclaim_fold_events:
  "fold_result (reclaim_one now) db rs = Ok db' \<Longrightarrow>
     \<exists>es. runtime_events db' = runtime_events db @ es \<and> (\<forall>e \<in> set es. \<exists>d r. e = reclaim_event now d r)"
proof (induction rs arbitrary: db)
  case (Cons r rs)
  then obtain db1 where one: "reclaim_one now db r = Ok db1" and rest: "fold_result (reclaim_one now) db1 rs = Ok db'"
    by (auto simp: result_simps)
  obtain d where "runtime_events db1 = runtime_events db @ [reclaim_event now d r]"
    by (rule reclaim_one_effect [OF one]) simp
  with Cons.IH [OF rest] show ?case by (metis append_assoc append_Cons append_Nil set_ConsD)
qed simp

lemma exec_appends:
  assumes wf: "wf_store db" and op: "op_ok op"
  shows "appends op (runtime_events db) (runtime_events (exec op db))"
proof (cases rule: exec_cases [of op db])
  case ok
  then obtain db' where tx: "store_tx op db = Ok ((), db')" and eq: "exec op db = db'" by blast
  have "appends op (runtime_events db) (runtime_events db')"
  proof (cases op)
    case (CancelForShutdown req)
    with tx have "cancel_for_service_shutdown req db = Ok ((), db')" by simp
    then have "runtime_events db' = runtime_events db \<or> (\<exists>e. runtime_events db' = runtime_events db @ [e] \<and>
      event_id e = ''local_service_stop:'' @ cancel_job_id req)"
      by (rule shutdown_effect) auto
    then show ?thesis using appends_plain not_consumed_ids(4) by (metis appends_same)
  next
    case (CreateDeadLetterAndFail rec req)
    with tx obtain v where "create_dead_letter_and_fail_job rec req db = Ok (v, db')" by auto
    then obtain db1 b where "insert_dead_letter_record rec db = Ok (b, db1)" "fail_runtime_job req db1 = Ok ((), db')"
      by (rule dead_letter_and_fail_effect)
    then have "runtime_events db' = runtime_events db" by (auto simp: fail_effect dest: insert_dead_letter_other_tables)
    then show ?thesis by simp
  next
    case (ReclaimLeases now)
    with tx have "fold_result (reclaim_one now) db (expired_leases now db) = Ok db'"
      by (auto simp: reclaim_expired_runtime_job_leases_def result_simps Let_def)
    from reclaim_fold_events [OF this] show ?thesis unfolding appends_def consumes_for_def using not_consumed_ids(3) by metis
  next
    case (AppendEventIdempotent e)
    with tx obtain b where "append_event_conn_idempotent e db = Ok (b, db')" by auto
    from idempotent_append_effect(1) [OF this] op AppendEventIdempotent show ?thesis
      by (cases b) (auto intro!: appends_plain foreign_not_consumed simp del: append.simps)
  next
    case (AppendEvent e)
    with tx op show ?thesis
      by (auto simp: append_event_conn_def intro!: appends_plain foreign_not_consumed simp del: append.simps)
  next
    case (Yield req)
    with tx wf show ?thesis by (auto intro: yield_appends)
  next
    case (Wake req)
    with tx show ?thesis by (auto intro: wake_appends)
  qed (use tx in \<open>auto simp: quiet_ops schedule_runtime_job_def start_runtime_job_def renew_runtime_job_lease_def
        complete_effect fail_effect cancel_runtime_job_def cancel_conn_effect
        result_simps Let_def split: if_splits dest: other_tables\<close>)
  then show ?thesis by (simp add: eq)
qed simp


text \<open>A wake that was requested and that no yield of its job has observed yet.\<close>

definition wake_waiting :: "WakeRuntimeJobRequest \<Rightarrow> db \<Rightarrow> bool" where
  "wake_waiting wreq db \<longleftrightarrow> (\<exists>session. wake_event wreq session \<in> set (pending_wakes (wake_job_id wreq) (runtime_events db)))"

lemma wake_event_simps [simp]:
  "event_id (wake_event wreq session) = ''runtime_job_wake:'' @ wake_job_id wreq @ '':'' @ wake_source_job_id wreq"
  "task_id (wake_event wreq session) = Some (wake_job_id wreq)"
  "event_type (wake_event wreq session) = ''runtime_job_wake_requested''"
  by (simp_all add: wake_event_def job_event_def wake_event_id_def)

lemma wake_waiting_iff:
  "wake_waiting wreq db \<longleftrightarrow> (\<exists>session. wake_event wreq session \<in> set (runtime_events db)) \<and>
     ''runtime_job_wake_consumed:'' @ wake_job_id wreq @ '':'' @ wake_source_job_id wreq \<notin> event_id ` set (runtime_events db)"
  by (auto simp: wake_waiting_def pending_wakes_def sql_select_def simp del: append.simps)
    (auto simp: image_iff)

lemma fresh_wake_waiting:
  assumes wf: "wf_store db" and fresh: "wake_event_id wreq \<notin> event_id ` set (runtime_events db)"
    and ok: "wake_runtime_job wreq db = Ok (v, db')"
  shows "wake_waiting wreq db'"
proof -
  let ?x = "wake_job_id wreq @ '':'' @ wake_source_job_id wreq"
  obtain job db1 where ev: "(db1 = db \<and> (\<exists>e \<in> set (runtime_events db). event_id e = wake_event_id wreq \<and> payload_json e = wake_payload wreq)) \<or>
      (wake_event_id wreq \<notin> event_id ` set (runtime_events db) \<and>
       db1 = db\<lparr>runtime_events := runtime_events db @ [wake_event wreq (session_id job)]\<rparr>)"
    and row: "wake_row wreq job db1 = Ok (v, db')"
    by (rule wake_effect [OF ok])
  have "runtime_events db' = runtime_events db1" using row by (rule wake_row_effect) auto
  also have "\<dots> = runtime_events db @ [wake_event wreq (session_id job)]"
    using ev fresh by (elim disjE) (metis image_eqI, simp)
  finally have evs: "runtime_events db' = runtime_events db @ [wake_event wreq (session_id job)]" .
  have "''runtime_job_wake_consumed:'' @ ?x \<notin> event_id ` set (runtime_events db)"
    using wf fresh unfolding wf_store_def events_ok_def consumes_within_def wake_event_id_def by fastforce
  then show ?thesis unfolding wake_waiting_iff evs by (auto simp: image_iff)
qed

lemma wake_waiting_step:
  assumes wf: "wf_store db" and op: "op_ok op" and waiting: "wake_waiting wreq db"
    and other: "\<And>req. op = Yield req \<Longrightarrow> yield_job_id req \<noteq> wake_job_id wreq"
  shows "wake_waiting wreq (exec op db)"
proof -
  let ?x = "wake_job_id wreq @ '':'' @ wake_source_job_id wreq"
  obtain session where w: "wake_event wreq session \<in> set (runtime_events db)"
    and free: "''runtime_job_wake_consumed:'' @ ?x \<notin> event_id ` set (runtime_events db)"
    using waiting unfolding wake_waiting_iff by blast
  from exec_appends [OF wf op] obtain es where es: "runtime_events (exec op db) = runtime_events db @ es \<and>
      (\<forall>e \<in> set es. consumes_for op (runtime_events db) e)"
    unfolding appends_def ..
  from es have evs: "runtime_events (exec op db) = runtime_events db @ es" ..
  from es have cons: "\<And>e. e \<in> set es \<Longrightarrow> consumes_for op (runtime_events db) e" by (simp only: Ball_def)
  have "''runtime_job_wake_consumed:'' @ ?x \<notin> event_id ` set es"
  proof
    assume "''runtime_job_wake_consumed:'' @ ?x \<in> event_id ` set es"
    then obtain e where e: "''runtime_job_wake_consumed:'' @ ?x = event_id e" "e \<in> set es" by (rule imageE)
    obtain req w' where req: "op = Yield req" and p: "w' \<in> set (pending_wakes (yield_job_id req) (runtime_events db))"
      and id: "event_id w' = ''runtime_job_wake:'' @ ?x"
      using cons [OF e(2)] e(1) [symmetric] unfolding consumes_for_def by blast
    from p have w': "w' \<in> set (runtime_events db)" "task_id w' = Some (yield_job_id req)"
      unfolding pending_wakes_def sql_select_def by simp_all
    have u: "unique_by event_id (runtime_events db)" using wf unfolding wf_store_def events_ok_def by simp
    have "w' = wake_event wreq session" by (rule unique_byD [OF u w'(1) w]) (simp add: id)
    with w'(2) other [OF req] show False by simp
  qed
  with w free show ?thesis unfolding wake_waiting_iff evs by auto
qed

lemma yield_drains_wakes:
  assumes ok: "events_ok rows evs" and job: "yield_job_id req = j"
    and evs': "evs' = evs @ yield_event req session # map (wake_consumed_event req session) (map event_id (pending_wakes j evs))"
  shows "pending_wakes j evs' = []"
proof -
  have "\<exists>c \<in> set evs'. event_id c = ''runtime_job_wake_consumed:'' @ drop (length ''runtime_job_wake:'') (event_id w)"
    if "w \<in> set evs'" "task_id w = Some j" "event_type w = ''runtime_job_wake_requested''" for w
  proof -
    have w: "w \<in> set evs" using that unfolding evs'
      by (auto simp: yield_event_def wake_consumed_event_def job_event_def)
    show ?thesis
    proof (cases "w \<in> set (pending_wakes j evs)")
      case True
      from wake_consumed_event_id [OF pending_wake_prefix [OF ok True], of req session] obtain rest where
        "event_id w = ''runtime_job_wake:'' @ rest"
        "event_id (wake_consumed_event req session (event_id w)) = ''runtime_job_wake_consumed:'' @ rest" by metis
      moreover have "wake_consumed_event req session (event_id w) \<in> set evs'" using True unfolding evs' by auto
      ultimately show ?thesis by (intro bexI [of _ "wake_consumed_event req session (event_id w)"]) simp_all
    next
      case False
      then show ?thesis using w that(2,3) unfolding evs' by (fastforce simp: pending_wakes_def sql_select_def simp del: append.simps)
    qed
  qed
  note consumed = this
  show ?thesis unfolding pending_wakes_def sql_select_def
    by (subst filter_False) (use consumed in blast, simp)
qed

lemma yield_release:
  assumes wf: "wf_store db" and row: "job_row db (yield_job_id req) = Some r" and active: "status r \<in> {Leased, Running}"
    and yield: "yield_runtime_job req db = Ok ((), db')"
  shows "\<exists>r'. job_row db' (yield_job_id req) = Some r' \<and> status r' = Queued \<and> lease_owner r' = None \<and>
      run_at_ms r' = (if pending_wakes (yield_job_id req) (runtime_events db) = [] then yield_run_at_ms req else yielded_at_ms req)"
    and "pending_wakes (yield_job_id req) (runtime_events db') = []"
proof -
  have "events_ok (runtime_jobs db) (runtime_events db)" using wf by (simp add: wf_store_def)
  note drains = yield_drains_wakes [OF this refl]
  from yield show "pending_wakes (yield_job_id req) (runtime_events db') = []"
  proof (cases rule: yield_effect)
    case (replay job)
    with row active show ?thesis by (simp add: job_row_def)
  next
    case (released job run_at)
    then show ?thesis using drains by simp
  qed
  from yield show "\<exists>r'. job_row db' (yield_job_id req) = Some r' \<and> status r' = Queued \<and> lease_owner r' = None \<and>
      run_at_ms r' = (if pending_wakes (yield_job_id req) (runtime_events db) = [] then yield_run_at_ms req else yielded_at_ms req)"
  proof (cases rule: yield_effect)
    case (replay job)
    with row active show ?thesis by (simp add: job_row_def)
  next
    case (released job run_at)
    with row have "job = r" by (simp add: job_row_def)
    have "job_row db' (yield_job_id req) = Some (r\<lparr>status := Queued, run_at_ms := run_at, updated_at_ms := yielded_at_ms req,
              lease_owner := None, lease_expires_at_ms := None, heartbeat_at_ms := None\<rparr>)"
      using row released(2,5) \<open>job = r\<close> wf_unique [OF wf] unfolding job_row_def
      by (simp add: sql_find_update)
    then show ?thesis using released(3) by simp
  qed
qed

text \<open>
  C7: Wakes are not lost. Once a wake request of a new source has been accepted for a job, in
  whatever state the job was, the next turn of the job that ends with a yield puts it back into
  the queue due at once instead of at the later time that the yield asks for, whatever other
  operations ran in between; the yield marks every wake that it observed as consumed, so that the
  yield after it is free to sleep again. The operations in between schedule new jobs as queued jobs without
  a lease, and appended events do not imitate those of the store.
\<close>
theorem wake_not_lost:
  assumes wf: "wf_store db" and fresh: "wake_event_id wreq \<notin> event_id ` set (runtime_events db)"
    and wake: "wake_runtime_job wreq db = Ok (v, db1)"
    and ops: "list_all op_ok ops" and none: "\<And>req. Yield req \<in> set ops \<Longrightarrow> yield_job_id req \<noteq> wake_job_id wreq"
    and row: "job_row (fold exec ops db1) (wake_job_id wreq) = Some r" and active: "status r \<in> {Leased, Running}"
    and yield: "yield_runtime_job req (fold exec ops db1) = Ok ((), db2)" and job: "yield_job_id req = wake_job_id wreq"
  shows "(\<exists>r'. job_row db2 (wake_job_id wreq) = Some r' \<and> status r' = Queued \<and> lease_owner r' = None \<and>
      run_at_ms r' = yielded_at_ms req) \<and> pending_wakes (wake_job_id wreq) (runtime_events db2) = []"
proof -
  let ?d = "fold exec ops db1"
  have "exec (Wake wreq) db = db1" using wake by (simp add: exec_def commit_job_write_def discard_def res_bind_def)
  then have wf1: "wf_store db1" using exec_wf [OF wf, of "Wake wreq"] by auto
  have run: "run admissible_step db1 ops ?d" using ops by (simp add: run_exec_iff)
  have wfd: "wf_store ?d" using job_store.run_inv [OF run wf1] .
  have "wake_waiting wreq ?d"
    using run wf1 fresh_wake_waiting [OF wf fresh wake]
  proof (rule job_store.run_keeps)
    fix s e s' assume "e \<in> set ops" "wf_store s" "wake_waiting wreq s" "admissible_step s e s'"
    then show "wake_waiting wreq s'"
      using none wake_waiting_step by (metis admissible_step_def store_step_def)
  qed
  then have waiting: "pending_wakes (wake_job_id wreq) (runtime_events ?d) \<noteq> []" by (auto simp: wake_waiting_def)
  have fields: "job_row ?d (yield_job_id req) = Some r" using row job by simp
  show ?thesis using yield_release [OF wfd fields active yield] waiting job by auto
qed

definition sample_wake :: WakeRuntimeJobRequest where
  "sample_wake = \<lparr>wake_job_id = ''job-1'', wake_source_job_id = ''job-2'', woken_at_ms = 30,
     wake_transition_reason = ''child finished''\<rparr>"

definition sample_yield :: YieldRuntimeJobRequest where
  "sample_yield = \<lparr>yield_job_id = ''job-1'', yield_lease_owner = ''w:n'', yielded_at_ms = 40, yield_run_at_ms = 500,
     yield_transition_reason = ''waiting''\<rparr>"

lemma sample_wake_yield_simps [simp]:
  "wake_job_id sample_wake = ''job-1''" "wake_source_job_id sample_wake = ''job-2''" "woken_at_ms sample_wake = 30"
  "wake_transition_reason sample_wake = ''child finished''"
  "yield_job_id sample_yield = ''job-1''" "yield_lease_owner sample_yield = ''w:n''" "yielded_at_ms sample_yield = 40"
  "yield_run_at_ms sample_yield = 500" "yield_transition_reason sample_yield = ''waiting''"
  by (simp_all add: sample_wake_def sample_yield_def)

lemma trim_samples:
  "trim ''job-1'' = ''job-1''" "trim ''job-2'' = ''job-2''" "trim ''child finished'' = ''child finished''"
  "trim ''waiting'' = ''waiting''"
  by (simp_all add: trim_def trim_start.simps trim_end.simps ws_front_def ws_back_def ws1_def ws2_def ws3_def take_last_def)

definition woken_db :: db where
  "woken_db = leased_db\<lparr>runtime_events := [wake_event sample_wake (Some ''s'')]\<rparr>"

lemma sample_wake_ok: "wake_runtime_job sample_wake leased_db = Ok (Active, woken_db)"
  unfolding woken_db_def leased_db_eq
  by (simp add: wake_runtime_job_def ensure_def res_bind_def trim_samples ok_or_def sql_find_def empty_db_def
      insert_event_def wake_row_def Let_def)

theorem wake_not_lost_witness:
  "\<exists>db1 db2 r'. wake_runtime_job sample_wake leased_db = Ok (Active, db1) \<and>
     yield_runtime_job sample_yield db1 = Ok ((), db2) \<and> job_row db2 ''job-1'' = Some r' \<and> status r' = Queued \<and>
     run_at_ms r' = 40 \<and> yield_run_at_ms sample_yield = 500"
proof -
  have pend: "pending_wakes ''job-1'' [wake_event sample_wake (Some ''s'')] = [wake_event sample_wake (Some ''s'')]"
    by (simp add: pending_wakes_def sql_select_def)
  have cid: "wake_consumed_id ''runtime_job_wake:job-1:job-2'' = ''runtime_job_wake_consumed:job-1:job-2''"
    using wake_consumed_id_prefix [of "''job-1:job-2''"] by simp
  have row: "job_row woken_db ''job-1'' = Some (lease_row (\<lambda>_. ''n'') sample_claim 120 (new_row sample_job))"
    using sample_rows(2) by (simp add: woken_db_def job_row_def)
  have yields: "\<exists>db2. yield_runtime_job sample_yield woken_db = Ok ((), db2)"
    unfolding woken_db_def leased_db_eq
    by (simp add: yield_runtime_job_def yield_lease_def ensure_def res_bind_def trim_samples ok_or_def sql_find_def empty_db_def
      insert_event_def Let_def held_def sql_count_def sql_update_def pend consume_wake_def wake_consumed_event_def
      cid yield_event_def job_event_def yield_event_id_def)
  have none: "runtime_events leased_db = []" by (simp add: leased_db_eq empty_db_def)
  have active: "status (lease_row (\<lambda>_. ''n'') sample_claim 120 (new_row sample_job)) = Leased" by (simp add: lease_row_def)
  from yields obtain db2 where y: "yield_runtime_job sample_yield woken_db = Ok ((), db2)" ..
  show ?thesis
    using wake_not_lost [OF sample_wf(2) _ sample_wake_ok, of "[]" "lease_row (\<lambda>_. ''n'') sample_claim 120 (new_row sample_job)"
        sample_yield db2] sample_wake_ok y row none active by auto
qed

section \<open>Listing deliveries\<close>

abbreviation delivery_key :: "RuntimeJobOutboxRecord \<Rightarrow> string \<times> string" where
  "delivery_key ob \<equiv> (outbox_job_id ob, outbox_event_type ob)"

text \<open>The undelivered rows of a listing, before cursor and limit.\<close>

definition undelivered :: "string option \<Rightarrow> string option \<Rightarrow> db \<Rightarrow> RuntimeJobOutboxRecord list" where
  "undelivered kind j db = sql_select (\<lambda>ob. published_at_ms ob = None \<and>
     (case kind of None \<Rightarrow> True | Some k \<Rightarrow> \<exists>r \<in> set (runtime_jobs db). job_id r = outbox_job_id ob \<and> job_kind r = k) \<and>
     (case j of None \<Rightarrow> True | Some i \<Rightarrow> outbox_job_id ob = i)) delivery_key (runtime_job_outbox db)"

lemma listing_Ok:
  assumes wf: "wf_store db"
  shows "list_pending_runtime_job_outbox_after limit kind j after db = res_bind (to_i64 limit) (\<lambda>_.
    Ok (take limit (filter (\<lambda>ob. case after of None \<Rightarrow> True | Some k \<Rightarrow> k < delivery_key ob) (undelivered kind j db))))"
proof -
  have g: "generation ob = 0" if "ob \<in> set (runtime_job_outbox db)" for ob
    using wf that by (auto simp: wf_store_def outbox_ok_def)
  let ?P = "\<lambda>ob. published_at_ms ob = None \<and>
     (case kind of None \<Rightarrow> True | Some k \<Rightarrow> \<exists>r \<in> set (runtime_jobs db). job_id r = outbox_job_id ob \<and> job_kind r = k) \<and>
     (case j of None \<Rightarrow> True | Some i \<Rightarrow> outbox_job_id ob = i)"
  let ?Q = "\<lambda>ob. case after of None \<Rightarrow> True | Some k \<Rightarrow> k < delivery_key ob"
  have "map_result (\<lambda>ob. res_bind (ensure (generation ob \<le> u32_max)
           (''decode runtime job outbox failed: Integer '' @ show_nat (generation ob) @ '' out of range at index 3''))
         (\<lambda>_. Ok ob)) (take limit (sql_select (\<lambda>ob. ?P ob \<and> ?Q ob) delivery_key (runtime_job_outbox db))) =
       Ok (take limit (sql_select (\<lambda>ob. ?P ob \<and> ?Q ob) delivery_key (runtime_job_outbox db)))"
    by (rule map_result_pass) (auto simp: g ensure_def u32_max_def res_bind_def dest!: in_set_takeD)
  then show ?thesis unfolding list_pending_runtime_job_outbox_after_def sql_select_conj undelivered_def conj_assoc by simp
qed

lemma undelivered_order:
  assumes "wf_store db"
  shows "sorted (map delivery_key (undelivered kind j db))" and "distinct (map delivery_key (undelivered kind j db))"
    and "distinct (map outbox_job_id (undelivered kind j db))"
proof -
  have "unique_by outbox_job_id (runtime_job_outbox db)" using assms by (simp add: wf_store_def outbox_ok_def)
  then have "unique_by outbox_job_id (undelivered kind j db)" unfolding undelivered_def by (rule unique_by_sql_select)
  then show "distinct (map delivery_key (undelivered kind j db))"
    and "distinct (map outbox_job_id (undelivered kind j db))"
    by (auto simp: unique_by_def distinct_map inj_on_def)
  show "sorted (map delivery_key (undelivered kind j db))" unfolding undelivered_def by (rule sorted_sql_select)
qed

text \<open>
  Cursor paging over the terminal deliveries neither skips nor repeats one. Listing a page and
  then continuing from the key of its last row gives the same rows, in the same order, as one
  listing of both sizes together, whatever filter by kind and job and whatever starting cursor; and
  a page shorter than its limit is the last one: continuing from it finds nothing.
\<close>
theorem outbox_paging:
  assumes wf: "wf_store db"
    and first: "list_pending_runtime_job_outbox_after limit kind j after db = Ok page" and "page \<noteq> []"
    and rest: "list_pending_runtime_job_outbox_after limit2 kind j (Some (delivery_key (last page))) db = Ok next_page"
    and small: "int (length page + limit2) \<le> i64_max"
  shows "list_pending_runtime_job_outbox_after (length page + limit2) kind j after db = Ok (page @ next_page) \<and>
    distinct (map outbox_job_id (page @ next_page)) \<and>
    (length page < limit \<longrightarrow> next_page = [])"
proof -
  let ?Q = "\<lambda>ob. case after of None \<Rightarrow> True | Some k \<Rightarrow> k < delivery_key ob"
  let ?k = "delivery_key (last page)" and ?n = "length page"
  define L where "L = filter ?Q (undelivered kind j db)"
  have page: "page = take limit L" using first unfolding listing_Ok [OF wf] L_def by (auto simp: result_simps)
  note split = take_then_drop [OF page]
  have order: "sorted (map delivery_key L)" "distinct (map delivery_key L)" "distinct (map outbox_job_id L)"
    using undelivered_order [OF wf, of kind j] unfolding L_def by (auto intro: sorted_filter distinct_map_filter)
  have "last page \<in> set L" using page \<open>page \<noteq> []\<close> by (metis in_set_takeD last_in_set)
  then have "?Q (last page)" by (simp add: L_def)
  then have "filter (\<lambda>ob. ?k < delivery_key ob) (undelivered kind j db) = filter (\<lambda>ob. ?k < delivery_key ob) L"
    unfolding L_def by (auto intro!: filter_cong split: option.splits dest: less_trans)
  also have "\<dots> = drop ?n L"
    using filter_after_last [of delivery_key page "drop ?n L"] order(1,2) \<open>page \<noteq> []\<close> unfolding split [symmetric] by simp
  finally have rest_page: "next_page = take limit2 (drop ?n L)"
    using rest unfolding listing_Ok [OF wf] by (auto simp: result_simps)
  have "take (?n + limit2) L = take ?n L @ take limit2 (drop ?n L)" by (rule take_add)
  also have "take ?n L = page" by (metis append_eq_conv_conj split)
  finally have joined: "take (?n + limit2) L = page @ next_page" using rest_page by simp
  have "next_page = []" if "?n < limit" using that page rest_page by (auto simp: min_def split: if_splits)
  moreover have "list_pending_runtime_job_outbox_after (?n + limit2) kind j after db = Ok (page @ next_page)"
    unfolding listing_Ok [OF wf] L_def [symmetric] joined using small
    by (simp add: to_i64_def ok_or_def i64_try_from_def i64_min_def result_simps)
  moreover have "distinct (map outbox_job_id (page @ next_page))"
    unfolding joined [symmetric] using order(3) by (metis distinct_take take_map)
  ultimately show ?thesis by blast
qed

theorem outbox_paging_witness:
  "list_pending_runtime_job_outbox_after (1 + 4) None (Some ''job-1'') None done_db =
     Ok [\<lparr>outbox_job_id = ''job-1'', outbox_event_type = RUNTIME_JOB_TERMINAL_EVENT, published_at_ms = None, generation = 0\<rparr>]"
proof -
  let ?ob = "\<lparr>outbox_job_id = ''job-1'', outbox_event_type = RUNTIME_JOB_TERMINAL_EVENT, published_at_ms = None, generation = 0\<rparr>"
  note listing = listing_Ok [OF done_wf]
  note eval = to_i64_def ok_or_def i64_try_from_def i64_min_def i64_max_def res_bind_def
    undelivered_def sql_select_def done_db_eq empty_db_def
  have "list_pending_runtime_job_outbox_after 5 None (Some ''job-1'') None done_db = Ok [?ob]"
    unfolding listing by (simp add: eval)
  moreover have "list_pending_runtime_job_outbox_after 4 None (Some ''job-1'') (Some (delivery_key (last [?ob]))) done_db = Ok []"
    unfolding listing by (simp add: eval)
  ultimately show ?thesis
    using outbox_paging [OF done_wf, of 5 None "Some ''job-1''" None "[?ob]" 4 "[]"] by (simp add: i64_max_def)
qed

end
