(* ===== verification/ClaimsAndLetters.thy ===== *)
theory ClaimsAndLetters
  imports JobFlow
begin

text \<open>
  The resource claims and the dead letters as part of the store machine: which operations touch
  their tables, the interpretations of the lease and status interfaces on them, mutual exclusion of
  claims over runs, and the life of a dead letter.
\<close>

section \<open>Which operations touch these tables\<close>

fun claim_op :: "store_op \<Rightarrow> bool" where
  "claim_op (AcquireClaim _) = True"
| "claim_op (ReleaseClaim _) = True"
| "claim_op (ReclaimClaims _) = True"
| "claim_op _ = False"

fun letter_op :: "store_op \<Rightarrow> bool" where
  "letter_op (CreateDeadLetter _) = True"
| "letter_op (CreateDeadLetterAndFail _ _) = True"
| "letter_op (MarkReplaying _ _) = True"
| "letter_op (MarkReplayed _ _ _) = True"
| "letter_op (ReplayDeadLetter _) = True"
| "letter_op (DismissDeadLetter _ _ _ _) = True"
| "letter_op _ = False"

definition same_side :: "db \<Rightarrow> db \<Rightarrow> bool" where
  "same_side db db' \<longleftrightarrow> resource_claims db' = resource_claims db \<and> dead_letters db' = dead_letters db"

lemma same_side_refl [simp]: "same_side db db"
  by (simp add: same_side_def)

lemma schedule_same_side: "schedule_with what job db = Ok (v, db') \<Longrightarrow> same_side db db'"
  by (auto simp: schedule_with_def insert_runtime_job_def same_side_def result_simps split: if_splits)

lemma claim_same_side: "claim_due_runtime_jobs nonce req db = Ok (v, db') \<Longrightarrow> same_side db db'"
  by (erule claim_due_effect) (simp add: same_side_def)

lemma wake_same_side: "wake_runtime_job req db = Ok (v, db') \<Longrightarrow> same_side db db'"
  by (erule wake_effect, erule wake_row_effect) (auto simp: same_side_def)

lemma yield_same_side: "yield_runtime_job req db = Ok (v, db') \<Longrightarrow> same_side db db'"
  by (erule yield_effect) (auto simp: same_side_def)

lemma shutdown_same_side: "cancel_for_service_shutdown req db = Ok (v, db') \<Longrightarrow> same_side db db'"
  by (erule shutdown_effect) (auto simp: same_side_def cancel_conn_effect)

lemma reclaim_same_side: "fold_result (reclaim_one now) db rs = Ok db' \<Longrightarrow> same_side db db'"
proof (induction rs arbitrary: db)
  case (Cons r rs)
  then obtain db1 where "reclaim_one now db r = Ok db1" "fold_result (reclaim_one now) db1 rs = Ok db'"
    by (auto simp: result_simps)
  moreover from this(1) have "same_side db db1" by (rule reclaim_one_effect) (simp add: same_side_def)
  ultimately show ?case using Cons.IH [of db1] by (simp add: same_side_def)
qed simp

lemmas same_side_intros = schedule_same_side claim_same_side wake_same_side yield_same_side shutdown_same_side
  reclaim_same_side

lemma side_tables:
  assumes ok: "store_tx op db = Ok ((), db')" and op: "\<not> claim_op op" "\<not> letter_op op"
  shows "same_side db db'"
proof (cases op)
  case (AppendEventIdempotent ev)
  with ok obtain b where "append_event_conn_idempotent ev db = Ok (b, db')" by auto
  from idempotent_append_effect(1) [OF this] show ?thesis by (simp add: same_side_def)
qed (use ok op in \<open>auto simp: schedule_runtime_job_def start_runtime_job_def renew_runtime_job_lease_def append_event_conn_def
      reclaim_expired_runtime_job_leases_def mark_runtime_job_outbox_published_def
      complete_effect fail_effect cancel_runtime_job_def cancel_conn_effect
      result_simps Let_def intro: same_side_intros split: if_splits, simp_all add: same_side_def\<close>)

lemma claims_only_by_claim_ops:
  "store_tx op db = Ok ((), db') \<Longrightarrow> \<not> claim_op op \<Longrightarrow> resource_claims db' = resource_claims db"
proof (cases "letter_op op")
  case True
  assume ok: "store_tx op db = Ok ((), db')"
  from True ok show ?thesis
  proof (cases op)
    case (CreateDeadLetterAndFail rec req)
    with ok obtain v where "create_dead_letter_and_fail_job rec req db = Ok (v, db')" by auto
    then obtain db1 b where "insert_dead_letter_record rec db = Ok (b, db1)" "fail_runtime_job req db1 = Ok ((), db')"
      by (rule dead_letter_and_fail_effect)
    then show ?thesis by (auto simp: fail_effect insert_dead_letter_effect)
  next
    case (ReplayDeadLetter req)
    with ok obtain v where "replay_dead_letter req db = Ok (v, db')" by auto
    then show ?thesis by (rule replay_effect) (auto dest: schedule_same_side simp: same_side_def)
  qed (auto simp: quiet_ops insert_dead_letter_effect result_simps Let_def split: if_splits)
qed (use side_tables same_side_def in blast)

lemma letters_only_by_letter_ops:
  "store_tx op db = Ok ((), db') \<Longrightarrow> \<not> letter_op op \<Longrightarrow> dead_letters db' = dead_letters db"
proof (cases "claim_op op")
  case True
  assume ok: "store_tx op db = Ok ((), db')"
  from True ok show ?thesis
    by (cases op) (auto simp: quiet_ops result_simps Let_def split: if_splits elim!: acquire_effect)
qed (use side_tables same_side_def in blast)

section \<open>Resource claims\<close>

definition claim_row :: "db \<Rightarrow> string \<times> string \<Rightarrow> ResourceClaimRecord option" where
  "claim_row db k = sql_find (\<lambda>c. claim_key c = k) (resource_claims db)"

definition claims_ok :: "db \<Rightarrow> bool" where
  "claims_ok db \<longleftrightarrow> unique_by claim_key (resource_claims db)"

definition acquire_key :: "AcquireResourceClaimRequest \<Rightarrow> string \<times> string" where
  "acquire_key req = (acquire_resource_kind req, acquire_resource_key req)"

definition acquire_expiry :: "AcquireResourceClaimRequest \<Rightarrow> int" where
  "acquire_expiry req = i64_saturating_add (acquire_now_ms req) (int (ttl_ms req))"

lemma load_is_row: "load_resource_claim kind key db = claim_row db (kind, key)"
  by (simp add: load_resource_claim_def claim_row_def)

lemma claim_fields [simp]:
  "claim_key (refresh_claim req e c) = claim_key c" "claim_key (take_over_claim req e c) = claim_key c"
  "claim_key (new_claim req e) = acquire_key req"
  "owner (refresh_claim req e c) = owner c" "owner (take_over_claim req e c) = acquire_owner req"
  "owner (new_claim req e) = acquire_owner req"
  "expires_at_ms (refresh_claim req e c) = e" "expires_at_ms (take_over_claim req e c) = e"
  "expires_at_ms (new_claim req e) = e"
  by (simp_all add: claim_key_def refresh_claim_def take_over_claim_def new_claim_def acquire_key_def)

lemma upsert_claim_row:
  "sql_find (\<lambda>c. claim_key c = k) (upsert_claim req e rows) =
     (if k = acquire_key req
      then Some (case sql_find (\<lambda>c. claim_key c = k) rows of None \<Rightarrow> new_claim req e | Some c \<Rightarrow> take_over_claim req e c)
      else sql_find (\<lambda>c. claim_key c = k) rows)"
proof (cases "sql_find (\<lambda>c. claim_key c = acquire_key req) rows")
  case None
  then have "sql_count (\<lambda>c. claim_key c = acquire_key req) rows = 0" by (simp add: sql_find_None sql_count_eq_0)
  with None show ?thesis
    by (auto simp: upsert_claim_def acquire_key_def [symmetric] sql_find_snoc split: option.splits)
next
  case (Some c)
  then have "0 < sql_count (\<lambda>c. claim_key c = acquire_key req) rows" by (metis sql_count_pos sql_find_Some)
  moreover have "sql_find (\<lambda>c. claim_key c = k) (sql_update (\<lambda>c. claim_key c = acquire_key req) (take_over_claim req e) rows) =
      map_option (\<lambda>c. if claim_key c = acquire_key req then take_over_claim req e c else c) (sql_find (\<lambda>c. claim_key c = k) rows)"
    by (rule sql_find_update) simp
  ultimately show ?thesis using Some
    by (auto simp: upsert_claim_def acquire_key_def [symmetric] map_option_case dest: sql_find_Some split: option.splits)
qed

lemma upsert_claim_unique:
  assumes "unique_by claim_key rows"
  shows "unique_by claim_key (upsert_claim req e rows)"
  using assms unique_by_sql_update [of rows "\<lambda>c. claim_key c = acquire_key req" claim_key "take_over_claim req e"]
  by (auto simp: upsert_claim_def acquire_key_def [symmetric] sql_count_eq_0)

lemma acquire_row:
  assumes acq: "acquire_resource_claim req db = Ok (v, db')"
  obtains (conflict) c where "claim_row db (acquire_key req) = Some c" "acquire_now_ms req < expires_at_ms c"
      "owner c \<noteq> acquire_owner req" "v = \<lparr>acquire_disposition = Conflict, acquire_claim = c\<rparr>" "db' = db"
  | (held) c' where "acquire_disposition v \<noteq> Conflict" "acquire_claim v = c'" "claim_row db' (acquire_key req) = Some c'"
      "owner c' = acquire_owner req" "expires_at_ms c' = acquire_expiry req"
      "\<And>c. claim_row db (acquire_key req) = Some c \<Longrightarrow> owner c \<noteq> acquire_owner req \<Longrightarrow> expires_at_ms c \<le> acquire_now_ms req"
      "\<And>k. k \<noteq> acquire_key req \<Longrightarrow> claim_row db' k = claim_row db k"
  using acq
proof (cases rule: acquire_effect)
  case (conflict c)
  then show ?thesis using that(1) by (simp add: load_is_row acquire_key_def)
next
  case (owned c e)
  have upd: "claim_row db' k = map_option (\<lambda>c. if claim_key c = acquire_key req \<and> owner c = acquire_owner req
      then refresh_claim req e c else c) (claim_row db k)" for k
    unfolding claim_row_def owned(6) acquire_key_def by (simp add: sql_find_update)
  have c: "claim_row db (acquire_key req) = Some c" using owned by (simp add: load_is_row acquire_key_def)
  then have "claim_key c = acquire_key req" by (auto simp: claim_row_def dest: sql_find_Some)
  with c upd owned have row: "claim_row db' (acquire_key req) = Some (refresh_claim req e c)" by simp
  have "claim_row db' k = claim_row db k" if "k \<noteq> acquire_key req" for k
    unfolding upd using that by (auto simp: claim_row_def dest: sql_find_Some intro!: option.map_ident_strong)
  with row c owned show ?thesis by (intro that(2) [of "refresh_claim req e c"]) (auto simp: acquire_expiry_def)
next
  case (acquired c' e)
  have upd: "claim_row db' k = (if k = acquire_key req
      then Some (case claim_row db k of None \<Rightarrow> new_claim req e | Some c \<Rightarrow> take_over_claim req e c) else claim_row db k)" for k
    using acquired(5) by (simp add: claim_row_def upsert_claim_row)
  have c': "claim_row db' (acquire_key req) = Some c'" using acquired(3) by (simp add: load_is_row acquire_key_def)
  have "owner c' = acquire_owner req \<and> expires_at_ms c' = e"
    using c' unfolding upd by (auto split: option.splits)
  with c' upd acquired show ?thesis
    by (intro that(2) [of c']) (auto simp: load_is_row acquire_key_def acquire_expiry_def)
qed

text \<open>What one operation does to the claim of a resource.\<close>

lemma exec_claim_row:
  assumes ok: "claims_ok db"
  obtains (same) "claim_row (exec op db) k = claim_row db k"
  | (released) c req where "op = ReleaseClaim req" "k = (release_resource_kind req, release_resource_key req)"
      "claim_row db k = Some c" "owner c = release_owner req" "claim_row (exec op db) k = None"
  | (expired) c now where "op = ReclaimClaims now" "claim_row db k = Some c" "expires_at_ms c \<le> now" "claim_row (exec op db) k = None"
  | (acquired) c' req where "op = AcquireClaim req" "k = acquire_key req"
      "\<And>c. claim_row db k = Some c \<Longrightarrow> owner c \<noteq> acquire_owner req \<Longrightarrow> expires_at_ms c \<le> acquire_now_ms req"
      "claim_row (exec op db) k = Some c'" "owner c' = acquire_owner req" "expires_at_ms c' = acquire_expiry req"
proof (cases rule: exec_cases [of op db])
  case err
  then show ?thesis using same by simp
next
  case ok: ok
  then obtain db' where tx: "store_tx op db = Ok ((), db')" and eq: "exec op db = db'" by blast
  have u: "unique_by claim_key (resource_claims db)" using assms by (simp add: claims_ok_def)
  show ?thesis
  proof (cases "claim_op op")
    case False
    with claims_only_by_claim_ops [OF tx] eq show ?thesis by (intro same) (simp add: claim_row_def)
  next
    case True
    then consider req where "op = AcquireClaim req" | req where "op = ReleaseClaim req" | now where "op = ReclaimClaims now"
      by (cases op) auto
    then show ?thesis
    proof cases
      case 1
      with tx obtain v where "acquire_resource_claim req db = Ok (v, db')" by auto
      then show ?thesis
      proof (cases rule: acquire_row)
        case (held c')
        with 1 eq same show ?thesis by (cases "k = acquire_key req") (auto intro: acquired)
      qed (use same eq in simp)
    next
      case 2
      let ?mine = "\<lambda>c. claim_key c = (release_resource_kind req, release_resource_key req) \<and> owner c = release_owner req"
      have "claim_row db' k = (case claim_row db k of None \<Rightarrow> None | Some c \<Rightarrow> if ?mine c then None else Some c)"
        using 2 tx sql_find_delete [OF u, of k ?mine] by (auto simp: release_resource_claim_def claim_row_def Let_def)
      moreover have "claim_key c = k" if "claim_row db k = Some c" for c using that by (auto simp: claim_row_def dest: sql_find_Some)
      ultimately show ?thesis using 2 eq same released by (cases "claim_row db k") (auto split: if_splits)
    next
      case 3
      have "claim_row db' k = (case claim_row db k of None \<Rightarrow> None | Some c \<Rightarrow> if expires_at_ms c \<le> now then None else Some c)"
        using 3 tx sql_find_delete [OF u, of k "\<lambda>c. expires_at_ms c \<le> now"]
        by (auto simp: reclaim_expired_resource_claims_def claim_row_def Let_def)
      then show ?thesis using 3 eq same expired by (cases "claim_row db k") (auto split: if_splits)
    qed
  qed
qed

lemma exec_claims_ok:
  assumes "claims_ok db"
  shows "claims_ok (exec op db)"
proof (cases rule: exec_cases [of op db])
  case ok
  then obtain db' where tx: "store_tx op db = Ok ((), db')" and eq: "exec op db = db'" by blast
  have u: "unique_by claim_key (resource_claims db)" using assms by (simp add: claims_ok_def)
  have "unique_by claim_key (resource_claims db')"
  proof (cases "claim_op op")
    case True
    with tx u show ?thesis
    proof (cases op)
      case (AcquireClaim req)
      with tx obtain v where "acquire_resource_claim req db = Ok (v, db')" by auto
      then show ?thesis
        by (cases rule: acquire_effect) (use u in \<open>auto simp: unique_by_sql_update intro: upsert_claim_unique\<close>)
    qed (auto simp: quiet_ops Let_def intro: unique_by_sql_delete)
  qed (use claims_only_by_claim_ops [OF tx] u in simp)
  then show ?thesis by (simp add: claims_ok_def eq)
qed (use assms in simp)

fun mints_claim :: "store_op \<Rightarrow> string \<times> string \<Rightarrow> string \<Rightarrow> bool" where
  "mints_claim (AcquireClaim req) k who \<longleftrightarrow> acquire_key req = k \<and> acquire_owner req = who"
| "mints_claim _ _ _ \<longleftrightarrow> False"

interpretation resource_leases: lease_store admissible_step claims_ok
  "\<lambda>db k. map_option owner (claim_row db k)" mints_claim
proof
  show "claims_ok db'" if "claims_ok db" "admissible_step db op db'" for db op db'
    using that exec_claims_ok by (auto simp: admissible_step_def store_step_def)
  show "map_option owner (claim_row db k) = Some t \<or> mints_claim op k t"
    if ok: "claims_ok db" and step: "admissible_step db op db'" and held: "map_option owner (claim_row db' k) = Some t"
    for db op db' k t
  proof -
    have db': "db' = exec op db" using step by (simp add: admissible_step_def store_step_def)
    show ?thesis using held unfolding db' by (cases rule: exec_claim_row [OF ok, of op k]) auto
  qed
qed

text \<open>The operations under which a claim of \<open>who\<close> on \<open>k\<close> until \<open>until\<close> stands: clocks that have not
  reached the expiry, no release by the owner, and refreshes by the owner that do not shorten it.\<close>

fun respects_claim :: "string \<times> string \<Rightarrow> string \<Rightarrow> int \<Rightarrow> store_op \<Rightarrow> bool" where
  "respects_claim k who until (AcquireClaim req) \<longleftrightarrow> acquire_key req = k \<longrightarrow>
     acquire_now_ms req < until \<and> (acquire_owner req = who \<longrightarrow> until \<le> acquire_expiry req)"
| "respects_claim k who until (ReleaseClaim req) \<longleftrightarrow>
     \<not> ((release_resource_kind req, release_resource_key req) = k \<and> release_owner req = who)"
| "respects_claim k who until (ReclaimClaims now) \<longleftrightarrow> now < until"
| "respects_claim k who until _ \<longleftrightarrow> True"

definition claimed :: "string \<times> string \<Rightarrow> string \<Rightarrow> int \<Rightarrow> db \<Rightarrow> bool" where
  "claimed k who until db \<longleftrightarrow> (\<exists>c. claim_row db k = Some c \<and> owner c = who \<and> until \<le> expires_at_ms c)"

lemma claimed_step:
  assumes "claims_ok db" and "claimed k who until db" and "respects_claim k who until op"
  shows "claimed k who until (exec op db)"
  using assms(2,3) unfolding claimed_def
  by (cases rule: exec_claim_row [OF assms(1), of op k]) fastforce+

text \<open>
  C8: Resource claims exclude each other. Once an owner has acquired a resource (or refreshed its
  claim on it) with a time to live, every later attempt by somebody else before the expiry is
  answered with a conflict that shows the first owner's claim and changes nothing, whatever
  operations ran in between, as long as the owner did not release or shorten the claim and no
  operation on the resource ran with a clock past the expiry.
\<close>
theorem claim_mutual_exclusion:
  assumes ok: "claims_ok db" and first: "acquire_resource_claim req db = Ok (res, db1)"
    and "acquire_disposition res \<noteq> Conflict"
    and ops: "list_all op_ok ops" and resp: "list_all (respects_claim (acquire_key req) (acquire_owner req) (acquire_expiry req)) ops"
    and second: "acquire_key req' = acquire_key req" "acquire_owner req' \<noteq> acquire_owner req"
      "acquire_now_ms req' < acquire_expiry req" "int (ttl_ms req') \<le> i64_max"
  shows "\<exists>c. acquire_resource_claim req' (fold exec ops db1) =
      Ok (\<lparr>acquire_disposition = Conflict, acquire_claim = c\<rparr>, fold exec ops db1) \<and>
    owner c = acquire_owner req \<and> acquire_expiry req \<le> expires_at_ms c"
proof -
  let ?d = "fold exec ops db1" and ?k = "acquire_key req" and ?who = "acquire_owner req" and ?until = "acquire_expiry req"
  have "exec (AcquireClaim req) db = db1" using first by (simp add: exec_def commit_job_write_def discard_def res_bind_def)
  then have ok1: "claims_ok db1" using exec_claims_ok [OF ok] by metis
  from first have "claimed ?k ?who ?until db1"
    by (cases rule: acquire_row) (use assms(3) in \<open>auto simp: claimed_def\<close>)
  moreover have run: "run admissible_step db1 ops ?d" using ops by (simp add: run_exec_iff)
  ultimately have "claimed ?k ?who ?until ?d"
    using ok1 resource_leases.run_keeps [OF run ok1, of "claimed ?k ?who ?until"] resp claimed_step
    by (auto simp: admissible_step_def store_step_def list_all_iff)
  then obtain c where c: "claim_row ?d ?k = Some c" "owner c = ?who" "?until \<le> expires_at_ms c"
    by (auto simp: claimed_def)
  have "i64_try_from (ttl_ms req') = Some (int (ttl_ms req'))"
    using second(4) by (simp add: i64_try_from_def i64_min_def)
  with c second show ?thesis
    by (intro exI [of _ c])
      (simp add: acquire_resource_claim_def load_is_row acquire_key_def [symmetric] ok_or_def res_bind_def Let_def)
qed

definition sample_acquire :: "string \<Rightarrow> int \<Rightarrow> AcquireResourceClaimRequest" where
  "sample_acquire who now = \<lparr>acquire_resource_kind = ''workspace'', acquire_resource_key = ''w1'', acquire_owner = who,
     acquire_owner_kind = ''session'', acquire_session_id = None, acquire_branch_id = None, acquire_now_ms = now,
     ttl_ms = 100, acquire_metadata_json = ''{}''\<rparr>"

lemma sample_acquire_simps [simp]:
  "acquire_key (sample_acquire who now) = (''workspace'', ''w1'')" "acquire_owner (sample_acquire who now) = who"
  "acquire_now_ms (sample_acquire who now) = now" "ttl_ms (sample_acquire who now) = 100"
  "acquire_resource_kind (sample_acquire who now) = ''workspace''" "acquire_resource_key (sample_acquire who now) = ''w1''"
  by (simp_all add: sample_acquire_def acquire_key_def)

theorem claim_mutual_exclusion_witness:
  "\<exists>db1 c. acquire_resource_claim (sample_acquire ''a'' 20) empty_db =
       Ok (\<lparr>acquire_disposition = Acquired, acquire_claim = new_claim (sample_acquire ''a'' 20) 120\<rparr>, db1) \<and>
     acquire_resource_claim (sample_acquire ''b'' 119) (fold exec [ReclaimClaims 110] db1) =
       Ok (\<lparr>acquire_disposition = Conflict, acquire_claim = c\<rparr>, fold exec [ReclaimClaims 110] db1) \<and> owner c = ''a''"
proof -
  let ?db1 = "empty_db\<lparr>resource_claims := [new_claim (sample_acquire ''a'' 20) 120]\<rparr>"
  have ok: "claims_ok empty_db" by (simp add: claims_ok_def empty_db_def)
  have expiry: "acquire_expiry (sample_acquire ''a'' 20) = 120" by (simp add: acquire_expiry_def i64_small)
  have first: "acquire_resource_claim (sample_acquire ''a'' 20) empty_db =
       Ok (\<lparr>acquire_disposition = Acquired, acquire_claim = new_claim (sample_acquire ''a'' 20) 120\<rparr>, ?db1)"
    by (simp add: acquire_resource_claim_def i64_small ok_or_def res_bind_def Let_def load_resource_claim_def empty_db_def
        upsert_claim_def sql_count_def sql_find_def)
  show ?thesis
    using claim_mutual_exclusion [OF ok first, of "[ReclaimClaims 110]" "sample_acquire ''b'' 119"] first
    by (auto simp: expiry i64_max_def)
qed

section \<open>Dead letters\<close>

definition letter_row :: "db \<Rightarrow> string \<Rightarrow> DeadLetterRecord option" where
  "letter_row db i = sql_find (\<lambda>d. dead_letter_id d = i) (dead_letters db)"

definition letters_ok :: "db \<Rightarrow> bool" where
  "letters_ok db \<longleftrightarrow> unique_by dead_letter_id (dead_letters db) \<and> unique_by original_job_id (dead_letters db)"

text \<open>The moves of a dead letter: those of \<open>DeadLetterStatus::can_transition_to\<close>, and the replay
  transaction, which goes from open to replayed in one step.\<close>

definition dead_letter_moves :: "DeadLetterStatus \<Rightarrow> DeadLetterStatus \<Rightarrow> bool" where
  "dead_letter_moves x y \<longleftrightarrow> dead_letter_can_transition_to x y \<or> (x = Open \<and> y = Replayed)"

interpretation dead_letter_status: status_machine dead_letter_can_transition_to dead_letter_is_terminal
  by unfold_locales (auto simp: dead_letter_can_transition_to_def dead_letter_is_terminal_def)

definition letter_step :: "DeadLetterRecord \<Rightarrow> DeadLetterRecord \<Rightarrow> bool" where
  "letter_step d d' \<longleftrightarrow> d' = d \<or>
     dead_letter_moves (dl_status d) (dl_status d') \<and> \<not> dead_letter_is_terminal (dl_status d) \<and>
     dead_letter_id d' = dead_letter_id d \<and> original_job_id d' = original_job_id d \<and> dl_job_kind d' = dl_job_kind d \<and>
     dl_idempotency_key d' = dl_idempotency_key d \<and> attempts d' = attempts d \<and> (dl_status d = Open \<or> dl_status d' \<noteq> Open)"

definition letters_step :: "DeadLetterRecord list \<Rightarrow> DeadLetterRecord list \<Rightarrow> bool" where
  "letters_step ds ds' \<longleftrightarrow> (\<exists>P f. (\<forall>d \<in> set ds. P d \<longrightarrow> letter_step d (f d)) \<and> ds' = sql_update P f ds) \<or>
     (\<exists>d. ds' = ds @ [d] \<and> dead_letter_id d \<notin> dead_letter_id ` set ds \<and> original_job_id d \<notin> original_job_id ` set ds)"

lemma letters_same: "letters_step ds ds"
  unfolding letters_step_def
  by (rule disjI1, rule exI [of _ "\<lambda>_. False"]) (simp add: sql_update_def)

lemma update_letters_step:
  assumes "update_dead_letters err i from_status f db = Ok ((), db')"
    and "\<And>d. dl_status d = from_status \<Longrightarrow> letter_step d (f d)"
  shows "letters_step (dead_letters db) (dead_letters db')"
  using assms unfolding letters_step_def
  by (intro disjI1 exI [of _ "\<lambda>d. dead_letter_id d = i \<and> dl_status d = from_status"] exI [of _ f])
    (auto simp: update_dead_letters_def Let_def split: if_splits)

lemma insert_letters_step:
  "insert_dead_letter_record rec db = Ok (b, db') \<Longrightarrow> letters_step (dead_letters db) (dead_letters db')"
  by (auto simp: insert_dead_letter_effect letters_same) (auto simp: letters_step_def)

lemma store_tx_letters:
  assumes ok: "store_tx op db = Ok ((), db')"
  shows "letters_step (dead_letters db) (dead_letters db')"
proof (cases "letter_op op")
  case True
  note moves = letter_step_def dead_letter_moves_def dead_letter_can_transition_to_def dead_letter_is_terminal_def
  from True ok show ?thesis
  proof (cases op)
    case (CreateDeadLetter rec)
    with ok obtain b where "insert_dead_letter_record rec db = Ok (b, db')"
      by (auto simp: create_dead_letter_def result_simps)
    then show ?thesis by (rule insert_letters_step)
  next
    case (CreateDeadLetterAndFail rec req)
    with ok obtain v where "create_dead_letter_and_fail_job rec req db = Ok (v, db')" by auto
    then obtain db1 b where "insert_dead_letter_record rec db = Ok (b, db1)" "fail_runtime_job req db1 = Ok ((), db')"
      by (rule dead_letter_and_fail_effect)
    then show ?thesis by (auto simp: fail_effect dest!: insert_letters_step)
  next
    case (ReplayDeadLetter req)
    with ok obtain v where "replay_dead_letter req db = Ok (v, db')" by auto
    then obtain db1 where s: "schedule_with ''replay_dead_letter'' (replay_job req) db = Ok (v, db1)"
      and "dead_letters db' = sql_update (\<lambda>d. dead_letter_id d = replay_dead_letter_id req \<and> dl_status d = Open)
        (\<lambda>d. d\<lparr>dl_status := Replayed, replayed_job_id := Some (job_id (schedule_job v)),
               dl_updated_at_ms := replayed_at_ms req\<rparr>) (dead_letters db1)"
      by (rule replay_effect) auto
    moreover have "dead_letters db1 = dead_letters db" using schedule_same_side [OF s] by (simp add: same_side_def)
    ultimately show ?thesis unfolding letters_step_def by (intro disjI1 exI conjI) (auto simp: moves)
  next
    case (MarkReplaying i now)
    with ok show ?thesis by (auto simp: mark_dead_letter_replaying_def moves intro: update_letters_step)
  next
    case (MarkReplayed i j now)
    with ok show ?thesis by (auto simp: mark_dead_letter_replayed_def moves intro: update_letters_step)
  next
    case (DismissDeadLetter i who why now)
    with ok show ?thesis by (auto simp: dismiss_dead_letter_def moves intro: update_letters_step)
  qed auto
qed (use letters_only_by_letter_ops [OF ok] letters_same in simp)

lemma exec_letters: "letters_step (dead_letters db) (dead_letters (exec op db))"
  by (cases rule: exec_cases [of op db]) (auto intro: store_tx_letters letters_same)

lemma letter_step_keys:
  "letter_step d d' \<Longrightarrow> dead_letter_id d' = dead_letter_id d" "letter_step d d' \<Longrightarrow> original_job_id d' = original_job_id d"
  by (auto simp: letter_step_def)

lemma exec_letters_ok: "letters_ok db \<Longrightarrow> letters_ok (exec op db)"
  using exec_letters [of db op] letter_step_keys unfolding letters_ok_def letters_step_def
  by (auto simp: unique_by_sql_update)

lemma exec_letter_row:
  assumes "letters_ok db" and "letter_row db i = Some d"
  shows "\<exists>d'. letter_row (exec op db) i = Some d' \<and> letter_step d d'"
  using exec_letters [of db op] unfolding letters_step_def
proof (elim disjE exE conjE)
  fix P f
  assume f: "\<forall>d \<in> set (dead_letters db). P d \<longrightarrow> letter_step d (f d)"
    and upd: "dead_letters (exec op db) = sql_update P f (dead_letters db)"
  have "letter_row (exec op db) i = Some (if P d then f d else d)"
    using sql_find_update [of "dead_letters db" P dead_letter_id f i] f letter_step_keys(1) assms(2)
    by (simp add: letter_row_def upd)
  moreover have "d \<in> set (dead_letters db)" using assms(2) by (auto simp: letter_row_def dest: sql_find_Some)
  ultimately show ?thesis using f by (auto simp: letter_step_def)
next
  fix d1
  assume "dead_letters (exec op db) = dead_letters db @ [d1]"
  with assms(2) show ?thesis by (simp add: letter_row_def sql_find_snoc letter_step_def)
qed

interpretation letter_store: status_store admissible_step letters_ok dead_letter_moves dead_letter_is_terminal
  "\<lambda>db i. map_option dl_status (letter_row db i)"
proof
  show "letters_ok db'" if "letters_ok db" "admissible_step db op db'" for db op db'
    using that exec_letters_ok by (auto simp: admissible_step_def store_step_def)
  show "dead_letter_moves x x" for x by (simp add: dead_letter_moves_def dead_letter_can_transition_to_def)
  show "y = x" if "dead_letter_is_terminal x" "dead_letter_moves x y" for x y
    using that by (auto simp: dead_letter_moves_def dead_letter_can_transition_to_def dead_letter_is_terminal_def)
  show "\<exists>y. map_option dl_status (letter_row db' i) = Some y \<and> dead_letter_moves x y"
    if ok: "letters_ok db" and step: "admissible_step db op db'" and x: "map_option dl_status (letter_row db i) = Some x" for db op db' i x
  proof -
    obtain d where d: "letter_row db i = Some d" "dl_status d = x" using x by auto
    from exec_letter_row [OF ok d(1), of op] d(2) step show ?thesis
      by (auto simp: admissible_step_def store_step_def letter_step_def dead_letter_moves_def dead_letter_can_transition_to_def)
  qed
qed

text \<open>
  Dead letters are a ledger: over every run of the store there is at most one per failed job,
  none ever disappears or changes the job it accounts for, its status moves only forward (open,
  replaying, then replayed or dismissed, or from open to replayed in the replay transaction), and
  once it is replayed or dismissed no column of it changes again.
\<close>
theorem dead_letter_ledger:
  assumes "letters_ok db" and "list_all op_ok ops" and "letter_row db i = Some d"
  shows "unique_by original_job_id (dead_letters (fold exec ops db)) \<and>
    (\<exists>d'. letter_row (fold exec ops db) i = Some d' \<and> original_job_id d' = original_job_id d \<and>
      dead_letter_moves\<^sup>*\<^sup>* (dl_status d) (dl_status d') \<and>
      (dead_letter_is_terminal (dl_status d) \<longrightarrow> d' = d))"
proof -
  let ?d = "fold exec ops db"
  have run: "run admissible_step db ops ?d" using assms(2) by (simp add: run_exec_iff)
  have ok: "letters_ok ?d" using letter_store.run_inv [OF run assms(1)] .
  obtain d' where d': "letter_row ?d i = Some d'" "dead_letter_moves\<^sup>*\<^sup>* (dl_status d) (dl_status d')"
    using letter_store.run_status [OF run assms(1), of i "dl_status d"] assms(3) by auto
  have "\<exists>d'. letter_row ?d i = Some d' \<and> original_job_id d' = original_job_id d"
  proof (rule letter_store.run_keeps [OF run assms(1)])
    show "\<exists>d'. letter_row db i = Some d' \<and> original_job_id d' = original_job_id d" using assms(3) by simp
    show "\<exists>d'. letter_row s' i = Some d' \<and> original_job_id d' = original_job_id d"
      if "letters_ok s" "\<exists>d'. letter_row s i = Some d' \<and> original_job_id d' = original_job_id d" "admissible_step s e s'" for s e s'
      using that exec_letter_row letter_step_keys(2) by (metis admissible_step_def store_step_def)
  qed
  moreover have "letter_row ?d i = Some d" if t: "dead_letter_is_terminal (dl_status d)"
  proof (rule letter_store.run_keeps [OF run assms(1)])
    show "letter_row db i = Some d" by (rule assms(3))
    show "letter_row s' i = Some d" if "letters_ok s" "letter_row s i = Some d" "admissible_step s e s'" for s e s'
      using that exec_letter_row t unfolding admissible_step_def store_step_def letter_step_def by metis
  qed
  ultimately show ?thesis using d' ok by (auto simp: letters_ok_def)
qed

lemma replay_needs_open:
  assumes "letter_row db (replay_dead_letter_id req) = Some d" and "dl_status d \<noteq> Open"
  shows "exec (ReplayDeadLetter req) db = db"
proof -
  have "replay_dead_letter req db \<noteq> Ok (v, db')" for v db'
  proof
    assume "replay_dead_letter req db = Ok (v, db')"
    then have "\<exists>d. letter_row db (replay_dead_letter_id req) = Some d \<and> dl_status d = Open"
      by (auto simp: replay_dead_letter_def Let_def result_simps load_dead_letter_by_id_def load_dead_letter_def
          row_to_dead_letter_def letter_row_def ok_or_def split: option.splits)
    with assms show False by simp
  qed
  then show ?thesis by (cases rule: exec_cases [of "ReplayDeadLetter req" db]) auto
qed

lemma not_open_step: "letter_step d d' \<Longrightarrow> dl_status d \<noteq> Open \<Longrightarrow> dl_status d' \<noteq> Open"
  by (auto simp: letter_step_def)

lemma stays_not_open:
  assumes "letters_ok db" and "list_all op_ok ops" and "letter_row db i = Some d" and "dl_status d \<noteq> Open"
  shows "\<exists>d'. letter_row (fold exec ops db) i = Some d' \<and> dl_status d' \<noteq> Open"
proof -
  have run: "run admissible_step db ops (fold exec ops db)" using assms(2) by (simp add: run_exec_iff)
  show ?thesis
  proof (rule letter_store.run_keeps [OF run assms(1)])
    show "\<exists>d'. letter_row db i = Some d' \<and> dl_status d' \<noteq> Open" using assms(3,4) by simp
    show "\<exists>d'. letter_row s' i = Some d' \<and> dl_status d' \<noteq> Open"
      if "letters_ok s" "\<exists>d'. letter_row s i = Some d' \<and> dl_status d' \<noteq> Open" "admissible_step s e s'" for s e s'
      using that exec_letter_row not_open_step by (metis admissible_step_def store_step_def)
  qed
qed

lemma replayed_letter:
  assumes "letters_ok db" and "replay_dead_letter req db = Ok (res, db1)"
  shows "\<exists>d. letter_row db1 (replay_dead_letter_id req) = Some d \<and> dl_status d = Replayed \<and>
      replayed_job_id d = Some (job_id (schedule_job res))"
  using assms(2)
proof (cases rule: replay_effect)
  case (1 db2 d)
  have letters: "dead_letters db2 = dead_letters db" using schedule_same_side [OF 1(1)] by (simp add: same_side_def)
  have row: "letter_row db (replay_dead_letter_id req) = Some d"
    unfolding letter_row_def using assms(1) 1(2,3) by (subst sql_find_unique) (auto simp: letters_ok_def)
  show ?thesis
    unfolding letter_row_def 1(7)
    using row 1(2-4) by (simp add: sql_find_update letters letter_row_def)
qed

text \<open>
  A dead letter is replayed at most once. A replay that succeeds leaves the job that it scheduled
  (or found under the same idempotency key) recorded in the dead letter and present in the job
  table, and every later replay of the dead letter leaves the database as it is, whatever
  operations ran in between.
\<close>
theorem replay_at_most_once:
  assumes ok: "letters_ok db" and wf: "wf_store db" and replay: "replay_dead_letter req db = Ok (res, db1)"
    and "list_all op_ok ops" and same: "replay_dead_letter_id req' = replay_dead_letter_id req"
  shows "(\<exists>d. letter_row db1 (replay_dead_letter_id req) = Some d \<and> dl_status d = Replayed \<and>
      replayed_job_id d = Some (job_id (schedule_job res)) \<and> job_row db1 (job_id (schedule_job res)) \<noteq> None) \<and>
    exec (ReplayDeadLetter req') (fold exec ops db1) = fold exec ops db1"
proof -
  obtain d where d: "letter_row db1 (replay_dead_letter_id req) = Some d" "dl_status d = Replayed"
      "replayed_job_id d = Some (job_id (schedule_job res))"
    using replayed_letter [OF ok replay] by blast
  have "exec (ReplayDeadLetter req) db = db1" using replay by (intro exec_Ok) auto
  then have "letters_ok db1" using exec_letters_ok [OF ok] by metis
  from stays_not_open [OF this assms(4) d(1)] d(2) same
  have "exec (ReplayDeadLetter req') (fold exec ops db1) = fold exec ops db1" using replay_needs_open by auto
  moreover have "job_row db1 (job_id (schedule_job res)) \<noteq> None"
    using replay by (rule replay_effect) (auto simp: job_row_def dest!: schedule_Ok(1) [OF _ wf])
  ultimately show ?thesis using d by simp
qed

text \<open>
  C9: The replay transaction takes a step that the dead letter status machine forbids: every
  successful replay moves its dead letter from open to replayed directly. The declared path through
  replaying is closed to it: once a dead letter is marked replaying, no sequence of store operations
  makes a replay of it succeed again.
\<close>
theorem replay_skips_replaying:
  assumes ok: "letters_ok db" and replay: "replay_dead_letter req db = Ok (res, db1)"
    and marked: "mark_dead_letter_replaying (replay_dead_letter_id req) now db = Ok ((), db2)"
    and ops: "list_all op_ok ops"
  shows "(\<exists>d d'. letter_row db (replay_dead_letter_id req) = Some d \<and> letter_row db1 (replay_dead_letter_id req) = Some d' \<and>
      \<not> dead_letter_can_transition_to (dl_status d) (dl_status d')) \<and>
    exec (ReplayDeadLetter req) (fold exec ops db2) = fold exec ops db2"
proof -
  let ?i = "replay_dead_letter_id req"
  have u: "unique_by dead_letter_id (dead_letters db)" using ok by (simp add: letters_ok_def)
  obtain d where d: "letter_row db ?i = Some d" "dl_status d = Open"
    using replay by (rule replay_effect) (auto simp: letter_row_def sql_find_unique [OF u])
  obtain d' where d': "letter_row db1 ?i = Some d'" "dl_status d' = Replayed"
    using replayed_letter [OF ok replay] by blast
  have "dead_letters db2 = sql_update (\<lambda>d. dead_letter_id d = ?i \<and> dl_status d = Open)
      (\<lambda>d. d\<lparr>dl_status := Replaying, dl_updated_at_ms := now\<rparr>) (dead_letters db)"
    using marked by (auto simp: mark_dead_letter_replaying_def update_dead_letters_def Let_def split: if_splits)
  moreover have "dead_letter_id d = ?i" using d(1) by (auto simp: letter_row_def dest: sql_find_Some)
  ultimately have d2: "letter_row db2 ?i = Some (d\<lparr>dl_status := Replaying, dl_updated_at_ms := now\<rparr>)"
    using d by (simp add: letter_row_def sql_find_update)
  have "exec (MarkReplaying ?i now) db = db2" using marked by (intro exec_Ok) auto
  then have "letters_ok db2" using exec_letters_ok [OF ok] by metis
  from stays_not_open [OF this ops d2] have "exec (ReplayDeadLetter req) (fold exec ops db2) = fold exec ops db2"
    using replay_needs_open by auto
  with d d' show ?thesis by (auto simp: dead_letter_can_transition_to_def)
qed

section \<open>Samples\<close>

definition sample_letter :: DeadLetterRecord where
  "sample_letter = \<lparr>dead_letter_id = ''dl-1'', original_job_id = ''job-0'', dl_job_kind = ''worker.noop'', dl_status = Open,
     dl_session_id = None, dl_branch_id = None, dl_checkpoint_id = None, dl_payload_ref = None, dl_idempotency_key = ''key-0'',
     failure_reason = ''lease'', dl_last_error = ''lost'', attempts = 4, first_failed_at_ms = 1, last_failed_at_ms = 4,
     replay_policy = default_dead_letter_replay_policy, replayed_job_id = None, dismissed_by = None, dismissed_reason = None,
     dl_updated_at_ms = 4\<rparr>"

definition sample_replay :: ReplayDeadLetterRequest where
  "sample_replay = \<lparr>replay_dead_letter_id = ''dl-1'', replay_job = sample_job, replayed_at_ms = 9\<rparr>"

definition letter_db :: db where
  "letter_db = empty_db\<lparr>dead_letters := [sample_letter]\<rparr>"

lemma sample_letter_simps [simp]:
  "dead_letter_id sample_letter = ''dl-1''" "original_job_id sample_letter = ''job-0''" "dl_job_kind sample_letter = ''worker.noop''"
  "dl_status sample_letter = Open" "dl_idempotency_key sample_letter = ''key-0''" "attempts sample_letter = 4"
  "replay_dead_letter_id sample_replay = ''dl-1''" "replay_job sample_replay = sample_job" "replayed_at_ms sample_replay = 9"
  by (simp_all add: sample_letter_def sample_replay_def)

lemma letter_db_ok: "letters_ok letter_db" "wf_store letter_db" "letter_row letter_db ''dl-1'' = Some sample_letter"
  using wf_empty by (simp_all add: letters_ok_def letter_db_def empty_db_def wf_store_def letter_row_def sql_find_def unique_by_def)

lemma sample_replays: "\<exists>db1. replay_dead_letter sample_replay letter_db =
    Ok (\<lparr>schedule_disposition = Inserted, schedule_job = sample_job\<rparr>, db1)"
  by (simp add: replay_dead_letter_def Let_def load_dead_letter_by_id_def load_dead_letter_def row_to_dead_letter_def letter_db_def
      empty_db_def sql_find_def sql_count_def ok_or_def ensure_def res_bind_def map_err_def u32_max_def schedule_with_def
      insert_runtime_job_def update_dead_letters_def)

lemma sample_marked: "\<exists>db2. mark_dead_letter_replaying ''dl-1'' 7 letter_db = Ok ((), db2)"
  by (simp add: mark_dead_letter_replaying_def update_dead_letters_def Let_def letter_db_def sql_count_def)

theorem dead_letter_ledger_witness:
  "\<exists>d'. letter_row (fold exec [DismissDeadLetter ''dl-1'' ''ops'' ''obsolete'' 8, CreateDeadLetter sample_letter] letter_db) ''dl-1'' = Some d' \<and>
     original_job_id d' = ''job-0'' \<and> dead_letter_moves\<^sup>*\<^sup>* Open (dl_status d')"
  using dead_letter_ledger [OF letter_db_ok(1) _ letter_db_ok(3),
      of "[DismissDeadLetter ''dl-1'' ''ops'' ''obsolete'' 8, CreateDeadLetter sample_letter]"] by auto

theorem replay_at_most_once_witness:
  "\<exists>db1 d. replay_dead_letter sample_replay letter_db = Ok (\<lparr>schedule_disposition = Inserted, schedule_job = sample_job\<rparr>, db1) \<and>
     letter_row db1 ''dl-1'' = Some d \<and> replayed_job_id d = Some ''job-1'' \<and> job_row db1 ''job-1'' \<noteq> None \<and>
     exec (ReplayDeadLetter sample_replay) (fold exec [MarkReplaying ''dl-1'' 10] db1) = fold exec [MarkReplaying ''dl-1'' 10] db1"
proof -
  obtain db1 where r: "replay_dead_letter sample_replay letter_db =
      Ok (\<lparr>schedule_disposition = Inserted, schedule_job = sample_job\<rparr>, db1)" using sample_replays by blast
  with replay_at_most_once [OF letter_db_ok(1,2) r, of "[MarkReplaying ''dl-1'' 10]" sample_replay] show ?thesis by auto
qed

theorem replay_skips_replaying_witness:
  "\<exists>db1 d d'. replay_dead_letter sample_replay letter_db = Ok (\<lparr>schedule_disposition = Inserted, schedule_job = sample_job\<rparr>, db1) \<and>
     letter_row letter_db ''dl-1'' = Some d \<and> letter_row db1 ''dl-1'' = Some d' \<and>
     \<not> dead_letter_can_transition_to (dl_status d) (dl_status d')"
proof -
  obtain db1 db2 where r: "replay_dead_letter sample_replay letter_db =
      Ok (\<lparr>schedule_disposition = Inserted, schedule_job = sample_job\<rparr>, db1)"
    and m: "mark_dead_letter_replaying ''dl-1'' 7 letter_db = Ok ((), db2)" using sample_replays sample_marked by blast
  show ?thesis using replay_skips_replaying [OF letter_db_ok(1) r, of 7 db2 "[]"] r m by auto
qed

end
