(* ===== verification/Contracts.thy ===== *)
theory Contracts
  imports RuntimeDb
begin

text \<open>
  The contracts of \<open>core/src/runtime/contracts.rs\<close> and \<open>core/src/session/store.rs\<close> that the session
  tables rely on: checkpoint records, the validation of identities, digests and tool names, the wait
  checkpoint for runtime jobs with its continuation identity, and the index rows derived from it.
  The serialisation and hash behind the continuation identity (\<open>serde_json\<close>, \<open>sha2\<close>) and the decoding
  of a checkpoint payload are parameters.
\<close>

section \<open>Validators\<close>

definition validate_required_identity :: "string \<Rightarrow> string \<Rightarrow> unit result" where
  "validate_required_identity v field =
     (if v = [] then Err (''agent_run_intervention_'' @ field @ ''_is_required'')
      else if trim v \<noteq> v then Err (''agent_run_intervention_'' @ field @ ''_has_outer_whitespace'')
      else Ok ())"

definition validate_sha256_digest :: "string \<Rightarrow> string \<Rightarrow> unit result" where
  "validate_sha256_digest v field =
     (case strip_prefix ''sha256:'' v of
        None \<Rightarrow> Err (''agent_run_intervention_'' @ field @ ''_must_be_sha256'')
      | Some hex \<Rightarrow>
          if length hex \<noteq> 64 \<or> \<not> list_all lowercase_hex hex
          then Err (''agent_run_intervention_'' @ field @ ''_must_have_64_lowercase_hex_characters'')
          else Ok ())"

definition validate_canonical_tool_name :: "string \<Rightarrow> unit result" where
  "validate_canonical_tool_name v =
     (if v = [] \<or> hd v = CHR ''_'' \<or> last v = CHR ''_'' \<or> contains_sub ''__'' v \<or>
         \<not> list_all (\<lambda>c. is_ascii_lowercase c \<or> is_ascii_digit c \<or> c = CHR ''_'') v
      then Err (''runtime_await_job_invalid_source_tool_name:'' @ v) else Ok ())"

section \<open>Checkpoints\<close>

datatype CheckpointKindV1 = Wait | Recovery

fun checkpoint_kind_as_str :: "CheckpointKindV1 \<Rightarrow> string" where
  "checkpoint_kind_as_str Wait = ''wait''"
| "checkpoint_kind_as_str Recovery = ''recovery''"

definition checkpoint_kind_parse :: "string \<Rightarrow> CheckpointKindV1 result" where
  "checkpoint_kind_parse v =
     (if v = ''wait'' then Ok Wait else if v = ''recovery'' then Ok Recovery
      else Err (''unsupported_checkpoint_kind:'' @ v))"

record CheckpointRecord =
  cp_id :: string
  checkpoint_kind :: CheckpointKindV1
  checkpoint_session_id :: string
  checkpoint_turn_id :: string
  checkpoint_status :: string
  done_reason :: "string option"
  checkpoint_updated_at_ms :: int
  checkpoint_payload :: string

section \<open>Waits for runtime jobs\<close>

record RuntimeJobWaitV1 =
  wait_tool_call_id :: string
  wait_source_tool_name :: string
  tool_definition_digest :: string
  wait_job_id :: string
  wait_job_kind :: string

definition job_wait_validate :: "RuntimeJobWaitV1 \<Rightarrow> unit result" where
  "job_wait_validate w =
     res_bind (validate_required_identity (wait_tool_call_id w) ''toolCallId'') (\<lambda>_.
     res_bind (validate_canonical_tool_name (wait_source_tool_name w)) (\<lambda>_.
     res_bind (validate_sha256_digest (tool_definition_digest w) ''toolDefinitionDigest'') (\<lambda>_.
     res_bind (validate_required_identity (wait_job_id w) ''jobId'') (\<lambda>_.
     validate_required_identity (wait_job_kind w) ''jobKind''))))"

record RuntimeAgentRunIdentityV1 =
  identity_agent_run_id :: string
  identity_execution_id :: string
  identity_authorization_digest :: string

definition validate_agent_run :: "string \<Rightarrow> string \<Rightarrow> unit result" where
  "validate_agent_run agent_run digest =
     res_bind (validate_required_identity agent_run ''agentRunId'') (\<lambda>_. validate_sha256_digest digest ''authorizationDigest'')"

definition agent_run_identity_validate :: "RuntimeAgentRunIdentityV1 \<Rightarrow> unit result" where
  "agent_run_identity_validate i =
     res_bind (validate_agent_run (identity_agent_run_id i) (identity_authorization_digest i)) (\<lambda>_.
     validate_required_identity (identity_execution_id i) ''executionId'')"

record RuntimeAwaitJobCheckpointV1 =
  await_schema :: string
  await_continuation_id :: string
  await_agent_run_id :: string
  await_execution_id :: string
  await_authorization_digest :: string
  await_turn_id :: string
  waits :: "RuntimeJobWaitV1 list"

abbreviation RUNTIME_AWAIT_JOB_SCHEMA_V1 :: string where
  "RUNTIME_AWAIT_JOB_SCHEMA_V1 \<equiv> ''runtime.await_job.v1''"

type_synonym continuation_hash = "string \<times> string \<times> RuntimeJobWaitV1 list \<Rightarrow> string"

definition runtime_continuation_id ::
    "continuation_hash \<Rightarrow> string \<Rightarrow> string \<Rightarrow> RuntimeJobWaitV1 list \<Rightarrow> string result" where
  "runtime_continuation_id hash agent_run turn ws =
     res_bind (validate_required_identity agent_run ''agentRunId'') (\<lambda>_.
     res_bind (validate_required_identity turn ''turnId'') (\<lambda>_.
     res_bind (ensure (ws \<noteq> []) ''runtime_await_job_waits_must_not_be_empty'') (\<lambda>_.
     Ok (''runtime_continuation:'' @ hash (agent_run, turn, ws)))))"

fun validate_waits :: "string set \<Rightarrow> RuntimeJobWaitV1 list \<Rightarrow> unit result" where
  "validate_waits seen [] = Ok ()"
| "validate_waits seen (w # ws) =
     res_bind (job_wait_validate w) (\<lambda>_.
     if wait_tool_call_id w \<in> seen
     then Err (''runtime_await_job_duplicate_tool_call_id:'' @ wait_tool_call_id w)
     else validate_waits (insert (wait_tool_call_id w) seen) ws)"

definition await_job_validate :: "continuation_hash \<Rightarrow> RuntimeAwaitJobCheckpointV1 \<Rightarrow> unit result" where
  "await_job_validate hash c =
     res_bind (ensure (await_schema c = RUNTIME_AWAIT_JOB_SCHEMA_V1)
       (''unsupported_runtime_await_job_schema:'' @ await_schema c)) (\<lambda>_.
     res_bind (validate_required_identity (await_continuation_id c) ''continuationId'') (\<lambda>_.
     res_bind (validate_required_identity (await_agent_run_id c) ''agentRunId'') (\<lambda>_.
     res_bind (validate_required_identity (await_execution_id c) ''executionId'') (\<lambda>_.
     res_bind (validate_sha256_digest (await_authorization_digest c) ''authorizationDigest'') (\<lambda>_.
     res_bind (validate_required_identity (await_turn_id c) ''turnId'') (\<lambda>_.
     res_bind (ensure (waits c \<noteq> []) ''runtime_await_job_waits_must_not_be_empty'') (\<lambda>_.
     res_bind (validate_waits {} (waits c)) (\<lambda>_.
     res_bind (runtime_continuation_id hash (await_agent_run_id c) (await_turn_id c) (waits c)) (\<lambda>expected.
     ensure (await_continuation_id c = expected) ''runtime_await_job_continuation_id_mismatch'')))))))))"

definition await_job_new ::
    "continuation_hash \<Rightarrow> RuntimeAgentRunIdentityV1 \<Rightarrow> string \<Rightarrow> RuntimeJobWaitV1 list \<Rightarrow> RuntimeAwaitJobCheckpointV1 result" where
  "await_job_new hash i turn ws =
     res_bind (agent_run_identity_validate i) (\<lambda>_.
     res_bind (validate_required_identity turn ''turnId'') (\<lambda>_.
     res_bind (runtime_continuation_id hash (identity_agent_run_id i) turn ws) (\<lambda>cid.
     let c = \<lparr>await_schema = RUNTIME_AWAIT_JOB_SCHEMA_V1, await_continuation_id = cid,
              await_agent_run_id = identity_agent_run_id i, await_execution_id = identity_execution_id i,
              await_authorization_digest = identity_authorization_digest i, await_turn_id = turn, waits = ws\<rparr>
     in res_bind (await_job_validate hash c) (\<lambda>_. Ok c))))"

section \<open>The waiter index\<close>

record RuntimeJobWaiterCursor =
  cursor_checkpoint_id :: string
  cursor_tool_call_id :: string

record RuntimeJobWaiter =
  waiter_cursor :: RuntimeJobWaiterCursor
  source_job_id :: string
  source_job_kind :: string
  waiter_session_id :: string
  waiter_agent_run_id :: string

record wait_codec =
  decode_wait :: "string \<Rightarrow> RuntimeAwaitJobCheckpointV1 result"
  hash_wait :: continuation_hash

definition waiter_of :: "CheckpointRecord \<Rightarrow> RuntimeAwaitJobCheckpointV1 \<Rightarrow> RuntimeJobWaitV1 \<Rightarrow> RuntimeJobWaiter" where
  "waiter_of cp w item = \<lparr>waiter_cursor = \<lparr>cursor_checkpoint_id = cp_id cp, cursor_tool_call_id = wait_tool_call_id item\<rparr>,
     source_job_id = wait_job_id item, source_job_kind = wait_job_kind item,
     waiter_session_id = checkpoint_session_id cp, waiter_agent_run_id = await_agent_run_id w\<rparr>"

definition runtime_job_waiters :: "wait_codec \<Rightarrow> CheckpointRecord \<Rightarrow> RuntimeJobWaiter list result" where
  "runtime_job_waiters codec cp =
     (if checkpoint_kind cp \<noteq> Wait \<or> checkpoint_status cp \<noteq> ''waiting'' \<or> done_reason cp \<noteq> Some ''runtime_job''
      then Ok []
      else res_bind (map_err (\<lambda>e. ''invalid runtime job wait checkpoint: '' @ e) (decode_wait codec (checkpoint_payload cp))) (\<lambda>w.
        res_bind (await_job_validate (hash_wait codec) w) (\<lambda>_.
        if await_turn_id w \<noteq> checkpoint_turn_id cp \<or> blank (cp_id cp) \<or> blank (checkpoint_session_id cp)
        then Err ''runtime job wait checkpoint binding mismatch''
        else Ok (map (waiter_of cp w) (waits w)))))"

section \<open>Facts\<close>

lemma checkpoint_kind_round_trip [simp]: "checkpoint_kind_parse (checkpoint_kind_as_str k) = Ok k"
  by (cases k) (simp_all add: checkpoint_kind_parse_def)

lemma validate_waits_Ok:
  "validate_waits seen ws = Ok () \<longleftrightarrow>
     distinct (map wait_tool_call_id ws) \<and> wait_tool_call_id ` set ws \<inter> seen = {} \<and>
     (\<forall>w \<in> set ws. job_wait_validate w = Ok ())"
  by (induction ws arbitrary: seen) (auto simp: result_simps)

lemma await_job_validate_Ok:
  assumes "await_job_validate hash c = Ok ()"
  shows "waits c \<noteq> []" and "distinct (map wait_tool_call_id (waits c))"
    and "await_continuation_id c = ''runtime_continuation:'' @ hash (await_agent_run_id c, await_turn_id c, waits c)"
  using assms by (auto simp: await_job_validate_def runtime_continuation_id_def result_simps validate_waits_Ok)

lemma runtime_job_waiters_cases:
  assumes "runtime_job_waiters codec cp = Ok ws"
  obtains (none) "ws = []"
  | (waits) w where "checkpoint_kind cp = Wait" "ws = map (waiter_of cp w) (waits w)" "distinct (map wait_tool_call_id (waits w))"
  using assms await_job_validate_Ok(2)
  by (auto simp: runtime_job_waiters_def result_simps split: if_splits)

lemma runtime_job_waiters_Ok:
  assumes "runtime_job_waiters codec cp = Ok ws"
  shows "distinct (map waiter_cursor ws)" and "\<And>w. w \<in> set ws \<Longrightarrow> cursor_checkpoint_id (waiter_cursor w) = cp_id cp"
    and "\<And>w. w \<in> set ws \<Longrightarrow> waiter_session_id w = checkpoint_session_id cp"
    and "ws \<noteq> [] \<Longrightarrow> checkpoint_kind cp = Wait"
proof -
  show "distinct (map waiter_cursor ws)"
    using assms
  proof (cases rule: runtime_job_waiters_cases)
    case (waits w)
    have "map waiter_cursor ws = map (\<lambda>t. \<lparr>cursor_checkpoint_id = cp_id cp, cursor_tool_call_id = t\<rparr>)
        (map wait_tool_call_id (RuntimeAwaitJobCheckpointV1.waits w))"
      by (simp add: waits(2) waiter_of_def)
    then show ?thesis using waits(3) by (simp only: distinct_map) (simp add: inj_on_def)
  qed simp
qed (use assms in \<open>cases rule: runtime_job_waiters_cases; auto simp: waiter_of_def\<close>)+

end
