(* ===== verification/SessionDb.thy ===== *)
theory SessionDb
  imports Contracts JobStore
begin

text \<open>
  The session tables of the SQLite store beside the job tables (\<open>sqlite_runtime.rs\<close> and
  \<open>sqlite_transactions.rs\<close> in \<open>runtime_sqlite/src/sqlite_store\<close>): checkpoints with their waiter index,
  session snapshots, and the records of the external context, turn supplement and transcript tables. One
  \<open>session_db\<close> is the whole database file; the job tables are its first component. The transcript tables have
  the columns that their keys and foreign keys use, as far as the deletion of a session reaches them; the
  operations of the transcript store itself (\<open>sqlite_transcript.rs\<close>) are not modelled.
\<close>

section \<open>Tables\<close>

record session_snapshot =
  snapshot_session_id :: string
  snapshot_json :: string
  snapshot_updated_at_ms :: int

record StoredExternalContextObject =
  object_id :: string
  schema_version :: string
  object_kind :: string
  object_provider_id :: string
  object_tool_name :: string
  title :: string
  content_blob :: string
  content_codec :: string
  content_uncompressed_bytes :: int
  content_sha256 :: string
  object_metadata_json :: string
  object_updated_at_ms :: int
  inserted_at_ms :: int

record external_context_link =
  link_session_id :: string
  link_object_id :: string
  link_turn_id :: string
  link_tool_call_id :: string
  link_provider_id :: string
  link_tool_name :: string
  linked_at_ms :: int

record DurableTurnSupplement =
  supplement_id :: string
  sequence :: nat
  message :: string
  supplement_created_at_ms :: int
  claim_token :: "string option"
  claim_lease_owner :: "string option"

record StoredQueue =
  queue_agent_run_id :: string
  queue_lifecycle_job_id :: string
  queue_session_id :: string
  queue_authorization_digest :: string
  revision :: nat
  next_sequence :: nat
  accepting :: bool
  entries :: "DurableTurnSupplement list"
  dedupe :: "string \<rightharpoonup> string"
  closed_reason :: "string option"
  queue_updated_at_ms :: int

text \<open>
  The heads of the transcript projections, and one list for the rows of the eight tables that hang on them. A row
  has its reference to a head, the block of a block identity or version, the reference of a frontier or of a
  checkpoint to a frontier, and its other columns.
\<close>

record transcript_projection_head =
  head_session_id :: string
  head_projection_version :: string
  head_projection_generation :: string
  head_source_high_water :: int
  invalidation_reason :: "string option"

datatype transcript_table =
    CurrentGenerations | CurrentRecoveries | BlockIdentities | BlockVersions | ResumeCursors | Frontiers
  | ProjectionCheckpoints | ProjectionCommits

record transcript_row =
  row_table :: transcript_table
  row_session_id :: string
  row_projection_version :: string
  row_projection_generation :: string
  row_block_id :: string
  row_frontier_ref :: string
  row_columns :: "string list"

record session_db =
  base :: db
  checkpoints :: "CheckpointRecord list"
  waiters :: "RuntimeJobWaiter list"
  snapshots :: "session_snapshot list"
  external_objects :: "StoredExternalContextObject list"
  external_links :: "external_context_link list"
  supplement_queues :: "StoredQueue list"
  transcript_heads :: "transcript_projection_head list"
  transcript_rows :: "transcript_row list"

type_synonym ('e, 'a) stx = "session_db \<Rightarrow> 'e + ('a \<times> session_db)"

definition empty_session_db :: session_db where
  "empty_session_db = \<lparr>base = empty_db, checkpoints = [], waiters = [], snapshots = [], external_objects = [],
     external_links = [], supplement_queues = [], transcript_heads = [], transcript_rows = []\<rparr>"

text \<open>A transaction on the job tables, run inside one on the whole database.\<close>

definition on_base :: "'a tx \<Rightarrow> (string, 'a) stx" where
  "on_base f s = res_bind (f (base s)) (\<lambda>(v, db). Ok (v, s\<lparr>base := db\<rparr>))"

section \<open>Checkpoints\<close>

definition checkpoint_of_turn :: "string \<Rightarrow> string \<Rightarrow> CheckpointRecord \<Rightarrow> bool" where
  "checkpoint_of_turn session turn cp \<longleftrightarrow>
     checkpoint_session_id cp = session \<and> checkpoint_turn_id cp = turn \<and> checkpoint_kind cp \<noteq> Recovery"

definition load_checkpoint_by_turn :: "string \<Rightarrow> string \<Rightarrow> session_db \<Rightarrow> CheckpointRecord option" where
  "load_checkpoint_by_turn session turn s = sql_find (checkpoint_of_turn session turn) (checkpoints s)"

definition load_latest_checkpoint :: "string \<Rightarrow> session_db \<Rightarrow> CheckpointRecord option" where
  "load_latest_checkpoint session s =
     (case rev (sql_select (\<lambda>cp. checkpoint_session_id cp = session \<and> checkpoint_kind cp \<noteq> Recovery)
         (\<lambda>cp. (checkpoint_updated_at_ms cp, cp_id cp)) (checkpoints s)) of
        [] \<Rightarrow> None | cp # _ \<Rightarrow> Some cp)"

definition list_checkpoints :: "string \<Rightarrow> nat \<Rightarrow> nat \<Rightarrow> session_db \<Rightarrow> CheckpointRecord list result" where
  "list_checkpoints session limit offset s =
     res_bind (to_i64 limit) (\<lambda>_. res_bind (to_i64 offset) (\<lambda>_.
     Ok (sql_page limit offset (rev (sql_select (\<lambda>cp. checkpoint_session_id cp = session)
       (\<lambda>cp. (checkpoint_updated_at_ms cp, cp_id cp)) (checkpoints s))))))"

definition list_waiting_runtime_job_checkpoints ::
    "(string \<times> string) option \<Rightarrow> nat \<Rightarrow> session_db \<Rightarrow> CheckpointRecord list result" where
  "list_waiting_runtime_job_checkpoints after limit s =
     res_bind (to_i64 limit) (\<lambda>_.
     Ok (take limit (sql_select (\<lambda>cp. checkpoint_kind cp = Wait \<and> checkpoint_status cp = ''waiting'' \<and>
         done_reason cp = Some ''runtime_job'' \<and>
         (case after of None \<Rightarrow> True
          | Some (session, turn) \<Rightarrow> session < checkpoint_session_id cp \<or>
              checkpoint_session_id cp = session \<and> turn < checkpoint_turn_id cp))
       (\<lambda>cp. (checkpoint_session_id cp, checkpoint_turn_id cp)) (checkpoints s))))"

definition list_runtime_job_waiters ::
    "string option \<Rightarrow> RuntimeJobWaiterCursor option \<Rightarrow> nat \<Rightarrow> session_db \<Rightarrow> RuntimeJobWaiter list result" where
  "list_runtime_job_waiters source after limit s =
     (let key = (\<lambda>w. (cursor_checkpoint_id (waiter_cursor w), cursor_tool_call_id (waiter_cursor w)));
          cursor = (case after of None \<Rightarrow> ([], []) | Some c \<Rightarrow> (cursor_checkpoint_id c, cursor_tool_call_id c))
      in res_bind (to_i64 limit) (\<lambda>_.
         Ok (take limit (sql_select (\<lambda>w. cursor < key w \<and>
           (case source of None \<Rightarrow> True | Some j \<Rightarrow> source_job_id w = j)) key (waiters s)))))"

definition upsert_checkpoint :: "CheckpointRecord \<Rightarrow> CheckpointRecord list \<Rightarrow> CheckpointRecord list" where
  "upsert_checkpoint cp cps =
     (if sql_count (\<lambda>c. cp_id c = cp_id cp) cps = 0 then cps @ [cp]
      else sql_update (\<lambda>c. cp_id c = cp_id cp) (\<lambda>_. cp) cps)"

definition insert_waiter :: "session_db \<Rightarrow> RuntimeJobWaiter \<Rightarrow> session_db result" where
  "insert_waiter s w =
     (if \<exists>v \<in> set (waiters s). waiter_cursor v = waiter_cursor w
      then Err (''save checkpoint waiter failed: UNIQUE constraint failed: '' @
        ''runtime_job_waiters.checkpoint_id, runtime_job_waiters.tool_call_id'')
      else Ok (s\<lparr>waiters := waiters s @ [w]\<rparr>))"

definition save_checkpoint_conn :: "wait_codec \<Rightarrow> CheckpointRecord \<Rightarrow> (string, unit) stx" where
  "save_checkpoint_conn codec cp s =
     res_bind (runtime_job_waiters codec cp) (\<lambda>ws.
     if checkpoint_kind cp = Recovery then
       (case sql_find (\<lambda>c. cp_id c = cp_id cp) (checkpoints s) of
          None \<Rightarrow> Ok ((), s\<lparr>checkpoints := checkpoints s @ [cp]\<rparr>)
        | Some existing \<Rightarrow>
            if existing \<noteq> cp then Err (''recovery_checkpoint_idempotency_conflict: checkpointId='' @ cp_id cp)
            else Ok ((), s))
     else
       let s = s\<lparr>checkpoints := upsert_checkpoint cp (checkpoints s),
                 waiters := sql_delete (\<lambda>w. cursor_checkpoint_id (waiter_cursor w) = cp_id cp) (waiters s)\<rparr>
       in res_bind (fold_result insert_waiter s ws) (\<lambda>s. Ok ((), s)))"

record SaveWaitCheckpointRequest =
  save_checkpoint_record :: CheckpointRecord
  save_event :: RuntimeEvent

text \<open>The message of the error leaves out its last part, Rust's debug rendering of the event's task.\<close>

definition save_wait_validate :: "SaveWaitCheckpointRequest \<Rightarrow> unit result" where
  "save_wait_validate req =
     (let cp = save_checkpoint_record req; ev = save_event req in
      ensure (checkpoint_session_id cp = event_session_id ev \<and> task_id ev = Some (checkpoint_turn_id cp))
        (''save_wait_checkpoint scope mismatch: checkpointChat='' @ checkpoint_session_id cp @
         '' eventChat='' @ event_session_id ev @ '' checkpointTurn='' @ checkpoint_turn_id cp))"

definition save_wait_checkpoint :: "wait_codec \<Rightarrow> SaveWaitCheckpointRequest \<Rightarrow> (string, unit) stx" where
  "save_wait_checkpoint codec req s =
     (let cp = save_checkpoint_record req in
      res_bind (save_wait_validate req) (\<lambda>_.
      res_bind (case load_checkpoint_by_turn (checkpoint_session_id cp) (checkpoint_turn_id cp) s of
          Some existing \<Rightarrow> if existing \<noteq> cp then Err ''save_wait_checkpoint idempotency conflict'' else Ok ((), s)
        | None \<Rightarrow> save_checkpoint_conn codec cp s) (\<lambda>(_, s).
      res_bind (on_base (append_event_conn_idempotent (save_event req)) s) (\<lambda>(_, s). Ok ((), s)))))"

record ConsumeWaitCheckpointRequest =
  consume_checkpoint :: CheckpointRecord
  consume_events :: "RuntimeEvent list"

fun consume_validate_events :: "CheckpointRecord \<Rightarrow> string set \<Rightarrow> RuntimeEvent list \<Rightarrow> unit result" where
  "consume_validate_events cp seen [] = Ok ()"
| "consume_validate_events cp seen (ev # evs) =
     (if event_session_id ev \<noteq> checkpoint_session_id cp \<or> task_id ev \<noteq> Some (checkpoint_turn_id cp)
      then Err ''consume_wait_checkpoint event scope mismatch''
      else if event_id ev \<in> seen then Err ''consume_wait_checkpoint duplicate event id''
      else consume_validate_events cp (insert (event_id ev) seen) evs)"

definition consume_validate :: "ConsumeWaitCheckpointRequest \<Rightarrow> unit result" where
  "consume_validate req =
     (if consume_events req = [] then Err ''consume_wait_checkpoint requires events''
      else consume_validate_events (consume_checkpoint req) {} (consume_events req))"

definition append_consumed :: "session_db \<times> bool \<Rightarrow> RuntimeEvent \<Rightarrow> (session_db \<times> bool) result" where
  "append_consumed = (\<lambda>(s, any) ev.
     res_bind (on_base (append_event_conn_idempotent ev) s) (\<lambda>(inserted, s). Ok (s, any \<or> inserted)))"

text \<open>Deleting a checkpoint deletes its waiters (\<open>ON DELETE CASCADE\<close>).\<close>

definition delete_checkpoints :: "(CheckpointRecord \<Rightarrow> bool) \<Rightarrow> session_db \<Rightarrow> session_db" where
  "delete_checkpoints P s = s\<lparr>checkpoints := sql_delete P (checkpoints s),
     waiters := sql_delete (\<lambda>w. \<exists>c \<in> set (checkpoints s). P c \<and> cp_id c = cursor_checkpoint_id (waiter_cursor w)) (waiters s)\<rparr>"

definition consume_wait_checkpoint :: "ConsumeWaitCheckpointRequest \<Rightarrow> (string, unit) stx" where
  "consume_wait_checkpoint req s =
     (let cp = consume_checkpoint req;
          here = checkpoint_of_turn (checkpoint_session_id cp) (checkpoint_turn_id cp);
          current = sql_find here (checkpoints s)
      in res_bind (consume_validate req) (\<lambda>_.
         res_bind (ensure (\<not> (\<exists>c. current = Some c \<and> c \<noteq> cp)) ''consume_wait_checkpoint identity conflict'') (\<lambda>_.
         res_bind (fold_result append_consumed (s, False) (consume_events req)) (\<lambda>(s, inserted_any).
         case current of
           None \<Rightarrow> if inserted_any then Err ''consume_wait_checkpoint missing checkpoint'' else Ok ((), s)
         | Some _ \<Rightarrow>
             if sql_count here (checkpoints s) \<noteq> 1 then Err ''consume_wait_checkpoint delete mismatch''
             else Ok ((), delete_checkpoints here s)))))"

section \<open>Session snapshots\<close>

definition load_agent_runtime_snapshot :: "string \<Rightarrow> session_db \<Rightarrow> string option" where
  "load_agent_runtime_snapshot session s =
     map_option snapshot_json (sql_find (\<lambda>r. snapshot_session_id r = session) (snapshots s))"

definition save_agent_runtime_snapshot :: "string \<Rightarrow> string \<Rightarrow> int \<Rightarrow> (string, unit) stx" where
  "save_agent_runtime_snapshot session text at_time s =
     (let this_row = (\<lambda>r. snapshot_session_id r = session) in
      Ok ((), s\<lparr>snapshots := (if sql_count this_row (snapshots s) = 0
        then snapshots s @ [\<lparr>snapshot_session_id = session, snapshot_json = text, snapshot_updated_at_ms = at_time\<rparr>]
        else sql_update this_row (\<lambda>r. r\<lparr>snapshot_json := text, snapshot_updated_at_ms := at_time\<rparr>) (snapshots s))\<rparr>))"

definition compare_and_save_agent_runtime_snapshot :: "string \<Rightarrow> string option \<Rightarrow> string \<Rightarrow> int \<Rightarrow> (string, bool) stx" where
  "compare_and_save_agent_runtime_snapshot session expected text at_time s =
     (case expected of
        Some old \<Rightarrow>
          let this_row = (\<lambda>r. snapshot_session_id r = session \<and> snapshot_json r = old) in
          Ok (sql_count this_row (snapshots s) = 1,
              s\<lparr>snapshots := sql_update this_row (\<lambda>r. r\<lparr>snapshot_json := text, snapshot_updated_at_ms := at_time\<rparr>) (snapshots s)\<rparr>)
      | None \<Rightarrow>
          if \<exists>r \<in> set (snapshots s). snapshot_session_id r = session then Ok (False, s)
          else Ok (True, s\<lparr>snapshots := snapshots s @
            [\<lparr>snapshot_session_id = session, snapshot_json = text, snapshot_updated_at_ms = at_time\<rparr>]\<rparr>))"

section \<open>Events\<close>

definition list_events :: "string \<Rightarrow> nat \<Rightarrow> nat \<Rightarrow> session_db \<Rightarrow> RuntimeEvent list result" where
  "list_events session limit offset s =
     res_bind (to_i64 limit) (\<lambda>_. res_bind (to_i64 offset) (\<lambda>_.
     Ok (sql_page limit offset (sql_select (\<lambda>e. event_session_id e = session) (\<lambda>e. (at_ms e, event_id e))
       (runtime_events (base s))))))"

definition visibility_to_db :: "EventVisibility \<Rightarrow> string" where
  "visibility_to_db v = (case v of User \<Rightarrow> ''user'' | Internal \<Rightarrow> ''internal'')"

definition visibility_from_db :: "string \<Rightarrow> EventVisibility result" where
  "visibility_from_db raw =
     (if raw \<in> {''user'', ''User''} then Ok User
      else if raw \<in> {''internal'', ''Internal''} then Ok Internal
      else Err (''invalid event visibility: '' @ raw))"

end
