(* ===== verification/TurnSupplement.thy ===== *)
theory TurnSupplement
  imports SessionDb
begin

text \<open>
  The turn supplement queue (\<open>core/src/session/supplement.rs\<close> and \<open>sqlite_turn_supplement.rs\<close> of the
  SQLite store): messages that a user adds to a running turn wait in a bounded queue per agent run,
  are claimed by the worker that holds the run's lifecycle lease, and leave the queue when that worker
  acknowledges them or the queue is closed. The message digest (\<open>sha2\<close>) is a parameter.
\<close>

section \<open>Contract\<close>

definition MAX_PENDING_TURN_SUPPLEMENTS :: nat where
  "MAX_PENDING_TURN_SUPPLEMENTS = 8"

definition MAX_TURN_SUPPLEMENT_BYTES :: nat where
  "MAX_TURN_SUPPLEMENT_BYTES = 64 * 1024"

abbreviation MAX_TURN_SUPPLEMENT_ID_BYTES :: nat where
  "MAX_TURN_SUPPLEMENT_ID_BYTES \<equiv> 64"

datatype TurnSupplementValidationError = MessageRequired | MessageTooLarge | IdInvalid

datatype TurnSupplementStoreError =
    Validation TurnSupplementValidationError
  | IdentityRequired
  | JobIdMismatch
  | AgentRunNotActive
  | IdentityMismatch
  | QueueIdentityMismatch
  | AdmissionClosed
  | QueueFull
  | IdempotencyConflict
  | QueueCasConflict
  | ClaimIdentityInvalid
  | ClaimInProgress
  | QueueMissing
  | AcknowledgeIdentityInvalid
  | AcknowledgeIdentityMismatch
  | CloseReasonRequired
  | LeaseFenceRejected
  | InternalError string

fun validation_error_fmt :: "TurnSupplementValidationError \<Rightarrow> string" where
  "validation_error_fmt MessageRequired = ''turn_supplement_message_required''"
| "validation_error_fmt MessageTooLarge =
     ''turn_supplement_message_too_large:maxBytes='' @ show_nat MAX_TURN_SUPPLEMENT_BYTES"
| "validation_error_fmt IdInvalid = ''turn_supplement_id_invalid''"

fun store_error_fmt :: "TurnSupplementStoreError \<Rightarrow> string" where
  "store_error_fmt (Validation e) = validation_error_fmt e"
| "store_error_fmt IdentityRequired = ''turn_supplement_identity_required''"
| "store_error_fmt JobIdMismatch = ''turn_supplement_job_id_mismatch''"
| "store_error_fmt AgentRunNotActive = ''turn_supplement_agent_run_not_active''"
| "store_error_fmt IdentityMismatch = ''turn_supplement_identity_mismatch''"
| "store_error_fmt QueueIdentityMismatch = ''turn_supplement_queue_identity_mismatch''"
| "store_error_fmt AdmissionClosed = ''turn_supplement_admission_closed''"
| "store_error_fmt QueueFull = ''turn_supplement_queue_full''"
| "store_error_fmt IdempotencyConflict = ''turn_supplement_idempotency_conflict''"
| "store_error_fmt QueueCasConflict = ''turn_supplement_queue_cas_conflict''"
| "store_error_fmt ClaimIdentityInvalid = ''turn_supplement_claim_identity_invalid''"
| "store_error_fmt ClaimInProgress = ''turn_supplement_claim_in_progress''"
| "store_error_fmt QueueMissing = ''turn_supplement_queue_missing''"
| "store_error_fmt AcknowledgeIdentityInvalid = ''turn_supplement_ack_identity_invalid''"
| "store_error_fmt AcknowledgeIdentityMismatch = ''turn_supplement_ack_identity_mismatch''"
| "store_error_fmt CloseReasonRequired = ''turn_supplement_close_reason_required''"
| "store_error_fmt LeaseFenceRejected = ''turn_supplement_lease_fence_rejected''"
| "store_error_fmt (InternalError e) = e"

definition validate_turn_supplement_message :: "string \<Rightarrow> TurnSupplementValidationError + string" where
  "validate_turn_supplement_message m =
     (let m = trim m in
      if m = [] then Err MessageRequired
      else if MAX_TURN_SUPPLEMENT_BYTES < length m then Err MessageTooLarge
      else Ok m)"

text \<open>Some character of the string is a control character: U+0000 to U+001F or U+007F to U+009F.\<close>

fun any_control :: "string \<Rightarrow> bool" where
  "any_control [] \<longleftrightarrow> False"
| "any_control (c # cs) \<longleftrightarrow>
     (of_char c :: nat) < 0x20 \<or> (of_char c :: nat) = 0x7F \<or>
     (of_char c :: nat) = 0xC2 \<and> (case cs of d # _ \<Rightarrow> 0x80 \<le> (of_char d :: nat) \<and> (of_char d :: nat) \<le> 0x9F | [] \<Rightarrow> False) \<or>
     any_control cs"

definition validate_turn_supplement_id :: "string \<Rightarrow> TurnSupplementValidationError + string" where
  "validate_turn_supplement_id v =
     (let t = trim v in
      if t = [] \<or> MAX_TURN_SUPPLEMENT_ID_BYTES < length t \<or> any_control t \<or> v \<noteq> t then Err IdInvalid else Ok t)"

definition turn_supplement_message_digest :: "(string \<Rightarrow> string) \<Rightarrow> string \<Rightarrow> string" where
  "turn_supplement_message_digest sha256_hex m = ''sha256:'' @ sha256_hex m"

record EnqueueTurnSupplementRequest =
  enq_agent_run_id :: string
  enq_lifecycle_job_id :: string
  enq_session_id :: string
  enq_authorization_digest :: string
  enq_supplement_id :: string
  enq_message :: string
  enq_created_at_ms :: int

datatype EnqueueTurnSupplementDisposition = Accepted | Duplicate

record EnqueueTurnSupplementResult =
  enq_disposition :: EnqueueTurnSupplementDisposition
  queued_count :: nat
  enq_revision :: nat

record ClaimTurnSupplementsRequest =
  clm_agent_run_id :: string
  clm_lifecycle_job_id :: string
  clm_session_id :: string
  clm_authorization_digest :: string
  clm_lease_owner :: string
  clm_claim_token :: string
  clm_now_ms :: int
  close_if_empty :: bool
  clm_limit :: nat

record AcknowledgeTurnSupplementsRequest =
  ack_agent_run_id :: string
  ack_lifecycle_job_id :: string
  ack_session_id :: string
  ack_authorization_digest :: string
  ack_lease_owner :: string
  ack_claim_token :: string
  ack_supplement_ids :: "string list"
  acknowledged_at_ms :: int

record CloseTurnSupplementQueueRequest =
  cls_agent_run_id :: string
  cls_lifecycle_job_id :: string
  cls_session_id :: string
  cls_authorization_digest :: string
  cls_lease_owner :: "string option"
  cls_reason :: string
  closed_at_ms :: int

section \<open>Validation of requests\<close>

definition validate_common_identity :: "string \<Rightarrow> string \<Rightarrow> string \<Rightarrow> string \<Rightarrow> TurnSupplementStoreError + unit" where
  "validate_common_identity agent_run job session digest =
     (if blank agent_run \<or> blank job \<or> blank session \<or> blank digest then Err IdentityRequired
      else res_bind (map_err InternalError (agent_run_lifecycle_job_id agent_run)) (\<lambda>expected.
        if job \<noteq> expected then Err JobIdMismatch else Ok ()))"

definition validate_enqueue_identity :: "EnqueueTurnSupplementRequest \<Rightarrow> TurnSupplementStoreError + unit" where
  "validate_enqueue_identity r = validate_common_identity (enq_agent_run_id r) (enq_lifecycle_job_id r)
     (enq_session_id r) (enq_authorization_digest r)"

definition validate_claim_identity :: "ClaimTurnSupplementsRequest \<Rightarrow> TurnSupplementStoreError + unit" where
  "validate_claim_identity r =
     res_bind (validate_common_identity (clm_agent_run_id r) (clm_lifecycle_job_id r) (clm_session_id r)
       (clm_authorization_digest r)) (\<lambda>_.
     if blank (clm_lease_owner r) \<or> blank (clm_claim_token r) \<or> clm_limit r = 0 \<or>
        MAX_PENDING_TURN_SUPPLEMENTS < clm_limit r
     then Err ClaimIdentityInvalid else Ok ())"

definition validate_ack_identity :: "AcknowledgeTurnSupplementsRequest \<Rightarrow> TurnSupplementStoreError + unit" where
  "validate_ack_identity r =
     res_bind (validate_common_identity (ack_agent_run_id r) (ack_lifecycle_job_id r) (ack_session_id r)
       (ack_authorization_digest r)) (\<lambda>_.
     if blank (ack_lease_owner r) \<or> blank (ack_claim_token r) \<or> ack_supplement_ids r = []
     then Err AcknowledgeIdentityInvalid else Ok ())"

definition validate_close_identity :: "CloseTurnSupplementQueueRequest \<Rightarrow> TurnSupplementStoreError + unit" where
  "validate_close_identity r =
     res_bind (validate_common_identity (cls_agent_run_id r) (cls_lifecycle_job_id r) (cls_session_id r)
       (cls_authorization_digest r)) (\<lambda>_.
     if blank (cls_reason r) then Err CloseReasonRequired else Ok ())"

text \<open>The checks against the lifecycle job of the run, in the same transaction as the change.\<close>

definition run_cancelled :: "string \<Rightarrow> db \<Rightarrow> bool" where
  "run_cancelled agent_run db \<longleftrightarrow> (\<exists>e \<in> set (runtime_events db).
     event_id e = ''agent_run_cancel_requested:'' @ agent_run \<and> event_type e = ''runtime.agent_run.cancel_requested.v1'')"

definition validate_active_job ::
    "string \<Rightarrow> string \<Rightarrow> string \<Rightarrow> string \<Rightarrow> (string \<times> int) option \<Rightarrow> bool \<Rightarrow> db \<Rightarrow> TurnSupplementStoreError + unit" where
  "validate_active_job agent_run job session digest lease reject_cancelled db =
     (if reject_cancelled \<and> run_cancelled agent_run db then Err AdmissionClosed
      else res_bind (ok_or AgentRunNotActive (sql_find (\<lambda>r. job_id r = job) (runtime_jobs db))) (\<lambda>r.
        if job_kind r \<noteq> AGENT_RUN_LIFECYCLE_JOB_KIND \<or> status r \<notin> {Queued, Leased, Running} \<or>
           session_id r \<noteq> Some session \<or> payload_ref r \<noteq> Some (''record:agent_run:'' @ agent_run) \<or>
           idempotency_key r \<noteq> ''agent_run.lifecycle:'' @ agent_run @ '':'' @ digest
        then Err IdentityMismatch
        else case lease of
          Some (own, now) \<Rightarrow>
            if status r \<noteq> Running \<or> lease_owner r \<noteq> Some own \<or>
               (case lease_expires_at_ms r of None \<Rightarrow> True | Some e \<Rightarrow> e \<le> now)
            then Err LeaseFenceRejected else Ok ()
        | None \<Rightarrow> Ok ()))"

section \<open>The queue table\<close>

type_synonym 'a qtx = "(TurnSupplementStoreError, 'a) stx"

definition load_queue :: "string \<Rightarrow> session_db \<Rightarrow> StoredQueue option" where
  "load_queue agent_run s = sql_find (\<lambda>q. queue_agent_run_id q = agent_run) (supplement_queues s)"

text \<open>An unsigned counter as an SQL integer: binding a value beyond \<open>i64::MAX\<close> fails the statement.\<close>

definition sql_counter :: "string \<Rightarrow> nat \<Rightarrow> TurnSupplementStoreError + nat" where
  "sql_counter what n = (if int n \<le> i64_max then Ok n else Err (InternalError (what @ '' failed: out of range integral type conversion attempted'')))"

definition insert_queue :: "string \<Rightarrow> StoredQueue \<Rightarrow> unit qtx" where
  "insert_queue what q s =
     res_bind (sql_counter what (revision q)) (\<lambda>_.
     res_bind (sql_counter what (next_sequence q)) (\<lambda>_.
     if \<exists>p \<in> set (supplement_queues s). queue_agent_run_id p = queue_agent_run_id q \<or>
          queue_lifecycle_job_id p = queue_lifecycle_job_id q
     then Err (InternalError (what @ '' failed: UNIQUE constraint failed''))
     else if \<not> (\<exists>r \<in> set (runtime_jobs (base s)). job_id r = queue_lifecycle_job_id q)
     then Err (InternalError (what @ '' failed: FOREIGN KEY constraint failed''))
     else Ok ((), s\<lparr>supplement_queues := supplement_queues s @ [q]\<rparr>)))"

definition same_revision :: "string \<Rightarrow> nat \<Rightarrow> StoredQueue \<Rightarrow> bool" where
  "same_revision agent_run revn q \<longleftrightarrow> queue_agent_run_id q = agent_run \<and> revision q = revn"

definition update_queue :: "string \<Rightarrow> StoredQueue \<Rightarrow> int \<Rightarrow> unit qtx" where
  "update_queue agent_run q now s =
     res_bind (sql_counter ''CAS turn supplement queue'' (u64_saturating_add (revision q) 1)) (\<lambda>revn.
     if sql_count (same_revision agent_run (revision q)) (supplement_queues s) \<noteq> 1 then Err QueueCasConflict
     else Ok ((), s\<lparr>supplement_queues := sql_update (same_revision agent_run (revision q))
       (\<lambda>p. p\<lparr>revision := revn, accepting := accepting q, entries := entries q, dedupe := dedupe q,
              closed_reason := closed_reason q, queue_updated_at_ms := now\<rparr>) (supplement_queues s)\<rparr>))"

definition queue_identity :: "string \<Rightarrow> string \<Rightarrow> string \<Rightarrow> StoredQueue \<Rightarrow> TurnSupplementStoreError + unit" where
  "queue_identity job session digest q =
     ensure (queue_lifecycle_job_id q = job \<and> queue_session_id q = session \<and> queue_authorization_digest q = digest)
       QueueIdentityMismatch"

section \<open>Enqueue\<close>

definition new_entry :: "EnqueueTurnSupplementRequest \<Rightarrow> nat \<Rightarrow> DurableTurnSupplement" where
  "new_entry r n = \<lparr>supplement_id = enq_supplement_id r, sequence = n, message = enq_message r,
     supplement_created_at_ms = enq_created_at_ms r, claim_token = None, claim_lease_owner = None\<rparr>"

text \<open>An accepted supplement makes a queued lifecycle job due, unless the session waits for an answer or a job.\<close>

definition wake_lifecycle_job :: "EnqueueTurnSupplementRequest \<Rightarrow> session_db \<Rightarrow> session_db" where
  "wake_lifecycle_job r s =
     (if \<exists>cp \<in> set (checkpoints s). checkpoint_session_id cp = enq_session_id r \<and>
           done_reason cp \<in> {Some ''question'', Some ''runtime_job''}
      then s
      else s\<lparr>base := (base s)\<lparr>runtime_jobs := sql_update
        (\<lambda>j. job_id j = enq_lifecycle_job_id r \<and> status j = Queued)
        (\<lambda>j. j\<lparr>run_at_ms := min (run_at_ms j) (enq_created_at_ms r), updated_at_ms := enq_created_at_ms r\<rparr>)
        (runtime_jobs (base s))\<rparr>\<rparr>)"

definition write_entries ::
    "EnqueueTurnSupplementRequest \<Rightarrow> nat \<Rightarrow> nat \<Rightarrow> DurableTurnSupplement list \<Rightarrow> (string \<rightharpoonup> string) \<Rightarrow> unit qtx" where
  "write_entries r revn seq es dd s =
     (let next_revision = u64_saturating_add revn 1; following = u64_saturating_add seq 1 in
      if revn = 0 then
        insert_queue ''insert turn supplement queue''
          \<lparr>queue_agent_run_id = enq_agent_run_id r, queue_lifecycle_job_id = enq_lifecycle_job_id r,
           queue_session_id = enq_session_id r, queue_authorization_digest = enq_authorization_digest r,
           revision = next_revision, next_sequence = following, accepting = True, entries = es, dedupe = dd,
           closed_reason = None, queue_updated_at_ms = enq_created_at_ms r\<rparr> s
      else
        res_bind (sql_counter ''update turn supplement queue'' next_revision) (\<lambda>_.
        res_bind (sql_counter ''update turn supplement queue'' following) (\<lambda>_.
        if sql_count (same_revision (enq_agent_run_id r) revn) (supplement_queues s) \<noteq> 1 then Err QueueCasConflict
        else Ok ((), s\<lparr>supplement_queues := sql_update (same_revision (enq_agent_run_id r) revn)
          (\<lambda>p. p\<lparr>revision := next_revision, next_sequence := following, entries := es, dedupe := dd,
                 queue_updated_at_ms := enq_created_at_ms r\<rparr>) (supplement_queues s)\<rparr>))))"

text \<open>What the transaction reads: revision, next sequence, admission, entries and the ledger of accepted identities.\<close>

type_synonym queue_state = "nat \<times> nat \<times> bool \<times> DurableTurnSupplement list \<times> (string \<rightharpoonup> string)"

definition read_queue :: "EnqueueTurnSupplementRequest \<Rightarrow> session_db \<Rightarrow> TurnSupplementStoreError + queue_state" where
  "read_queue r s =
     (case load_queue (enq_agent_run_id r) s of
        Some q \<Rightarrow> res_bind (queue_identity (enq_lifecycle_job_id r) (enq_session_id r) (enq_authorization_digest r) q)
          (\<lambda>_. Ok (revision q, next_sequence q, accepting q, entries q, dedupe q))
      | None \<Rightarrow> Ok (0, 1, True, [], Map.empty))"

definition admit_entry :: "(string \<Rightarrow> string) \<Rightarrow> EnqueueTurnSupplementRequest \<Rightarrow> queue_state \<Rightarrow> EnqueueTurnSupplementResult qtx" where
  "admit_entry sha256_hex r = (\<lambda>(revn, seq, open, es, dd) s.
     let digest = turn_supplement_message_digest sha256_hex (enq_message r) in
     case dd (enq_supplement_id r) of
       Some existing \<Rightarrow>
         if existing \<noteq> digest then Err IdempotencyConflict
         else Ok (\<lparr>enq_disposition = Duplicate, queued_count = length es, enq_revision = revn\<rparr>, s)
     | None \<Rightarrow>
         if \<not> open then Err AdmissionClosed
         else if MAX_PENDING_TURN_SUPPLEMENTS \<le> length es then Err QueueFull
         else let es' = es @ [new_entry r seq]; dd' = dd(enq_supplement_id r \<mapsto> digest) in
           res_bind (write_entries r revn seq es' dd' s) (\<lambda>(_, s).
           Ok (\<lparr>enq_disposition = Accepted, queued_count = length es', enq_revision = u64_saturating_add revn 1\<rparr>,
               wake_lifecycle_job r s)))"

definition enqueue_turn_supplement :: "(string \<Rightarrow> string) \<Rightarrow> EnqueueTurnSupplementRequest \<Rightarrow> EnqueueTurnSupplementResult qtx" where
  "enqueue_turn_supplement sha256_hex r s =
     res_bind (map_err Validation (validate_turn_supplement_message (enq_message r))) (\<lambda>m.
     let r = r\<lparr>enq_message := m\<rparr> in
     res_bind (map_err Validation (validate_turn_supplement_id (enq_supplement_id r))) (\<lambda>_.
     res_bind (validate_enqueue_identity r) (\<lambda>_.
     res_bind (validate_active_job (enq_agent_run_id r) (enq_lifecycle_job_id r) (enq_session_id r)
       (enq_authorization_digest r) None True (base s)) (\<lambda>_.
     res_bind (read_queue r s) (\<lambda>q. admit_entry sha256_hex r q s)))))"

section \<open>Claim\<close>

definition claimed_entry :: "ClaimTurnSupplementsRequest \<Rightarrow> DurableTurnSupplement \<Rightarrow> DurableTurnSupplement" where
  "claimed_entry r e = e\<lparr>claim_token := Some (clm_claim_token r), claim_lease_owner := Some (clm_lease_owner r)\<rparr>"

text \<open>The loop over the entries: the entries after it and the claimed ones; \<open>n\<close> are claimed already.\<close>

fun claim_entries :: "ClaimTurnSupplementsRequest \<Rightarrow> nat \<Rightarrow> DurableTurnSupplement list \<Rightarrow>
    TurnSupplementStoreError + (DurableTurnSupplement list \<times> DurableTurnSupplement list)" where
  "claim_entries r n [] = Ok ([], [])"
| "claim_entries r n (e # es) =
     (if claim_token e = Some (clm_claim_token r) then
        res_bind (claim_entries r n es) (\<lambda>(es', cs). Ok (e # es', cs))
      else if claim_lease_owner e = Some (clm_lease_owner r) then Err ClaimInProgress
      else let e' = claimed_entry r e in
        if n + 1 = clm_limit r then Ok (e' # es, [e'])
        else res_bind (claim_entries r (n + 1) es) (\<lambda>(es', cs). Ok (e' # es', e' # cs)))"

definition insert_closed_queue :: "ClaimTurnSupplementsRequest \<Rightarrow> unit qtx" where
  "insert_closed_queue r = insert_queue ''insert empty closed turn supplement queue''
     \<lparr>queue_agent_run_id = clm_agent_run_id r, queue_lifecycle_job_id = clm_lifecycle_job_id r,
      queue_session_id = clm_session_id r, queue_authorization_digest = clm_authorization_digest r,
      revision = 1, next_sequence = 1, accepting = False, entries = [], dedupe = Map.empty,
      closed_reason = Some ''safe_point_closed'', queue_updated_at_ms = clm_now_ms r\<rparr>"

definition claim_turn_supplements :: "ClaimTurnSupplementsRequest \<Rightarrow> DurableTurnSupplement list qtx" where
  "claim_turn_supplements r s =
     res_bind (validate_claim_identity r) (\<lambda>_.
     res_bind (validate_active_job (clm_agent_run_id r) (clm_lifecycle_job_id r) (clm_session_id r)
       (clm_authorization_digest r) (Some (clm_lease_owner r, clm_now_ms r)) True (base s)) (\<lambda>_.
     case load_queue (clm_agent_run_id r) s of
       None \<Rightarrow> res_bind (if close_if_empty r then insert_closed_queue r s else Ok ((), s)) (\<lambda>(_, s). Ok ([], s))
     | Some q \<Rightarrow>
         res_bind (queue_identity (clm_lifecycle_job_id r) (clm_session_id r) (clm_authorization_digest r) q) (\<lambda>_.
         res_bind (claim_entries r 0 (entries q)) (\<lambda>(es, claimed).
         let close = close_if_empty r \<and> es = [] in
         if claimed \<noteq> [] \<or> close then
           res_bind (update_queue (clm_agent_run_id r)
             (q\<lparr>entries := es, accepting := \<not> close \<and> accepting q,
                closed_reason := (if close then Some ''safe_point_closed'' else None)\<rparr>) (clm_now_ms r) s) (\<lambda>(_, s).
           Ok (claimed, s))
         else Ok (claimed, s)))))"

section \<open>Acknowledge and close\<close>

definition acknowledge_turn_supplements :: "AcknowledgeTurnSupplementsRequest \<Rightarrow> unit qtx" where
  "acknowledge_turn_supplements r s =
     res_bind (validate_ack_identity r) (\<lambda>_.
     res_bind (validate_active_job (ack_agent_run_id r) (ack_lifecycle_job_id r) (ack_session_id r)
       (ack_authorization_digest r) (Some (ack_lease_owner r, acknowledged_at_ms r)) True (base s)) (\<lambda>_.
     res_bind (ok_or QueueMissing (load_queue (ack_agent_run_id r) s)) (\<lambda>q.
     let requested = set (ack_supplement_ids r);
         matched = filter (\<lambda>e. supplement_id e \<in> requested) (entries q)
     in if matched = [] then Ok ((), s)
        else if length matched \<noteq> card requested \<or>
          (\<exists>e \<in> set matched. claim_token e \<noteq> Some (ack_claim_token r) \<or> claim_lease_owner e \<noteq> Some (ack_lease_owner r))
        then Err AcknowledgeIdentityMismatch
        else update_queue (ack_agent_run_id r)
          (q\<lparr>entries := filter (\<lambda>e. supplement_id e \<notin> requested) (entries q)\<rparr>) (acknowledged_at_ms r) s)))"

definition close_turn_supplement_queue :: "CloseTurnSupplementQueueRequest \<Rightarrow> unit qtx" where
  "close_turn_supplement_queue r s =
     res_bind (validate_close_identity r) (\<lambda>_.
     res_bind (validate_active_job (cls_agent_run_id r) (cls_lifecycle_job_id r) (cls_session_id r)
       (cls_authorization_digest r) (map_option (\<lambda>own. (own, closed_at_ms r)) (cls_lease_owner r)) False (base s)) (\<lambda>_.
     case load_queue (cls_agent_run_id r) s of
       Some q \<Rightarrow>
         res_bind (queue_identity (cls_lifecycle_job_id r) (cls_session_id r) (cls_authorization_digest r) q) (\<lambda>_.
         update_queue (cls_agent_run_id r) (q\<lparr>accepting := False, entries := [], closed_reason := Some (cls_reason r)\<rparr>)
           (closed_at_ms r) s)
     | None \<Rightarrow> insert_queue ''insert closed turn supplement queue''
         \<lparr>queue_agent_run_id = cls_agent_run_id r, queue_lifecycle_job_id = cls_lifecycle_job_id r,
          queue_session_id = cls_session_id r, queue_authorization_digest = cls_authorization_digest r,
          revision = 1, next_sequence = 1, accepting = False, entries = [], dedupe = Map.empty,
          closed_reason = Some (cls_reason r), queue_updated_at_ms = closed_at_ms r\<rparr> s))"

end
