(* ===== verification/SupplementQueue.thy ===== *)
theory SupplementQueue
  imports TurnSupplement
begin

text \<open>
  The life cycle of one turn supplement queue as a step relation, its invariant, and the proof that the
  operations of the store implement it: each moves the queue of its agent run by one step, or leaves the
  database as it is, and touches no other queue.
\<close>

section \<open>Life cycle of a queue\<close>

datatype queue_action =
    QEnqueue string string
  | QClaim string string
  | QSeal
  | QAck string string "string set"
  | QClose string

inductive queue_step :: "(string \<Rightarrow> string) \<Rightarrow> queue_action \<Rightarrow> StoredQueue \<Rightarrow> StoredQueue \<Rightarrow> bool"
  for sha :: "string \<Rightarrow> string" where
  enqueue: "accepting q \<Longrightarrow> length (entries q) < MAX_PENDING_TURN_SUPPLEMENTS \<Longrightarrow> dedupe q i = None \<Longrightarrow>
    supplement_id e = i \<Longrightarrow> message e = m \<Longrightarrow> sequence e = next_sequence q \<Longrightarrow>
    claim_token e = None \<Longrightarrow> claim_lease_owner e = None \<Longrightarrow>
    queue_step sha (QEnqueue i m) q
      (q\<lparr>revision := revision q + 1, next_sequence := next_sequence q + 1, entries := entries q @ [e],
         dedupe := (dedupe q)(i \<mapsto> turn_supplement_message_digest sha m), queue_updated_at_ms := now\<rparr>)"
| claim: "accepting q \<Longrightarrow> (\<And>e. P e \<Longrightarrow> claim_token e \<noteq> Some tok \<and> claim_lease_owner e \<noteq> Some own) \<Longrightarrow>
    queue_step sha (QClaim tok own) q
      (q\<lparr>revision := revision q + 1, accepting := True, entries := sql_update P (\<lambda>e. e\<lparr>claim_token := Some tok, claim_lease_owner := Some own\<rparr>) (entries q),
         closed_reason := None, queue_updated_at_ms := now\<rparr>)"
| seal: "entries q = [] \<Longrightarrow>
    queue_step sha QSeal q
      (q\<lparr>revision := revision q + 1, accepting := False, entries := [], closed_reason := Some ''safe_point_closed'', queue_updated_at_ms := now\<rparr>)"
| ack: "(\<And>e. e \<in> set (entries q) \<Longrightarrow> supplement_id e \<in> ids \<Longrightarrow> claim_token e = Some tok \<and> claim_lease_owner e = Some own) \<Longrightarrow>
    queue_step sha (QAck tok own ids) q
      (q\<lparr>revision := revision q + 1, entries := filter (\<lambda>e. supplement_id e \<notin> ids) (entries q), queue_updated_at_ms := now\<rparr>)"
| close: "queue_step sha (QClose why) q
      (q\<lparr>revision := revision q + 1, accepting := False, entries := [], closed_reason := Some why, queue_updated_at_ms := now\<rparr>)"

inductive_cases queue_enqueueE: "queue_step sha (QEnqueue i m) q q'"
inductive_cases queue_ackE: "queue_step sha (QAck tok own ids) q q'"

definition entry_ok :: "(string \<Rightarrow> string) \<Rightarrow> StoredQueue \<Rightarrow> DurableTurnSupplement \<Rightarrow> bool" where
  "entry_ok sha q e \<longleftrightarrow> sequence e < next_sequence q \<and>
     dedupe q (supplement_id e) = Some (turn_supplement_message_digest sha (message e)) \<and>
     (claim_token e = None \<longleftrightarrow> claim_lease_owner e = None)"

definition queue_ok :: "(string \<Rightarrow> string) \<Rightarrow> StoredQueue \<Rightarrow> bool" where
  "queue_ok sha q \<longleftrightarrow> length (entries q) \<le> MAX_PENDING_TURN_SUPPLEMENTS \<and> list_all (entry_ok sha q) (entries q) \<and>
     sorted_wrt (<) (map sequence (entries q)) \<and> unique_by supplement_id (entries q) \<and>
     (accepting q \<longleftrightarrow> closed_reason q = None) \<and> (\<not> accepting q \<longrightarrow> entries q = [])"

lemma entry_ok_update:
  "entry_ok sha q e \<Longrightarrow> entry_ok sha q (e\<lparr>claim_token := Some tok, claim_lease_owner := Some own\<rparr>)"
  by (simp add: entry_ok_def)

lemma entry_ok_cong:
  "next_sequence q \<le> next_sequence q' \<Longrightarrow> dedupe q \<subseteq>\<^sub>m dedupe q' \<Longrightarrow> entry_ok sha q e \<Longrightarrow> entry_ok sha q' e"
  unfolding entry_ok_def map_le_def by (metis domI order_less_le_trans)

lemma sorted_wrt_map_filter: "sorted_wrt R (map f xs) \<Longrightarrow> sorted_wrt R (map f (filter P xs))"
  by (induction xs) auto

text \<open>The ledger of accepted identities only grows, positions are never reused and a closed queue stays closed.\<close>

lemma queue_step_ok:
  assumes "queue_step sha a q q'" and "queue_ok sha q"
  shows "queue_ok sha q'"
  using assms
proof (induction rule: queue_step.induct)
  case (enqueue q i e m now)
  let ?q = "q\<lparr>revision := revision q + 1, next_sequence := next_sequence q + 1, entries := entries q @ [e],
    dedupe := (dedupe q)(i \<mapsto> turn_supplement_message_digest sha m), queue_updated_at_ms := now\<rparr>"
  have old: "list_all (entry_ok sha q) (entries q)" using enqueue.prems by (simp add: queue_ok_def)
  have "dedupe q \<subseteq>\<^sub>m dedupe ?q" using enqueue.hyps(3) by (auto simp: map_le_def)
  then have "list_all (entry_ok sha ?q) (entries q)"
    using old entry_ok_cong [of q ?q] unfolding list_all_iff by simp
  moreover have "i \<notin> supplement_id ` set (entries q)"
    using old enqueue.hyps(3) by (auto simp: list_all_iff entry_ok_def)
  moreover have "\<forall>x \<in> set (entries q). sequence x < next_sequence q"
    using old by (auto simp: list_all_iff entry_ok_def)
  ultimately show ?case
    using enqueue by (auto simp: queue_ok_def entry_ok_def sorted_wrt_append)
next
  case (claim q P tok own now)
  have "map sequence (sql_update P (\<lambda>e. e\<lparr>claim_token := Some tok, claim_lease_owner := Some own\<rparr>) (entries q)) =
      map sequence (entries q)" by (simp add: map_key_sql_update)
  then show ?case
    using claim by (auto simp: queue_ok_def list_all_iff set_sql_update entry_ok_def unique_by_sql_update)
qed (auto simp: queue_ok_def list_all_iff entry_ok_def MAX_PENDING_TURN_SUPPLEMENTS_def
    sorted_wrt_map_filter unique_by_filter intro: le_trans [OF length_filter_le])

lemma queue_step_monotone:
  assumes "queue_step sha a q q'"
  shows "dedupe q \<subseteq>\<^sub>m dedupe q'" and "next_sequence q \<le> next_sequence q'" and "revision q' = revision q + 1"
    and "\<not> accepting q \<Longrightarrow> \<not> accepting q'"
    and "queue_agent_run_id q' = queue_agent_run_id q" and "queue_lifecycle_job_id q' = queue_lifecycle_job_id q"
    and "queue_session_id q' = queue_session_id q" and "queue_authorization_digest q' = queue_authorization_digest q"
  using assms by (induction rule: queue_step.induct) (auto simp: map_le_def)

text \<open>An entry leaves a queue only by the acknowledgement of the holder of its claim or by a close.\<close>

lemma queue_step_entry:
  assumes "queue_step sha a q q'" and "e \<in> set (entries q)"
  shows "(\<exists>e' \<in> set (entries q'). supplement_id e' = supplement_id e \<and> sequence e' = sequence e \<and> message e' = message e) \<or>
    (\<exists>tok own ids. a = QAck tok own ids \<and> supplement_id e \<in> ids \<and> claim_token e = Some tok \<and> claim_lease_owner e = Some own) \<or>
    (\<exists>why. a = QClose why)"
  using assms
proof (induction rule: queue_step.induct)
  case (claim q P tok own now)
  let ?e = "if P e then e\<lparr>claim_token := Some tok, claim_lease_owner := Some own\<rparr> else e"
  have "?e \<in> set (sql_update P (\<lambda>e. e\<lparr>claim_token := Some tok, claim_lease_owner := Some own\<rparr>) (entries q))"
    using claim.prems by (simp add: set_sql_update)
  then show ?case by (intro disjI1) (auto intro!: bexI [of _ ?e])
qed auto

section \<open>The store implements the life cycle\<close>

definition open_queue :: "string \<Rightarrow> string \<Rightarrow> string \<Rightarrow> string \<Rightarrow> StoredQueue" where
  "open_queue agent_run job session digest = \<lparr>queue_agent_run_id = agent_run, queue_lifecycle_job_id = job,
     queue_session_id = session, queue_authorization_digest = digest, revision = 0, next_sequence = 1,
     accepting = True, entries = [], dedupe = Map.empty, closed_reason = None, queue_updated_at_ms = 0\<rparr>"

text \<open>The queue of an agent run as its operations see it: the stored one, or an open one with no entries.\<close>

definition queue_or_open :: "string \<Rightarrow> string \<Rightarrow> string \<Rightarrow> string \<Rightarrow> session_db \<Rightarrow> StoredQueue" where
  "queue_or_open agent_run job session digest s =
     (case load_queue agent_run s of Some q \<Rightarrow> q | None \<Rightarrow> open_queue agent_run job session digest)"

definition store_queue :: "StoredQueue \<Rightarrow> session_db \<Rightarrow> session_db" where
  "store_queue q s = s\<lparr>supplement_queues :=
     (if load_queue (queue_agent_run_id q) s = None then supplement_queues s @ [q]
      else sql_update (\<lambda>p. queue_agent_run_id p = queue_agent_run_id q) (\<lambda>_. q) (supplement_queues s))\<rparr>"

abbreviation unique_queues :: "session_db \<Rightarrow> bool" where
  "unique_queues s \<equiv> unique_by queue_agent_run_id (supplement_queues s)"

lemma load_queue_iff:
  "unique_queues s \<Longrightarrow> load_queue a s = Some q \<longleftrightarrow> q \<in> set (supplement_queues s) \<and> queue_agent_run_id q = a"
  by (simp add: load_queue_def sql_find_unique)

lemma load_queue_id: "load_queue a s = Some q \<Longrightarrow> queue_agent_run_id q = a"
  by (auto simp: load_queue_def dest: sql_find_Some)

lemma load_store_queue [simp]:
  "load_queue a (store_queue q s) = (if a = queue_agent_run_id q then Some q else load_queue a s)"
proof (cases "load_queue (queue_agent_run_id q) s")
  case None
  then show ?thesis by (auto simp: load_queue_def store_queue_def sql_find_snoc split: option.splits)
next
  case (Some p)
  have "load_queue a (store_queue q s) = map_option (\<lambda>p. if queue_agent_run_id p = queue_agent_run_id q then q else p) (load_queue a s)"
    using Some by (simp add: load_queue_def store_queue_def sql_find_update)
  then show ?thesis using Some load_queue_id [of a s] by (cases "load_queue a s") auto
qed

lemma unique_store_queue: "unique_queues s \<Longrightarrow> unique_queues (store_queue q s)"
  by (auto simp: store_queue_def unique_by_sql_update load_queue_def sql_find_None)

lemma store_queue_same [simp]:
  "base (store_queue q s) = base s" "checkpoints (store_queue q s) = checkpoints s" "waiters (store_queue q s) = waiters s"
  "snapshots (store_queue q s) = snapshots s" "external_objects (store_queue q s) = external_objects s"
  "external_links (store_queue q s) = external_links s"
  by (simp_all add: store_queue_def)

lemma sql_counter_Ok [simp]: "sql_counter what n = Ok m \<longleftrightarrow> m = n \<and> int n \<le> i64_max"
  by (auto simp: sql_counter_def)

lemma insert_queue_effect:
  "insert_queue what q s = Ok (u, s') \<Longrightarrow> load_queue (queue_agent_run_id q) s = None \<and> s' = store_queue q s"
  by (auto simp: insert_queue_def result_simps store_queue_def load_queue_def sql_find_None split: if_splits)

lemma unique_revision_update:
  assumes "unique_queues s" and "load_queue a s = Some p"
  shows "sql_update (same_revision a (revision p)) f (supplement_queues s) =
      sql_update (\<lambda>q. queue_agent_run_id q = a) (\<lambda>_. f p) (supplement_queues s)"
  using assms unfolding sql_update_def load_queue_iff [OF assms(1)]
  by (intro map_cong) (auto simp: same_revision_def dest: unique_byD [OF assms(1)])

lemma u64_next_small: "int (u64_saturating_add n (Suc 0)) \<le> i64_max \<Longrightarrow> u64_saturating_add n (Suc 0) = Suc n"
  by (simp add: u64_saturating_add_def i64_max_def u64_max_def min_def split: if_splits)

lemma update_queue_effect:
  assumes "update_queue a q now s = Ok (u, s')" and "unique_queues s" and "load_queue a s = Some p" and "revision q = revision p"
  shows "s' = store_queue (p\<lparr>revision := revision p + 1, accepting := accepting q, entries := entries q, dedupe := dedupe q,
     closed_reason := closed_reason q, queue_updated_at_ms := now\<rparr>) s"
proof -
  have "int (u64_saturating_add (revision p) (Suc 0)) \<le> i64_max" using assms(1,4) by (auto simp: update_queue_def result_simps)
  note step = u64_next_small [OF this]
  show ?thesis using assms load_queue_id [OF assms(3)]
    by (auto simp: update_queue_def result_simps store_queue_def unique_revision_update step split: if_splits)
qed

text \<open>The claim loop: the first entries that this token does not have yet, up to the limit.\<close>

definition claimable :: "ClaimTurnSupplementsRequest \<Rightarrow> nat \<Rightarrow> DurableTurnSupplement list \<Rightarrow> DurableTurnSupplement list" where
  "claimable r n es = take n (filter (\<lambda>e. claim_token e \<noteq> Some (clm_claim_token r)) es)"

lemma claimable_Cons:
  "claimable r (Suc n) (e # es) =
     (if claim_token e = Some (clm_claim_token r) then claimable r (Suc n) es else e # claimable r n es)"
  by (simp add: claimable_def)

lemma set_claimable: "set (claimable r n es) \<subseteq> {e \<in> set es. claim_token e \<noteq> Some (clm_claim_token r)}"
  by (auto simp: claimable_def dest: in_set_takeD)

lemma sql_update_head:
  "e \<notin> set es \<Longrightarrow> sql_update (\<lambda>x. x = e \<or> x \<in> A) f es = sql_update (\<lambda>x. x \<in> A) f es"
  by (auto simp: sql_update_def)

lemma claim_entries_spec:
  assumes "n < clm_limit r" and "distinct es"
  shows "claim_entries r n es =
     (let free = claimable r (clm_limit r - n) es in
      if \<exists>e \<in> set free. claim_lease_owner e = Some (clm_lease_owner r) then Err ClaimInProgress
      else Ok (sql_update (\<lambda>e. e \<in> set free) (claimed_entry r) es, map (claimed_entry r) free))"
  using assms
proof (induction es arbitrary: n)
  case Nil
  then show ?case by (simp add: claimable_def sql_update_def)
next
  case (Cons e es)
  obtain k where k: "clm_limit r - n = Suc k" "k = clm_limit r - Suc n" using Cons.prems(1) by (cases "clm_limit r - n") auto
  have out: "e \<notin> set (claimable r m es)" for m using Cons.prems(2) set_claimable [of r m es] by auto
  show ?case
  proof (cases "claim_token e = Some (clm_claim_token r)")
    case True
    then show ?thesis using Cons.IH [of n] Cons.prems out [of "Suc k"]
      by (auto simp: k(1) claimable_Cons Let_def sql_update_def)
  next
    case False
    show ?thesis
    proof (cases "n + 1 = clm_limit r")
      case True
      then show ?thesis using False Cons.prems k
        by (auto simp: claimable_Cons claimable_def sql_update_def Let_def intro!: map_idI [symmetric])
    next
      case limit: False
      then show ?thesis using False Cons.IH [of "Suc n"] Cons.prems(1,2)
        by (auto simp: k(1) claimable_Cons Let_def k(2) [symmetric] sql_update_head sql_update_def [of _ _ "_ # _"])
          (auto simp: sql_update_def)
    qed
  qed
qed

section \<open>Each operation is one step of its queue\<close>

lemma validate_common_identity_Ok:
  "validate_common_identity a j ses d = Ok u \<Longrightarrow> agent_run_lifecycle_job_id a = Ok j"
  by (auto simp: validate_common_identity_def result_simps split: if_splits)

definition enqueue_queue :: "EnqueueTurnSupplementRequest \<Rightarrow> session_db \<Rightarrow> StoredQueue" where
  "enqueue_queue r = queue_or_open (enq_agent_run_id r) (enq_lifecycle_job_id r) (enq_session_id r) (enq_authorization_digest r)"

definition claim_queue :: "ClaimTurnSupplementsRequest \<Rightarrow> session_db \<Rightarrow> StoredQueue" where
  "claim_queue r = queue_or_open (clm_agent_run_id r) (clm_lifecycle_job_id r) (clm_session_id r) (clm_authorization_digest r)"

definition close_queue :: "CloseTurnSupplementQueueRequest \<Rightarrow> session_db \<Rightarrow> StoredQueue" where
  "close_queue r = queue_or_open (cls_agent_run_id r) (cls_lifecycle_job_id r) (cls_session_id r) (cls_authorization_digest r)"

lemma wake_lifecycle_job_same [simp]:
  "supplement_queues (wake_lifecycle_job r s) = supplement_queues s" "checkpoints (wake_lifecycle_job r s) = checkpoints s"
  "waiters (wake_lifecycle_job r s) = waiters s" "snapshots (wake_lifecycle_job r s) = snapshots s"
  "external_objects (wake_lifecycle_job r s) = external_objects s" "external_links (wake_lifecycle_job r s) = external_links s"
  by (simp_all add: wake_lifecycle_job_def)

lemma load_queue_wake [simp]: "load_queue a (wake_lifecycle_job r s) = load_queue a s"
  by (simp add: load_queue_def)

lemma write_entries_effect:
  assumes "write_entries r revn seq es dd s = Ok (u, s')" and "unique_queues s"
    and "case load_queue (enq_agent_run_id r) s of None \<Rightarrow> revn = 0 \<and> seq = 1 | Some q \<Rightarrow> revn = revision q \<and> seq = next_sequence q"
  shows "\<exists>q'. s' = store_queue q' s \<and> q' = (enqueue_queue r s)\<lparr>revision := revn + 1, next_sequence := seq + 1, entries := es,
    dedupe := dd, queue_updated_at_ms := enq_created_at_ms r\<rparr>"
proof (cases "load_queue (enq_agent_run_id r) s")
  case None
  with assms(3) have zero: "revn = 0" "seq = 1" by auto
  have "u64_saturating_add 0 (Suc 0) = Suc 0" "u64_saturating_add (Suc 0) (Suc 0) = Suc (Suc 0)"
    by (simp_all add: u64_saturating_add_def u64_max_def)
  then show ?thesis
    using assms(1) None zero
    by (auto simp: write_entries_def Let_def enqueue_queue_def queue_or_open_def open_queue_def dest!: insert_queue_effect)
next
  case (Some p)
  show ?thesis
  proof (cases "revn = 0")
    case True
    then show ?thesis using assms(1) Some by (auto simp: write_entries_def Let_def dest!: insert_queue_effect)
  next
    case False
    then have "int (u64_saturating_add revn (Suc 0)) \<le> i64_max" "int (u64_saturating_add seq (Suc 0)) \<le> i64_max"
      using assms(1) by (auto simp: write_entries_def Let_def result_simps)
    note next_small = u64_next_small [OF this(1)] u64_next_small [OF this(2)]
    have p: "revn = revision p" "seq = next_sequence p" using assms(3) Some by auto
    show ?thesis using assms(1,2) False Some load_queue_id [OF Some] next_small unfolding p
      by (auto simp: write_entries_def Let_def result_simps store_queue_def unique_revision_update enqueue_queue_def
          queue_or_open_def split: if_splits)
  qed
qed

lemma request_message_irrelevant [simp]:
  "wake_lifecycle_job (r\<lparr>enq_message := m\<rparr>) = wake_lifecycle_job r" "enqueue_queue (r\<lparr>enq_message := m\<rparr>) = enqueue_queue r"
  "validate_enqueue_identity (r\<lparr>enq_message := m\<rparr>) = validate_enqueue_identity r" "read_queue (r\<lparr>enq_message := m\<rparr>) = read_queue r"
  by (auto simp: fun_eq_iff read_queue_def wake_lifecycle_job_def enqueue_queue_def validate_enqueue_identity_def split: option.split)

lemma validate_message_Ok [simp]:
  "validate_turn_supplement_message v = Ok m \<longleftrightarrow> m = trim v \<and> trim v \<noteq> [] \<and> length (trim v) \<le> MAX_TURN_SUPPLEMENT_BYTES"
  by (auto simp: validate_turn_supplement_message_def Let_def)

lemma read_queue_Ok:
  assumes "read_queue r s = Ok (revn, seq, acc, es, dd)"
  shows "revn = revision (enqueue_queue r s)" "seq = next_sequence (enqueue_queue r s)" "acc = accepting (enqueue_queue r s)"
    "es = entries (enqueue_queue r s)" "dd = dedupe (enqueue_queue r s)"
    "case load_queue (enq_agent_run_id r) s of None \<Rightarrow> revn = 0 \<and> seq = 1 | Some q \<Rightarrow> revn = revision q \<and> seq = next_sequence q"
  using assms by (auto simp: read_queue_def enqueue_queue_def queue_or_open_def open_queue_def result_simps split: option.splits)

lemma enqueue_Ok_iff:
  "enqueue_turn_supplement sha r s = Ok v \<longleftrightarrow>
     trim (enq_message r) \<noteq> [] \<and> length (trim (enq_message r)) \<le> MAX_TURN_SUPPLEMENT_BYTES \<and>
     is_ok (validate_turn_supplement_id (enq_supplement_id r)) \<and> validate_enqueue_identity r = Ok () \<and>
     validate_active_job (enq_agent_run_id r) (enq_lifecycle_job_id r) (enq_session_id r) (enq_authorization_digest r)
       None True (base s) = Ok () \<and>
     (\<exists>q. read_queue r s = Ok q \<and> admit_entry sha (r\<lparr>enq_message := trim (enq_message r)\<rparr>) q s = Ok v)"
  by (auto simp: enqueue_turn_supplement_def result_simps Let_def is_ok_iff)

lemma admit_effect:
  assumes read: "read_queue r s = Ok (revn, seq, acc, es, dd)" and admit: "admit_entry sha r (revn, seq, acc, es, dd) s = Ok (res, s')"
    and uniq: "unique_queues s"
  obtains (duplicate) q where "load_queue (enq_agent_run_id r) s = Some q" "s' = s" "enq_disposition res = Duplicate"
      "dedupe q (enq_supplement_id r) = Some (turn_supplement_message_digest sha (enq_message r))"
  | (accepted) q' where "queue_step sha (QEnqueue (enq_supplement_id r) (enq_message r)) (enqueue_queue r s) q'"
      "s' = wake_lifecycle_job r (store_queue q' s)" "enq_disposition res = Accepted" "queued_count res = length (entries q')"
proof (cases "dd (enq_supplement_id r)")
  note reads = read_queue_Ok [OF read]
  case (Some d)
  moreover from Some obtain q where "load_queue (enq_agent_run_id r) s = Some q" "dedupe q (enq_supplement_id r) = Some d"
    unfolding reads(5) by (auto simp: enqueue_queue_def queue_or_open_def open_queue_def split: option.splits)
  ultimately show thesis using admit by (intro duplicate) (auto simp: admit_entry_def Let_def split: if_splits)
next
  note reads = read_queue_Ok [OF read]
  case None
  let ?es = "es @ [new_entry r seq]" and ?dd = "dd(enq_supplement_id r \<mapsto> turn_supplement_message_digest sha (enq_message r))"
  from None admit obtain u s1 where guards: "acc" "length es < MAX_PENDING_TURN_SUPPLEMENTS"
    and written: "write_entries r revn seq ?es ?dd s = Ok (u, s1)"
    and s': "s' = wake_lifecycle_job r s1" "enq_disposition res = Accepted" "queued_count res = Suc (length es)"
    by (auto simp: admit_entry_def result_simps Let_def split: if_splits)
  obtain q' where q': "s1 = store_queue q' s" "q' = (enqueue_queue r s)\<lparr>revision := revn + 1, next_sequence := seq + 1,
      entries := ?es, dedupe := ?dd, queue_updated_at_ms := enq_created_at_ms r\<rparr>"
    using write_entries_effect [OF written uniq reads(6)] by auto
  have "queue_step sha (QEnqueue (enq_supplement_id r) (enq_message r)) (enqueue_queue r s) q'"
    unfolding q'(2) reads(1,2,4,5)
    by (rule queue_step.enqueue) (use guards None in \<open>simp_all add: reads new_entry_def\<close>)
  then show thesis by (rule accepted) (use s' q' in simp_all)
qed

lemma enqueue_effect:
  assumes "enqueue_turn_supplement sha r s = Ok (res, s')" and "unique_queues s"
  obtains (duplicate) q where "load_queue (enq_agent_run_id r) s = Some q" "s' = s" "enq_disposition res = Duplicate"
      "dedupe q (enq_supplement_id r) = Some (turn_supplement_message_digest sha (trim (enq_message r)))"
  | (accepted) q' where "queue_step sha (QEnqueue (enq_supplement_id r) (trim (enq_message r))) (enqueue_queue r s) q'"
      "s' = wake_lifecycle_job r (store_queue q' s)" "enq_disposition res = Accepted" "queued_count res = length (entries q')"
proof -
  let ?r = "r\<lparr>enq_message := trim (enq_message r)\<rparr>"
  from assms(1) obtain revn seq acc es dd where "read_queue ?r s = Ok (revn, seq, acc, es, dd)"
    "admit_entry sha ?r (revn, seq, acc, es, dd) s = Ok (res, s')"
    by (auto simp: enqueue_Ok_iff)
  then show thesis by (rule admit_effect [OF _ _ assms(2)]) (use duplicate accepted in auto)
qed

section \<open>Claim, acknowledge and close\<close>

lemma distinct_entries: "queue_ok sha q \<Longrightarrow> distinct (entries q)"
  by (auto simp: queue_ok_def intro: unique_by_distinct)

lemma claim_step:
  assumes "claim_entries r 0 (entries q) = Ok (es, cs)" and "queue_ok sha q" and "0 < clm_limit r" and "entries q \<noteq> []"
  shows "queue_step sha (QClaim (clm_claim_token r) (clm_lease_owner r)) q
      (q\<lparr>revision := revision q + 1, accepting := True, entries := es, closed_reason := None, queue_updated_at_ms := now\<rparr>)"
    and "cs = map (claimed_entry r) (claimable r (clm_limit r) (entries q))" and "set cs \<subseteq> set es"
proof -
  let ?free = "set (claimable r (clm_limit r) (entries q))"
  have free: "claim_token e \<noteq> Some (clm_claim_token r)" "e \<in> set (entries q)" if "e \<in> ?free" for e
    using that set_claimable by blast+
  have es: "es = sql_update (\<lambda>e. e \<in> ?free) (claimed_entry r) (entries q)"
    and cs: "cs = map (claimed_entry r) (claimable r (clm_limit r) (entries q))"
    and other: "\<forall>e \<in> ?free. claim_lease_owner e \<noteq> Some (clm_lease_owner r)"
    using assms claim_entries_spec [of 0 r "entries q"] distinct_entries [OF assms(2)]
    by (auto simp: Let_def split: if_splits)
  have entry: "claimed_entry r = (\<lambda>e. e\<lparr>claim_token := Some (clm_claim_token r), claim_lease_owner := Some (clm_lease_owner r)\<rparr>)"
    by (simp add: fun_eq_iff claimed_entry_def)
  show "queue_step sha (QClaim (clm_claim_token r) (clm_lease_owner r)) q
      (q\<lparr>revision := revision q + 1, accepting := True, entries := es, closed_reason := None, queue_updated_at_ms := now\<rparr>)"
    unfolding es entry by (rule queue_step.claim) (use assms(2,4) free(1) other in \<open>auto simp: queue_ok_def\<close>)
  show "cs = map (claimed_entry r) (claimable r (clm_limit r) (entries q))" by (rule cs)
  show "set cs \<subseteq> set es" unfolding cs es set_sql_update using free(2) by auto
qed

lemma seal_open_queue:
  "queue_step sha QSeal (open_queue a j ses d) ((open_queue a j ses d)\<lparr>revision := 1, accepting := False,
     closed_reason := Some ''safe_point_closed'', queue_updated_at_ms := now\<rparr>)"
  using queue_step.seal [of "open_queue a j ses d" sha now] by (simp add: open_queue_def)

lemma claim_entries_Nil_iff: "claim_entries r n es = Ok (es', cs) \<Longrightarrow> es' = [] \<longleftrightarrow> es = []"
  by (cases es) (auto simp: result_simps Let_def split: if_splits)

lemma claim_effect:
  assumes ok: "claim_turn_supplements r s = Ok (cs, s')" and uniq: "unique_queues s"
    and inv: "\<And>q. load_queue (clm_agent_run_id r) s = Some q \<Longrightarrow> queue_ok sha q"
  obtains (none) "cs = []" "s' = s"
  | (sealed) q' where "cs = []" "queue_step sha QSeal (claim_queue r s) q'" "s' = store_queue q' s" "close_if_empty r"
  | (claimed) q' where "cs = map (claimed_entry r) (claimable r (clm_limit r) (entries (claim_queue r s)))" "cs \<noteq> []"
      "queue_step sha (QClaim (clm_claim_token r) (clm_lease_owner r)) (claim_queue r s) q'" "s' = store_queue q' s"
      "set cs \<subseteq> set (entries q')"
proof (cases "load_queue (clm_agent_run_id r) s")
  case None
  then have queue: "claim_queue r s = open_queue (clm_agent_run_id r) (clm_lifecycle_job_id r) (clm_session_id r) (clm_authorization_digest r)"
    by (simp add: claim_queue_def queue_or_open_def)
  have "s' = s \<or> s' = store_queue ((claim_queue r s)\<lparr>revision := 1, accepting := False,
      closed_reason := Some ''safe_point_closed'', queue_updated_at_ms := clm_now_ms r\<rparr>) s \<and> close_if_empty r" "cs = []"
    using ok None by (auto simp: claim_turn_supplements_def insert_closed_queue_def result_simps claim_queue_def
        queue_or_open_def open_queue_def split: if_splits dest!: insert_queue_effect)
  then show thesis
    using none sealed seal_open_queue [of sha "clm_agent_run_id r" "clm_lifecycle_job_id r" "clm_session_id r"
      "clm_authorization_digest r" "clm_now_ms r", folded queue] by metis
next
  case (Some q)
  have queue: "claim_queue r s = q" using Some by (simp add: claim_queue_def queue_or_open_def)
  from ok Some obtain es cs0 where limit: "0 < clm_limit r" and entries0: "claim_entries r 0 (entries q) = Ok (es, cs0)"
    and body: "(let close = close_if_empty r \<and> es = [] in if cs0 \<noteq> [] \<or> close then
        res_bind (update_queue (clm_agent_run_id r) (q\<lparr>entries := es, accepting := \<not> close \<and> accepting q,
          closed_reason := (if close then Some ''safe_point_closed'' else None)\<rparr>) (clm_now_ms r) s) (\<lambda>(_, s). Ok (cs0, s))
      else Ok (cs0, s)) = Ok (cs, s')"
    by (simp add: claim_turn_supplements_def validate_claim_identity_def result_simps split_paired_Ex split: if_splits) blast
  have "cs0 = cs" using body by (auto simp: Let_def result_simps split: if_splits)
  note entries = entries0 [unfolded this]
  have written: "if cs \<noteq> [] \<or> (close_if_empty r \<and> es = []) then
        \<exists>u. update_queue (clm_agent_run_id r) (q\<lparr>entries := es, accepting := \<not> (close_if_empty r \<and> es = []) \<and> accepting q,
          closed_reason := (if close_if_empty r \<and> es = [] then Some ''safe_point_closed'' else None)\<rparr>) (clm_now_ms r) s = Ok (u, s')
      else s' = s"
    using body \<open>cs0 = cs\<close> by (cases "close_if_empty r \<and> es = []") (auto simp: Let_def result_simps split: if_splits)
  have empty: "es = [] \<longleftrightarrow> entries q = []" using claim_entries_Nil_iff [OF entries] .
  show thesis
  proof (cases "entries q = []")
    case True
    with entries have "cs = []" "es = []" by simp_all
    then show thesis
      using written True none sealed [OF \<open>cs = []\<close> queue_step.seal [of "claim_queue r s" sha "clm_now_ms r"]]
      by (auto simp: queue split: if_splits dest!: update_queue_effect [OF _ uniq Some])
  next
    case False
    then have "accepting q" using inv [OF Some] by (auto simp: queue_ok_def)
    note step = claim_step [OF entries inv [OF Some] limit False]
    show thesis
    proof (cases "cs = []")
      case True
      then show thesis using written False empty none by simp
    next
      case changed: False
      have "s' = store_queue (q\<lparr>revision := revision q + 1, accepting := True, entries := es, closed_reason := None,
          queue_updated_at_ms := clm_now_ms r\<rparr>) s"
        using written changed empty False \<open>accepting q\<close> by (auto dest!: update_queue_effect [OF _ uniq Some])
      then show thesis by (rule claimed [unfolded queue, OF step(2) changed step(1)]) (use step(3) in simp)
    qed
  qed
qed

lemma ack_effect:
  assumes "acknowledge_turn_supplements r s = Ok (u, s')" and "unique_queues s"
  obtains (none) q where "load_queue (ack_agent_run_id r) s = Some q" "s' = s"
      "\<forall>e \<in> set (entries q). supplement_id e \<notin> set (ack_supplement_ids r)"
  | (acked) q q' where "load_queue (ack_agent_run_id r) s = Some q" "s' = store_queue q' s"
      "queue_step sha (QAck (ack_claim_token r) (ack_lease_owner r) (set (ack_supplement_ids r))) q q'"
proof -
  let ?ids = "set (ack_supplement_ids r)"
  from assms(1) obtain q where q: "load_queue (ack_agent_run_id r) s = Some q"
    by (auto simp: acknowledge_turn_supplements_def result_simps)
  with assms(1) have body: "if filter (\<lambda>e. supplement_id e \<in> ?ids) (entries q) = [] then s' = s
      else (\<forall>e \<in> set (entries q). supplement_id e \<in> ?ids \<longrightarrow> claim_token e = Some (ack_claim_token r) \<and> claim_lease_owner e = Some (ack_lease_owner r)) \<and>
        update_queue (ack_agent_run_id r) (q\<lparr>entries := filter (\<lambda>e. supplement_id e \<notin> ?ids) (entries q)\<rparr>) (acknowledged_at_ms r) s = Ok (u, s')"
    by (auto simp: acknowledge_turn_supplements_def result_simps Let_def filter_empty_conv split: if_splits)
  show thesis
  proof (cases "filter (\<lambda>e. supplement_id e \<in> ?ids) (entries q) = []")
    case True
    with body none [OF q] show thesis by (auto simp: filter_empty_conv)
  next
    case False
    with body have held: "\<And>e. e \<in> set (entries q) \<Longrightarrow> supplement_id e \<in> ?ids \<Longrightarrow>
        claim_token e = Some (ack_claim_token r) \<and> claim_lease_owner e = Some (ack_lease_owner r)"
      and written: "update_queue (ack_agent_run_id r) (q\<lparr>entries := filter (\<lambda>e. supplement_id e \<notin> ?ids) (entries q)\<rparr>)
        (acknowledged_at_ms r) s = Ok (u, s')" by auto
    from update_queue_effect [OF written assms(2) q] queue_step.ack [OF held, of q] show thesis
      by (intro acked [OF q]) auto
  qed
qed

lemma close_effect:
  assumes "close_turn_supplement_queue r s = Ok (u, s')" and "unique_queues s"
  obtains q' where "queue_step sha (QClose (cls_reason r)) (close_queue r s) q'" "s' = store_queue q' s"
proof (cases "load_queue (cls_agent_run_id r) s")
  case None
  then have "s' = store_queue ((close_queue r s)\<lparr>revision := 1, accepting := False, entries := [],
      closed_reason := Some (cls_reason r), queue_updated_at_ms := closed_at_ms r\<rparr>) s"
    using assms(1) by (auto simp: close_turn_supplement_queue_def result_simps close_queue_def queue_or_open_def open_queue_def
        dest!: insert_queue_effect)
  moreover have "queue_step sha (QClose (cls_reason r)) (close_queue r s) ((close_queue r s)\<lparr>revision := 1, accepting := False,
      entries := [], closed_reason := Some (cls_reason r), queue_updated_at_ms := closed_at_ms r\<rparr>)"
    using queue_step.close [of sha "cls_reason r" "close_queue r s" "closed_at_ms r"] None
    by (simp add: close_queue_def queue_or_open_def open_queue_def)
  ultimately show thesis using that by blast
next
  case (Some q)
  then show thesis using assms that queue_step.close [of sha "cls_reason r" q "closed_at_ms r"]
    by (auto simp: close_turn_supplement_queue_def result_simps close_queue_def queue_or_open_def
        dest!: update_queue_effect [OF _ assms(2) Some])
qed

end
