(* ===== verification/Utf8.thy ===== *)
theory Utf8
  imports Prelude
begin

text \<open>
  Characters of UTF-8 byte strings: well-formedness (\<open>String::from_utf8\<close>), the number of characters
  (\<open>chars().count()\<close>) and control characters (\<open>char::is_control\<close>).
\<close>

definition byte :: "char \<Rightarrow> nat" where
  "byte c = of_char c"

definition byte_in :: "nat \<Rightarrow> nat \<Rightarrow> char \<Rightarrow> bool" where
  "byte_in lo hi c \<longleftrightarrow> lo \<le> byte c \<and> byte c \<le> hi"

text \<open>Well-formed UTF-8, the test of \<open>String::from_utf8\<close>.\<close>

fun utf8_valid :: "string \<Rightarrow> bool" where
  "utf8_valid [] \<longleftrightarrow> True"
| "utf8_valid (a # bs) \<longleftrightarrow>
     (if byte_in 0 0x7F a then utf8_valid bs
      else if byte_in 0xC2 0xDF a then (case bs of b # r \<Rightarrow> byte_in 0x80 0xBF b \<and> utf8_valid r | _ \<Rightarrow> False)
      else if byte_in 0xE0 0xEF a then
        (case bs of b # c # r \<Rightarrow>
           byte_in (if byte a = 0xE0 then 0xA0 else 0x80) (if byte a = 0xED then 0x9F else 0xBF) b \<and>
           byte_in 0x80 0xBF c \<and> utf8_valid r
         | _ \<Rightarrow> False)
      else if byte_in 0xF0 0xF4 a then
        (case bs of b # c # d # r \<Rightarrow>
           byte_in (if byte a = 0xF0 then 0x90 else 0x80) (if byte a = 0xF4 then 0x8F else 0xBF) b \<and>
           byte_in 0x80 0xBF c \<and> byte_in 0x80 0xBF d \<and> utf8_valid r
         | _ \<Rightarrow> False)
      else False)"

text \<open>In a well-formed string every character has exactly one byte that is not a continuation byte.\<close>

definition chars_count :: "string \<Rightarrow> nat" where
  "chars_count s = length (filter (\<lambda>c. \<not> byte_in 0x80 0xBF c) s)"

text \<open>The control characters are U+0000 to U+001F, U+007F and U+0080 to U+009F.\<close>

fun has_control :: "string \<Rightarrow> bool" where
  "has_control [] = False"
| "has_control [c] = (byte_in 0 0x1F c \<or> byte c = 0x7F)"
| "has_control (c # d # s) =
    (byte_in 0 0x1F c \<or> byte c = 0x7F \<or> byte c = 0xC2 \<and> byte_in 0x80 0x9F d \<or> has_control (d # s))"

lemma chars_count_le: "chars_count s \<le> length s"
  by (simp add: chars_count_def)

end
