(* ===== verification/JsonValue.thy ===== *)
theory JsonValue
  imports Prelude
begin

text \<open>
  JSON values as the components see them (\<open>serde_json::Value\<close> with insertion-ordered objects): the
  value tree and its accessors. Objects are association lists with distinct keys; integers are exact
  and other numbers are left as a type parameter.
\<close>

datatype 'f Number = JsonInt int | JsonFloat 'f

datatype 'f Value =
    VNull
  | VBool bool
  | VNumber "'f Number"
  | VString string
  | VArray "'f Value list"
  | VObject "(string \<times> 'f Value) list"

definition value_get :: "string \<Rightarrow> 'f Value \<Rightarrow> 'f Value option" where
  "value_get key v = (case v of VObject m \<Rightarrow> map_of m key | _ \<Rightarrow> None)"

definition as_str :: "'f Value \<Rightarrow> string option" where
  "as_str v = (case v of VString s \<Rightarrow> Some s | _ \<Rightarrow> None)"

definition as_bool :: "'f Value \<Rightarrow> bool option" where
  "as_bool v = (case v of VBool b \<Rightarrow> Some b | _ \<Rightarrow> None)"

definition as_array :: "'f Value \<Rightarrow> 'f Value list option" where
  "as_array v = (case v of VArray xs \<Rightarrow> Some xs | _ \<Rightarrow> None)"

definition as_object :: "'f Value \<Rightarrow> (string \<times> 'f Value) list option" where
  "as_object v = (case v of VObject m \<Rightarrow> Some m | _ \<Rightarrow> None)"

definition as_i64 :: "'f Value \<Rightarrow> int option" where
  "as_i64 v = (case v of VNumber (JsonInt n) \<Rightarrow> if i64_min \<le> n \<and> n \<le> i64_max then Some n else None | _ \<Rightarrow> None)"

definition as_u64 :: "'f Value \<Rightarrow> nat option" where
  "as_u64 v = (case v of VNumber (JsonInt n) \<Rightarrow> if 0 \<le> n \<and> nat n \<le> u64_max then Some (nat n) else None | _ \<Rightarrow> None)"

lemmas value_accessors = value_get_def as_str_def as_bool_def as_array_def as_object_def as_i64_def as_u64_def

text \<open>Every object of the tree has distinct keys.\<close>

fun value_wf :: "'f Value \<Rightarrow> bool" where
  "value_wf (VArray xs) = list_all value_wf xs"
| "value_wf (VObject m) = (distinct (map fst m) \<and> list_all (\<lambda>(_, v). value_wf v) m)"
| "value_wf _ = True"

end
