(* ===== verification/ExternalContext.thy ===== *)
theory ExternalContext
  imports SessionDb Utf8 JsonValue
begin

text \<open>
  The external context store of \<open>runtime_sqlite/src/sqlite_store/sqlite_external_context.rs\<close>: objects
  with their content kept plain or compressed under a size and a digest, links from sessions to
  objects, the combined transactions of \<open>sqlite_transactions.rs\<close>, and the deletion of a session's data
  of \<open>sqlite_runtime.rs\<close> with its collection of objects that nothing links any more. The compression
  (\<open>zstd\<close>), the digest (\<open>sha2\<close>) and the JSON text of metadata (\<open>serde_json\<close>) are parameters; the error for
  content that is not UTF-8 leaves out the decoder's own detail.
\<close>

section \<open>Content\<close>

text \<open>
  What the code relies on outside the repository: compression of a whole content, reading up to a
  number of bytes of a compressed content, the hexadecimal SHA-256 digest, and writing and reading the JSON text
  of metadata.
\<close>

record content_lib =
  zstd_encode_all :: "string \<Rightarrow> string result"
  zstd_read :: "string \<Rightarrow> nat \<Rightarrow> string result"
  sha256_hex :: "string \<Rightarrow> string"
  json_to_string :: "f64 Value \<Rightarrow> string result"
  json_from_str :: "string \<Rightarrow> f64 Value result"

definition EXTERNAL_CONTEXT_ZSTD_MIN_BYTES :: nat where
  "EXTERNAL_CONTEXT_ZSTD_MIN_BYTES = 16 * 1024"

definition CONTENT_CODEC_IDENTITY_V1 :: string where
  "CONTENT_CODEC_IDENTITY_V1 = ''identity_v1''"

definition CONTENT_CODEC_ZSTD_V1 :: string where
  "CONTENT_CODEC_ZSTD_V1 = ''zstd_v1''"

definition content_digest :: "content_lib \<Rightarrow> string \<Rightarrow> string" where
  "content_digest lib bytes = ''sha256:'' @ sha256_hex lib bytes"

definition encode_external_context_content :: "content_lib \<Rightarrow> string \<Rightarrow> (string \<times> string \<times> int \<times> string) result" where
  "encode_external_context_content lib bytes =
     res_bind (ok_or ''external context content exceeds sqlite size range'' (i64_try_from (length bytes))) (\<lambda>size.
     let sha = content_digest lib bytes;
         plain = (bytes, CONTENT_CODEC_IDENTITY_V1, size, sha)
     in if length bytes < EXTERNAL_CONTEXT_ZSTD_MIN_BYTES then Ok plain
        else res_bind (map_err (\<lambda>e. ''compress external context content failed: '' @ e) (zstd_encode_all lib bytes)) (\<lambda>compressed.
          if length bytes \<le> length compressed then Ok plain
          else Ok (compressed, CONTENT_CODEC_ZSTD_V1, size, sha)))"

definition decode_external_context_content :: "content_lib \<Rightarrow> string \<Rightarrow> string \<Rightarrow> int \<Rightarrow> string \<Rightarrow> string result" where
  "decode_external_context_content lib content codec expected_size expected_sha =
     res_bind (ensure (0 \<le> expected_size) ''external context content uncompressed size is invalid'') (\<lambda>_.
     let size = nat expected_size in
     res_bind (if codec = CONTENT_CODEC_IDENTITY_V1 then Ok content
               else if codec = CONTENT_CODEC_ZSTD_V1
               then map_err (\<lambda>e. ''decompress external context content failed: '' @ e)
                      (zstd_read lib content (u64_saturating_add size 1))
               else Err (''unsupported external context content codec: '' @ codec)) (\<lambda>bytes.
     res_bind (ensure (length bytes = size) (''external context content size mismatch: expected '' @
       show_nat size @ '', got '' @ show_nat (length bytes))) (\<lambda>_.
     res_bind (ensure (content_digest lib bytes = expected_sha) (''external context content sha256 mismatch: expected '' @
       expected_sha @ '', got '' @ content_digest lib bytes)) (\<lambda>_.
     if utf8_valid bytes then Ok bytes else Err ''external context content is not UTF-8''))))"

section \<open>Objects\<close>

record ExternalContextObject =
  ext_schema_version :: string
  ext_object_id :: string
  ext_object_kind :: string
  ext_provider_id :: string
  ext_tool_name :: string
  ext_title :: string
  ext_content :: string
  ext_metadata :: "f64 Value"
  ext_updated_at_ms :: int

definition object_row :: "ExternalContextObject \<Rightarrow> string \<Rightarrow> string \<times> string \<times> int \<times> string \<Rightarrow> StoredExternalContextObject" where
  "object_row obj metadata_text = (\<lambda>(content, codec, size, sha).
     \<lparr>object_id = ext_object_id obj, schema_version = ext_schema_version obj, object_kind = ext_object_kind obj,
      object_provider_id = ext_provider_id obj, object_tool_name = ext_tool_name obj, title = ext_title obj,
      content_blob = content, content_codec = codec, content_uncompressed_bytes = size, content_sha256 = sha,
      object_metadata_json = metadata_text, object_updated_at_ms = ext_updated_at_ms obj,
      inserted_at_ms = ext_updated_at_ms obj\<rparr>)"

text \<open>\<open>INSERT ... ON CONFLICT(object_id) DO UPDATE\<close>: an existing row keeps its insertion time.\<close>

definition upsert_object :: "StoredExternalContextObject \<Rightarrow> StoredExternalContextObject list \<Rightarrow> StoredExternalContextObject list" where
  "upsert_object row rows =
     (if sql_count (\<lambda>r. object_id r = object_id row) rows = 0 then rows @ [row]
      else sql_update (\<lambda>r. object_id r = object_id row) (\<lambda>r. row\<lparr>inserted_at_ms := inserted_at_ms r\<rparr>) rows)"

definition upsert_external_context_object_conn :: "content_lib \<Rightarrow> ExternalContextObject \<Rightarrow> (string, unit) stx" where
  "upsert_external_context_object_conn lib obj s =
     res_bind (map_err (\<lambda>e. ''serialize external context metadata failed: '' @ e)
       (json_to_string lib (ext_metadata obj))) (\<lambda>metadata_text.
     res_bind (encode_external_context_content lib (ext_content obj)) (\<lambda>encoded.
     Ok ((), s\<lparr>external_objects := upsert_object (object_row obj metadata_text encoded) (external_objects s)\<rparr>)))"

definition decode_stored_external_context_object ::
    "content_lib \<Rightarrow> StoredExternalContextObject \<Rightarrow> ExternalContextObject result" where
  "decode_stored_external_context_object lib r =
     res_bind (decode_external_context_content lib (content_blob r) (content_codec r) (content_uncompressed_bytes r)
       (content_sha256 r)) (\<lambda>content.
     res_bind (map_err (\<lambda>e. ''decode external context metadata failed: '' @ e)
       (json_from_str lib (object_metadata_json r))) (\<lambda>metadata.
     Ok \<lparr>ext_schema_version = schema_version r, ext_object_id = object_id r, ext_object_kind = object_kind r,
         ext_provider_id = object_provider_id r, ext_tool_name = object_tool_name r, ext_title = title r,
         ext_content = content, ext_metadata = metadata, ext_updated_at_ms = object_updated_at_ms r\<rparr>))"

definition load_external_context_object_conn :: "content_lib \<Rightarrow> string \<Rightarrow> session_db \<Rightarrow> ExternalContextObject option result" where
  "load_external_context_object_conn lib i s =
     (case sql_find (\<lambda>r. object_id r = i) (external_objects s) of
        None \<Rightarrow> Ok None
      | Some r \<Rightarrow> res_bind (map_err (\<lambda>e. ''load external context object failed: '' @ e)
          (decode_stored_external_context_object lib r)) (\<lambda>obj. Ok (Some obj)))"

definition load_external_context_object :: "content_lib \<Rightarrow> string \<Rightarrow> session_db \<Rightarrow> ExternalContextObject option result" where
  "load_external_context_object lib i s =
     (let i = trim i in
      if i = [] then Err ''external context object_id is required'' else load_external_context_object_conn lib i s)"

section \<open>Links\<close>

record ExternalContextObjectLink =
  req_link_session_id :: string
  req_link_turn_id :: "string option"
  req_link_tool_call_id :: "string option"
  req_link_object_id :: string
  req_link_provider_id :: string
  req_link_tool_name :: string
  req_linked_at_ms :: int

definition link_key :: "external_context_link \<Rightarrow> string \<times> string \<times> string \<times> string" where
  "link_key l = (link_session_id l, link_object_id l, link_turn_id l, link_tool_call_id l)"

definition unwrap_or_default :: "string option \<Rightarrow> string" where
  "unwrap_or_default v = (case v of None \<Rightarrow> [] | Some t \<Rightarrow> t)"

definition link_row :: "ExternalContextObjectLink \<Rightarrow> external_context_link" where
  "link_row link = \<lparr>link_session_id = trim (req_link_session_id link), link_object_id = trim (req_link_object_id link),
     link_turn_id = unwrap_or_default (req_link_turn_id link),
     link_tool_call_id = unwrap_or_default (req_link_tool_call_id link),
     link_provider_id = trim (req_link_provider_id link), link_tool_name = trim (req_link_tool_name link),
     linked_at_ms = req_linked_at_ms link\<rparr>"

definition upsert_link :: "external_context_link \<Rightarrow> external_context_link list \<Rightarrow> external_context_link list" where
  "upsert_link row rows =
     (if sql_count (\<lambda>l. link_key l = link_key row) rows = 0 then rows @ [row]
      else sql_update (\<lambda>l. link_key l = link_key row) (\<lambda>l. l\<lparr>link_provider_id := link_provider_id row,
        link_tool_name := link_tool_name row, linked_at_ms := linked_at_ms row\<rparr>) rows)"

definition link_external_context_object_conn :: "ExternalContextObjectLink \<Rightarrow> (string, unit) stx" where
  "link_external_context_object_conn link s =
     (let row = link_row link in
      res_bind (ensure (link_session_id row \<noteq> []) ''external context link session_id is required'') (\<lambda>_.
      res_bind (ensure (link_object_id row \<noteq> []) ''external context link object_id is required'') (\<lambda>_.
      res_bind (ensure (\<exists>r \<in> set (external_objects s). object_id r = link_object_id row)
        (''external context object not found for link: '' @ link_object_id row)) (\<lambda>_.
      Ok ((), s\<lparr>external_links := upsert_link row (external_links s)\<rparr>)))))"

definition load_external_context_object_link ::
    "string \<Rightarrow> string \<Rightarrow> string \<Rightarrow> string \<Rightarrow> session_db \<Rightarrow> ExternalContextObjectLink option result" where
  "load_external_context_object_link session obj turn call s =
     (if blank session \<or> blank obj \<or> blank turn \<or> blank call then Err ''external context link identity is required''
      else Ok (map_option (\<lambda>l. \<lparr>req_link_session_id = link_session_id l, req_link_turn_id = Some (link_turn_id l),
          req_link_tool_call_id = Some (link_tool_call_id l), req_link_object_id = link_object_id l,
          req_link_provider_id = link_provider_id l, req_link_tool_name = link_tool_name l,
          req_linked_at_ms = linked_at_ms l\<rparr>)
        (sql_find (\<lambda>l. link_key l = (session, obj, turn, call)) (external_links s))))"

record ExternalContextObjectIndexEntry =
  index_object_id :: string
  index_object_kind :: string
  index_provider_id :: string
  index_tool_name :: string
  index_title :: string
  index_updated_at_ms :: int
  link_count :: nat
  last_linked_at_ms :: "int option"

definition index_entry :: "external_context_link list \<Rightarrow> StoredExternalContextObject \<Rightarrow> ExternalContextObjectIndexEntry" where
  "index_entry links r =
     (let mine = filter (\<lambda>l. link_object_id l = object_id r) links in
      \<lparr>index_object_id = object_id r, index_object_kind = object_kind r, index_provider_id = object_provider_id r,
       index_tool_name = object_tool_name r, index_title = title r, index_updated_at_ms = object_updated_at_ms r,
       link_count = length mine,
       last_linked_at_ms = (if mine = [] then None else Some (Max (set (map linked_at_ms mine))))\<rparr>)"

definition list_external_context_objects ::
    "string option \<Rightarrow> nat \<Rightarrow> nat \<Rightarrow> session_db \<Rightarrow> ExternalContextObjectIndexEntry list result" where
  "list_external_context_objects session limit offset s =
     (let limit = min 128 (max 1 limit) in
      res_bind (to_i64 limit) (\<lambda>_. res_bind (to_i64 offset) (\<lambda>_.
      Ok (case session of
            Some ses \<Rightarrow>
              let links = filter (\<lambda>l. link_session_id l = ses) (external_links s) in
              sql_page limit offset
                (sort_key (\<lambda>e. (case last_linked_at_ms e of Some t \<Rightarrow> - t | None \<Rightarrow> 0, index_object_id e))
                  (map (index_entry links)
                    (filter (\<lambda>r. \<exists>l \<in> set links. link_object_id l = object_id r) (external_objects s))))
          | None \<Rightarrow>
              sql_page limit offset
                (sort_key (\<lambda>e. (- index_updated_at_ms e, index_object_id e))
                  (map (index_entry (external_links s)) (external_objects s)))))))"

section \<open>Combined transactions\<close>

definition upsert_external_context_and_schedule_job ::
    "content_lib \<Rightarrow> ExternalContextObject \<Rightarrow> RuntimeJobRecord \<Rightarrow> (string, ScheduleRuntimeJobResult) stx" where
  "upsert_external_context_and_schedule_job lib obj job s =
     res_bind (upsert_external_context_object_conn lib obj s) (\<lambda>(_, s).
     on_base (schedule_with ''upsert_external_context_and_schedule_job'' job) s)"

definition upsert_external_context_link_and_complete_job ::
    "content_lib \<Rightarrow> ExternalContextObject option \<Rightarrow> ExternalContextObjectLink option \<Rightarrow> CompleteRuntimeJobRequest \<Rightarrow> (string, unit) stx" where
  "upsert_external_context_link_and_complete_job lib obj link req s =
     res_bind (case obj of Some obj \<Rightarrow> upsert_external_context_object_conn lib obj s | None \<Rightarrow> Ok ((), s)) (\<lambda>(_, s).
     res_bind (case link of Some link \<Rightarrow> link_external_context_object_conn link s | None \<Rightarrow> Ok ((), s)) (\<lambda>(_, s).
     res_bind (on_base (complete_runtime_job_conn req) s) (\<lambda>(_, s).
     on_base (upsert_runtime_job_outbox_event (complete_job_id req) RUNTIME_JOB_TERMINAL_EVENT) s)))"

section \<open>Deleting a session\<close>

text \<open>Deleting jobs deletes their outbox rows and their supplement queues (\<open>ON DELETE CASCADE\<close>).\<close>

definition delete_session_jobs :: "string \<Rightarrow> session_db \<Rightarrow> session_db" where
  "delete_session_jobs session s =
     (let gone = (\<lambda>r. session_id r = Some session);
          gone_id = (\<lambda>j. \<exists>r \<in> set (runtime_jobs (base s)). gone r \<and> job_id r = j)
      in s\<lparr>base := (base s)\<lparr>runtime_jobs := sql_delete gone (runtime_jobs (base s)),
              runtime_job_outbox := sql_delete (\<lambda>ob. gone_id (outbox_job_id ob)) (runtime_job_outbox (base s))\<rparr>,
           supplement_queues := sql_delete (\<lambda>q. gone_id (queue_lifecycle_job_id q)) (supplement_queues s)\<rparr>)"

definition delete_orphan_object :: "string \<Rightarrow> session_db \<Rightarrow> session_db" where
  "delete_orphan_object i s = s\<lparr>external_objects := sql_delete (\<lambda>r. object_id r = i \<and>
     \<not> (\<exists>l \<in> set (external_links s). link_object_id l = i)) (external_objects s)\<rparr>"

text \<open>
  Deleting the heads of a session's transcripts deletes, by \<open>ON DELETE CASCADE\<close>, the rows that refer to them; a block
  version refers to a block identity and goes with it. A checkpoint refers to a frontier without a cascade, so
  the statement fails if one that stays refers to a frontier that goes.
\<close>

definition head_key :: "transcript_projection_head \<Rightarrow> string \<times> string \<times> string" where
  "head_key h = (head_session_id h, head_projection_version h, head_projection_generation h)"

definition row_key :: "transcript_row \<Rightarrow> string \<times> string \<times> string" where
  "row_key r = (row_session_id r, row_projection_version r, row_projection_generation r)"

definition cascades :: "string \<Rightarrow> session_db \<Rightarrow> transcript_row \<Rightarrow> bool" where
  "cascades session s r =
     (let gone = (\<lambda>r. \<exists>h \<in> set (transcript_heads s). head_session_id h = session \<and> head_key h = row_key r)
      in if row_table r = BlockVersions
         then \<exists>b \<in> set (transcript_rows s). row_table b = BlockIdentities \<and> gone b \<and> row_key b = row_key r \<and>
           row_block_id b = row_block_id r
         else gone r)"

definition delete_transcript_heads :: "string \<Rightarrow> session_db \<Rightarrow> session_db result" where
  "delete_transcript_heads session s =
     (if \<exists>c \<in> set (transcript_rows s). row_table c = ProjectionCheckpoints \<and> \<not> cascades session s c \<and>
          (\<exists>f \<in> set (transcript_rows s). row_table f = Frontiers \<and> cascades session s f \<and> row_frontier_ref f = row_frontier_ref c)
      then Err ''delete session data from transcript_projection_heads failed: FOREIGN KEY constraint failed''
      else Ok (s\<lparr>transcript_heads := sql_delete (\<lambda>h. head_session_id h = session) (transcript_heads s),
             transcript_rows := sql_delete (cascades session s) (transcript_rows s)\<rparr>))"

definition delete_session_data :: "string \<Rightarrow> (string, unit) stx" where
  "delete_session_data session s =
     (let session = trim session in
      res_bind (ensure (session \<noteq> []) ''sessionId is required'') (\<lambda>_.
      let object_ids = remdups (map link_object_id (filter (\<lambda>l. link_session_id l = session) (external_links s)));
          s = s\<lparr>base := (base s)\<lparr>runtime_events := sql_delete (\<lambda>e. event_session_id e = session) (runtime_events (base s))\<rparr>,
                snapshots := sql_delete (\<lambda>r. snapshot_session_id r = session) (snapshots s)\<rparr>;
          s = delete_checkpoints (\<lambda>cp. checkpoint_session_id cp = session) s;
          s = s\<lparr>base := (base s)\<lparr>dead_letters := sql_delete (\<lambda>d. dl_session_id d = Some session) (dead_letters (base s)),
                resource_claims := sql_delete (\<lambda>c. claim_session_id c = Some session) (resource_claims (base s))\<rparr>\<rparr>;
          s = delete_session_jobs session s;
          s = s\<lparr>external_links := sql_delete (\<lambda>l. link_session_id l = session) (external_links s)\<rparr>
      in res_bind (delete_transcript_heads session s) (\<lambda>s. Ok ((), fold delete_orphan_object object_ids s))))"

section \<open>Contents come back\<close>

lemma encode_cases:
  assumes "encode_external_context_content lib bytes = Ok (content, codec, len, sha)"
  shows "len = int (length bytes)" and "len \<le> i64_max" and "sha = content_digest lib bytes"
    and "codec = CONTENT_CODEC_IDENTITY_V1 \<and> content = bytes \<or> codec = CONTENT_CODEC_ZSTD_V1 \<and> zstd_encode_all lib bytes = Ok content"
  using assms by (auto simp: encode_external_context_content_def result_simps i64_try_from_def Let_def split: if_splits)

lemma decode_Ok:
  assumes "decode_external_context_content lib content codec len sha = Ok bytes"
  shows "len = int (length bytes)" and "content_digest lib bytes = sha" and "utf8_valid bytes"
  using assms by (auto simp: decode_external_context_content_def result_simps Let_def split: if_splits)

lemma decode_encode:
  assumes zstd: "\<And>e n. zstd_encode_all lib bytes = Ok e \<Longrightarrow> zstd_read lib e n = Ok (take n bytes)"
    and "encode_external_context_content lib bytes = Ok (content, codec, len, sha)" and "utf8_valid bytes"
  shows "decode_external_context_content lib content codec len sha = Ok bytes"
proof -
  note enc = encode_cases [OF assms(2)]
  have "u64_saturating_add (length bytes) (Suc 0) = Suc (length bytes)"
    using enc(1,2) by (simp add: u64_saturating_add_def i64_max_def u64_max_def)
  with enc(4) zstd assms(3) show ?thesis
    by (auto simp: decode_external_context_content_def enc(1,3) CONTENT_CODEC_IDENTITY_V1_def CONTENT_CODEC_ZSTD_V1_def)
qed

lemma load_upserted:
  "\<exists>t. sql_find (\<lambda>r. object_id r = object_id row) (upsert_object row rows) = Some (row\<lparr>inserted_at_ms := t\<rparr>)"
proof (cases "sql_find (\<lambda>r. object_id r = object_id row) rows")
  case None
  then have "sql_count (\<lambda>r. object_id r = object_id row) rows = 0" by (simp add: sql_count_eq_0 sql_find_None)
  with None show ?thesis
    by (auto simp: upsert_object_def sql_find_snoc intro!: exI [of _ "inserted_at_ms row"])
next
  case (Some r)
  then have "object_id r = object_id row" "sql_count (\<lambda>r. object_id r = object_id row) rows \<noteq> 0"
    by (auto simp: sql_count_eq_0 dest: sql_find_Some)
  with Some show ?thesis by (auto simp: upsert_object_def sql_find_update)
qed

text \<open>
  The values that \<open>serde_json\<close> documents to read back from their own text in its default configuration: numbers
  are integers of 64 bits (the reading of other numbers is not exact without the feature \<open>float_roundtrip\<close>), texts
  are UTF-8, keys are distinct, and arrays and objects nest less than 128 levels deep.
\<close>

fun plain_json :: "nat \<Rightarrow> 'f Value \<Rightarrow> bool" where
  "plain_json d (VNumber (JsonInt i)) \<longleftrightarrow> i64_min \<le> i \<and> i \<le> int u64_max"
| "plain_json d (VNumber (JsonFloat f)) \<longleftrightarrow> False"
| "plain_json d (VString t) \<longleftrightarrow> utf8_valid t"
| "plain_json d (VArray xs) \<longleftrightarrow> d \<noteq> 0 \<and> (\<forall>x \<in> set xs. plain_json (d - 1) x)"
| "plain_json d (VObject m) \<longleftrightarrow> d \<noteq> 0 \<and> distinct (map fst m) \<and>
     (\<forall>(k, x) \<in> set m. utf8_valid k \<and> plain_json (d - 1) x)"
| "plain_json d VNull \<longleftrightarrow> True"
| "plain_json d (VBool b) \<longleftrightarrow> True"

definition json_reads_back :: "content_lib \<Rightarrow> bool" where
  "json_reads_back lib \<longleftrightarrow> (\<forall>v t. plain_json 127 v \<longrightarrow> json_to_string lib v = Ok t \<longrightarrow> json_from_str lib t = Ok v)"

text \<open>Loading gives the object with its metadata as the JSON reader returns it, or the reader's error.\<close>

lemma load_after_upsert:
  assumes "\<And>b e n. zstd_encode_all lib b = Ok e \<Longrightarrow> zstd_read lib e n = Ok (take n b)"
    and "utf8_valid (ext_content obj)" and "trim (ext_object_id obj) = ext_object_id obj" and "ext_object_id obj \<noteq> []"
    and "upsert_external_context_object_conn lib obj s = Ok ((), s')"
  shows "\<exists>t. json_to_string lib (ext_metadata obj) = Ok t \<and>
    load_external_context_object lib (ext_object_id obj) s' =
      (case json_from_str lib t of
         Inl e \<Rightarrow> Err (''load external context object failed: '' @ ''decode external context metadata failed: '' @ e)
       | Inr m \<Rightarrow> Ok (Some (obj\<lparr>ext_metadata := m\<rparr>)))"
proof -
  from assms(5) obtain t content codec len sha where
    t: "json_to_string lib (ext_metadata obj) = Ok t"
    and enc: "encode_external_context_content lib (ext_content obj) = Ok (content, codec, len, sha)"
    and s': "s' = s\<lparr>external_objects := upsert_object (object_row obj t (content, codec, len, sha)) (external_objects s)\<rparr>"
    by (auto simp: upsert_external_context_object_conn_def result_simps)
  let ?row = "object_row obj t (content, codec, len, sha)"
  have "object_id ?row = ext_object_id obj" by (simp add: object_row_def)
  then obtain n where "sql_find (\<lambda>r. object_id r = ext_object_id obj) (external_objects s') = Some (?row\<lparr>inserted_at_ms := n\<rparr>)"
    using load_upserted [of ?row "external_objects s"] by (auto simp: s')
  moreover have "decode_external_context_content lib content codec len sha = Ok (ext_content obj)"
    by (rule decode_encode [OF _ enc assms(2)]) (rule assms(1))
  ultimately have "load_external_context_object lib (ext_object_id obj) s' =
      (case json_from_str lib t of
         Inl e \<Rightarrow> Err (''load external context object failed: '' @ ''decode external context metadata failed: '' @ e)
       | Inr m \<Rightarrow> Ok (Some (obj\<lparr>ext_metadata := m\<rparr>)))"
    using assms(3,4)
    by (cases "json_from_str lib t") (simp_all add: load_external_context_object_def load_external_context_object_conn_def
        decode_stored_external_context_object_def object_row_def map_err_def)
  with t show ?thesis by blast
qed

end
