(* ===== verification/SessionMachine.thy ===== *)
theory SessionMachine
  imports SupplementQueue ExternalContext StoreSystem
begin

text \<open>
  The whole SQLite store as a state machine: every operation of the job store and of the session tables as
  one atomic step on the database file, the invariant of the session tables, and its preservation by every
  operation. A failed transaction leaves the database as it was.
\<close>

section \<open>Operations\<close>

record session_env =
  env_codec :: wait_codec
  env_lib :: content_lib

datatype session_op =
    Store store_op
  | SaveCheckpoint CheckpointRecord
  | SaveWaitCheckpoint SaveWaitCheckpointRequest
  | ConsumeWaitCheckpoint ConsumeWaitCheckpointRequest
  | SaveSnapshot string string int
  | CompareAndSaveSnapshot string "string option" string int
  | UpsertObject ExternalContextObject
  | LinkObject ExternalContextObjectLink
  | UpsertObjectAndSchedule ExternalContextObject RuntimeJobRecord
  | UpsertLinkAndComplete "ExternalContextObject option" "ExternalContextObjectLink option" CompleteRuntimeJobRequest
  | EnqueueSupplement EnqueueTurnSupplementRequest
  | ClaimSupplements ClaimTurnSupplementsRequest
  | AcknowledgeSupplements AcknowledgeTurnSupplementsRequest
  | CloseQueue CloseTurnSupplementQueueRequest
  | DeleteSession string

definition commit_session :: "('e, 'a) stx \<Rightarrow> session_db \<Rightarrow> session_db" where
  "commit_session f s = (case f s of Inl _ \<Rightarrow> s | Inr (_, s') \<Rightarrow> s')"

fun session_exec :: "session_env \<Rightarrow> session_op \<Rightarrow> session_db \<Rightarrow> session_db" where
  "session_exec env (Store op) s = commit_session (on_base (store_tx op)) s"
| "session_exec env (SaveCheckpoint cp) s = commit_session (save_checkpoint_conn (env_codec env) cp) s"
| "session_exec env (SaveWaitCheckpoint req) s = commit_session (save_wait_checkpoint (env_codec env) req) s"
| "session_exec env (ConsumeWaitCheckpoint req) s = commit_session (consume_wait_checkpoint req) s"
| "session_exec env (SaveSnapshot ses text now) s = commit_session (save_agent_runtime_snapshot ses text now) s"
| "session_exec env (CompareAndSaveSnapshot ses old text now) s =
     commit_session (compare_and_save_agent_runtime_snapshot ses old text now) s"
| "session_exec env (UpsertObject obj) s = commit_session (upsert_external_context_object_conn (env_lib env) obj) s"
| "session_exec env (LinkObject link) s = commit_session (link_external_context_object_conn link) s"
| "session_exec env (UpsertObjectAndSchedule obj job) s =
     commit_session (upsert_external_context_and_schedule_job (env_lib env) obj job) s"
| "session_exec env (UpsertLinkAndComplete obj link req) s =
     commit_session (upsert_external_context_link_and_complete_job (env_lib env) obj link req) s"
| "session_exec env (EnqueueSupplement r) s = commit_session (enqueue_turn_supplement (sha256_hex (env_lib env)) r) s"
| "session_exec env (ClaimSupplements r) s = commit_session (claim_turn_supplements r) s"
| "session_exec env (AcknowledgeSupplements r) s = commit_session (acknowledge_turn_supplements r) s"
| "session_exec env (CloseQueue r) s = commit_session (close_turn_supplement_queue r) s"
| "session_exec env (DeleteSession ses) s = commit_session (delete_session_data ses) s"

definition session_step :: "session_env \<Rightarrow> session_db \<Rightarrow> session_op \<Rightarrow> session_db \<Rightarrow> bool" where
  "session_step env s op s' \<longleftrightarrow> s' = session_exec env op s"

lemma commit_session_cases:
  obtains (ok) v where "f s = Ok (v, commit_session f s)" | (err) e where "f s = Err e" "commit_session f s = s"
  by (cases "f s") (auto simp: commit_session_def)

lemma commit_session_pres: "(\<And>v s'. f s = Ok (v, s') \<Longrightarrow> P s') \<Longrightarrow> P s \<Longrightarrow> P (commit_session f s)"
  by (cases f s rule: commit_session_cases) simp_all

lemma on_base_Ok [simp]: "on_base f s = Ok (v, s') \<longleftrightarrow> (\<exists>db. f (base s) = Ok (v, db) \<and> s' = s\<lparr>base := db\<rparr>)"
  by (auto simp: on_base_def result_simps)

lemma on_base_bind:
  "res_bind (on_base f s) (\<lambda>(_, s). on_base g s) = on_base (\<lambda>db. res_bind (f db) (\<lambda>(_, db). g db)) s"
  by (simp add: on_base_def res_bind_def split: sum.split prod.split)

lemma upsert_link_complete_conn:
  "upsert_external_context_link_and_complete_job lib obj link req s =
     res_bind (case obj of Some obj \<Rightarrow> upsert_external_context_object_conn lib obj s | None \<Rightarrow> Ok ((), s)) (\<lambda>(_, s).
     res_bind (case link of Some link \<Rightarrow> link_external_context_object_conn link s | None \<Rightarrow> Ok ((), s)) (\<lambda>(_, s).
     on_base (complete_runtime_job req) s))"
  by (simp add: upsert_external_context_link_and_complete_job_def on_base_bind complete_runtime_job_def [abs_def])

section \<open>What an operation does to the job tables\<close>

text \<open>
  Outside the deletion of a session the job tables only see operations of the job store, and the wake of a
  queued lifecycle job by an accepted supplement.
\<close>

fun base_ops :: "session_op \<Rightarrow> store_op list" where
  "base_ops (Store op) = [op]"
| "base_ops (SaveWaitCheckpoint req) = [AppendEventIdempotent (save_event req)]"
| "base_ops (ConsumeWaitCheckpoint req) = map AppendEventIdempotent (consume_events req)"
| "base_ops (UpsertObjectAndSchedule obj job) = [Schedule job]"
| "base_ops (UpsertLinkAndComplete obj link req) = [Complete req]"
| "base_ops _ = []"

fun deletes_session :: "session_op \<Rightarrow> bool" where
  "deletes_session (DeleteSession ses) = True"
| "deletes_session _ = False"

definition wake_queued :: "EnqueueTurnSupplementRequest \<Rightarrow> db \<Rightarrow> db" where
  "wake_queued r db = db\<lparr>runtime_jobs := sql_update (\<lambda>j. job_id j = enq_lifecycle_job_id r \<and> status j = Queued)
    (\<lambda>j. j\<lparr>run_at_ms := min (run_at_ms j) (enq_created_at_ms r), updated_at_ms := enq_created_at_ms r\<rparr>) (runtime_jobs db)\<rparr>"

lemma base_wake_lifecycle_job: "base (wake_lifecycle_job r s) \<in> {base s, wake_queued r (base s)}"
  by (simp add: wake_lifecycle_job_def wake_queued_def)

lemma idempotent_append_exec: "append_event_conn_idempotent ev db = Ok (b, db') \<Longrightarrow> exec (AppendEventIdempotent ev) db = db'"
  by (rule exec_Ok [where u = "()"]) simp

lemma append_consumed_base:
  "fold_result append_consumed (s, any) evs = Ok (s', any') \<Longrightarrow>
     s' = s\<lparr>base := fold exec (map AppendEventIdempotent evs) (base s)\<rparr>"
proof (induction evs arbitrary: s any)
  case (Cons ev evs)
  from Cons.prems obtain b db1 any1 where "append_event_conn_idempotent ev (base s) = Ok (b, db1)"
    and rest: "fold_result append_consumed (s\<lparr>base := db1\<rparr>, any1) evs = Ok (s', any')"
    by (auto simp: append_consumed_def result_simps)
  then show ?case using Cons.IH [OF rest] by (simp add: idempotent_append_exec)
qed simp

lemma insert_waiters_base: "fold_result insert_waiter s ws = Ok s' \<Longrightarrow> s' = s\<lparr>waiters := waiters s @ ws\<rparr>"
proof (induction ws arbitrary: s)
  case (Cons w ws)
  then obtain s1 where first: "insert_waiter s w = Ok s1" and rest: "fold_result insert_waiter s1 ws = Ok s'"
    by (auto simp: result_simps)
  have "s1 = s\<lparr>waiters := waiters s @ [w]\<rparr>" using first by (auto simp: insert_waiter_def split: if_splits)
  with Cons.IH [OF rest] show ?case by simp
qed simp

lemma save_checkpoint_base: "save_checkpoint_conn codec cp s = Ok (u, s') \<Longrightarrow> base s' = base s"
  by (auto simp: save_checkpoint_conn_def result_simps Let_def split: if_splits option.splits dest!: insert_waiters_base)

lemma external_base:
  "upsert_external_context_object_conn lib obj s = Ok (u, s') \<Longrightarrow> base s' = base s"
  "link_external_context_object_conn link s = Ok (u, s') \<Longrightarrow> base s' = base s"
  by (auto simp: upsert_external_context_object_conn_def link_external_context_object_conn_def result_simps Let_def split: if_splits)

lemma update_queue_base: "update_queue a q now s = Ok (u, s') \<Longrightarrow> base s' = base s"
  by (auto simp: update_queue_def result_simps split: if_splits)

lemma insert_queue_base: "insert_queue what q s = Ok (u, s') \<Longrightarrow> base s' = base s"
  by (auto dest!: insert_queue_effect)

lemma write_entries_base: "write_entries r revn seq es dd s = Ok (u, s') \<Longrightarrow> base s' = base s"
  by (auto simp: write_entries_def Let_def result_simps split: if_splits dest: insert_queue_base)

lemma enqueue_base:
  "enqueue_turn_supplement sha r s = Ok (v, s') \<Longrightarrow> base s' \<in> {base s, wake_queued r (base s)}"
  using base_wake_lifecycle_job [of r]
  by (auto simp: enqueue_Ok_iff admit_entry_def Let_def result_simps split: if_splits option.splits dest!: write_entries_base) metis+

lemma claim_base: "claim_turn_supplements r s = Ok (v, s') \<Longrightarrow> base s' = base s"
  by (auto simp: claim_turn_supplements_def insert_closed_queue_def result_simps Let_def
      split: if_splits option.splits dest: update_queue_base insert_queue_base)

lemma ack_base: "acknowledge_turn_supplements r s = Ok (v, s') \<Longrightarrow> base s' = base s"
  by (auto simp: acknowledge_turn_supplements_def result_simps Let_def split: if_splits dest: update_queue_base)

lemma close_base: "close_turn_supplement_queue r s = Ok (v, s') \<Longrightarrow> base s' = base s"
  by (auto simp: close_turn_supplement_queue_def result_simps split: option.splits dest: update_queue_base insert_queue_base)

lemma schedule_exec: "schedule_with what job db = Ok (v, db') \<Longrightarrow> exec (Schedule job) db = db'"
  by (rule exec_Ok [where u = "()"])
    (auto simp: schedule_runtime_job_def schedule_with_def res_bind_def map_err_def ok_or_def split: sum.splits option.splits if_splits prod.splits)

lemma commit_base: "(\<And>v s'. f s = Ok (v, s') \<Longrightarrow> base s' = base s) \<Longrightarrow> base (commit_session f s) = base s"
  by (cases f s rule: commit_session_cases) auto

lemma commit_base_to:
  "(\<And>v s'. f s = Ok (v, s') \<Longrightarrow> base s' = db) \<Longrightarrow> base (commit_session f s) = base s \<or> base (commit_session f s) = db"
  by (cases f s rule: commit_session_cases) auto

lemma save_wait_base: "save_wait_checkpoint codec req s = Ok (u, s') \<Longrightarrow> base s' = exec (AppendEventIdempotent (save_event req)) (base s)"
  by (auto simp: save_wait_checkpoint_def result_simps Let_def split: option.splits if_splits
      dest!: save_checkpoint_base idempotent_append_exec)

lemma consume_base:
  "consume_wait_checkpoint req s = Ok (u, s') \<Longrightarrow> base s' = fold exec (map AppendEventIdempotent (consume_events req)) (base s)"
  by (auto simp: consume_wait_checkpoint_def result_simps Let_def delete_checkpoints_def
      split: option.splits if_splits dest!: append_consumed_base)

lemma upsert_schedule_base:
  "upsert_external_context_and_schedule_job lib obj job s = Ok (v, s') \<Longrightarrow> base s' = exec (Schedule job) (base s)"
  by (auto simp: upsert_external_context_and_schedule_job_def result_simps dest!: external_base schedule_exec)

lemma upsert_complete_base:
  "upsert_external_context_link_and_complete_job lib obj link req s = Ok (v, s') \<Longrightarrow> base s' = exec (Complete req) (base s)"
  by (auto simp: upsert_link_complete_conn result_simps split: option.splits dest!: external_base intro!: exec_Ok [of "Complete req", symmetric, simplified])

lemma commit_base_quiet:
  "base (commit_session (save_checkpoint_conn codec cp) s) = base s"
  "base (commit_session (upsert_external_context_object_conn lib obj) s) = base s"
  "base (commit_session (link_external_context_object_conn link) s) = base s"
  "base (commit_session (claim_turn_supplements clm) s) = base s"
  "base (commit_session (acknowledge_turn_supplements ack) s) = base s"
  "base (commit_session (close_turn_supplement_queue cls) s) = base s"
  by (rule commit_base, erule save_checkpoint_base external_base claim_base ack_base close_base)+

lemma session_exec_base:
  assumes "\<not> deletes_session op"
  shows "base (session_exec env op s) = base s \<or> base (session_exec env op s) = fold exec (base_ops op) (base s) \<or>
    (\<exists>r. op = EnqueueSupplement r \<and> base (session_exec env op s) = wake_queued r (base s))"
proof (cases op)
  case (Store sop)
  have "base (commit_session (on_base (store_tx sop)) s) = base s \<or> base (commit_session (on_base (store_tx sop)) s) = exec sop (base s)"
    by (rule commit_base_to) (auto simp: exec_Ok)
  then show ?thesis using Store by simp
next
  case (EnqueueSupplement r)
  then show ?thesis
    using enqueue_base [of "sha256_hex (env_lib env)" r s]
    by (cases "enqueue_turn_supplement (sha256_hex (env_lib env)) r" s rule: commit_session_cases) auto
next
  case (SaveSnapshot ses new now)
  then show ?thesis by (simp add: commit_session_def save_agent_runtime_snapshot_def Let_def)
next
  case (CompareAndSaveSnapshot ses old new now)
  then show ?thesis by (simp add: commit_session_def compare_and_save_agent_runtime_snapshot_def Let_def split: option.split)
next
  case (SaveWaitCheckpoint req)
  then show ?thesis using commit_base_to [of "save_wait_checkpoint (env_codec env) req" s, OF save_wait_base] by simp
next
  case (ConsumeWaitCheckpoint req)
  then show ?thesis using commit_base_to [of "consume_wait_checkpoint req" s, OF consume_base] by simp
next
  case (UpsertObjectAndSchedule obj job)
  then show ?thesis using commit_base_to [of "upsert_external_context_and_schedule_job (env_lib env) obj job" s, OF upsert_schedule_base] by simp
next
  case (UpsertLinkAndComplete obj link req)
  then show ?thesis using commit_base_to [of "upsert_external_context_link_and_complete_job (env_lib env) obj link req" s, OF upsert_complete_base]
    by simp
qed (use assms in \<open>auto simp: commit_base_quiet\<close>)

end
