(* ===== verification/SessionInvariant.thy ===== *)
theory SessionInvariant
  imports SessionMachine
begin

text \<open>
  The invariant of the session tables and its preservation by every operation: the waiter index holds
  exactly the rows derived from the stored checkpoints, every link names a stored object, every turn
  supplement queue is well formed and belongs to a stored job, and keys are unique.
\<close>

section \<open>The invariant\<close>

definition derived_waiters :: "wait_codec \<Rightarrow> CheckpointRecord \<Rightarrow> RuntimeJobWaiter set" where
  "derived_waiters codec cp = (case runtime_job_waiters codec cp of Inl _ \<Rightarrow> {} | Inr ws \<Rightarrow> set ws)"

definition wait_index_ok :: "wait_codec \<Rightarrow> CheckpointRecord list \<Rightarrow> RuntimeJobWaiter list \<Rightarrow> bool" where
  "wait_index_ok codec cps ws \<longleftrightarrow> unique_by cp_id cps \<and> unique_by waiter_cursor ws \<and>
     (\<forall>cp \<in> set cps. is_ok (runtime_job_waiters codec cp)) \<and> set ws = (\<Union>cp \<in> set cps. derived_waiters codec cp)"

definition links_ok :: "StoredExternalContextObject list \<Rightarrow> external_context_link list \<Rightarrow> bool" where
  "links_ok objs links \<longleftrightarrow> unique_by object_id objs \<and> unique_by link_key links \<and>
     link_object_id ` set links \<subseteq> object_id ` set objs"

definition stored_queue_ok :: "(string \<Rightarrow> string) \<Rightarrow> string set \<Rightarrow> StoredQueue \<Rightarrow> bool" where
  "stored_queue_ok sha jobs q \<longleftrightarrow> queue_ok sha q \<and> 0 < revision q \<and>
     agent_run_lifecycle_job_id (queue_agent_run_id q) = Ok (queue_lifecycle_job_id q) \<and> queue_lifecycle_job_id q \<in> jobs"

definition queues_ok :: "(string \<Rightarrow> string) \<Rightarrow> string set \<Rightarrow> StoredQueue list \<Rightarrow> bool" where
  "queues_ok sha jobs qs \<longleftrightarrow> unique_by queue_agent_run_id qs \<and> list_all (stored_queue_ok sha jobs) qs"

definition job_ids :: "db \<Rightarrow> string set" where
  "job_ids db = job_id ` set (runtime_jobs db)"

definition wf_session :: "session_env \<Rightarrow> session_db \<Rightarrow> bool" where
  "wf_session env s \<longleftrightarrow> unique_by job_id (runtime_jobs (base s)) \<and>
     wait_index_ok (env_codec env) (checkpoints s) (waiters s) \<and> unique_by snapshot_session_id (snapshots s) \<and>
     links_ok (external_objects s) (external_links s) \<and>
     queues_ok (sha256_hex (env_lib env)) (job_ids (base s)) (supplement_queues s)"

lemma wf_empty_session: "wf_session env empty_session_db"
  by (simp add: wf_session_def empty_session_db_def empty_db_def wait_index_ok_def links_ok_def queues_ok_def)

section \<open>Which tables an operation touches\<close>

text \<open>
  The effect of each transaction on the tables it does not own: a checkpoint transaction changes the base,
  checkpoint and waiter tables only, and so on.
\<close>

definition same_waits :: "session_db \<Rightarrow> session_db \<Rightarrow> bool" where
  "same_waits s s' \<longleftrightarrow> checkpoints s' = checkpoints s \<and> waiters s' = waiters s"

definition same_external :: "session_db \<Rightarrow> session_db \<Rightarrow> bool" where
  "same_external s s' \<longleftrightarrow> external_objects s' = external_objects s \<and> external_links s' = external_links s"

lemmas same_tables_defs = same_waits_def same_external_def

lemma same_tables_refl [simp]: "same_waits s s" "same_external s s"
  by (simp_all add: same_tables_defs)

lemma save_checkpoint_frame:
  "save_checkpoint_conn codec cp s = Ok (u, s') \<Longrightarrow>
     same_external s s' \<and> snapshots s' = snapshots s \<and> supplement_queues s' = supplement_queues s"
  by (auto simp: save_checkpoint_conn_def result_simps Let_def same_external_def split: if_splits option.splits
      dest!: insert_waiters_base)

lemma save_wait_frame:
  "save_wait_checkpoint codec req s = Ok (u, s') \<Longrightarrow>
     same_external s s' \<and> snapshots s' = snapshots s \<and> supplement_queues s' = supplement_queues s"
  by (auto simp: save_wait_checkpoint_def result_simps Let_def same_external_def split: option.splits if_splits
      dest!: save_checkpoint_frame)

lemma consume_frame:
  "consume_wait_checkpoint req s = Ok (u, s') \<Longrightarrow>
     same_external s s' \<and> snapshots s' = snapshots s \<and> supplement_queues s' = supplement_queues s"
  by (auto simp: consume_wait_checkpoint_def result_simps Let_def delete_checkpoints_def same_external_def
      split: option.splits if_splits dest!: append_consumed_base)

lemma upsert_object_frame:
  "upsert_external_context_object_conn lib obj s = Ok (u, s') \<Longrightarrow>
     same_waits s s' \<and> snapshots s' = snapshots s \<and> supplement_queues s' = supplement_queues s"
  by (auto simp: upsert_external_context_object_conn_def result_simps Let_def same_waits_def)

lemma link_object_frame:
  "link_external_context_object_conn link s = Ok (u, s') \<Longrightarrow>
     same_waits s s' \<and> snapshots s' = snapshots s \<and> supplement_queues s' = supplement_queues s"
  by (auto simp: link_external_context_object_conn_def result_simps Let_def same_waits_def)

lemma upsert_schedule_frame:
  "upsert_external_context_and_schedule_job lib obj job s = Ok (v, s') \<Longrightarrow>
     same_waits s s' \<and> snapshots s' = snapshots s \<and> supplement_queues s' = supplement_queues s"
  by (auto simp: upsert_external_context_and_schedule_job_def result_simps same_waits_def dest!: upsert_object_frame)

lemma upsert_complete_frame:
  "upsert_external_context_link_and_complete_job lib obj link req s = Ok (v, s') \<Longrightarrow>
     same_waits s s' \<and> snapshots s' = snapshots s \<and> supplement_queues s' = supplement_queues s"
  by (auto simp: upsert_link_complete_conn result_simps same_waits_def split: option.splits
      dest!: upsert_object_frame link_object_frame)

lemma update_queue_frame:
  "update_queue a q now s = Ok (u, s') \<Longrightarrow> same_waits s s' \<and> same_external s s' \<and> snapshots s' = snapshots s"
  by (auto simp: update_queue_def result_simps same_tables_defs split: if_splits)

lemma insert_queue_frame:
  "insert_queue what q s = Ok (u, s') \<Longrightarrow> same_waits s s' \<and> same_external s s' \<and> snapshots s' = snapshots s"
  by (auto simp: insert_queue_def result_simps same_tables_defs split: if_splits)

lemma write_entries_frame:
  "write_entries r revn seq es dd s = Ok (u, s') \<Longrightarrow> same_waits s s' \<and> same_external s s' \<and> snapshots s' = snapshots s"
  by (auto simp: write_entries_def Let_def result_simps same_tables_defs split: if_splits dest!: insert_queue_frame)

lemma enqueue_frame:
  "enqueue_turn_supplement sha r s = Ok (v, s') \<Longrightarrow> same_waits s s' \<and> same_external s s' \<and> snapshots s' = snapshots s"
  by (auto simp: enqueue_Ok_iff admit_entry_def Let_def result_simps same_tables_defs
      split: if_splits option.splits dest!: write_entries_frame)

lemma claim_frame:
  "claim_turn_supplements r s = Ok (v, s') \<Longrightarrow> same_waits s s' \<and> same_external s s' \<and> snapshots s' = snapshots s"
  by (auto simp: claim_turn_supplements_def insert_closed_queue_def result_simps Let_def
      split: if_splits option.splits dest!: update_queue_frame insert_queue_frame)

lemma ack_frame:
  "acknowledge_turn_supplements r s = Ok (v, s') \<Longrightarrow> same_waits s s' \<and> same_external s s' \<and> snapshots s' = snapshots s"
  by (auto simp: acknowledge_turn_supplements_def result_simps Let_def split: if_splits dest!: update_queue_frame)

lemma close_frame:
  "close_turn_supplement_queue r s = Ok (v, s') \<Longrightarrow> same_waits s s' \<and> same_external s s' \<and> snapshots s' = snapshots s"
  by (auto simp: close_turn_supplement_queue_def result_simps split: option.splits dest!: update_queue_frame insert_queue_frame)

section \<open>Jobs\<close>

lemma exec_job_ids:
  assumes "unique_by job_id (runtime_jobs db)"
  shows "unique_by job_id (runtime_jobs (exec op db)) \<and> job_ids db \<subseteq> job_ids (exec op db)"
proof (cases rule: exec_cases [of op db])
  case ok
  from store_tx_jobs [OF assms ok] show ?thesis
  proof (cases rule: jobs_step_cases)
    case (moved P f)
    have key: "job_id (f q) = job_id q" if "q \<in> set (runtime_jobs db)" "P q" for q
      using row_step_facts(1) [OF moved(2) [OF that]] .
    show ?thesis unfolding job_ids_def moved(1) using assms key
      by (simp add: unique_by_sql_update key_image_sql_update)
  next
    case (added job)
    then show ?thesis using assms by (auto simp: job_ids_def)
  qed
qed (use assms in simp)

lemma fold_exec_job_ids:
  assumes "unique_by job_id (runtime_jobs db)"
  shows "unique_by job_id (runtime_jobs (fold exec ops db)) \<and> job_ids db \<subseteq> job_ids (fold exec ops db)"
  using assms by (induction ops arbitrary: db) (use exec_job_ids in \<open>simp, fastforce\<close>)

lemma wake_queued_job_ids: "job_ids (wake_queued r db) = job_ids db"
  "unique_by job_id (runtime_jobs (wake_queued r db)) = unique_by job_id (runtime_jobs db)"
  by (simp_all add: job_ids_def wake_queued_def unique_by_sql_update key_image_sql_update)

lemma session_jobs:
  assumes "unique_by job_id (runtime_jobs (base s))" and "\<not> deletes_session op"
  shows "unique_by job_id (runtime_jobs (base (session_exec env op s))) \<and> job_ids (base s) \<subseteq> job_ids (base (session_exec env op s))"
  using session_exec_base [OF assms(2), of env s] fold_exec_job_ids [OF assms(1), of "base_ops op"] assms(1)
    wake_queued_job_ids by (elim disjE exE conjE) simp_all

section \<open>The waiter index\<close>

lemma derived_waiters_id: "w \<in> derived_waiters codec cp \<Longrightarrow> cursor_checkpoint_id (waiter_cursor w) = cp_id cp"
  by (auto simp: derived_waiters_def split: sum.splits dest: runtime_job_waiters_Ok(2))

lemma upsert_checkpoint_rows:
  assumes "unique_by cp_id cps"
  shows "set (upsert_checkpoint cp cps) = insert cp {c \<in> set cps. cp_id c \<noteq> cp_id cp}"
    and "unique_by cp_id (upsert_checkpoint cp cps)"
proof -
  show "unique_by cp_id (upsert_checkpoint cp cps)"
    using assms by (auto simp: upsert_checkpoint_def unique_by_sql_update sql_count_eq_0)
  show "set (upsert_checkpoint cp cps) = insert cp {c \<in> set cps. cp_id c \<noteq> cp_id cp}"
  proof (cases "sql_count (\<lambda>c. cp_id c = cp_id cp) cps = 0")
    case True
    then show ?thesis by (auto simp: upsert_checkpoint_def sql_count_eq_0)
  next
    case False
    then obtain c where "c \<in> set cps" "cp_id c = cp_id cp" by (auto simp: sql_count_eq_0)
    with False show ?thesis by (auto simp: upsert_checkpoint_def set_sql_update image_iff intro!: bexI [of _ c])
  qed
qed

lemma wait_index_upsert:
  assumes index: "wait_index_ok codec cps ws" and derived: "runtime_job_waiters codec cp = Ok new"
  shows "wait_index_ok codec (upsert_checkpoint cp cps)
    (sql_delete (\<lambda>w. cursor_checkpoint_id (waiter_cursor w) = cp_id cp) ws @ new)"
proof -
  have u: "unique_by cp_id cps" using index by (simp add: wait_index_ok_def)
  have new: "derived_waiters codec cp = set new" using derived by (simp add: derived_waiters_def)
  have others: "{w \<in> set ws. cursor_checkpoint_id (waiter_cursor w) \<noteq> cp_id cp} =
      (\<Union>c \<in> {c \<in> set cps. cp_id c \<noteq> cp_id cp}. derived_waiters codec c)"
    using index derived_waiters_id [of _ codec] unfolding wait_index_ok_def by fastforce
  have "distinct (map waiter_cursor new)" using runtime_job_waiters_Ok(1) [OF derived] .
  moreover have "waiter_cursor w \<noteq> waiter_cursor v"
    if "w \<in> set new" "cursor_checkpoint_id (waiter_cursor v) \<noteq> cp_id cp" for w v
    using runtime_job_waiters_Ok(2) [OF derived that(1)] that(2) by auto
  ultimately have "unique_by waiter_cursor (sql_delete (\<lambda>w. cursor_checkpoint_id (waiter_cursor w) = cp_id cp) ws @ new)"
    using index by (fastforce simp: wait_index_ok_def unique_by_def sql_delete_def distinct_map_filter)
  then show ?thesis
    using index derived others new
    by (auto simp: wait_index_ok_def upsert_checkpoint_rows [OF u] sql_delete_def)
qed

lemma runtime_job_waiters_recovery: "checkpoint_kind cp = Recovery \<Longrightarrow> runtime_job_waiters codec cp = Ok []"
  by (simp add: runtime_job_waiters_def)

lemma save_checkpoint_index:
  assumes "save_checkpoint_conn codec cp s = Ok (u, s')" and "wait_index_ok codec (checkpoints s) (waiters s)"
  shows "wait_index_ok codec (checkpoints s') (waiters s')"
proof (cases "checkpoint_kind cp = Recovery")
  case True
  then have none: "runtime_job_waiters codec cp = Ok []" by (rule runtime_job_waiters_recovery)
  show ?thesis
    using assms True none
    by (auto simp: save_checkpoint_conn_def wait_index_ok_def derived_waiters_def sql_find_None split: option.splits if_splits) blast
next
  case False
  with assms(1) obtain ws where ws: "runtime_job_waiters codec cp = Ok ws"
    and "s' = s\<lparr>checkpoints := upsert_checkpoint cp (checkpoints s),
      waiters := sql_delete (\<lambda>w. cursor_checkpoint_id (waiter_cursor w) = cp_id cp) (waiters s) @ ws\<rparr>"
    by (auto simp: save_checkpoint_conn_def result_simps Let_def dest!: insert_waiters_base)
  with wait_index_upsert [OF assms(2) ws] show ?thesis by simp
qed

lemma delete_checkpoints_index:
  assumes "wait_index_ok codec (checkpoints s) (waiters s)"
  shows "wait_index_ok codec (checkpoints (delete_checkpoints P s)) (waiters (delete_checkpoints P s))"
proof -
  have u: "unique_by cp_id (checkpoints s)" using assms by (simp add: wait_index_ok_def)
  have "{w \<in> set (waiters s). \<not> (\<exists>c \<in> set (checkpoints s). P c \<and> cp_id c = cursor_checkpoint_id (waiter_cursor w))} =
      (\<Union>c \<in> {c \<in> set (checkpoints s). \<not> P c}. derived_waiters codec c)" (is "?L = ?R")
  proof
    show "?L \<subseteq> ?R" using assms by (fastforce simp: wait_index_ok_def dest: derived_waiters_id)
    show "?R \<subseteq> ?L"
    proof
      fix w assume "w \<in> ?R"
      then obtain c where c: "c \<in> set (checkpoints s)" "\<not> P c" "w \<in> derived_waiters codec c" by auto
      have "d = c" if "d \<in> set (checkpoints s)" "cp_id d = cursor_checkpoint_id (waiter_cursor w)" for d
        by (rule unique_byD [OF u that(1) c(1)]) (simp add: that(2) derived_waiters_id [OF c(3)])
      with c assms show "w \<in> ?L" by (auto simp: wait_index_ok_def)
    qed
  qed
  then show ?thesis
    using assms by (auto simp: wait_index_ok_def delete_checkpoints_def sql_delete_def unique_by_filter)
qed

lemma consume_index:
  assumes "consume_wait_checkpoint req s = Ok (u, s')" and "wait_index_ok codec (checkpoints s) (waiters s)"
  shows "wait_index_ok codec (checkpoints s') (waiters s')"
proof -
  from assms(1) obtain s1 any where "fold_result append_consumed (s, False) (consume_events req) = Ok (s1, any)"
    and s': "s' = s1 \<or> (\<exists>P. s' = delete_checkpoints P s1)"
    by (auto simp: consume_wait_checkpoint_def result_simps Let_def split: option.splits if_splits)
  from append_consumed_base [OF this(1)] have "wait_index_ok codec (checkpoints s1) (waiters s1)" using assms(2) by simp
  with s' show ?thesis using delete_checkpoints_index by auto
qed

lemma save_wait_index:
  assumes "save_wait_checkpoint codec req s = Ok (u, s')" and "wait_index_ok codec (checkpoints s) (waiters s)"
  shows "wait_index_ok codec (checkpoints s') (waiters s')"
  using assms save_checkpoint_index
  by (fastforce simp: save_wait_checkpoint_def result_simps Let_def split: option.splits if_splits)

section \<open>Objects and links\<close>

lemma links_ok_objects:
  "links_ok objs links \<Longrightarrow> unique_by object_id objs' \<Longrightarrow> object_id ` set objs \<subseteq> object_id ` set objs' \<Longrightarrow> links_ok objs' links"
  unfolding links_ok_def by (meson subset_trans)

lemma upsert_object_rows:
  assumes "unique_by object_id objs"
  shows "unique_by object_id (upsert_object row objs)"
    and "object_id ` set (upsert_object row objs) = insert (object_id row) (object_id ` set objs)"
  using assms by (auto simp: upsert_object_def sql_count_eq_0 unique_by_sql_update key_image_sql_update image_iff) metis

lemma upsert_object_links:
  assumes "upsert_external_context_object_conn lib obj s = Ok (u, s')" and "links_ok (external_objects s) (external_links s)"
  shows "links_ok (external_objects s') (external_links s')"
proof -
  have u: "unique_by object_id (external_objects s)" using assms(2) by (simp add: links_ok_def)
  from assms(1) obtain row where s': "s' = s\<lparr>external_objects := upsert_object row (external_objects s)\<rparr>"
    by (auto simp: upsert_external_context_object_conn_def result_simps)
  have "links_ok (upsert_object row (external_objects s)) (external_links s)"
    by (rule links_ok_objects [OF assms(2)]) (auto simp: upsert_object_rows [OF u])
  then show ?thesis by (simp add: s')
qed

lemma link_object_links:
  assumes "link_external_context_object_conn link s = Ok (u, s')" and "links_ok (external_objects s) (external_links s)"
  shows "links_ok (external_objects s') (external_links s')"
proof -
  define row where "row = link_row link"
  have row: "link_object_id row \<in> object_id ` set (external_objects s)"
    and s': "s' = s\<lparr>external_links := upsert_link row (external_links s)\<rparr>"
    using assms(1) by (auto simp: link_external_context_object_conn_def result_simps Let_def row_def image_iff) metis
  have "unique_by link_key (upsert_link row (external_links s))"
    using assms(2) by (auto simp: links_ok_def upsert_link_def sql_count_eq_0 unique_by_sql_update link_key_def)
  moreover have "link_object_id ` set (upsert_link row (external_links s)) \<subseteq> insert (link_object_id row) (link_object_id ` set (external_links s))"
    by (auto simp: upsert_link_def set_sql_update)
  moreover have "insert (link_object_id row) (link_object_id ` set (external_links s)) \<subseteq> object_id ` set (external_objects s)"
    using assms(2) row by (simp add: links_ok_def)
  ultimately have "links_ok (external_objects s) (upsert_link row (external_links s))"
    using assms(2) unfolding links_ok_def by (meson subset_trans)
  then show ?thesis by (simp add: s')
qed

lemma delete_orphans:
  "fold delete_orphan_object ids s = s\<lparr>external_objects := filter (\<lambda>r. \<not> (object_id r \<in> set ids \<and>
     object_id r \<notin> link_object_id ` set (external_links s))) (external_objects s)\<rparr>"
proof (induction ids arbitrary: s)
  case (Cons i ids)
  show ?case unfolding fold_simps comp_def Cons.IH
    by (auto simp: delete_orphan_object_def sql_delete_def intro!: session_db.fold_congs filter_cong)
qed simp

section \<open>Turn supplement queues\<close>

lemma queues_ok_mono: "queues_ok sha jobs qs \<Longrightarrow> jobs \<subseteq> jobs' \<Longrightarrow> queues_ok sha jobs' qs"
  by (auto simp: queues_ok_def list_all_iff stored_queue_ok_def)

lemma open_queue_ok: "queue_ok sha (open_queue a j ses d)"
  by (simp add: queue_ok_def open_queue_def)

lemma queue_or_open_ok:
  fixes ses d :: string
  assumes "queues_ok sha jobs (supplement_queues s)" and "agent_run_lifecycle_job_id a = Ok j" and "j \<in> jobs"
  defines "q \<equiv> queue_or_open a j ses d s"
  shows "queue_ok sha q" and "queue_agent_run_id q = a" and "agent_run_lifecycle_job_id a = Ok (queue_lifecycle_job_id q)"
    and "queue_lifecycle_job_id q \<in> jobs"
proof -
  have "queue_ok sha q \<and> queue_agent_run_id q = a \<and> agent_run_lifecycle_job_id a = Ok (queue_lifecycle_job_id q) \<and>
      queue_lifecycle_job_id q \<in> jobs"
  proof (cases "load_queue a s")
    case None
    then show ?thesis using assms by (simp add: queue_or_open_def open_queue_ok) (simp add: open_queue_def)
  next
    case (Some p)
    then have "p \<in> set (supplement_queues s)" "queue_agent_run_id p = a"
      by (auto simp: load_queue_def dest: sql_find_Some)
    then show ?thesis using Some assms by (auto simp: queue_or_open_def queues_ok_def list_all_iff stored_queue_ok_def)
  qed
  then show "queue_ok sha q" "queue_agent_run_id q = a" "agent_run_lifecycle_job_id a = Ok (queue_lifecycle_job_id q)"
    "queue_lifecycle_job_id q \<in> jobs" by auto
qed

lemma set_store_queue: "set (supplement_queues (store_queue q s)) \<subseteq> insert q (set (supplement_queues s))"
  by (auto simp: store_queue_def set_sql_update)

lemma queues_store:
  assumes "queues_ok sha jobs (supplement_queues s)" and "queue_step sha a (queue_or_open ar j ses d s) q'"
    and "agent_run_lifecycle_job_id ar = Ok j" and "j \<in> jobs"
  shows "queues_ok sha jobs (supplement_queues (store_queue q' s))"
proof -
  note old = queue_or_open_ok [OF assms(1,3,4), of ses d]
  have "stored_queue_ok sha jobs q'"
    using queue_step_ok [OF assms(2) old(1)] queue_step_monotone(3,5,6) [OF assms(2)] old(2-)
    by (simp add: stored_queue_ok_def)
  moreover have "unique_queues s" using assms(1) by (simp add: queues_ok_def)
  ultimately show ?thesis
    using assms(1) set_store_queue [of q' s] unique_store_queue [of s q'] by (auto simp: queues_ok_def list_all_iff)
qed

lemma active_job: "validate_active_job a j ses d lease rc db = Ok u \<Longrightarrow> j \<in> job_ids db"
  by (auto simp: validate_active_job_def result_simps job_ids_def split: if_splits dest!: sql_find_Some)

lemma enqueue_queues:
  assumes "enqueue_turn_supplement sha r s = Ok (v, s')" and "queues_ok sha (job_ids (base s)) (supplement_queues s)"
  shows "queues_ok sha (job_ids (base s)) (supplement_queues s')"
proof -
  have "unique_queues s" using assms(2) by (simp add: queues_ok_def)
  with assms(1) show ?thesis
  proof (cases rule: enqueue_effect)
    case (accepted q')
    have "agent_run_lifecycle_job_id (enq_agent_run_id r) = Ok (enq_lifecycle_job_id r)" "enq_lifecycle_job_id r \<in> job_ids (base s)"
      using assms(1) by (auto simp: enqueue_Ok_iff validate_enqueue_identity_def dest: validate_common_identity_Ok active_job)
    with queues_store [OF assms(2) accepted(1) [unfolded enqueue_queue_def]] accepted(2) show ?thesis by simp
  qed (use assms(2) in simp)
qed

lemma claim_queues:
  assumes "claim_turn_supplements r s = Ok (v, s')" and "queues_ok sha (job_ids (base s)) (supplement_queues s)"
  shows "queues_ok sha (job_ids (base s)) (supplement_queues s')"
proof -
  have u: "unique_queues s" using assms(2) by (simp add: queues_ok_def)
  have id: "agent_run_lifecycle_job_id (clm_agent_run_id r) = Ok (clm_lifecycle_job_id r)" "clm_lifecycle_job_id r \<in> job_ids (base s)"
    using assms(1) by (auto simp: claim_turn_supplements_def validate_claim_identity_def result_simps
        dest: validate_common_identity_Ok active_job)
  have ok: "queue_ok sha q" if "load_queue (clm_agent_run_id r) s = Some q" for q
    using queue_or_open_ok(1) [OF assms(2) id] that by (simp add: queue_or_open_def)
  show ?thesis
  proof (cases rule: claim_effect [OF assms(1) u ok, consumes 0, case_names load none sealed claimed])
    case (sealed q')
    with queues_store [OF assms(2) sealed(2) [unfolded claim_queue_def] id] show ?thesis by simp
  next
    case (claimed q')
    with queues_store [OF assms(2) claimed(3) [unfolded claim_queue_def] id] show ?thesis by simp
  qed (use assms(2) in auto)
qed

lemma ack_queues:
  assumes "acknowledge_turn_supplements r s = Ok (v, s')" and "queues_ok sha (job_ids (base s)) (supplement_queues s)"
  shows "queues_ok sha (job_ids (base s)) (supplement_queues s')"
proof -
  have u: "unique_queues s" using assms(2) by (simp add: queues_ok_def)
  have id: "agent_run_lifecycle_job_id (ack_agent_run_id r) = Ok (ack_lifecycle_job_id r)" "ack_lifecycle_job_id r \<in> job_ids (base s)"
    using assms(1) by (auto simp: acknowledge_turn_supplements_def validate_ack_identity_def result_simps
        dest: validate_common_identity_Ok active_job)
  from assms(1) u show ?thesis
  proof (cases rule: ack_effect [where sha = sha])
    case (acked q q')
    then have "q = queue_or_open (ack_agent_run_id r) (ack_lifecycle_job_id r) [] [] s" by (simp add: queue_or_open_def)
    with queues_store [OF assms(2) acked(3) [unfolded this] id] acked(2) show ?thesis by simp
  qed (use assms(2) in simp)
qed

lemma close_queues:
  assumes "close_turn_supplement_queue r s = Ok (v, s')" and "queues_ok sha (job_ids (base s)) (supplement_queues s)"
  shows "queues_ok sha (job_ids (base s)) (supplement_queues s')"
proof -
  have u: "unique_queues s" using assms(2) by (simp add: queues_ok_def)
  have id: "agent_run_lifecycle_job_id (cls_agent_run_id r) = Ok (cls_lifecycle_job_id r)" "cls_lifecycle_job_id r \<in> job_ids (base s)"
    using assms(1) by (auto simp: close_turn_supplement_queue_def validate_close_identity_def result_simps
        dest: validate_common_identity_Ok active_job)
  from close_effect [OF assms(1) u, of sha] obtain q' where
    "queue_step sha (QClose (cls_reason r)) (close_queue r s) q'" "s' = store_queue q' s" by blast
  with queues_store [OF assms(2) this(1) [unfolded close_queue_def] id] show ?thesis by simp
qed

section \<open>Deleting a session\<close>

lemma cascades_frame [simp]:
  "cascades ses (s\<lparr>base := b\<rparr>) = cascades ses s" "cascades ses (s\<lparr>snapshots := sn\<rparr>) = cascades ses s"
  "cascades ses (s\<lparr>checkpoints := c\<rparr>) = cascades ses s" "cascades ses (s\<lparr>waiters := w\<rparr>) = cascades ses s"
  "cascades ses (s\<lparr>external_links := l\<rparr>) = cascades ses s" "cascades ses (s\<lparr>supplement_queues := q\<rparr>) = cascades ses s"
  by (simp_all add: cascades_def fun_eq_iff)

lemma delete_transcript_heads_Ok:
  "delete_transcript_heads ses s = Ok s' \<Longrightarrow>
    s' = s\<lparr>transcript_heads := sql_delete (\<lambda>h. head_session_id h = ses) (transcript_heads s),
      transcript_rows := sql_delete (cascades ses s) (transcript_rows s)\<rparr>"
  by (simp add: delete_transcript_heads_def split: if_splits)

text \<open>The database after the deletion of a session's data, table by table.\<close>

lemma delete_session_Ok:
  assumes "delete_session_data ses s = Ok (u, s')"
  defines "gone \<equiv> \<lambda>j. \<exists>r \<in> set (runtime_jobs (base s)). session_id r = Some (trim ses) \<and> job_id r = j"
  shows "runtime_jobs (base s') = sql_delete (\<lambda>r. session_id r = Some (trim ses)) (runtime_jobs (base s))"
    and "checkpoints s' = checkpoints (delete_checkpoints (\<lambda>cp. checkpoint_session_id cp = trim ses) s)"
    and "waiters s' = waiters (delete_checkpoints (\<lambda>cp. checkpoint_session_id cp = trim ses) s)"
    and "snapshots s' = sql_delete (\<lambda>r. snapshot_session_id r = trim ses) (snapshots s)"
    and "external_links s' = sql_delete (\<lambda>l. link_session_id l = trim ses) (external_links s)"
    and "external_objects s' = filter (\<lambda>r. \<not> (object_id r \<in> link_object_id ` {l \<in> set (external_links s). link_session_id l = trim ses} \<and>
        object_id r \<notin> link_object_id ` {l \<in> set (external_links s). link_session_id l \<noteq> trim ses})) (external_objects s)"
    and "supplement_queues s' = sql_delete (\<lambda>q. gone (queue_lifecycle_job_id q)) (supplement_queues s)"
    and "transcript_heads s' = sql_delete (\<lambda>h. head_session_id h = trim ses) (transcript_heads s)"
    and "transcript_rows s' = sql_delete (cascades (trim ses) s) (transcript_rows s)"
  using assms
  by (auto simp: delete_session_data_def result_simps Let_def delete_orphans delete_session_jobs_def delete_checkpoints_def
      sql_delete_def dest!: delete_transcript_heads_Ok)

lemma delete_session_wf:
  assumes "delete_session_data ses s = Ok (u, s')" and "wf_session env s"
  shows "wf_session env s'"
proof -
  note eff = delete_session_Ok [OF assms(1)]
  have jobs: "unique_by job_id (runtime_jobs (base s))" using assms(2) by (simp add: wf_session_def)
  have "wait_index_ok (env_codec env) (checkpoints s') (waiters s')"
    unfolding eff using assms(2) by (auto simp: wf_session_def intro: delete_checkpoints_index)
  moreover have "links_ok (external_objects s') (external_links s')"
  proof -
    have old: "links_ok (external_objects s) (external_links s)" using assms(2) by (simp add: wf_session_def)
    have "link_object_id l \<in> object_id ` set (external_objects s')"
      if l: "l \<in> set (external_links s)" "link_session_id l \<noteq> trim ses" for l
    proof -
      obtain r where "r \<in> set (external_objects s)" "object_id r = link_object_id l" using old l(1) by (force simp: links_ok_def)
      with l show ?thesis unfolding eff by (intro image_eqI [of _ _ r]) auto
    qed
    then show ?thesis using old by (auto simp: links_ok_def eff(5,6) sql_delete_def unique_by_filter)
  qed
  moreover have "j \<in> job_ids (base s')" if "j \<in> job_ids (base s)"
    "\<not> (\<exists>r \<in> set (runtime_jobs (base s)). session_id r = Some (trim ses) \<and> job_id r = j)" for j
    using that unfolding job_ids_def eff by (auto simp: sql_delete_def)
  then have "queues_ok (sha256_hex (env_lib env)) (job_ids (base s')) (supplement_queues s')"
    using assms(2) unfolding eff wf_session_def
    by (auto simp: queues_ok_def list_all_iff stored_queue_ok_def sql_delete_def unique_by_filter)
  ultimately show ?thesis
    using assms(2) unfolding wf_session_def by (simp add: eff unique_by_sql_delete)
qed

section \<open>Every operation keeps the invariant\<close>

lemma commit_waits:
  "(\<And>v s'. f s = Ok (v, s') \<Longrightarrow> wait_index_ok c (checkpoints s') (waiters s')) \<Longrightarrow> wait_index_ok c (checkpoints s) (waiters s) \<Longrightarrow>
     wait_index_ok c (checkpoints (commit_session f s)) (waiters (commit_session f s))"
  by (cases f s rule: commit_session_cases) auto

lemma commit_links:
  "(\<And>v s'. f s = Ok (v, s') \<Longrightarrow> links_ok (external_objects s') (external_links s')) \<Longrightarrow> links_ok (external_objects s) (external_links s) \<Longrightarrow>
     links_ok (external_objects (commit_session f s)) (external_links (commit_session f s))"
  by (cases f s rule: commit_session_cases) auto

lemma commit_snapshots:
  "(\<And>v s'. f s = Ok (v, s') \<Longrightarrow> unique_by snapshot_session_id (snapshots s')) \<Longrightarrow> unique_by snapshot_session_id (snapshots s) \<Longrightarrow>
     unique_by snapshot_session_id (snapshots (commit_session f s))"
  by (cases f s rule: commit_session_cases) auto

lemma commit_queues:
  "(\<And>v s'. f s = Ok (v, s') \<Longrightarrow> queues_ok sha jobs (supplement_queues s')) \<Longrightarrow> queues_ok sha jobs (supplement_queues s) \<Longrightarrow>
     queues_ok sha jobs (supplement_queues (commit_session f s))"
  by (cases f s rule: commit_session_cases) auto

lemmas wait_frames = upsert_object_frame link_object_frame upsert_schedule_frame upsert_complete_frame
  enqueue_frame claim_frame ack_frame close_frame
lemmas checkpoint_frames = save_checkpoint_frame save_wait_frame consume_frame
lemmas snapshot_defs = save_agent_runtime_snapshot_def compare_and_save_agent_runtime_snapshot_def

lemma session_waits:
  assumes "wait_index_ok (env_codec env) (checkpoints s) (waiters s)" and "\<not> deletes_session op"
  shows "wait_index_ok (env_codec env) (checkpoints (session_exec env op s)) (waiters (session_exec env op s))"
  using assms
  by (cases op; simp; intro commit_waits)
    (auto simp: same_waits_def snapshot_defs Let_def split: option.splits if_splits
      dest: save_checkpoint_index save_wait_index consume_index dest!: wait_frames)

lemma upsert_complete_links:
  assumes "upsert_external_context_link_and_complete_job lib obj link req s = Ok (v, s')"
    and "links_ok (external_objects s) (external_links s)"
  shows "links_ok (external_objects s') (external_links s')"
  using assms upsert_object_links link_object_links
  by (fastforce simp: upsert_link_complete_conn result_simps split: option.splits)

lemma upsert_schedule_links:
  assumes "upsert_external_context_and_schedule_job lib obj job s = Ok (v, s')"
    and "links_ok (external_objects s) (external_links s)"
  shows "links_ok (external_objects s') (external_links s')"
  using assms upsert_object_links by (fastforce simp: upsert_external_context_and_schedule_job_def result_simps)

lemma session_links:
  assumes "links_ok (external_objects s) (external_links s)" and "\<not> deletes_session op"
  shows "links_ok (external_objects (session_exec env op s)) (external_links (session_exec env op s))"
  using assms
  by (cases op; simp; intro commit_links)
    (auto simp: same_external_def snapshot_defs Let_def split: option.splits if_splits
      dest: upsert_object_links link_object_links upsert_schedule_links upsert_complete_links
      dest!: checkpoint_frames enqueue_frame claim_frame ack_frame close_frame)

lemma save_snapshot_unique:
  assumes "unique_by snapshot_session_id (snapshots s)"
  shows "save_agent_runtime_snapshot ses new now s = Ok (u, s') \<Longrightarrow> unique_by snapshot_session_id (snapshots s')"
    and "compare_and_save_agent_runtime_snapshot ses old new now s = Ok (v, s') \<Longrightarrow> unique_by snapshot_session_id (snapshots s')"
  using assms by (auto simp: snapshot_defs Let_def sql_count_eq_0 unique_by_sql_update split: option.splits if_splits)

lemma session_snapshots:
  assumes "unique_by snapshot_session_id (snapshots s)" and "\<not> deletes_session op"
  shows "unique_by snapshot_session_id (snapshots (session_exec env op s))"
  using assms
  by (cases op; simp; intro commit_snapshots)
    (auto dest: save_snapshot_unique dest!: checkpoint_frames wait_frames)

lemma session_queues:
  assumes "queues_ok (sha256_hex (env_lib env)) (job_ids (base s)) (supplement_queues s)" and "\<not> deletes_session op"
  shows "queues_ok (sha256_hex (env_lib env)) (job_ids (base s)) (supplement_queues (session_exec env op s))"
  using assms
  by (cases op; simp; intro commit_queues)
    (auto simp: snapshot_defs Let_def split: option.splits if_splits dest: enqueue_queues claim_queues ack_queues close_queues
      dest!: checkpoint_frames upsert_object_frame link_object_frame upsert_schedule_frame upsert_complete_frame)

lemma session_exec_wf:
  assumes "wf_session env s"
  shows "wf_session env (session_exec env op s)"
proof (cases "deletes_session op")
  case True
  then obtain ses where "op = DeleteSession ses" by (cases op) auto
  then show ?thesis using assms delete_session_wf [OF _ assms] by (auto intro: commit_session_pres)
next
  case False
  have jobs: "unique_by job_id (runtime_jobs (base (session_exec env op s)))" "job_ids (base s) \<subseteq> job_ids (base (session_exec env op s))"
    using session_jobs [OF _ False, of s env] assms by (auto simp: wf_session_def)
  have "queues_ok (sha256_hex (env_lib env)) (job_ids (base (session_exec env op s))) (supplement_queues (session_exec env op s))"
    by (rule queues_ok_mono [OF session_queues [OF _ False] jobs(2)]) (use assms in \<open>simp add: wf_session_def\<close>)
  with jobs(1) assms show ?thesis
    unfolding wf_session_def by (auto intro: session_waits [OF _ False] session_snapshots [OF _ False] session_links [OF _ False])
qed

text \<open>The database file as a transition system with this invariant.\<close>

interpretation session_system: invariant_system "session_step env" "wf_session env" for env
  by unfold_locales (auto simp: session_step_def intro: session_exec_wf)

lemma run_session_iff: "run (session_step env) s ops s' \<longleftrightarrow> s' = fold (session_exec env) ops s"
proof
  assume "run (session_step env) s ops s'"
  then show "s' = fold (session_exec env) ops s" by (induction rule: run.induct) (auto simp: session_step_def)
next
  assume "s' = fold (session_exec env) ops s"
  then show "run (session_step env) s ops s'"
    by (induction ops arbitrary: s) (auto simp: session_step_def intro: run.intros)
qed

end
