(* ===== verification/SessionSystem.thy ===== *)
theory SessionSystem
  imports SessionInvariant ClaimsAndLetters
begin

text \<open>
  The database file as a live system: operations whose job store part is admissible and that delete no
  session. The guarantees of the job store carry over to it, since the session tables reach the job tables
  only through operations of the job store and the wake of a queued lifecycle job.
\<close>

definition live_op :: "session_op \<Rightarrow> bool" where
  "live_op op \<longleftrightarrow> \<not> deletes_session op \<and> list_all op_ok (base_ops op)"

definition live_step :: "session_env \<Rightarrow> session_db \<Rightarrow> session_op \<Rightarrow> session_db \<Rightarrow> bool" where
  "live_step env s op s' \<longleftrightarrow> live_op op \<and> session_step env s op s'"

definition wf_live :: "session_env \<Rightarrow> session_db \<Rightarrow> bool" where
  "wf_live env s \<longleftrightarrow> wf_session env s \<and> wf_store (base s)"

lemma wf_live_empty: "wf_live env empty_session_db"
  by (simp add: wf_live_def wf_empty_session) (simp add: empty_session_db_def wf_empty)

lemma fold_exec_wf: "wf_store db \<Longrightarrow> list_all op_ok ops \<Longrightarrow> wf_store (fold exec ops db)"
  by (induction ops arbitrary: db) (auto intro: exec_wf)

definition wake_row_of :: "EnqueueTurnSupplementRequest \<Rightarrow> runtime_job_row \<Rightarrow> runtime_job_row" where
  "wake_row_of r j = (if job_id j = enq_lifecycle_job_id r \<and> status j = Queued
     then j\<lparr>run_at_ms := min (run_at_ms j) (enq_created_at_ms r), updated_at_ms := enq_created_at_ms r\<rparr> else j)"

lemma wake_queued_jobs: "runtime_jobs (wake_queued r db) = map (wake_row_of r) (runtime_jobs db)"
  by (simp add: wake_queued_def sql_update_def wake_row_of_def fun_eq_iff)

lemma wake_row_same [simp]:
  "job_id (wake_row_of r j) = job_id j" "job_kind (wake_row_of r j) = job_kind j" "idempotency_key (wake_row_of r j) = idempotency_key j"
  "status (wake_row_of r j) = status j" "lease_owner (wake_row_of r j) = lease_owner j"
  "lease_expires_at_ms (wake_row_of r j) = lease_expires_at_ms j" "lease_reclaim_count (wake_row_of r j) = lease_reclaim_count j"
  "job_key (wake_row_of r j) = job_key j"
  by (simp_all add: wake_row_of_def job_key_def)

lemma wake_queued_wf: "wf_store db \<Longrightarrow> wf_store (wake_queued r db)"
proof -
  assume wf: "wf_store db"
  have other: "runtime_job_outbox (wake_queued r db) = runtime_job_outbox db" "runtime_events (wake_queued r db) = runtime_events db"
    by (simp_all add: wake_queued_def)
  have "jobs_ok (map (wake_row_of r) (runtime_jobs db))"
    using wf by (auto simp: wf_store_def jobs_ok_def unique_by_def list_all_iff comp_def row_ok_def)
  moreover have "terminal_ids (map (wake_row_of r) (runtime_jobs db)) = terminal_ids (runtime_jobs db)"
    by (auto simp: terminal_ids_def image_iff) force+
  moreover have "event_ok (map (wake_row_of r) (runtime_jobs db)) e" if "event_ok (runtime_jobs db) e" for e
    using that by (fastforce simp: event_ok_def)
  ultimately show "wf_store (wake_queued r db)"
    using wf unfolding wf_store_def outbox_ok_def events_ok_def wake_queued_jobs other by auto
qed

lemma live_wf:
  assumes "wf_live env s" and "live_step env s op s'"
  shows "wf_live env s'"
proof -
  have s': "s' = session_exec env op s" and live: "\<not> deletes_session op" "list_all op_ok (base_ops op)"
    using assms(2) by (auto simp: live_step_def live_op_def session_step_def)
  have "wf_store (base s')"
    using session_exec_base [OF live(1), of env s] assms(1) live(2) fold_exec_wf wake_queued_wf unfolding s' wf_live_def by metis
  with assms(1) show ?thesis by (simp add: wf_live_def s' session_exec_wf)
qed

lemma fold_exec_row:
  assumes "wf_store db" and "list_all op_ok ops" and "map_option status (job_row db j) = Some st"
  shows "\<exists>st'. map_option status (job_row (fold exec ops db) j) = Some st' \<and> can_transition_to\<^sup>*\<^sup>* st st'"
  using job_store.run_status [of db ops "fold exec ops db" j st] assms by (auto simp: run_exec_iff)

lemma wake_queued_row: "job_row (wake_queued r db) j = map_option (wake_row_of r) (job_row db j)"
  by (simp add: job_row_def wake_queued_jobs sql_find_map)

text \<open>The job tables after a live step: a run of admissible store operations, or the wake of a queued job.\<close>

lemma live_base:
  assumes "live_step env s op s'"
  obtains (ops) ops where "list_all op_ok ops" "set ops \<subseteq> set (base_ops op)" "base s' = fold exec ops (base s)"
  | (wake) r where "op = EnqueueSupplement r" "base s' = wake_queued r (base s)"
proof -
  have s': "s' = session_exec env op s" and live: "\<not> deletes_session op" "list_all op_ok (base_ops op)"
    using assms by (auto simp: live_step_def live_op_def session_step_def)
  from session_exec_base [OF live(1), of env s] show thesis
    using ops [of "[]"] ops [of "base_ops op"] wake live(2) unfolding s' by auto
qed

interpretation live_jobs: status_store "live_step env" "wf_live env" "can_transition_to\<^sup>*\<^sup>*" is_terminal
  "\<lambda>s j. map_option status (job_row (base s) j)" for env
proof
  fix x y assume "is_terminal x" "can_transition_to\<^sup>*\<^sup>* x y"
  then show "y = x" using job_status.terminal_chain by blast
next
  fix s op s' j st
  assume wf: "wf_live env s" and step: "live_step env s op s'" and st: "map_option status (job_row (base s) j) = Some st"
  from step show "\<exists>y. map_option status (job_row (base s') j) = Some y \<and> can_transition_to\<^sup>*\<^sup>* st y"
  proof (cases rule: live_base)
    case (ops ops)
    with fold_exec_row [of "base s" ops j st] wf st show ?thesis by (simp add: wf_live_def)
  next
    case (wake r)
    then show ?thesis using st by (auto simp: wake_queued_row)
  qed
qed (auto intro: live_wf)

definition mints_session :: "session_op \<Rightarrow> string \<Rightarrow> string \<Rightarrow> bool" where
  "mints_session op j tok \<longleftrightarrow> (\<exists>sop \<in> set (base_ops op). mints_lease sop j tok)"

interpretation live_leases: lease_store "live_step env" "wf_live env"
  "\<lambda>s j. Option.bind (job_row (base s) j) lease_owner" mints_session for env
proof
  fix s op s' j t
  assume wf: "wf_live env s" and step: "live_step env s op s'" and held: "Option.bind (job_row (base s') j) lease_owner = Some t"
  from step show "Option.bind (job_row (base s) j) lease_owner = Some t \<or> mints_session op j t"
  proof (cases rule: live_base)
    case (ops ops)
    have "run admissible_step (base s) ops (base s')" using ops by (simp add: run_exec_iff)
    from job_leases.run_not_holder [OF this, of j t] wf held ops(2) show ?thesis
      by (auto simp: wf_live_def mints_session_def)
  next
    case (wake r)
    then show ?thesis using held by (auto simp: wake_queued_row bind_eq_Some_conv)
  qed
qed

section \<open>Events\<close>

lemma fold_exec_events:
  assumes "wf_store db" and "list_all op_ok ops"
  shows "\<exists>es. runtime_events (fold exec ops db) = runtime_events db @ es"
  using assms
proof (induction ops arbitrary: db)
  case (Cons op ops)
  then obtain es where "runtime_events (exec op db) = runtime_events db @ es" using exec_appends [of db op] by (auto simp: appends_def)
  moreover obtain fs where "runtime_events (fold exec ops (exec op db)) = runtime_events (exec op db) @ fs"
    using Cons.IH [of "exec op db"] Cons.prems exec_wf by auto
  ultimately show ?case by simp
qed simp

lemma live_events:
  assumes "wf_live env s" and "live_step env s op s'"
  shows "\<exists>es. runtime_events (base s') = runtime_events (base s) @ es"
  using assms(2)
proof (cases rule: live_base)
  case (ops ops)
  then show ?thesis using fold_exec_events assms(1) by (simp add: wf_live_def)
next
  case (wake r)
  then show ?thesis by (simp add: wake_queued_def)
qed

lemma live_run_events:
  assumes "run (live_step env) s ops s'" and "wf_live env s"
  shows "\<exists>es. runtime_events (base s') = runtime_events (base s) @ es"
  by (rule live_jobs.run_relates [OF assms, of "\<lambda>s s'. \<exists>es. runtime_events (base s') = runtime_events (base s) @ es"])
    (use live_events in \<open>auto intro: exI [of _ "[]"]\<close>)

lemma run_live_iff: "run (live_step env) s ops s' \<longleftrightarrow> list_all live_op ops \<and> s' = fold (session_exec env) ops s"
proof
  assume "run (live_step env) s ops s'"
  then show "list_all live_op ops \<and> s' = fold (session_exec env) ops s"
    by (induction rule: run.induct) (auto simp: live_step_def session_step_def)
next
  assume "list_all live_op ops \<and> s' = fold (session_exec env) ops s"
  then show "run (live_step env) s ops s'"
    by (induction ops arbitrary: s) (auto simp: live_step_def session_step_def intro: run.intros)
qed

end
