(* ===== verification/SessionSamples.thy ===== *)
theory SessionSamples
  imports SessionSystem
begin

text \<open>
  Concrete database states that the witnesses of the session properties evaluate: a database with one
  running lifecycle job, and the same database with a turn supplement queue of two entries.
\<close>

text \<open>A library that copies contents, with the identity as hash and two metadata values with their JSON texts.\<close>

definition sample_metadata :: "f64 Value" where
  "sample_metadata = VObject [(''lang'', VString ''en'')]"

definition sample_metadata_text :: string where
  "sample_metadata_text = ''{'' @ [CHR 0x22] @ ''lang'' @ [CHR 0x22] @ '':'' @ [CHR 0x22] @ ''en'' @ [CHR 0x22] @ ''}''"

definition sample_lib :: content_lib where
  "sample_lib = \<lparr>zstd_encode_all = (\<lambda>b. Ok b), zstd_read = (\<lambda>b n. Ok (take n b)), sha256_hex = (\<lambda>b. b),
     json_to_string = (\<lambda>v. if v = VObject [] then Ok ''{}'' else if v = sample_metadata then Ok sample_metadata_text
       else Err ''unsupported''),
     json_from_str = (\<lambda>t. if t = ''{}'' then Ok (VObject []) else if t = sample_metadata_text then Ok sample_metadata
       else Err ''unsupported'')\<rparr>"

lemma sample_json:
  "json_reads_back sample_lib" "json_to_string sample_lib (VObject []) = Ok ''{}''"
  "json_to_string sample_lib sample_metadata = Ok sample_metadata_text" "json_from_str sample_lib sample_metadata_text = Ok sample_metadata"
  by (auto simp: json_reads_back_def sample_lib_def sample_metadata_text_def sample_metadata_def split: if_splits)

definition sample_codec :: wait_codec where
  "sample_codec = \<lparr>decode_wait = (\<lambda>_. Err ''none''), hash_wait = (\<lambda>_. [])\<rparr>"

definition sample_env :: session_env where
  "sample_env = \<lparr>env_codec = sample_codec, env_lib = sample_lib\<rparr>"

definition lifecycle_job :: RuntimeJobRecord where
  "lifecycle_job = \<lparr>job_id = ''agent_run.lifecycle:r1'', job_kind = ''agent_run.lifecycle'', status = Queued, run_at_ms = 10,
     lease_owner = None, lease_expires_at_ms = None, heartbeat_at_ms = None, retry_count = 0, max_retries = 3,
     backoff_policy = default_backoff_policy, idempotency_key = ''agent_run.lifecycle:r1:d'', session_id = Some ''s'',
     branch_id = None, checkpoint_id = None, payload_ref = Some ''record:agent_run:r1'', output_refs = [], last_error = None,
     created_at_ms = 5, updated_at_ms = 5\<rparr>"

definition running_row :: runtime_job_row where
  "running_row = (new_row lifecycle_job)\<lparr>status := Running, lease_owner := Some ''w'', lease_expires_at_ms := Some 120\<rparr>"

definition run_db :: session_db where
  "run_db = empty_session_db\<lparr>base := empty_db\<lparr>runtime_jobs := [running_row]\<rparr>\<rparr>"

definition sample_enqueue :: "string \<Rightarrow> string \<Rightarrow> EnqueueTurnSupplementRequest" where
  "sample_enqueue i m = \<lparr>enq_agent_run_id = ''r1'', enq_lifecycle_job_id = ''agent_run.lifecycle:r1'', enq_session_id = ''s'',
     enq_authorization_digest = ''d'', enq_supplement_id = i, enq_message = m, enq_created_at_ms = 20\<rparr>"

definition sample_entry :: "string \<Rightarrow> nat \<Rightarrow> string \<Rightarrow> DurableTurnSupplement" where
  "sample_entry i n m = \<lparr>supplement_id = i, sequence = n, message = m, supplement_created_at_ms = 20, claim_token = None,
     claim_lease_owner = None\<rparr>"

definition sample_queue :: StoredQueue where
  "sample_queue = \<lparr>queue_agent_run_id = ''r1'', queue_lifecycle_job_id = ''agent_run.lifecycle:r1'', queue_session_id = ''s'',
     queue_authorization_digest = ''d'', revision = 2, next_sequence = 3, accepting = True,
     entries = [sample_entry ''a'' 1 ''m1'', sample_entry ''b'' 2 ''m2''],
     dedupe = [''a'' \<mapsto> ''sha256:m1'', ''b'' \<mapsto> ''sha256:m2''], closed_reason = None, queue_updated_at_ms = 20\<rparr>"

definition queue_db :: session_db where
  "queue_db = run_db\<lparr>supplement_queues := [sample_queue]\<rparr>"

lemma running_row_simps [simp]:
  "job_id running_row = ''agent_run.lifecycle:r1''" "job_kind running_row = ''agent_run.lifecycle''" "status running_row = Running"
  "session_id running_row = Some ''s''" "payload_ref running_row = Some ''record:agent_run:r1''"
  "idempotency_key running_row = ''agent_run.lifecycle:r1:d''" "lease_owner running_row = Some ''w''"
  "lease_expires_at_ms running_row = Some 120" "lease_reclaim_count running_row = 0"
  by (simp_all add: running_row_def lifecycle_job_def new_row_def RuntimeJobRecord.defs runtime_job_row.defs)

lemma sample_env_simps [simp]: "env_lib sample_env = sample_lib" "env_codec sample_env = sample_codec"
  "sha256_hex sample_lib = (\<lambda>b. b)"
  by (simp_all add: sample_env_def sample_lib_def)

lemma run_db_simps [simp]:
  "runtime_jobs (base run_db) = [running_row]" "runtime_events (base run_db) = []" "checkpoints run_db = []" "waiters run_db = []"
  "snapshots run_db = []" "external_objects run_db = []" "external_links run_db = []" "supplement_queues run_db = []"
  "transcript_heads run_db = []" "transcript_rows run_db = []"
  "runtime_job_outbox (base run_db) = []"
  by (simp_all add: run_db_def empty_session_db_def empty_db_def)

lemma queue_db_simps [simp]:
  "base queue_db = base run_db" "checkpoints queue_db = []" "waiters queue_db = []" "snapshots queue_db = []"
  "external_objects queue_db = []" "external_links queue_db = []" "supplement_queues queue_db = [sample_queue]"
  "transcript_heads queue_db = []" "transcript_rows queue_db = []"
  by (simp_all add: queue_db_def)

lemma sample_trim:
  "trim ''r1'' = ''r1''" "trim ''s'' = ''s''" "trim ''d'' = ''d''" "trim ''w'' = ''w''" "trim ''t'' = ''t''"
  "trim ''a'' = ''a''" "trim ''b'' = ''b''" "trim ''m1'' = ''m1''" "trim ''m2'' = ''m2''" "trim ''m'' = ''m''"
  "trim ''agent_run.lifecycle:r1'' = ''agent_run.lifecycle:r1''"
  by code_simp+

lemma sample_lifecycle_id: "agent_run_lifecycle_job_id ''r1'' = Ok ''agent_run.lifecycle:r1''"
  by code_simp

lemma sample_ids: "validate_turn_supplement_id ''a'' = Ok ''a''" "validate_turn_supplement_id ''b'' = Ok ''b''"
  by code_simp+

lemma sample_common: "validate_common_identity ''r1'' ''agent_run.lifecycle:r1'' ''s'' ''d'' = Ok ()"
  by (simp add: validate_common_identity_def sample_trim sample_lifecycle_id)

lemma sample_queue_ok: "queue_ok (\<lambda>b. b) sample_queue"
  by (simp add: queue_ok_def sample_queue_def sample_entry_def entry_ok_def MAX_PENDING_TURN_SUPPLEMENTS_def unique_by_def
      turn_supplement_message_digest_def)

lemma run_db_wf: "wf_session sample_env run_db" "wf_live sample_env run_db"
proof -
  show "wf_session sample_env run_db"
    by (simp add: wf_session_def wait_index_ok_def links_ok_def queues_ok_def unique_by_def)
  moreover have "wf_store (base run_db)"
    by (simp add: wf_store_def jobs_ok_def unique_by_def row_ok_def outbox_ok_def terminal_ids_def is_terminal_def events_ok_def)
  ultimately show "wf_live sample_env run_db" by (simp add: wf_live_def)
qed

lemma queue_db_wf: "wf_session sample_env queue_db" "wf_live sample_env queue_db"
proof -
  have "stored_queue_ok (\<lambda>b. b) (job_ids (base run_db)) sample_queue"
    by (simp add: stored_queue_ok_def sample_queue_ok job_ids_def) (simp add: sample_queue_def sample_lifecycle_id)
  then show "wf_session sample_env queue_db"
    using run_db_wf(1) by (simp add: wf_session_def queues_ok_def unique_by_def)
  then show "wf_live sample_env queue_db" using run_db_wf(2) by (simp add: wf_live_def)
qed

lemma sample_active:
  "validate_active_job ''r1'' ''agent_run.lifecycle:r1'' ''s'' ''d'' None True (base run_db) = Ok ()"
  "t < 120 \<Longrightarrow> validate_active_job ''r1'' ''agent_run.lifecycle:r1'' ''s'' ''d'' (Some (''w'', t)) rc (base run_db) = Ok ()"
  by (simp_all add: validate_active_job_def run_cancelled_def sql_find_def)

lemma sample_load_queue: "load_queue ''r1'' queue_db = Some sample_queue" "load_queue ''r1'' run_db = None"
  by (simp_all add: load_queue_def sql_find_def sample_queue_def)

end
