(* ===== verification/SupplementFlow.thy ===== *)
theory SupplementFlow
  imports SessionSamples
begin

text \<open>
  The guarantees of the turn supplement queue over runs of the whole store: the operations implement the
  life cycle of a queue, an accepted supplement is delivered and is never lost or accepted twice, a closed
  queue stays closed, and a worker without the lifecycle lease can neither claim nor acknowledge.
\<close>

section \<open>Operations and queue actions\<close>

fun queue_entitled :: "session_op \<Rightarrow> string \<Rightarrow> queue_action \<Rightarrow> bool" where
  "queue_entitled (EnqueueSupplement r) a act =
     (a = enq_agent_run_id r \<and> act = QEnqueue (enq_supplement_id r) (trim (enq_message r)))"
| "queue_entitled (ClaimSupplements r) a act =
     (a = clm_agent_run_id r \<and> (act = QClaim (clm_claim_token r) (clm_lease_owner r) \<or> act = QSeal \<and> close_if_empty r))"
| "queue_entitled (AcknowledgeSupplements r) a act =
     (a = ack_agent_run_id r \<and> act = QAck (ack_claim_token r) (ack_lease_owner r) (set (ack_supplement_ids r)))"
| "queue_entitled (CloseQueue r) a act = (a = cls_agent_run_id r \<and> act = QClose (cls_reason r))"
| "queue_entitled _ _ _ = False"

definition queue_moves :: "session_env \<Rightarrow> session_op \<Rightarrow> string \<Rightarrow> session_db \<Rightarrow> session_db \<Rightarrow> bool" where
  "queue_moves env op a s s' \<longleftrightarrow> load_queue a s' = load_queue a s \<or>
     (\<exists>act j ses d q'. queue_entitled op a act \<and> queue_step (sha256_hex (env_lib env)) act (queue_or_open a j ses d s) q' \<and>
        load_queue a s' = Some q')"

lemma queue_moves_same: "supplement_queues s' = supplement_queues s \<Longrightarrow> queue_moves env op a s s'"
  by (simp add: queue_moves_def load_queue_def)

lemma queue_moves_store:
  assumes "queue_step (sha256_hex (env_lib env)) act (queue_or_open b j ses d s) q'" and "queue_entitled op b act"
    and "queue_agent_run_id q' = b"
  shows "queue_moves env op a s (store_queue q' s)"
  using assms by (auto simp: queue_moves_def)

lemma commit_moves:
  "(\<And>v s'. f s = Ok (v, s') \<Longrightarrow> queue_moves env op a s s') \<Longrightarrow> queue_moves env op a s (commit_session f s)"
  by (cases f s rule: commit_session_cases) (auto simp: queue_moves_def)

lemma commit_queue_frame:
  "(\<And>v s'. f s = Ok (v, s') \<Longrightarrow> supplement_queues s' = supplement_queues s) \<Longrightarrow>
     supplement_queues (commit_session f s) = supplement_queues s"
  by (cases f s rule: commit_session_cases) auto

lemma queue_or_open_id: "queue_agent_run_id (queue_or_open a j ses d s) = a"
  by (auto simp: queue_or_open_def open_queue_def split: option.split dest: load_queue_id)

lemma stepped_id: "queue_step sha act (queue_or_open a j ses d s) q' \<Longrightarrow> queue_agent_run_id q' = a"
  by (simp add: queue_step_monotone(5) queue_or_open_id)

lemma queue_moves_wake [simp]: "queue_moves env op a s (wake_lifecycle_job r s') = queue_moves env op a s s'"
  by (simp add: queue_moves_def)

lemma wf_queues:
  assumes "wf_session env s"
  shows "unique_queues s" and "load_queue a s = Some q \<Longrightarrow> stored_queue_ok (sha256_hex (env_lib env)) (job_ids (base s)) q"
    and "load_queue a s = Some q \<Longrightarrow> queue_ok (sha256_hex (env_lib env)) q"
  using assms by (auto simp: wf_session_def queues_ok_def list_all_iff stored_queue_ok_def load_queue_def dest: sql_find_Some)

lemma session_queue_moves:
  assumes wf: "wf_session env s" and "\<not> deletes_session op"
  shows "queue_moves env op a s (session_exec env op s)"
proof -
  note u = wf_queues(1) [OF wf]
  show ?thesis
  proof (cases op)
    case (EnqueueSupplement r)
    have "queue_moves env op a s s'" if "enqueue_turn_supplement (sha256_hex (env_lib env)) r s = Ok (v, s')" for v s'
      using that u
    proof (cases rule: enqueue_effect)
      case (accepted q')
      note step = accepted(1) [unfolded enqueue_queue_def]
      show ?thesis unfolding accepted(2) queue_moves_wake
        by (rule queue_moves_store [OF step _ stepped_id [OF step]]) (simp add: EnqueueSupplement)
    qed (simp add: queue_moves_same)
    then show ?thesis by (simp add: EnqueueSupplement commit_moves)
  next
    case (ClaimSupplements r)
    have "queue_moves env op a s s'" if "claim_turn_supplements r s = Ok (v, s')" for v s'
    proof (rule claim_effect [OF that u wf_queues(3) [OF wf]])
      fix q' assume step: "queue_step (sha256_hex (env_lib env)) QSeal (claim_queue r s) q'" and s': "s' = store_queue q' s"
        and "close_if_empty r"
      note step = step [unfolded claim_queue_def]
      show ?thesis unfolding s'
        by (rule queue_moves_store [OF step _ stepped_id [OF step]]) (simp add: ClaimSupplements \<open>close_if_empty r\<close>)
    next
      fix q' assume step: "queue_step (sha256_hex (env_lib env)) (QClaim (clm_claim_token r) (clm_lease_owner r)) (claim_queue r s) q'"
        and s': "s' = store_queue q' s"
      note step = step [unfolded claim_queue_def]
      show ?thesis unfolding s'
        by (rule queue_moves_store [OF step _ stepped_id [OF step]]) (simp add: ClaimSupplements)
    qed (simp_all add: queue_moves_same)
    then show ?thesis by (simp add: ClaimSupplements commit_moves)
  next
    case (AcknowledgeSupplements r)
    have "queue_moves env op a s s'" if "acknowledge_turn_supplements r s = Ok (v, s')" for v s'
      using that u
    proof (cases rule: ack_effect [where sha = "sha256_hex (env_lib env)"])
      case (acked q q')
      then have "q = queue_or_open (ack_agent_run_id r) [] [] [] s" by (simp add: queue_or_open_def)
      note step = acked(3) [unfolded this]
      show ?thesis unfolding acked(2)
        by (rule queue_moves_store [OF step _ stepped_id [OF step]]) (simp add: AcknowledgeSupplements)
    qed (simp add: queue_moves_same)
    then show ?thesis by (simp add: AcknowledgeSupplements commit_moves)
  next
    case (CloseQueue r)
    have "queue_moves env op a s s'" if "close_turn_supplement_queue r s = Ok (v, s')" for v s'
    proof (rule close_effect [OF that u, of "sha256_hex (env_lib env)"])
      fix q' assume step: "queue_step (sha256_hex (env_lib env)) (QClose (cls_reason r)) (close_queue r s) q'"
        and s': "s' = store_queue q' s"
      note step = step [unfolded close_queue_def]
      show ?thesis unfolding s'
        by (rule queue_moves_store [OF step _ stepped_id [OF step]]) (simp add: CloseQueue)
    qed
    then show ?thesis by (simp add: CloseQueue commit_moves)
  qed (use assms(2) in \<open>auto intro!: queue_moves_same commit_queue_frame simp: snapshot_defs Let_def split: option.splits if_splits
        dest!: checkpoint_frames upsert_object_frame link_object_frame upsert_schedule_frame upsert_complete_frame\<close>)
qed

section \<open>Runs\<close>

lemma session_run_queue:
  assumes ops: "run (session_step env) s ops s'" "wf_session env s" "\<And>op. op \<in> set ops \<Longrightarrow> \<not> deletes_session op"
    and q: "load_queue a s = Some q" "R q"
    and step: "\<And>op act q q'. op \<in> set ops \<Longrightarrow> queue_entitled op a act \<Longrightarrow> queue_ok (sha256_hex (env_lib env)) q \<Longrightarrow>
      R q \<Longrightarrow> queue_step (sha256_hex (env_lib env)) act q q' \<Longrightarrow> R q'"
  shows "\<exists>q'. load_queue a s' = Some q' \<and> R q'"
proof (rule session_system.run_keeps [OF ops(1,2), of "\<lambda>s. \<exists>q. load_queue a s = Some q \<and> R q"])
  show "\<exists>q. load_queue a s = Some q \<and> R q" using q by blast
next
  fix s op s' assume op: "op \<in> set ops" and wf: "wf_session env s" and q: "\<exists>q. load_queue a s = Some q \<and> R q"
    and "session_step env s op s'"
  then have s': "s' = session_exec env op s" by (simp add: session_step_def)
  from q obtain q where q: "load_queue a s = Some q" "R q" by blast
  then have old: "queue_or_open a j ses d s = q" for j ses d by (simp add: queue_or_open_def)
  from session_queue_moves [OF wf ops(3) [OF op], of a] show "\<exists>q. load_queue a s' = Some q \<and> R q"
    unfolding queue_moves_def s' [symmetric] old using q step [OF op _ wf_queues(3) [OF wf q(1)] q(2)] by metis
qed

lemma enqueue_records:
  assumes "enqueue_turn_supplement sha r s = Ok (res, s')" and "unique_queues s"
  shows "\<exists>q. load_queue (enq_agent_run_id r) s' = Some q \<and>
    dedupe q (enq_supplement_id r) = Some (turn_supplement_message_digest sha (trim (enq_message r)))"
  using assms
proof (cases rule: enqueue_effect)
  case (accepted q')
  then have "dedupe q' (enq_supplement_id r) = Some (turn_supplement_message_digest sha (trim (enq_message r)))"
    by (auto elim: queue_enqueueE)
  with accepted show ?thesis using stepped_id [OF accepted(1) [unfolded enqueue_queue_def]] by simp
qed auto

lemma enqueue_known:
  assumes "enqueue_turn_supplement sha r s = Ok (res, s')" and "unique_queues s"
    and "load_queue (enq_agent_run_id r) s = Some q" and "dedupe q (enq_supplement_id r) = Some d"
  shows "enq_disposition res = Duplicate \<and> s' = s \<and> d = turn_supplement_message_digest sha (trim (enq_message r))"
  using assms(1,2)
proof (cases rule: enqueue_effect)
  case (accepted q')
  then have "dedupe q (enq_supplement_id r) = None"
    using assms(3) by (auto simp: enqueue_queue_def queue_or_open_def elim: queue_enqueueE)
  then show ?thesis using assms(4) by simp
qed (use assms(3,4) in auto)

lemma enqueue_closed:
  assumes "enqueue_turn_supplement sha r s = Ok (res, s')" and "unique_queues s"
    and "load_queue (enq_agent_run_id r) s = Some q" and "\<not> accepting q"
  shows "enq_disposition res = Duplicate \<and> s' = s"
  using assms(1,2)
proof (cases rule: enqueue_effect)
  case (accepted q')
  then have "accepting q"
    using assms(3) by (auto simp: enqueue_queue_def queue_or_open_def elim: queue_enqueueE)
  then show ?thesis using assms(4) by simp
qed auto

lemma close_closes:
  assumes "close_turn_supplement_queue r s = Ok (u, s')" and "unique_queues s"
  shows "\<exists>q. load_queue (cls_agent_run_id r) s' = Some q \<and> \<not> accepting q"
proof (rule close_effect [OF assms, of "\<lambda>x. x"])
  fix q' assume step: "queue_step (\<lambda>x. x) (QClose (cls_reason r)) (close_queue r s) q'" and s': "s' = store_queue q' s"
  from step have "\<not> accepting q'" by (auto elim: queue_step.cases)
  with s' stepped_id [OF step [unfolded close_queue_def]] show ?thesis by simp
qed

text \<open>The operations that can take an entry out of the queue of an agent run.\<close>

definition drops_entry :: "string \<Rightarrow> string \<Rightarrow> session_op \<Rightarrow> bool" where
  "drops_entry a i op \<longleftrightarrow> (case op of
     AcknowledgeSupplements r \<Rightarrow> ack_agent_run_id r = a \<and> i \<in> set (ack_supplement_ids r)
   | CloseQueue r \<Rightarrow> cls_agent_run_id r = a
   | DeleteSession ses \<Rightarrow> True
   | _ \<Rightarrow> False)"

section \<open>Properties\<close>

text \<open>
  C10: The operations of the SQLite store implement the life cycle of a turn supplement queue. Whatever
  operation runs on a well-formed database, the queue of an agent run stays as it is, moves by exactly one
  step of the life cycle that this operation is entitled to for this run (creation is the first step of an
  open, empty queue), or disappears with the deletion of its session.
\<close>

theorem supplement_queue_refines_life_cycle:
  assumes "wf_session env s"
  shows "queue_moves env op a s (session_exec env op s) \<or> deletes_session op \<and> load_queue a (session_exec env op s) = None"
proof (cases "deletes_session op")
  case True
  then obtain ses where op: "op = DeleteSession ses" by (cases op) auto
  show ?thesis
  proof (cases "delete_session_data ses" s rule: commit_session_cases)
    case (ok v)
    show ?thesis
      using delete_session_Ok(7) [OF ok] sql_find_delete [OF wf_queues(1) [OF assms], of a]
      by (auto simp: op queue_moves_def load_queue_def split: option.splits if_splits)
  qed (simp add: op queue_moves_same)
qed (use session_queue_moves [OF assms] in blast)

theorem supplement_queue_refines_life_cycle_witness:
  "wf_session sample_env queue_db \<and>
   (queue_moves sample_env (EnqueueSupplement (sample_enqueue ''c'' ''m'')) ''r1'' queue_db
      (session_exec sample_env (EnqueueSupplement (sample_enqueue ''c'' ''m'')) queue_db) \<or>
    deletes_session (EnqueueSupplement (sample_enqueue ''c'' ''m'')) \<and>
      load_queue ''r1'' (session_exec sample_env (EnqueueSupplement (sample_enqueue ''c'' ''m'')) queue_db) = None)"
  using queue_db_wf(1) supplement_queue_refines_life_cycle [OF queue_db_wf(1)] by blast

text \<open>
  A supplement is accepted at most once. After an enqueue succeeded, whatever runs in between short of
  deleting sessions, a later enqueue with the same agent run and supplement identity can only be answered as
  a duplicate that changes nothing, and only when its trimmed message has the digest first accepted.
\<close>

theorem supplement_accepted_once:
  assumes "wf_session env s" and "enqueue_turn_supplement (sha256_hex (env_lib env)) r s = Ok (res, s1)"
    and "\<not> list_ex deletes_session ops"
    and "enq_agent_run_id r2 = enq_agent_run_id r" and "enq_supplement_id r2 = enq_supplement_id r"
    and "enqueue_turn_supplement (sha256_hex (env_lib env)) r2 (fold (session_exec env) ops s1) = Ok (res2, s2)"
  shows "enq_disposition res2 = Duplicate \<and> s2 = fold (session_exec env) ops s1 \<and>
    turn_supplement_message_digest (sha256_hex (env_lib env)) (trim (enq_message r2)) =
      turn_supplement_message_digest (sha256_hex (env_lib env)) (trim (enq_message r))"
proof -
  let ?sha = "sha256_hex (env_lib env)" and ?s = "fold (session_exec env) ops s1"
  let ?known = "\<lambda>q. dedupe q (enq_supplement_id r) = Some (turn_supplement_message_digest ?sha (trim (enq_message r)))"
  have "s1 = session_exec env (EnqueueSupplement r) s" using assms(2) by (simp add: commit_session_def)
  then have wf1: "wf_session env s1" using assms(1) by (simp add: session_exec_wf del: session_exec.simps)
  have ops: "run (session_step env) s1 ops ?s" by (simp add: run_session_iff)
  obtain q where q: "load_queue (enq_agent_run_id r) s1 = Some q" "?known q"
    using enqueue_records [OF assms(2) wf_queues(1) [OF assms(1)]] by blast
  have "\<exists>q'. load_queue (enq_agent_run_id r) ?s = Some q' \<and> ?known q'"
  proof (rule session_run_queue [OF ops wf1 _ q(1), of ?known])
    show "?known q" by (rule q(2))
    show "\<not> deletes_session op" if "op \<in> set ops" for op using assms(3) that by (auto simp: list_ex_iff)
    show "?known q'" if "?known q" "queue_step ?sha act q q'" for act q q'
      using queue_step_monotone(1) [OF that(2)] that(1) by (metis domI map_le_def)
  qed
  then obtain q' where "load_queue (enq_agent_run_id r2) ?s = Some q'"
    "dedupe q' (enq_supplement_id r2) = Some (turn_supplement_message_digest ?sha (trim (enq_message r)))"
    unfolding assms(4,5) by blast
  from enqueue_known [OF assms(6) wf_queues(1) [OF session_system.run_inv [OF ops wf1]] this] show ?thesis by auto
qed

definition accepted_queue :: StoredQueue where
  "accepted_queue = \<lparr>queue_agent_run_id = ''r1'', queue_lifecycle_job_id = ''agent_run.lifecycle:r1'', queue_session_id = ''s'',
     queue_authorization_digest = ''d'', revision = 1, next_sequence = 2, accepting = True,
     entries = [sample_entry ''a'' 1 ''m1''], dedupe = [''a'' \<mapsto> ''sha256:m1''], closed_reason = None, queue_updated_at_ms = 20\<rparr>"

definition accepted_db :: session_db where
  "accepted_db = run_db\<lparr>supplement_queues := [accepted_queue]\<rparr>"

lemma sample_accepts:
  "enqueue_turn_supplement (\<lambda>b. b) (sample_enqueue ''a'' ''m1'') run_db =
     Ok (\<lparr>enq_disposition = Accepted, queued_count = 1, enq_revision = 1\<rparr>, accepted_db)"
proof -
  have small: "u64_saturating_add 0 (Suc 0) = Suc 0" "u64_saturating_add (Suc 0) (Suc 0) = 2"
    by (simp_all add: u64_saturating_add_def u64_max_def)
  have "wake_lifecycle_job (sample_enqueue ''a'' ''m1'') accepted_db = accepted_db"
    by (simp add: wake_lifecycle_job_def accepted_db_def sample_enqueue_def sql_update_def)
  then show ?thesis
    by (simp add: enqueue_turn_supplement_def sample_enqueue_def validate_turn_supplement_message_def Let_def sample_trim
        MAX_TURN_SUPPLEMENT_BYTES_def sample_ids validate_enqueue_identity_def sample_common sample_active read_queue_def
        sample_load_queue admit_entry_def MAX_PENDING_TURN_SUPPLEMENTS_def write_entries_def small insert_queue_def sql_counter_def
        i64_max_def turn_supplement_message_digest_def new_entry_def accepted_db_def accepted_queue_def sample_entry_def)
qed

lemma sample_repeats:
  "enqueue_turn_supplement (\<lambda>b. b) (sample_enqueue ''a'' ''m1'') accepted_db =
     Ok (\<lparr>enq_disposition = Duplicate, queued_count = 1, enq_revision = 1\<rparr>, accepted_db)"
proof -
  have "load_queue ''r1'' accepted_db = Some accepted_queue" "base accepted_db = base run_db"
    by (simp_all add: load_queue_def accepted_db_def sql_find_def accepted_queue_def)
  then show ?thesis
    by (simp add: enqueue_turn_supplement_def sample_enqueue_def validate_turn_supplement_message_def Let_def sample_trim
        MAX_TURN_SUPPLEMENT_BYTES_def sample_ids validate_enqueue_identity_def sample_common sample_active read_queue_def
        admit_entry_def queue_identity_def accepted_queue_def turn_supplement_message_digest_def)
qed

theorem supplement_accepted_once_witness:
  "enqueue_turn_supplement (\<lambda>b. b) (sample_enqueue ''a'' ''m1'') run_db =
     Ok (\<lparr>enq_disposition = Accepted, queued_count = 1, enq_revision = 1\<rparr>, accepted_db) \<and>
   enq_disposition \<lparr>enq_disposition = Duplicate, queued_count = 1, enq_revision = 1\<rparr> = Duplicate \<and>
   accepted_db = fold (session_exec sample_env) [Store (ReclaimClaims 0)] accepted_db"
proof -
  have same: "fold (session_exec sample_env) [Store (ReclaimClaims 0)] accepted_db = accepted_db"
    by (simp add: commit_session_def on_base_def discard_def reclaim_expired_resource_claims_def sql_delete_def Let_def accepted_db_def run_db_def empty_session_db_def
        empty_db_def res_bind_def)
  show ?thesis
    using supplement_accepted_once [of sample_env run_db "sample_enqueue ''a'' ''m1''" _ accepted_db "[Store (ReclaimClaims 0)]"
        "sample_enqueue ''a'' ''m1''", unfolded same, OF run_db_wf(1)] sample_accepts sample_repeats same by simp
qed

text \<open>
  C11: An accepted supplement is not lost. An entry of a queue keeps its identity, message and position in
  every later state as long as no session is deleted, the queue of its agent run is not closed and no
  acknowledgement for this run names it.
\<close>

theorem supplement_not_lost:
  assumes "wf_session env s" and "load_queue a s = Some q" and "e \<in> set (entries q)"
    and "\<not> list_ex (drops_entry a (supplement_id e)) ops"
  shows "\<exists>q' e'. load_queue a (fold (session_exec env) ops s) = Some q' \<and> e' \<in> set (entries q') \<and>
    supplement_id e' = supplement_id e \<and> message e' = message e \<and> sequence e' = sequence e"
proof -
  let ?sha = "sha256_hex (env_lib env)"
  let ?there = "\<lambda>q. \<exists>e' \<in> set (entries q). supplement_id e' = supplement_id e \<and> message e' = message e \<and> sequence e' = sequence e"
  have keeps: "\<not> drops_entry a (supplement_id e) op" if "op \<in> set ops" for op
    using assms(4) that by (auto simp: list_ex_iff)
  have ops: "run (session_step env) s ops (fold (session_exec env) ops s)" by (simp add: run_session_iff)
  have "\<exists>q'. load_queue a (fold (session_exec env) ops s) = Some q' \<and> ?there q'"
  proof (rule session_run_queue [OF ops assms(1) _ assms(2), of ?there])
    show "\<not> deletes_session op" if "op \<in> set ops" for op
      using keeps [OF that] by (cases op) (auto simp: drops_entry_def)
    show "?there q" using assms(3) by blast
    show "?there q'" if "op \<in> set ops" "queue_entitled op a act" "?there q" "queue_step ?sha act q q'" for op act q q'
    proof -
      from that(3) obtain e' where e': "e' \<in> set (entries q)" "supplement_id e' = supplement_id e" "message e' = message e"
        "sequence e' = sequence e" by blast
      have "\<not> (\<exists>tok own ids. act = QAck tok own ids \<and> supplement_id e' \<in> ids)" "\<not> (\<exists>why. act = QClose why)"
        using keeps [OF that(1)] that(2) e'(2) by (cases op; auto simp: drops_entry_def)+
      with queue_step_entry [OF that(4) e'(1)] e' show ?thesis by metis
    qed
  qed
  then show ?thesis by blast
qed

theorem supplement_not_lost_witness:
  "\<exists>q' e'. load_queue ''r1'' (fold (session_exec sample_env) [Store (ReclaimLeases 500), EnqueueSupplement (sample_enqueue ''c'' ''m'')] queue_db) = Some q' \<and>
     e' \<in> set (entries q') \<and> supplement_id e' = ''b'' \<and> message e' = ''m2'' \<and> sequence e' = 2"
proof -
  have e: "sample_entry ''b'' 2 ''m2'' \<in> set (entries sample_queue)" by (simp add: sample_queue_def)
  have "\<not> list_ex (drops_entry ''r1'' (supplement_id (sample_entry ''b'' 2 ''m2'')))
      [Store (ReclaimLeases 500), EnqueueSupplement (sample_enqueue ''c'' ''m'')]"
    by (simp add: drops_entry_def)
  from supplement_not_lost [OF queue_db_wf(1) sample_load_queue(1) e this] show ?thesis by (simp add: sample_entry_def del: fold_simps)
qed

text \<open>
  A closed queue stays closed. After a close succeeded, whatever runs in between short of deleting
  sessions, the queue is empty, an enqueue for its agent run accepts nothing and changes nothing, and a
  claim delivers nothing.
\<close>

theorem closed_queue_admits_nothing:
  assumes "wf_session env s" and "close_turn_supplement_queue r s = Ok (u, s1)" and "\<not> list_ex deletes_session ops"
    and "enq_agent_run_id r2 = cls_agent_run_id r" and "clm_agent_run_id r3 = cls_agent_run_id r"
  defines "s2 \<equiv> fold (session_exec env) ops s1"
  shows "(\<exists>q. load_queue (cls_agent_run_id r) s2 = Some q \<and> \<not> accepting q \<and> entries q = []) \<and>
    session_exec env (EnqueueSupplement r2) s2 = s2 \<and>
    (\<forall>cs s3. claim_turn_supplements r3 s2 = Ok (cs, s3) \<longrightarrow> cs = [])"
proof -
  let ?sha = "sha256_hex (env_lib env)"
  have "s1 = session_exec env (CloseQueue r) s" using assms(2) by (simp add: commit_session_def)
  then have wf1: "wf_session env s1" using assms(1) by (simp add: session_exec_wf del: session_exec.simps)
  have ops: "run (session_step env) s1 ops s2" by (simp add: run_session_iff s2_def)
  note wf2 = session_system.run_inv [OF ops wf1]
  obtain q where q: "load_queue (cls_agent_run_id r) s1 = Some q" "\<not> accepting q"
    using close_closes [OF assms(2) wf_queues(1) [OF assms(1)]] by blast
  have "\<exists>q'. load_queue (cls_agent_run_id r) s2 = Some q' \<and> \<not> accepting q'"
  proof (rule session_run_queue [OF ops wf1 _ q(1), of "\<lambda>q. \<not> accepting q"])
    show "\<not> deletes_session op" if "op \<in> set ops" for op using assms(3) that by (auto simp: list_ex_iff)
  qed (use q(2) queue_step_monotone(4) in auto)
  then obtain q' where q': "load_queue (cls_agent_run_id r) s2 = Some q'" "\<not> accepting q'" by blast
  then have "entries q' = []" using wf_queues(3) [OF wf2 q'(1)] by (simp add: queue_ok_def)
  moreover have "session_exec env (EnqueueSupplement r2) s2 = s2"
  proof (cases "enqueue_turn_supplement ?sha r2" s2 rule: commit_session_cases)
    case (ok v)
    then show ?thesis using enqueue_closed [OF ok wf_queues(1) [OF wf2]] q' assms(4) by simp
  qed simp
  moreover have "cs = []" if "claim_turn_supplements r3 s2 = Ok (cs, s3)" for cs s3
    using that q'(1) \<open>entries q' = []\<close> assms(5)
    by (auto simp: claim_turn_supplements_def result_simps Let_def split: if_splits)
  ultimately show ?thesis using q' by blast
qed

definition sample_close :: CloseTurnSupplementQueueRequest where
  "sample_close = \<lparr>cls_agent_run_id = ''r1'', cls_lifecycle_job_id = ''agent_run.lifecycle:r1'', cls_session_id = ''s'',
     cls_authorization_digest = ''d'', cls_lease_owner = Some ''w'', cls_reason = ''m'', closed_at_ms = 30\<rparr>"

definition sample_claims :: ClaimTurnSupplementsRequest where
  "sample_claims = \<lparr>clm_agent_run_id = ''r1'', clm_lifecycle_job_id = ''agent_run.lifecycle:r1'', clm_session_id = ''s'',
     clm_authorization_digest = ''d'', clm_lease_owner = ''w'', clm_claim_token = ''t'', clm_now_ms = 30,
     close_if_empty = False, clm_limit = 1\<rparr>"

lemma sample_closes: "\<exists>s1. close_turn_supplement_queue sample_close queue_db = Ok ((), s1)"
proof -
  have "\<exists>s1. update_queue ''r1'' (sample_queue\<lparr>accepting := False, entries := [], closed_reason := Some ''m''\<rparr>) 30 queue_db = Ok ((), s1)"
    by (simp add: update_queue_def sql_counter_def sql_count_def same_revision_def)
      (simp add: sample_queue_def u64_saturating_add_def u64_max_def i64_max_def)
  then show ?thesis
    by (simp add: close_turn_supplement_queue_def sample_close_def validate_close_identity_def sample_common sample_trim sample_active(2)
        sample_load_queue queue_identity_def) (simp add: sample_queue_def)
qed

theorem closed_queue_admits_nothing_witness:
  "\<exists>s1. close_turn_supplement_queue sample_close queue_db = Ok ((), s1) \<and>
     session_exec sample_env (EnqueueSupplement (sample_enqueue ''c'' ''m'')) s1 = s1"
proof -
  obtain s1 where s1: "close_turn_supplement_queue sample_close queue_db = Ok ((), s1)" using sample_closes by blast
  have "enq_agent_run_id (sample_enqueue ''c'' ''m'') = cls_agent_run_id sample_close"
    "clm_agent_run_id sample_claims = cls_agent_run_id sample_close"
    by (simp_all add: sample_enqueue_def sample_close_def sample_claims_def)
  with closed_queue_admits_nothing [OF queue_db_wf(1) s1, of "[]"] s1 show ?thesis by (auto simp del: session_exec.simps)
qed

section \<open>Delivery\<close>

definition acknowledgement :: "ClaimTurnSupplementsRequest \<Rightarrow> string list \<Rightarrow> int \<Rightarrow> AcknowledgeTurnSupplementsRequest" where
  "acknowledgement r ids now = \<lparr>ack_agent_run_id = clm_agent_run_id r, ack_lifecycle_job_id = clm_lifecycle_job_id r,
     ack_session_id = clm_session_id r, ack_authorization_digest = clm_authorization_digest r,
     ack_lease_owner = clm_lease_owner r, ack_claim_token = clm_claim_token r, ack_supplement_ids = ids,
     acknowledged_at_ms = now\<rparr>"

lemma update_queue_succeeds:
  assumes "unique_queues s" and "load_queue a s = Some p" and "revision q = revision p" and "int (revision p) < i64_max"
  shows "update_queue a q now s = Ok ((), store_queue (p\<lparr>revision := revision p + 1, accepting := accepting q, entries := entries q,
     dedupe := dedupe q, closed_reason := closed_reason q, queue_updated_at_ms := now\<rparr>) s)"
proof -
  have small: "u64_saturating_add (revision p) (Suc 0) = Suc (revision p)"
    using assms(4) by (simp add: u64_saturating_add_def i64_max_def u64_max_def)
  have p: "p \<in> set (supplement_queues s)" "queue_agent_run_id p = a" using assms(1,2) by (auto simp: load_queue_iff)
  have "sql_count (same_revision a (revision q)) (supplement_queues s) = 1"
    using sql_count_unique [OF assms(1), of "same_revision a (revision q)" a] p assms(3)
      sql_count_pos [of "same_revision a (revision q)" "supplement_queues s"]
    by (force simp: same_revision_def)
  then have "\<exists>s'. update_queue a q now s = Ok ((), s')"
    using assms(3,4) small by (auto simp: update_queue_def sql_counter_def)
  then show ?thesis using update_queue_effect [OF _ assms(1-3)] by blast
qed

text \<open>A claim by a worker that holds no claim of this queue yet takes the first entries, and they can be acknowledged.\<close>

lemma claim_fresh:
  assumes "distinct es" and "0 < clm_limit r" and "\<forall>e \<in> set es. claim_token e \<noteq> Some (clm_claim_token r) \<and> claim_lease_owner e \<noteq> Some (clm_lease_owner r)"
  shows "claim_entries r 0 es = Ok (map (claimed_entry r) (take (clm_limit r) es) @ drop (clm_limit r) es,
    map (claimed_entry r) (take (clm_limit r) es))"
proof -
  have free: "claimable r (clm_limit r) es = take (clm_limit r) es" using assms(3) by (simp add: claimable_def)
  have "set (drop (clm_limit r) es) \<inter> set (take (clm_limit r) es) = {}"
    using assms(1) set_take_disj_set_drop_if_distinct [of es "clm_limit r" "clm_limit r"] by auto
  then have "map (\<lambda>e. if e \<in> set (take (clm_limit r) es) then claimed_entry r e else e) (drop (clm_limit r) es) = drop (clm_limit r) es"
    by (intro map_idI) auto
  then have "sql_update (\<lambda>e. e \<in> set (take (clm_limit r) es)) (claimed_entry r) (take (clm_limit r) es @ drop (clm_limit r) es) =
      map (claimed_entry r) (take (clm_limit r) es) @ drop (clm_limit r) es"
    unfolding sql_update_def map_append by simp
  then have "sql_update (\<lambda>e. e \<in> set (take (clm_limit r) es)) (claimed_entry r) es =
      map (claimed_entry r) (take (clm_limit r) es) @ drop (clm_limit r) es" by simp
  then show ?thesis
    using claim_entries_spec [of 0 r es] assms free by (auto simp: Let_def dest: in_set_takeD)
qed

lemma claim_succeeds:
  assumes "unique_queues s" and q: "load_queue (clm_agent_run_id r) s = Some q" and "distinct (entries q)" "entries q \<noteq> []"
    and "validate_claim_identity r = Ok ()"
    and "queue_identity (clm_lifecycle_job_id r) (clm_session_id r) (clm_authorization_digest r) q = Ok ()"
    and "validate_active_job (clm_agent_run_id r) (clm_lifecycle_job_id r) (clm_session_id r) (clm_authorization_digest r)
      (Some (clm_lease_owner r, clm_now_ms r)) True (base s) = Ok ()"
    and "\<forall>e \<in> set (entries q). claim_token e \<noteq> Some (clm_claim_token r) \<and> claim_lease_owner e \<noteq> Some (clm_lease_owner r)"
    and "int (revision q) < i64_max"
  defines "cs \<equiv> map (claimed_entry r) (take (clm_limit r) (entries q))"
  shows "claim_turn_supplements r s = Ok (cs, store_queue (q\<lparr>revision := revision q + 1, entries := cs @ drop (clm_limit r) (entries q),
    closed_reason := None, queue_updated_at_ms := clm_now_ms r\<rparr>) s)" and "cs \<noteq> []"
proof -
  have limit: "0 < clm_limit r" using assms(5) by (auto simp: validate_claim_identity_def result_simps split: if_splits)
  show ne: "cs \<noteq> []" using limit assms(4) by (simp add: cs_def)
  let ?es = "cs @ drop (clm_limit r) (entries q)"
  have "claim_entries r 0 (entries q) = Ok (?es, cs)" using claim_fresh [OF assms(3) limit assms(8)] by (simp add: cs_def)
  moreover have "update_queue (clm_agent_run_id r) (q\<lparr>entries := ?es, closed_reason := None\<rparr>) (clm_now_ms r) s =
      Ok ((), store_queue (q\<lparr>revision := revision q + 1, entries := ?es, closed_reason := None, queue_updated_at_ms := clm_now_ms r\<rparr>) s)"
    by (subst update_queue_succeeds [OF assms(1) q _ assms(9)]) simp_all
  ultimately show "claim_turn_supplements r s = Ok (cs, store_queue (q\<lparr>revision := revision q + 1, entries := ?es,
      closed_reason := None, queue_updated_at_ms := clm_now_ms r\<rparr>) s)"
    using ne assms(5-7) q by (simp add: claim_turn_supplements_def Let_def)
qed

lemma ack_succeeds:
  assumes "unique_queues s" and q: "load_queue (ack_agent_run_id r) s = Some q" and "validate_ack_identity r = Ok ()"
    and "validate_active_job (ack_agent_run_id r) (ack_lifecycle_job_id r) (ack_session_id r) (ack_authorization_digest r)
      (Some (ack_lease_owner r, acknowledged_at_ms r)) True (base s) = Ok ()"
    and m: "filter (\<lambda>e. supplement_id e \<in> set (ack_supplement_ids r)) (entries q) = m" "m \<noteq> []"
      "length m = card (set (ack_supplement_ids r))"
      "\<forall>e \<in> set m. claim_token e = Some (ack_claim_token r) \<and> claim_lease_owner e = Some (ack_lease_owner r)"
    and "int (revision q) < i64_max"
  shows "acknowledge_turn_supplements r s = Ok ((), store_queue (q\<lparr>revision := revision q + 1,
    entries := filter (\<lambda>e. supplement_id e \<notin> set (ack_supplement_ids r)) (entries q), queue_updated_at_ms := acknowledged_at_ms r\<rparr>) s)"
  using assms(3,4) m q update_queue_succeeds [OF assms(1) q _ assms(9), of "q\<lparr>entries := _\<rparr>"]
  by (simp add: acknowledge_turn_supplements_def Let_def)

lemma filter_first_ids:
  assumes "unique_by supplement_id es" and "ids = set (map supplement_id (take n es))" and "\<And>e. supplement_id (f e) = supplement_id e"
  shows "filter (\<lambda>e. supplement_id e \<in> ids) (map f (take n es) @ drop n es) = map f (take n es)"
    and "filter (\<lambda>e. supplement_id e \<notin> ids) (map f (take n es) @ drop n es) = drop n es"
    and "length (take n es) = card ids"
proof -
  have "distinct (map supplement_id (take n es) @ map supplement_id (drop n es))"
    using assms(1) unfolding unique_by_def by (metis append_take_drop_id map_append)
  then have rest: "supplement_id e \<notin> ids" if "e \<in> set (drop n es)" for e using assms(2) that by auto
  have first: "supplement_id (f e) \<in> ids" if "e \<in> set (take n es)" for e using assms(2,3) that by auto
  show "filter (\<lambda>e. supplement_id e \<in> ids) (map f (take n es) @ drop n es) = map f (take n es)"
    using rest first by (auto simp: filter_empty_conv intro!: filter_True)
  show "filter (\<lambda>e. supplement_id e \<notin> ids) (map f (take n es) @ drop n es) = drop n es"
    using rest first by (auto simp: filter_empty_conv intro!: filter_True)
  have "distinct (map supplement_id (take n es))" using assms(1) unfolding unique_by_def by (metis distinct_take take_map)
  then show "length (take n es) = card ids" unfolding assms(2) by (metis distinct_card length_map)
qed

text \<open>
  C12: Queued supplements drain. A worker that holds the lifecycle lease, on a queue in which neither its
  token nor its lease owner has a claim, claims the first entries in their order, up to its limit, also those
  that an earlier worker had claimed; and its acknowledgement of them succeeds and leaves exactly the others.
\<close>

theorem supplements_drain:
  assumes "wf_session env s" and "load_queue (clm_agent_run_id r) s = Some q" and "entries q \<noteq> []"
    and "validate_claim_identity r = Ok ()"
    and "queue_identity (clm_lifecycle_job_id r) (clm_session_id r) (clm_authorization_digest r) q = Ok ()"
    and "\<And>t. t \<in> {clm_now_ms r, now} \<Longrightarrow> validate_active_job (clm_agent_run_id r) (clm_lifecycle_job_id r) (clm_session_id r)
      (clm_authorization_digest r) (Some (clm_lease_owner r, t)) True (base s) = Ok ()"
    and "\<And>e. e \<in> set (entries q) \<Longrightarrow> claim_token e \<noteq> Some (clm_claim_token r) \<and> claim_lease_owner e \<noteq> Some (clm_lease_owner r)"
    and "int (revision q) + 1 < i64_max"
  shows "\<exists>s1 s2 q2. claim_turn_supplements r s = Ok (map (claimed_entry r) (take (clm_limit r) (entries q)), s1) \<and>
    acknowledge_turn_supplements (acknowledgement r (map supplement_id (take (clm_limit r) (entries q))) now) s1 = Ok ((), s2) \<and>
    load_queue (clm_agent_run_id r) s2 = Some q2 \<and> entries q2 = drop (clm_limit r) (entries q)"
proof -
  let ?first = "take (clm_limit r) (entries q)" and ?rest = "drop (clm_limit r) (entries q)"
  let ?ids = "set (map supplement_id ?first)" and ?a = "clm_agent_run_id r"
  let ?q1 = "q\<lparr>revision := revision q + 1, entries := map (claimed_entry r) ?first @ ?rest, closed_reason := None,
    queue_updated_at_ms := clm_now_ms r\<rparr>"
  let ?ack = "acknowledgement r (map supplement_id ?first) now" and ?s1 = "store_queue ?q1 s"
  let ?q2 = "?q1\<lparr>revision := revision q + 2, entries := ?rest, queue_updated_at_ms := now\<rparr>"
  note u = wf_queues(1) [OF assms(1)] and ok = wf_queues(3) [OF assms(1,2)]
  have uniq: "unique_by supplement_id (entries q)" using ok by (simp add: queue_ok_def)
  have claim: "claim_turn_supplements r s = Ok (map (claimed_entry r) ?first, ?s1)" and ne: "?first \<noteq> []"
    using claim_succeeds [OF u assms(2) distinct_entries [OF ok] assms(3-5)] assms(6-8) by auto
  have same: "supplement_id (claimed_entry r e) = supplement_id e" for e by (simp add: claimed_entry_def)
  note parts = filter_first_ids [OF uniq refl same, of "clm_limit r"]
  have q1: "load_queue ?a ?s1 = Some ?q1" using load_queue_id [OF assms(2)] by simp
  have "acknowledge_turn_supplements ?ack ?s1 = Ok ((), store_queue ((?q1)\<lparr>revision := revision ?q1 + 1,
      entries := filter (\<lambda>e. supplement_id e \<notin> set (ack_supplement_ids ?ack)) (entries ?q1), queue_updated_at_ms := acknowledged_at_ms ?ack\<rparr>) ?s1)"
  proof (rule ack_succeeds [where m = "map (claimed_entry r) ?first"])
    show "unique_queues ?s1" by (rule unique_store_queue [OF u])
    show "load_queue (ack_agent_run_id ?ack) ?s1 = Some ?q1" using q1 by (simp add: acknowledgement_def)
    show "validate_ack_identity ?ack = Ok ()"
      using assms(4) ne by (auto simp: validate_claim_identity_def validate_ack_identity_def acknowledgement_def result_simps split: if_splits)
  qed (use parts ne assms(6-8) in \<open>simp_all add: acknowledgement_def claimed_entry_def\<close>)
  then have "acknowledge_turn_supplements ?ack ?s1 = Ok ((), store_queue ?q2 ?s1)"
    using parts by (simp add: acknowledgement_def)
  moreover have "load_queue ?a (store_queue ?q2 ?s1) = Some ?q2" using load_queue_id [OF assms(2)] by simp
  ultimately show ?thesis using claim by (intro exI [of _ ?s1] exI [of _ "store_queue ?q2 ?s1"] exI [of _ ?q2]) simp
qed

lemma sample_claims_simps [simp]:
  "clm_agent_run_id sample_claims = ''r1''" "clm_lifecycle_job_id sample_claims = ''agent_run.lifecycle:r1''"
  "clm_session_id sample_claims = ''s''" "clm_authorization_digest sample_claims = ''d''" "clm_lease_owner sample_claims = ''w''"
  "clm_claim_token sample_claims = ''t''" "clm_now_ms sample_claims = 30" "clm_limit sample_claims = 1"
  by (simp_all add: sample_claims_def)

lemma sample_queue_entries: "entries sample_queue = [sample_entry ''a'' 1 ''m1'', sample_entry ''b'' 2 ''m2'']"
  by (simp add: sample_queue_def)

theorem supplements_drain_witness:
  "\<exists>s1 s2 q2. claim_turn_supplements sample_claims queue_db = Ok (map (claimed_entry sample_claims) [sample_entry ''a'' 1 ''m1''], s1) \<and>
    acknowledge_turn_supplements (acknowledgement sample_claims [''a''] 40) s1 = Ok ((), s2) \<and>
    load_queue ''r1'' s2 = Some q2 \<and> entries q2 = [sample_entry ''b'' 2 ''m2'']"
proof -
  have "\<exists>s1 s2 q2. claim_turn_supplements sample_claims queue_db =
        Ok (map (claimed_entry sample_claims) (take (clm_limit sample_claims) (entries sample_queue)), s1) \<and>
      acknowledge_turn_supplements (acknowledgement sample_claims
        (map supplement_id (take (clm_limit sample_claims) (entries sample_queue))) 40) s1 = Ok ((), s2) \<and>
      load_queue (clm_agent_run_id sample_claims) s2 = Some q2 \<and> entries q2 = drop (clm_limit sample_claims) (entries sample_queue)"
  proof (rule supplements_drain [OF queue_db_wf(1)])
    show "load_queue (clm_agent_run_id sample_claims) queue_db = Some sample_queue" by (simp add: sample_load_queue)
    show "entries sample_queue \<noteq> []" by (simp add: sample_queue_entries)
    show "validate_claim_identity sample_claims = Ok ()"
      by (simp add: validate_claim_identity_def sample_common sample_trim MAX_PENDING_TURN_SUPPLEMENTS_def)
    show "queue_identity (clm_lifecycle_job_id sample_claims) (clm_session_id sample_claims)
        (clm_authorization_digest sample_claims) sample_queue = Ok ()"
      by (simp add: queue_identity_def sample_queue_def)
    show "validate_active_job (clm_agent_run_id sample_claims) (clm_lifecycle_job_id sample_claims) (clm_session_id sample_claims)
        (clm_authorization_digest sample_claims) (Some (clm_lease_owner sample_claims, t)) True (base queue_db) = Ok ()"
      if "t \<in> {clm_now_ms sample_claims, 40}" for t
      using that by (auto simp: sample_active(2))
    show "claim_token e \<noteq> Some (clm_claim_token sample_claims) \<and> claim_lease_owner e \<noteq> Some (clm_lease_owner sample_claims)"
      if "e \<in> set (entries sample_queue)" for e
      using that by (auto simp: sample_queue_entries sample_entry_def)
    show "int (revision sample_queue) + 1 < i64_max" by (simp add: sample_queue_def i64_max_def)
  qed
  then show ?thesis by (simp add: sample_queue_entries) (simp add: sample_entry_def)
qed

lemma active_job_lease:
  "validate_active_job a j ses d (Some (own, now)) rc db = Ok u \<Longrightarrow> Option.bind (job_row db j) lease_owner = Some own"
  by (auto simp: validate_active_job_def job_row_def result_simps split: if_splits)

text \<open>
  A worker that lost the lifecycle lease is fenced off the queue. If a lease owner does not hold the
  lifecycle job's lease, then after every run of live operations that does not hand it the lease again, its
  claims, its acknowledgements and its closes of the run's queue are all rejected.
\<close>

theorem stale_worker_fenced_from_queue:
  assumes "wf_live env s" and "Option.bind (job_row (base s) j) lease_owner \<noteq> Some own" and "list_all live_op ops"
    and "\<not> list_ex (\<lambda>op. mints_session op j own) ops"
    and "clm_lifecycle_job_id r1 = j" "clm_lease_owner r1 = own"
    and "ack_lifecycle_job_id r2 = j" "ack_lease_owner r2 = own"
    and "cls_lifecycle_job_id r3 = j" "cls_lease_owner r3 = Some own"
  defines "s' \<equiv> fold (session_exec env) ops s"
  shows "\<not> is_ok (claim_turn_supplements r1 s') \<and> \<not> is_ok (acknowledge_turn_supplements r2 s') \<and>
    \<not> is_ok (close_turn_supplement_queue r3 s')"
proof -
  have "run (live_step env) s ops s'" using assms(3) by (simp add: run_live_iff s'_def)
  from live_leases.run_not_holder [OF this assms(1,2)] have "Option.bind (job_row (base s') j) lease_owner \<noteq> Some own"
    using assms(4) by (auto simp: list_ex_iff)
  then have fenced: "validate_active_job a j ses d (Some (own, now)) rc (base s') \<noteq> Ok u" for a ses d now rc u
    using active_job_lease by blast
  have "\<not> is_ok (claim_turn_supplements r1 s')"
    using fenced assms(5,6) by (auto simp: claim_turn_supplements_def is_ok_iff result_simps)
  moreover have "\<not> is_ok (acknowledge_turn_supplements r2 s')"
    using fenced assms(7,8) by (auto simp: acknowledge_turn_supplements_def is_ok_iff result_simps)
  moreover have "\<not> is_ok (close_turn_supplement_queue r3 s')"
    using fenced assms(9,10) by (auto simp: close_turn_supplement_queue_def is_ok_iff result_simps)
  ultimately show ?thesis by blast
qed

theorem stale_worker_fenced_from_queue_witness:
  "\<not> is_ok (claim_turn_supplements (sample_claims\<lparr>clm_lease_owner := ''x''\<rparr>) (fold (session_exec sample_env)
     [Store (ReclaimLeases 500), CloseQueue sample_close] queue_db))"
proof -
  let ?ack = "acknowledgement (sample_claims\<lparr>clm_lease_owner := ''x''\<rparr>) [''a''] 40"
  have "Option.bind (job_row (base queue_db) ''agent_run.lifecycle:r1'') lease_owner \<noteq> Some ''x''"
    by (simp add: job_row_def sql_find_def)
  moreover have "list_all live_op [Store (ReclaimLeases 500), CloseQueue sample_close]" by (simp add: live_op_def)
  moreover have "\<not> list_ex (\<lambda>op. mints_session op ''agent_run.lifecycle:r1'' ''x'')
      [Store (ReclaimLeases 500), CloseQueue sample_close]" by (simp add: mints_session_def)
  ultimately show ?thesis
    using stale_worker_fenced_from_queue [OF queue_db_wf(2), of "''agent_run.lifecycle:r1''" "''x''"
      "[Store (ReclaimLeases 500), CloseQueue sample_close]" "sample_claims\<lparr>clm_lease_owner := ''x''\<rparr>" ?ack
      "sample_close\<lparr>cls_lease_owner := Some ''x''\<rparr>"]
    by (simp add: acknowledgement_def sample_close_def del: session_exec.simps fold_simps)
qed

text \<open>
  In every state that any sequence of operations reaches from an empty database, each turn supplement
  queue holds at most eight entries, with distinct identities and strictly increasing positions below the
  next position; the ledger holds the digest of every queued message; a closed queue is empty; and there is
  at most one queue per agent run, which belongs to that run's stored lifecycle job.
\<close>

theorem supplement_queue_invariant:
  fixes env ops
  defines "s \<equiv> fold (session_exec env) ops empty_session_db"
  shows "unique_by queue_agent_run_id (supplement_queues s) \<and>
    list_all (\<lambda>q. length (entries q) \<le> 8 \<and> distinct (map supplement_id (entries q)) \<and>
      sorted_wrt (<) (map sequence (entries q)) \<and> list_all (\<lambda>e. sequence e < next_sequence q \<and>
        dedupe q (supplement_id e) = Some (turn_supplement_message_digest (sha256_hex (env_lib env)) (message e))) (entries q) \<and>
      (accepting q \<or> entries q = []) \<and> agent_run_lifecycle_job_id (queue_agent_run_id q) = Ok (queue_lifecycle_job_id q) \<and>
      queue_lifecycle_job_id q \<in> job_id ` set (runtime_jobs (base s))) (supplement_queues s)"
proof -
  have "run (session_step env) empty_session_db ops s" by (simp add: run_session_iff s_def)
  from session_system.run_inv [OF this wf_empty_session] show ?thesis
    by (auto simp: wf_session_def queues_ok_def list_all_iff stored_queue_ok_def queue_ok_def entry_ok_def
        MAX_PENDING_TURN_SUPPLEMENTS_def unique_by_def job_ids_def)
qed

end
