(* ===== verification/SessionProperties.thy ===== *)
theory SessionProperties
  imports SessionSamples
begin

text \<open>
  Guarantees of checkpoints, snapshots, external context and session deletion over the whole store: the
  waiter index answers exactly what the stored checkpoints say, a wait is consumed once and its replay
  changes nothing, a snapshot is a compare-and-swap register, content comes back as it was stored or not at
  all, and the deletion of a session collects exactly what belonged to it.
\<close>

section \<open>Waits\<close>

lemma derived_waiters_iff: "w \<in> derived_waiters codec cp \<longleftrightarrow> (\<exists>l. runtime_job_waiters codec cp = Ok l \<and> w \<in> set l)"
  by (cases "runtime_job_waiters codec cp") (auto simp: derived_waiters_def)

lemma derived_waiter_key:
  assumes "w \<in> derived_waiters codec cp"
  shows "([], []) < (cursor_checkpoint_id (waiter_cursor w), cursor_tool_call_id (waiter_cursor w))"
proof -
  from assms obtain ws where ws: "runtime_job_waiters codec cp = Ok ws" "w \<in> set ws"
    by (auto simp: derived_waiters_def split: sum.splits)
  then have "\<not> blank (cp_id cp)"
    by (auto simp: runtime_job_waiters_def result_simps split: if_splits)
  then have "cp_id cp \<noteq> []" by (rule not_blank_nonempty)
  moreover have "cursor_checkpoint_id (waiter_cursor w) = cp_id cp" using derived_waiters_id [OF assms] .
  ultimately show ?thesis by (auto simp: less_prod_def intro: Nil_less_Cons) (cases "cp_id cp", auto)
qed

lemma reachable_wf: "wf_session env (fold (session_exec env) ops empty_session_db)"
  using session_system.run_inv [OF _ wf_empty_session] by (simp add: run_session_iff)

text \<open>
  C13: The waiter index is exact. In every state that any sequence of operations reaches from an empty
  database, listing the waiters of a job with a page that can hold them returns, in cursor order and without
  repetition, exactly the waits on that job which the stored checkpoints themselves describe.
\<close>

theorem waiter_index_exact:
  fixes env ops
  defines "s \<equiv> fold (session_exec env) ops empty_session_db"
  assumes "length (waiters s) \<le> n" and "int n \<le> i64_max"
  shows "\<exists>ws. list_runtime_job_waiters (Some j) None n s = Ok ws \<and> distinct ws \<and>
    sorted (map (\<lambda>w. (cursor_checkpoint_id (waiter_cursor w), cursor_tool_call_id (waiter_cursor w))) ws) \<and>
    set ws = {w. source_job_id w = j \<and> (\<exists>cp l. cp \<in> set (checkpoints s) \<and> runtime_job_waiters (env_codec env) cp = Ok l \<and> w \<in> set l)}"
proof -
  let ?key = "\<lambda>w. (cursor_checkpoint_id (waiter_cursor w), cursor_tool_call_id (waiter_cursor w))"
  let ?P = "\<lambda>w. ([], []) < ?key w \<and> source_job_id w = j"
  have index: "wait_index_ok (env_codec env) (checkpoints s) (waiters s)"
    using reachable_wf [of env ops] by (simp add: wf_session_def s_def)
  have all: "take n (sql_select ?P ?key (waiters s)) = sql_select ?P ?key (waiters s)"
    by (intro take_all) (use assms(2) sql_count_le [of ?P "waiters s"] in \<open>simp only: length_sql_select\<close>)
  have "list_runtime_job_waiters (Some j) None n s = Ok (sql_select ?P ?key (waiters s))"
    using assms(3) all by (simp add: list_runtime_job_waiters_def to_i64_def i64_try_from_def)
  moreover have "distinct (waiters s)" using index by (auto simp: wait_index_ok_def intro: unique_by_distinct)
  moreover have "set (sql_select ?P ?key (waiters s)) =
      {w. source_job_id w = j \<and> (\<exists>cp l. cp \<in> set (checkpoints s) \<and> runtime_job_waiters (env_codec env) cp = Ok l \<and> w \<in> set l)}"
  proof -
    have "{w \<in> set (waiters s). ?P w} = {w \<in> set (waiters s). source_job_id w = j}"
      using index derived_waiter_key unfolding wait_index_ok_def by blast
    moreover have "set (waiters s) = {w. \<exists>cp l. cp \<in> set (checkpoints s) \<and> runtime_job_waiters (env_codec env) cp = Ok l \<and> w \<in> set l}"
      using index by (auto simp: wait_index_ok_def derived_waiters_iff)
    ultimately show ?thesis unfolding set_sql_select by blast
  qed
  ultimately show ?thesis using sorted_sql_select [of ?key ?P "waiters s"] mset_sql_select [of "waiters s" ?P ?key]
    by (intro exI [of _ "sql_select ?P ?key (waiters s)"]) simp
qed

definition hex64 :: string where
  "hex64 = replicate 64 (CHR ''a'')"

definition job_wait :: RuntimeAwaitJobCheckpointV1 where
  "job_wait = \<lparr>await_schema = ''runtime.await_job.v1'', await_continuation_id = ''runtime_continuation:h'',
     await_agent_run_id = ''r1'', await_execution_id = ''x'', await_authorization_digest = ''sha256:'' @ hex64, await_turn_id = ''t'',
     waits = [\<lparr>wait_tool_call_id = ''c'', wait_source_tool_name = ''web'', tool_definition_digest = ''sha256:'' @ hex64,
       wait_job_id = ''j'', wait_job_kind = ''k''\<rparr>]\<rparr>"

definition wait_env :: session_env where
  "wait_env = \<lparr>env_codec = \<lparr>decode_wait = (\<lambda>_. Ok job_wait), hash_wait = (\<lambda>_. ''h'')\<rparr>, env_lib = sample_lib\<rparr>"

definition job_wait_checkpoint :: CheckpointRecord where
  "job_wait_checkpoint = \<lparr>cp_id = ''cp'', checkpoint_kind = Wait, checkpoint_session_id = ''s'', checkpoint_turn_id = ''t'',
     checkpoint_status = ''waiting'', done_reason = Some ''runtime_job'', checkpoint_updated_at_ms = 1, checkpoint_payload = ''p''\<rparr>"

definition job_waiter :: RuntimeJobWaiter where
  "job_waiter = \<lparr>waiter_cursor = \<lparr>cursor_checkpoint_id = ''cp'', cursor_tool_call_id = ''c''\<rparr>, source_job_id = ''j'',
     source_job_kind = ''k'', waiter_session_id = ''s'', waiter_agent_run_id = ''r1''\<rparr>"

lemma job_waiter_derived: "runtime_job_waiters (env_codec wait_env) job_wait_checkpoint = Ok [job_waiter]"
  by code_simp

lemma saved_wait:
  "fold (session_exec wait_env) [SaveCheckpoint job_wait_checkpoint] empty_session_db =
     empty_session_db\<lparr>checkpoints := [job_wait_checkpoint], waiters := [job_waiter]\<rparr>"
proof -
  have "checkpoint_kind job_wait_checkpoint \<noteq> Recovery" by (simp add: job_wait_checkpoint_def)
  then show ?thesis
    by (simp add: commit_session_def save_checkpoint_conn_def job_waiter_derived Let_def insert_waiter_def empty_session_db_def
        upsert_checkpoint_def sql_count_def sql_delete_def)
qed

theorem waiter_index_exact_witness:
  "\<exists>ws. list_runtime_job_waiters (Some ''j'') None 5 (fold (session_exec wait_env) [SaveCheckpoint job_wait_checkpoint] empty_session_db) = Ok ws \<and>
     set ws = {job_waiter}"
proof -
  have "length (waiters (fold (session_exec wait_env) [SaveCheckpoint job_wait_checkpoint] empty_session_db)) \<le> 5" "int 5 \<le> i64_max"
    unfolding saved_wait by (simp_all add: i64_max_def)
  note listed = waiter_index_exact [OF this, of "''j''"]
  have "{w. source_job_id w = ''j'' \<and> (\<exists>cp l. cp \<in> set (checkpoints (fold (session_exec wait_env) [SaveCheckpoint job_wait_checkpoint] empty_session_db)) \<and>
      runtime_job_waiters (env_codec wait_env) cp = Ok l \<and> w \<in> set l)} = {job_waiter}"
    unfolding saved_wait by (auto simp: job_waiter_derived) (simp add: job_waiter_def)
  with listed show ?thesis by auto
qed

lemma append_consumed_events:
  assumes "fold_result append_consumed (s, any) evs = Ok (s', any')"
  shows "set (runtime_events (base s)) \<union> set evs \<subseteq> set (runtime_events (base s'))"
  using assms
proof (induction evs arbitrary: s any)
  case (Cons ev evs)
  from Cons.prems obtain b db1 any1 where one: "append_event_conn_idempotent ev (base s) = Ok (b, db1)"
    and rest: "fold_result append_consumed (s\<lparr>base := db1\<rparr>, any1) evs = Ok (s', any')"
    by (auto simp: append_consumed_def result_simps)
  have "set (runtime_events (base s)) \<union> {ev} \<subseteq> set (runtime_events db1)"
    using one by (auto simp: append_event_conn_idempotent_def split: option.splits if_splits dest: sql_find_Some)
  with Cons.IH [OF rest] show ?case by auto
qed simp

lemma append_known:
  assumes "unique_by event_id (runtime_events (base s))" and "set evs \<subseteq> set (runtime_events (base s))"
  shows "fold_result append_consumed (s, any) evs = Ok (s, any)"
  using assms(2)
proof (induction evs arbitrary: any)
  case (Cons ev evs)
  then have "sql_find (\<lambda>e. event_id e = event_id ev) (runtime_events (base s)) = Some ev"
    by (simp add: sql_find_unique [OF assms(1)])
  with Cons show ?case by (simp add: append_consumed_def on_base_def append_event_conn_idempotent_def)
qed simp

text \<open>
  A wait is consumed once. When consuming a wait checkpoint succeeds, the turn has no wait checkpoint any
  more and every event of the request is in the log; and after any live operations, as long as the turn did
  not save a new wait, the same request succeeds again and changes nothing.
\<close>

theorem consume_wait_once:
  assumes "wf_live env s" and "live_op (ConsumeWaitCheckpoint req)" and "consume_wait_checkpoint req s = Ok (u, s1)"
    and "list_all live_op ops"
  defines "s2 \<equiv> fold (session_exec env) ops s1"
    and "wait_of \<equiv> load_checkpoint_by_turn (checkpoint_session_id (consume_checkpoint req)) (checkpoint_turn_id (consume_checkpoint req))"
  assumes "wait_of s2 = None"
  shows "wait_of s1 = None \<and> set (consume_events req) \<subseteq> set (runtime_events (base s1)) \<and> consume_wait_checkpoint req s2 = Ok ((), s2)"
proof -
  let ?here = "checkpoint_of_turn (checkpoint_session_id (consume_checkpoint req)) (checkpoint_turn_id (consume_checkpoint req))"
  from assms(3) obtain s0 any where valid: "consume_validate req = Ok ()"
    and folded: "fold_result append_consumed (s, False) (consume_events req) = Ok (s0, any)"
    and rest: "sql_find ?here (checkpoints s) = None \<and> s1 = s0 \<or> s1 = delete_checkpoints ?here s0"
    by (auto simp: consume_wait_checkpoint_def result_simps Let_def split: option.splits if_splits)
  have "checkpoints s0 = checkpoints s" using append_consumed_base [OF folded] by simp
  with rest have none: "wait_of s1 = None"
    unfolding wait_of_def load_checkpoint_by_turn_def
    by (elim disjE) (auto simp: delete_checkpoints_def sql_delete_def sql_find_None)
  have "base s1 = base s0" using rest by (auto simp: delete_checkpoints_def)
  then have logged: "set (consume_events req) \<subseteq> set (runtime_events (base s1))"
    using append_consumed_events [OF folded] by simp
  have "s1 = session_exec env (ConsumeWaitCheckpoint req) s" using assms(3) by (simp add: commit_session_def)
  then have wf1: "wf_live env s1"
    using live_wf [OF assms(1)] assms(2) by (simp add: live_step_def session_step_def del: session_exec.simps)
  have ops: "run (live_step env) s1 ops s2" using assms(4) by (simp add: run_live_iff s2_def)
  from live_run_events [OF this wf1] logged have "set (consume_events req) \<subseteq> set (runtime_events (base s2))" by auto
  moreover have "unique_by event_id (runtime_events (base s2))"
    using live_jobs.run_inv [OF ops wf1] by (simp add: wf_live_def wf_store_def events_ok_def)
  ultimately have "fold_result append_consumed (s2, False) (consume_events req) = Ok (s2, False)" by (rule append_known [rotated])
  then have "consume_wait_checkpoint req s2 = Ok ((), s2)"
    using assms(7) valid by (simp add: consume_wait_checkpoint_def wait_of_def load_checkpoint_by_turn_def Let_def)
  with none logged show ?thesis by blast
qed

definition question_checkpoint :: CheckpointRecord where
  "question_checkpoint = job_wait_checkpoint\<lparr>done_reason := Some ''question''\<rparr>"

definition question_db :: session_db where
  "question_db = run_db\<lparr>checkpoints := [question_checkpoint]\<rparr>"

definition answer_event :: RuntimeEvent where
  "answer_event = \<lparr>event_id = ''e'', event_session_id = ''s'', task_id = Some ''t'', event_type = ''answer'', at_ms = 2,
     visibility = User, payload_json = JNull\<rparr>"

definition answer :: ConsumeWaitCheckpointRequest where
  "answer = \<lparr>consume_checkpoint = question_checkpoint, consume_events = [answer_event]\<rparr>"

lemma question_db_wf: "wf_live sample_env question_db"
  using run_db_wf(2) by (simp add: wf_live_def wf_session_def question_db_def wait_index_ok_def unique_by_def derived_waiters_def
      runtime_job_waiters_def question_checkpoint_def job_wait_checkpoint_def)

lemma answer_live: "live_op (ConsumeWaitCheckpoint answer)"
  by (simp add: live_op_def answer_def foreign_event_def answer_event_def)

lemma answered:
  "consume_wait_checkpoint answer question_db = Ok ((), run_db\<lparr>base := (base run_db)\<lparr>runtime_events := [answer_event]\<rparr>\<rparr>)"
  by (simp add: consume_wait_checkpoint_def answer_def consume_validate_def answer_event_def question_checkpoint_def
      job_wait_checkpoint_def question_db_def sql_find_def checkpoint_of_turn_def append_consumed_def on_base_def
      append_event_conn_idempotent_def sql_count_def delete_checkpoints_def sql_delete_def Let_def)

theorem consume_wait_once_witness:
  "consume_wait_checkpoint answer question_db = Ok ((), run_db\<lparr>base := (base run_db)\<lparr>runtime_events := [answer_event]\<rparr>\<rparr>) \<and>
   consume_wait_checkpoint answer (run_db\<lparr>base := (base run_db)\<lparr>runtime_events := [answer_event]\<rparr>\<rparr>) =
     Ok ((), run_db\<lparr>base := (base run_db)\<lparr>runtime_events := [answer_event]\<rparr>\<rparr>)"
  using answered consume_wait_once [OF question_db_wf answer_live answered, of "[]"]
  by (simp add: load_checkpoint_by_turn_def sql_find_def)

section \<open>Snapshots\<close>

lemma snapshot_cas_effect:
  assumes u: "unique_by snapshot_session_id (snapshots s)"
  shows "\<exists>s'. compare_and_save_agent_runtime_snapshot ses old new now s = Ok (load_agent_runtime_snapshot ses s = old, s') \<and>
    (if load_agent_runtime_snapshot ses s = old then load_agent_runtime_snapshot ses s' = Some new else s' = s) \<and>
    (\<forall>other. other \<noteq> ses \<longrightarrow> load_agent_runtime_snapshot other s' = load_agent_runtime_snapshot other s)"
proof (cases old)
  case None
  have "load_agent_runtime_snapshot ses s = None \<longleftrightarrow> \<not> (\<exists>r \<in> set (snapshots s). snapshot_session_id r = ses)"
    by (auto simp: load_agent_runtime_snapshot_def sql_find_None)
  then show ?thesis
    by (auto simp: None compare_and_save_agent_runtime_snapshot_def load_agent_runtime_snapshot_def sql_find_snoc sql_find_None
        split: option.split dest: sql_find_Some)
next
  case (Some v)
  let ?row = "\<lambda>r. snapshot_session_id r = ses \<and> snapshot_json r = v"
  let ?s' = "s\<lparr>snapshots := sql_update ?row (\<lambda>r. r\<lparr>snapshot_json := new, snapshot_updated_at_ms := now\<rparr>) (snapshots s)\<rparr>"
  have "load_agent_runtime_snapshot ses s = Some v \<longleftrightarrow> (\<exists>r \<in> set (snapshots s). ?row r)"
    using sql_find_unique [OF u, of ses] by (auto simp: load_agent_runtime_snapshot_def)
  moreover have "sql_count ?row (snapshots s) = 1 \<longleftrightarrow> (\<exists>r \<in> set (snapshots s). ?row r)"
    using sql_count_unique [OF u, of ?row ses] sql_count_pos [of ?row "snapshots s"] by auto
  ultimately have answer: "sql_count ?row (snapshots s) = 1 \<longleftrightarrow> load_agent_runtime_snapshot ses s = Some v" by simp
  have "load_agent_runtime_snapshot ses ?s' = Some new" if "load_agent_runtime_snapshot ses s = Some v"
  proof -
    from that obtain r where r: "sql_find (\<lambda>r. snapshot_session_id r = ses) (snapshots s) = Some r" "snapshot_json r = v"
      by (auto simp: load_agent_runtime_snapshot_def)
    then have "snapshot_session_id r = ses" by (auto dest: sql_find_Some)
    with r show ?thesis by (simp add: load_agent_runtime_snapshot_def sql_find_update)
  qed
  moreover have "?s' = s" if "load_agent_runtime_snapshot ses s \<noteq> Some v"
    using that answer sql_count_unique [OF u, of ?row ses] by (auto simp: sql_update_none le_Suc_eq)
  moreover have "load_agent_runtime_snapshot other ?s' = load_agent_runtime_snapshot other s" if "other \<noteq> ses" for other
    using that sql_find_update_other [of "snapshots s" ?row snapshot_session_id _ other] by (simp add: load_agent_runtime_snapshot_def)
  ultimately show ?thesis
    using answer by (intro exI [of _ ?s']) (simp add: Some compare_and_save_agent_runtime_snapshot_def)
qed

text \<open>
  A session's snapshot is a compare-and-swap register. The operation always succeeds and answers whether
  the stored snapshot was the expected one (none expected meaning none stored); the snapshot is then the new
  one, otherwise the database is unchanged; snapshots of other sessions are never touched; and after a
  successful write a second writer with the same expectation is refused and changes nothing.
\<close>

theorem snapshot_compare_and_swap:
  assumes "wf_session env s" and "other \<noteq> ses" and "old \<noteq> Some new"
  shows "\<exists>s'. compare_and_save_agent_runtime_snapshot ses old new now s = Ok (load_agent_runtime_snapshot ses s = old, s') \<and>
    (if load_agent_runtime_snapshot ses s = old
     then load_agent_runtime_snapshot ses s' = Some new \<and> compare_and_save_agent_runtime_snapshot ses old new2 now2 s' = Ok (False, s')
     else s' = s) \<and>
    load_agent_runtime_snapshot other s' = load_agent_runtime_snapshot other s"
proof -
  have u: "unique_by snapshot_session_id (snapshots s)" using assms(1) by (simp add: wf_session_def)
  obtain s' where s': "compare_and_save_agent_runtime_snapshot ses old new now s = Ok (load_agent_runtime_snapshot ses s = old, s')"
    "if load_agent_runtime_snapshot ses s = old then load_agent_runtime_snapshot ses s' = Some new else s' = s"
    "load_agent_runtime_snapshot other s' = load_agent_runtime_snapshot other s"
    using snapshot_cas_effect [OF u, of ses old new now] assms(2) by blast
  have "unique_by snapshot_session_id (snapshots s')" using save_snapshot_unique(2) [OF u s'(1)] .
  from snapshot_cas_effect [OF this, of ses old new2 now2] s' assms(3) show ?thesis by (intro exI [of _ s']) (auto split: if_splits)
qed

theorem snapshot_compare_and_swap_witness:
  "\<exists>s'. compare_and_save_agent_runtime_snapshot ''s'' None ''v'' 1 run_db = Ok (True, s') \<and>
     load_agent_runtime_snapshot ''s'' s' = Some ''v'' \<and> compare_and_save_agent_runtime_snapshot ''s'' None ''w'' 2 s' = Ok (False, s')"
proof -
  have "load_agent_runtime_snapshot ''s'' run_db = None" by (simp add: load_agent_runtime_snapshot_def sql_find_def)
  then show ?thesis
    using snapshot_compare_and_swap [OF run_db_wf(1), of "''t''" "''s''" None "''v''" 1 "''w''" 2] by (simp, elim exE conjE, intro exI conjI)
qed

section \<open>External context\<close>


definition sample_object :: ExternalContextObject where
  "sample_object = \<lparr>ext_schema_version = ''v1'', ext_object_id = ''a'', ext_object_kind = ''page'', ext_provider_id = ''p'',
     ext_tool_name = ''web'', ext_title = ''m'', ext_content = ''hi'', ext_metadata = sample_metadata, ext_updated_at_ms = 7\<rparr>"

definition object_db :: session_db where
  "object_db = run_db\<lparr>external_objects := [object_row sample_object sample_metadata_text (''hi'', ''identity_v1'', 2, ''sha256:hi'')]\<rparr>"

lemma sample_encode: "encode_external_context_content sample_lib ''hi'' = Ok (''hi'', ''identity_v1'', 2, ''sha256:hi'')"
  by (simp add: encode_external_context_content_def i64_try_from_def i64_max_def EXTERNAL_CONTEXT_ZSTD_MIN_BYTES_def
      CONTENT_CODEC_IDENTITY_V1_def content_digest_def Let_def)

lemma sample_upsert: "upsert_external_context_object_conn sample_lib sample_object run_db = Ok ((), object_db)"
proof -
  have "ext_content sample_object = ''hi''" "ext_metadata sample_object = sample_metadata" by (simp_all add: sample_object_def)
  then show ?thesis
    by (simp add: upsert_external_context_object_conn_def sample_encode sample_json(3) object_db_def upsert_object_def sql_count_def)
qed

lemma sample_utf8: "utf8_valid ''hi''"
  by code_simp

lemma sample_zstd: "zstd_encode_all sample_lib b = Ok e \<Longrightarrow> zstd_read sample_lib e n = Ok (take n b)"
  by (simp add: sample_lib_def)


text \<open>
  C15: Corrupted content is never served unnoticed. Take an object row whose recorded digest is that of the written
  content, its bytes, codec and size being whatever they became. When loading it succeeds, the content is the one
  that was written and the size its size, unless the served content and the written content are two different texts with
  the same hash. Plain bytes whose size is not the recorded one or whose hash is not that of the written content, and
  every unknown codec, make the load an error.
\<close>

theorem external_context_tamper_evident:
  assumes "encode_external_context_content lib written = Ok (content, codec, len, sha)"
    and "sql_find (\<lambda>r. object_id r = i) (external_objects s) = Some row" and "content_sha256 row = sha"
  shows "(\<forall>obj. load_external_context_object_conn lib i s = Ok (Some obj) \<longrightarrow>
      ext_content obj = written \<and> content_uncompressed_bytes row = len \<or>
      ext_content obj \<noteq> written \<and> sha256_hex lib (ext_content obj) = sha256_hex lib written) \<and>
    (content_codec row = CONTENT_CODEC_IDENTITY_V1 \<and>
       (int (length (content_blob row)) \<noteq> content_uncompressed_bytes row \<or>
        sha256_hex lib (content_blob row) \<noteq> sha256_hex lib written) \<or>
     content_codec row \<noteq> CONTENT_CODEC_IDENTITY_V1 \<and> content_codec row \<noteq> CONTENT_CODEC_ZSTD_V1 \<longrightarrow>
     (\<exists>e. load_external_context_object_conn lib i s = Err (''load external context object failed: '' @ e)))"
proof (intro conjI allI impI)
  fix obj assume "load_external_context_object_conn lib i s = Ok (Some obj)"
  with assms(2) have dec: "decode_external_context_content lib (content_blob row) (content_codec row)
      (content_uncompressed_bytes row) (content_sha256 row) = Ok (ext_content obj)"
    by (auto simp: load_external_context_object_conn_def decode_stored_external_context_object_def result_simps)
  have "sha256_hex lib (ext_content obj) = sha256_hex lib written"
    using decode_Ok(2) [OF dec] assms(3) encode_cases(3) [OF assms(1)] by (simp add: content_digest_def)
  then show "ext_content obj = written \<and> content_uncompressed_bytes row = len \<or>
      ext_content obj \<noteq> written \<and> sha256_hex lib (ext_content obj) = sha256_hex lib written"
    using decode_Ok(1) [OF dec] encode_cases(1) [OF assms(1)] by auto
next
  assume bad: "content_codec row = CONTENT_CODEC_IDENTITY_V1 \<and>
       (int (length (content_blob row)) \<noteq> content_uncompressed_bytes row \<or>
        sha256_hex lib (content_blob row) \<noteq> sha256_hex lib written) \<or>
     content_codec row \<noteq> CONTENT_CODEC_IDENTITY_V1 \<and> content_codec row \<noteq> CONTENT_CODEC_ZSTD_V1"
  have "\<exists>e. decode_external_context_content lib (content_blob row) (content_codec row)
      (content_uncompressed_bytes row) (content_sha256 row) = Err e"
    using bad assms(3) encode_cases(3) [OF assms(1)]
    by (auto simp: decode_external_context_content_def content_digest_def ensure_def Let_def)
  then show "\<exists>e. load_external_context_object_conn lib i s = Err (''load external context object failed: '' @ e)"
    using assms(2) by (auto simp: load_external_context_object_conn_def decode_stored_external_context_object_def map_err_def)
qed

text \<open>A library whose hash is the last byte, and a row whose bytes were changed after it was written.\<close>

definition short_lib :: content_lib where
  "short_lib = sample_lib\<lparr>sha256_hex := (\<lambda>b. take 1 (rev b))\<rparr>"

definition tampered_db :: session_db where
  "tampered_db = run_db\<lparr>external_objects := [object_row sample_object sample_metadata_text (''ho'', ''identity_v1'', 2, ''sha256:i'')]\<rparr>"

theorem external_context_tamper_evident_witness:
  "encode_external_context_content short_lib ''hi'' = Ok (''hi'', ''identity_v1'', 2, ''sha256:i'') \<and>
   (\<exists>e. load_external_context_object_conn short_lib ''a'' tampered_db = Err (''load external context object failed: '' @ e))"
proof -
  have enc: "encode_external_context_content short_lib ''hi'' = Ok (''hi'', ''identity_v1'', 2, ''sha256:i'')"
    by (simp add: encode_external_context_content_def i64_try_from_def i64_max_def EXTERNAL_CONTEXT_ZSTD_MIN_BYTES_def
        CONTENT_CODEC_IDENTITY_V1_def content_digest_def short_lib_def Let_def)
  let ?row = "object_row sample_object sample_metadata_text (''ho'', ''identity_v1'', 2, ''sha256:i'')"
  have row: "sql_find (\<lambda>r. object_id r = ''a'') (external_objects tampered_db) = Some ?row" "content_sha256 ?row = ''sha256:i''"
    by (simp_all add: tampered_db_def sql_find_def object_row_def sample_object_def)
  have "content_codec ?row = CONTENT_CODEC_IDENTITY_V1" "sha256_hex short_lib (content_blob ?row) \<noteq> sha256_hex short_lib ''hi''"
    by (simp_all add: object_row_def CONTENT_CODEC_IDENTITY_V1_def short_lib_def)
  with external_context_tamper_evident [OF enc row] enc show ?thesis by blast
qed

lemma waiter_session_iff:
  assumes "wait_index_ok codec cps ws" and "w \<in> set ws"
  shows "(\<exists>c \<in> set cps. checkpoint_session_id c = ses \<and> cp_id c = cursor_checkpoint_id (waiter_cursor w)) \<longleftrightarrow> waiter_session_id w = ses"
proof -
  from assms obtain c l where c: "c \<in> set cps" "runtime_job_waiters codec c = Ok l" "w \<in> set l"
    by (auto simp: wait_index_ok_def derived_waiters_iff)
  have u: "unique_by cp_id cps" using assms(1) by (simp add: wait_index_ok_def)
  have w: "cursor_checkpoint_id (waiter_cursor w) = cp_id c" "waiter_session_id w = checkpoint_session_id c"
    using runtime_job_waiters_Ok(2,3) [OF c(2) c(3)] by auto
  then show ?thesis using c(1) unique_byD [OF u _ c(1)] by auto
qed

lemma delete_session_base:
  assumes "delete_session_data ses s = Ok (u, s')"
  shows "runtime_events (base s') = filter (\<lambda>e. event_session_id e \<noteq> trim ses) (runtime_events (base s))"
    and "dead_letters (base s') = filter (\<lambda>d. dl_session_id d \<noteq> Some (trim ses)) (dead_letters (base s))"
    and "resource_claims (base s') = filter (\<lambda>c. claim_session_id c \<noteq> Some (trim ses)) (resource_claims (base s))"
    and "runtime_job_outbox (base s') = filter (\<lambda>ob. \<not> (\<exists>r \<in> set (runtime_jobs (base s)). session_id r = Some (trim ses) \<and> job_id r = outbox_job_id ob))
      (runtime_job_outbox (base s))"
  using assms
  by (auto simp: delete_session_data_def result_simps Let_def delete_orphans delete_session_jobs_def delete_checkpoints_def
      sql_delete_def dest!: delete_transcript_heads_Ok)

text \<open>
  The foreign keys of the transcript tables, which the database enforces: a block version has its block identity, and
  every other row its head.
\<close>

definition transcript_keys_ok :: "session_db \<Rightarrow> bool" where
  "transcript_keys_ok s \<longleftrightarrow> (\<forall>r \<in> set (transcript_rows s).
     if row_table r = BlockVersions
     then \<exists>b \<in> set (transcript_rows s). row_table b = BlockIdentities \<and> row_key b = row_key r \<and> row_block_id b = row_block_id r
     else \<exists>h \<in> set (transcript_heads s). head_key h = row_key r)"

lemma cascades_session:
  assumes "transcript_keys_ok s" and "r \<in> set (transcript_rows s)"
  shows "cascades ses s r \<longleftrightarrow> row_session_id r = ses"
proof -
  have head: "(\<exists>h \<in> set (transcript_heads s). head_session_id h = ses \<and> head_key h = row_key b) \<longleftrightarrow> row_session_id b = ses"
    if "b \<in> set (transcript_rows s)" "row_table b \<noteq> BlockVersions" for b
    using assms(1) that by (force simp: transcript_keys_ok_def head_key_def row_key_def)
  show ?thesis
  proof (cases "row_table r = BlockVersions")
    case True
    then obtain b where b: "b \<in> set (transcript_rows s)" "row_table b = BlockIdentities" "row_key b = row_key r"
        "row_block_id b = row_block_id r"
      using assms by (force simp: transcript_keys_ok_def)
    have head_of_identity: "(\<exists>h \<in> set (transcript_heads s). head_session_id h = ses \<and> head_key h = row_key a) \<longleftrightarrow> row_session_id a = ses"
      if "a \<in> set (transcript_rows s)" "row_table a = BlockIdentities" for a
      using head [OF that(1)] that(2) by simp
    have keys: "row_key a = row_key r \<Longrightarrow> row_session_id a = row_session_id r" for a by (simp add: row_key_def)
    have "cascades ses s r \<longleftrightarrow> (\<exists>a \<in> set (transcript_rows s). row_table a = BlockIdentities \<and> row_session_id a = ses \<and>
        row_key a = row_key r \<and> row_block_id a = row_block_id r)"
      using True head_of_identity by (simp add: cascades_def) metis
    then show ?thesis using b keys by metis
  qed (use head assms(2) in \<open>simp add: cascades_def\<close>)
qed

text \<open>
  C16: Deleting a session removes exactly what belongs to it. Its events, jobs, snapshots, checkpoints, links,
  dead letters, resource claims and transcript heads are gone, with the outbox rows and supplement queues of its
  jobs, the waiter rows of its checkpoints and all rows of its transcripts; an object goes exactly if this session
  linked it and no other session does; and every row that belongs to other sessions stays, in its order. The
  foreign keys of the transcript tables hold before.
\<close>

theorem delete_session_exact:
  assumes "wf_session env s" and "delete_session_data ses s = Ok (u, s')" and "transcript_keys_ok s"
  shows "runtime_events (base s') = filter (\<lambda>e. event_session_id e \<noteq> trim ses) (runtime_events (base s)) \<and>
    runtime_jobs (base s') = filter (\<lambda>r. session_id r \<noteq> Some (trim ses)) (runtime_jobs (base s)) \<and>
    runtime_job_outbox (base s') = filter (\<lambda>ob. \<not> (\<exists>r \<in> set (runtime_jobs (base s)). session_id r = Some (trim ses) \<and> job_id r = outbox_job_id ob))
      (runtime_job_outbox (base s)) \<and>
    dead_letters (base s') = filter (\<lambda>d. dl_session_id d \<noteq> Some (trim ses)) (dead_letters (base s)) \<and>
    resource_claims (base s') = filter (\<lambda>c. claim_session_id c \<noteq> Some (trim ses)) (resource_claims (base s)) \<and>
    snapshots s' = filter (\<lambda>r. snapshot_session_id r \<noteq> trim ses) (snapshots s) \<and>
    checkpoints s' = filter (\<lambda>cp. checkpoint_session_id cp \<noteq> trim ses) (checkpoints s) \<and>
    waiters s' = filter (\<lambda>w. waiter_session_id w \<noteq> trim ses) (waiters s) \<and>
    external_links s' = filter (\<lambda>l. link_session_id l \<noteq> trim ses) (external_links s) \<and>
    external_objects s' = filter (\<lambda>r. object_id r \<in> link_object_id ` set (external_links s') \<or>
      object_id r \<notin> link_object_id ` set (external_links s)) (external_objects s) \<and>
    set (supplement_queues s') = {q \<in> set (supplement_queues s). queue_lifecycle_job_id q \<in> job_id ` set (runtime_jobs (base s'))} \<and>
    transcript_heads s' = filter (\<lambda>h. head_session_id h \<noteq> trim ses) (transcript_heads s) \<and>
    transcript_rows s' = filter (\<lambda>r. row_session_id r \<noteq> trim ses) (transcript_rows s)"
proof -
  note eff = delete_session_Ok [OF assms(2)]
  have jobs: "unique_by job_id (runtime_jobs (base s))" and index: "wait_index_ok (env_codec env) (checkpoints s) (waiters s)"
    and queues: "queues_ok (sha256_hex (env_lib env)) (job_ids (base s)) (supplement_queues s)"
    using assms(1) by (auto simp: wf_session_def)
  have "(\<exists>c \<in> set (checkpoints s). checkpoint_session_id c = trim ses \<and> cp_id c = cursor_checkpoint_id (waiter_cursor w)) \<longleftrightarrow>
      waiter_session_id w = trim ses" if "w \<in> set (waiters s)" for w
    by (rule waiter_session_iff [OF index that])
  then have "waiters s' = filter (\<lambda>w. waiter_session_id w \<noteq> trim ses) (waiters s)"
    unfolding eff delete_checkpoints_def by (simp add: sql_delete_def cong: filter_cong)
  moreover have "external_objects s' = filter (\<lambda>r. object_id r \<in> link_object_id ` set (external_links s') \<or>
      object_id r \<notin> link_object_id ` set (external_links s)) (external_objects s)"
    unfolding eff sql_delete_def by (intro filter_cong) auto
  moreover have "set (supplement_queues s') = {q \<in> set (supplement_queues s). queue_lifecycle_job_id q \<in> job_id ` set (runtime_jobs (base s'))}"
    unfolding eff sql_delete_def using queues unique_byD [OF jobs]
    by (fastforce simp: queues_ok_def list_all_iff stored_queue_ok_def job_ids_def)
  moreover have "transcript_rows s' = filter (\<lambda>r. row_session_id r \<noteq> trim ses) (transcript_rows s)"
    unfolding eff(9) sql_delete_def by (intro filter_cong) (simp_all add: cascades_session [OF assms(3)])
  ultimately show ?thesis using delete_session_base [OF assms(2)] by (simp add: eff(1-5,8) sql_delete_def delete_checkpoints_def)
qed

text \<open>The database with a queue, and transcripts of two sessions with a block in two versions.\<close>

definition sample_head :: "string \<Rightarrow> transcript_projection_head" where
  "sample_head ses = \<lparr>head_session_id = ses, head_projection_version = ''v'', head_projection_generation = ''g'',
     head_source_high_water = 1, invalidation_reason = None\<rparr>"

definition sample_transcript_row :: "transcript_table \<Rightarrow> string \<Rightarrow> transcript_row" where
  "sample_transcript_row t ses = \<lparr>row_table = t, row_session_id = ses, row_projection_version = ''v'',
     row_projection_generation = ''g'', row_block_id = ''b'', row_frontier_ref = ses, row_columns = []\<rparr>"

definition transcript_db :: session_db where
  "transcript_db = queue_db\<lparr>transcript_heads := [sample_head ''s'', sample_head ''t''],
     transcript_rows := [sample_transcript_row BlockIdentities ''s'', sample_transcript_row BlockVersions ''s'',
       sample_transcript_row Frontiers ''s'', sample_transcript_row ProjectionCheckpoints ''s'',
       sample_transcript_row Frontiers ''t'', sample_transcript_row ProjectionCheckpoints ''t'']\<rparr>"

lemma transcript_db_ok: "wf_session sample_env transcript_db" "transcript_keys_ok transcript_db"
  using queue_db_wf(1)
  by (simp_all add: wf_session_def transcript_db_def transcript_keys_ok_def sample_head_def sample_transcript_row_def head_key_def
      row_key_def)

theorem delete_session_exact_witness:
  "\<exists>s'. delete_session_data ''s'' transcript_db = Ok ((), s') \<and> runtime_jobs (base s') = [] \<and> supplement_queues s' = [] \<and>
     transcript_heads s' = [sample_head ''t''] \<and>
     transcript_rows s' = [sample_transcript_row Frontiers ''t'', sample_transcript_row ProjectionCheckpoints ''t'']"
proof -
  have rows: "transcript_rows transcript_db = [sample_transcript_row BlockIdentities ''s'', sample_transcript_row BlockVersions ''s'',
       sample_transcript_row Frontiers ''s'', sample_transcript_row ProjectionCheckpoints ''s'',
       sample_transcript_row Frontiers ''t'', sample_transcript_row ProjectionCheckpoints ''t'']"
    "transcript_heads transcript_db = [sample_head ''s'', sample_head ''t'']" "base transcript_db = base run_db"
    "supplement_queues transcript_db = [sample_queue]"
    by (simp_all add: transcript_db_def)
  have "cascades ''s'' transcript_db r \<longleftrightarrow> row_session_id r = ''s''" if "r \<in> set (transcript_rows transcript_db)" for r
    by (rule cascades_session [OF transcript_db_ok(2) that])
  then have "\<exists>s'. delete_session_data ''s'' transcript_db = Ok ((), s')"
    by (simp add: delete_session_data_def delete_transcript_heads_def delete_session_jobs_def delete_checkpoints_def rows sample_trim
        sample_transcript_row_def Let_def)
  then obtain s' where s': "delete_session_data ''s'' transcript_db = Ok ((), s')" by blast
  have "runtime_jobs (base s') = [] \<and> set (supplement_queues s') = {} \<and> transcript_heads s' = [sample_head ''t''] \<and>
      transcript_rows s' = [sample_transcript_row Frontiers ''t'', sample_transcript_row ProjectionCheckpoints ''t'']"
    using delete_session_exact [OF transcript_db_ok(1) s' transcript_db_ok(2)]
    by (simp add: sample_trim rows sample_head_def sample_transcript_row_def)
  with s' show ?thesis by auto
qed

section \<open>Jobs\<close>

text \<open>
  C17: The job store's guarantees hold for the whole database file. Over every run of live operations on all
  tables, a job keeps existing and moves only along the job status machine, a terminal job keeps its status,
  and at the end a job is terminal exactly if the outbox holds a delivery for it, of which there is at most one.
  Live operations are all but the deletion of a session, which deletes jobs; they schedule new jobs as queued
  jobs without a lease, and appended events do not imitate those of the store.
\<close>

theorem session_jobs_follow_machine:
  assumes "wf_live env s" and "list_all live_op ops" and "job_row (base s) j = Some r"
  defines "s' \<equiv> fold (session_exec env) ops s"
  shows "\<exists>r'. job_row (base s') j = Some r' \<and> can_transition_to\<^sup>*\<^sup>* (status r) (status r') \<and>
    (is_terminal (status r) \<longrightarrow> status r' = status r) \<and>
    (is_terminal (status r') \<longleftrightarrow> j \<in> outbox_job_id ` set (runtime_job_outbox (base s'))) \<and>
    length (filter (\<lambda>ob. outbox_job_id ob = j) (runtime_job_outbox (base s'))) \<le> 1"
proof -
  have ops: "run (live_step env) s ops s'" using assms(2) by (simp add: run_live_iff s'_def)
  have st: "map_option status (job_row (base s) j) = Some (status r)" using assms(3) by simp
  from live_jobs.run_status [OF ops assms(1) st] obtain r' where
    r': "job_row (base s') j = Some r'" "can_transition_to\<^sup>*\<^sup>* (status r) (status r')"
    by (auto simp: rtranclp_idemp)
  have wf: "wf_store (base s')" using live_jobs.run_inv [OF ops assms(1)] by (simp add: wf_live_def)
  have "is_terminal (status r') \<longleftrightarrow> j \<in> outbox_job_id ` set (runtime_job_outbox (base s'))"
    using wf r'(1) by (auto simp: wf_store_def outbox_ok_def terminal_ids_def jobs_ok_def job_row_Some_iff dest: unique_byD)
  moreover have "is_terminal (status r) \<longrightarrow> status r' = status r"
    using live_jobs.run_terminal [OF ops assms(1) st] r'(1) by auto
  moreover have "sql_count (\<lambda>ob. outbox_job_id ob = j) (runtime_job_outbox (base s')) \<le> 1"
    using wf by (intro sql_count_unique [where key = outbox_job_id]) (auto simp: wf_store_def outbox_ok_def)
  ultimately show ?thesis using r' unfolding sql_count_def by blast
qed

theorem session_jobs_follow_machine_witness:
  "\<exists>r'. job_row (base (fold (session_exec sample_env) [Store (ReclaimLeases 500), EnqueueSupplement (sample_enqueue ''c'' ''m'')] queue_db))
      ''agent_run.lifecycle:r1'' = Some r' \<and> can_transition_to\<^sup>*\<^sup>* Running (status r')"
proof -
  have "job_row (base queue_db) ''agent_run.lifecycle:r1'' = Some running_row" by (simp add: job_row_def sql_find_def)
  moreover have "list_all live_op [Store (ReclaimLeases 500), EnqueueSupplement (sample_enqueue ''c'' ''m'')]"
    by (simp add: live_op_def)
  ultimately show ?thesis
    using session_jobs_follow_machine [OF queue_db_wf(2), of "[Store (ReclaimLeases 500), EnqueueSupplement (sample_enqueue ''c'' ''m'')]"
      "''agent_run.lifecycle:r1''" running_row] by (auto simp del: session_exec.simps fold_simps)
qed

end
