(* ===== verification/BashDeletion.thy ===== *)
theory BashDeletion
  imports Prelude
begin

text \<open>
  The guard against recursive deletion of protected roots of \<open>core/src/tool/permission/bash_deletion.rs\<close>:
  words of a Bash command are normalised, wrappers are peeled off, and the targets of a recursive \<open>rm\<close> are
  resolved against the working directory. The Bash grammar (\<open>tree_sitter\<close>) is a parameter: it gives the
  syntax tree of a command and whether it has an error. Strings are their UTF-8 bytes; every character the
  code tests is ASCII or one of three markers, which are three-byte sequences.
\<close>

section \<open>Syntax trees and markers\<close>

datatype bash_node =
  BashNode (node_kind: string) (name_text: "string result option") (argument_texts: "string result list")
    (named_children: "bash_node list")

text \<open>
  The grammar: whether it loads, and the tree of a source text with its error flag, if the parser returns
  one. The text of a node may fail to be UTF-8.
\<close>

record bash_grammar =
  set_language :: "unit result"
  parse_tree :: "string \<Rightarrow> (bash_node \<times> bool) option"

definition HOME_ROOT_MARKER :: string where
  "HOME_ROOT_MARKER = [CHR 0xEE, CHR 0x80, CHR 0x80]"

definition DYNAMIC_EXPANSION_MARKER :: string where
  "DYNAMIC_EXPANSION_MARKER = [CHR 0xEE, CHR 0x80, CHR 0x81]"

definition LITERAL_GLOB_MARKER :: string where
  "LITERAL_GLOB_MARKER = [CHR 0xEE, CHR 0x80, CHR 0x82]"

datatype ProtectedRoot = System | WorkingDirectory | Home | HomeMetadata

fun logical_path :: "ProtectedRoot \<Rightarrow> string" where
  "logical_path System = ''/''"
| "logical_path WorkingDirectory = ''$CWD''"
| "logical_path Home = ''$HOME''"
| "logical_path HomeMetadata = ''$HOME/.centaeris''"

section \<open>Words\<close>

datatype QuoteState = Unquoted | Single | Double

definition push_literal_character :: "string \<Rightarrow> char \<Rightarrow> string" where
  "push_literal_character target c = target @ (if c \<in> set ''*?['' then LITERAL_GLOB_MARKER else [c])"

definition home_expansion_length :: "string \<Rightarrow> nat option" where
  "home_expansion_length cs =
     (if prefix ''$HOME'' cs \<and> (case drop 5 cs of [] \<Rightarrow> True | c # _ \<Rightarrow> \<not> (c = CHR ''_'' \<or> is_ascii_alphanumeric c))
      then Some 5
      else if \<not> prefix ''${HOME'' cs then None
      else if CHR ''}'' \<notin> set cs then None
      else let closing = length (takeWhile (\<lambda>c. c \<noteq> CHR ''}'') cs);
               expression = drop 2 (take closing cs)
           in if expression = ''HOME'' \<or> prefix ''HOME:?'' expression \<or> prefix ''HOME?'' expression
              then Some (closing + 1) else None)"

lemma home_expansion_pos: "home_expansion_length cs = Some n \<Longrightarrow> 0 < n"
  by (auto simp: home_expansion_length_def Let_def split: if_splits)

definition push_expansion :: "string \<Rightarrow> string \<Rightarrow> string \<times> string" where
  "push_expansion acc cs = (case home_expansion_length cs of
     Some n \<Rightarrow> (acc @ HOME_ROOT_MARKER, drop n cs)
   | None \<Rightarrow> (acc @ DYNAMIC_EXPANSION_MARKER, drop 1 cs))"

lemma push_expansion_shorter: "length (snd (push_expansion acc (c # cs))) < Suc (length cs)"
  by (auto simp: push_expansion_def split: option.split dest: home_expansion_pos)

text \<open>The loop of \<open>normalize_shell_word\<close>: the quote state, the word so far and the rest of the input.\<close>

function normalize_from :: "QuoteState \<Rightarrow> string \<Rightarrow> string \<Rightarrow> string" where
  "normalize_from state acc [] = acc"
| "normalize_from state acc (c # cs) =
     (case state of
        Unquoted \<Rightarrow>
          if c = CHR 0x27 then normalize_from Single acc cs
          else if c = CHR 0x22 then normalize_from Double acc cs
          else if c = CHR 0x5C then
            (case cs of [] \<Rightarrow> acc | e # rest \<Rightarrow> normalize_from Unquoted (push_literal_character acc e) rest)
          else if c = CHR ''$'' then
            normalize_from Unquoted (fst (push_expansion acc (c # cs))) (snd (push_expansion acc (c # cs)))
          else if c = CHR ''~'' \<and> acc = [] \<and> (case cs of [] \<Rightarrow> True | d # _ \<Rightarrow> d = CHR ''/'') then
            normalize_from Unquoted (acc @ HOME_ROOT_MARKER) cs
          else normalize_from Unquoted (acc @ [c]) cs
      | Single \<Rightarrow>
          if c = CHR 0x27 then normalize_from Unquoted acc cs
          else normalize_from Single (push_literal_character acc c) cs
      | Double \<Rightarrow>
          if c = CHR 0x22 then normalize_from Unquoted acc cs
          else if c = CHR 0x5C then
            (case cs of
               e # rest \<Rightarrow>
                 if e \<in> {CHR ''$'', CHR 0x60, CHR 0x22, CHR 0x5C, CHR 0x0A}
                 then normalize_from Double (push_literal_character acc e) rest
                 else normalize_from Double (acc @ [c]) cs
             | [] \<Rightarrow> normalize_from Double (acc @ [c]) cs)
          else if c = CHR ''$'' then
            normalize_from Double (fst (push_expansion acc (c # cs))) (snd (push_expansion acc (c # cs)))
          else normalize_from Double (push_literal_character acc c) cs)"
  by pat_completeness auto
termination
  by (relation "measure (length \<circ> snd \<circ> snd)") (simp_all add: push_expansion_shorter)

declare normalize_from.simps(2) [simp del]

definition normalize_shell_word :: "string \<Rightarrow> string" where
  "normalize_shell_word raw = normalize_from Unquoted [] raw"

definition normalized_node_text :: "string result \<Rightarrow> string result" where
  "normalized_node_text utf8_text =
     res_bind (map_err (\<lambda>error. ''read Bash syntax node failed: '' @ error) utf8_text) (\<lambda>raw.
     Ok (normalize_shell_word raw))"

definition executable_basename :: "string \<Rightarrow> string" where
  "executable_basename executable = last (split_on (CHR ''/'') executable)"

section \<open>Wrappers\<close>

definition starts_with :: "char \<Rightarrow> string \<Rightarrow> bool" where
  "starts_with c s \<longleftrightarrow> (case s of [] \<Rightarrow> False | d # _ \<Rightarrow> d = c)"

definition is_environment_assignment :: "string \<Rightarrow> bool" where
  "is_environment_assignment v =
     (case split_once (CHR ''='') v of
        None \<Rightarrow> False
      | Some (name, _) \<Rightarrow>
          (case name of
             [] \<Rightarrow> False
           | c # cs \<Rightarrow> (c = CHR ''_'' \<or> is_ascii_alphabetic c) \<and> list_all (\<lambda>d. d = CHR ''_'' \<or> is_ascii_alphanumeric d) cs))"

definition is_env_flag :: "string \<Rightarrow> bool" where
  "is_env_flag argument \<longleftrightarrow>
     argument \<in> {''-i'', ''--ignore-environment'', ''-0'', ''--null'', ''-v'', ''--debug''}"

definition is_env_option :: "string \<Rightarrow> bool" where
  "is_env_option argument \<longleftrightarrow>
     argument \<in> {''-u'', ''--unset'', ''-C'', ''--chdir'', ''-S'', ''--split-string''}"

definition is_env_inline_option :: "string \<Rightarrow> bool" where
  "is_env_inline_option argument \<longleftrightarrow>
     prefix ''--unset='' argument \<or> prefix ''--chdir='' argument \<or> prefix ''--split-string='' argument"

fun env_command_index_from :: "nat \<Rightarrow> string list \<Rightarrow> nat option" where
  "env_command_index_from index [] = None"
| "env_command_index_from index (argument # rest) =
     (if argument = ''--'' then (if rest \<noteq> [] then Some (index + 1) else None)
      else if is_environment_assignment argument then env_command_index_from (index + 1) rest
      else if is_env_flag argument then env_command_index_from (index + 1) rest
      else if is_env_option argument then env_command_index_from (index + 2) (drop 1 rest)
      else if is_env_inline_option argument then env_command_index_from (index + 1) rest
      else if starts_with (CHR ''-'') argument then None
      else Some index)"

definition env_command_index :: "string list \<Rightarrow> nat option" where
  "env_command_index arguments = env_command_index_from 0 arguments"

definition command_index :: "string list \<Rightarrow> nat option" where
  "command_index arguments =
     (let i = length (takeWhile (\<lambda>a. \<not> (a = ''--'' \<or> \<not> starts_with (CHR ''-'') a)) arguments) in
      if i = length arguments then None
      else Some (if arguments ! i = ''--'' then i + 1 else i))"

definition queries_command :: "string list \<Rightarrow> bool" where
  "queries_command arguments \<longleftrightarrow>
     list_ex (\<lambda>a. CHR ''v'' \<in> set a \<or> CHR ''V'' \<in> set a) (takeWhile (starts_with (CHR ''-'')) arguments)"

text \<open>The command at a position of the arguments, with the arguments after it.\<close>

definition command_at :: "nat option \<Rightarrow> string list \<Rightarrow> (string \<times> string list) option" where
  "command_at index arguments = (case index of
     Some i \<Rightarrow> if i < length arguments then Some (arguments ! i, drop (i + 1) arguments) else None
   | None \<Rightarrow> None)"

lemma command_at_shorter: "command_at i arguments = Some (e, rest) \<Longrightarrow> length rest < length arguments"
  by (auto simp: command_at_def split: option.splits if_splits)

function unwrap_transparent_command :: "string \<Rightarrow> string list \<Rightarrow> (string \<times> string list) option" where
  "unwrap_transparent_command executable arguments =
     (if executable_basename executable = ''command'' then
        (if queries_command arguments then None
         else case command_at (command_index arguments) arguments of
           None \<Rightarrow> None
         | Some (executable, arguments) \<Rightarrow> unwrap_transparent_command executable arguments)
      else if executable_basename executable = ''env'' then
        (case command_at (env_command_index arguments) arguments of
           None \<Rightarrow> None
         | Some (executable, arguments) \<Rightarrow> unwrap_transparent_command executable arguments)
      else Some (executable, arguments))"
  by pat_completeness auto
termination
  by (relation "measure (\<lambda>(_, arguments). length arguments)") (auto dest: command_at_shorter)

declare unwrap_transparent_command.simps [simp del]

section \<open>Paths\<close>

definition is_absolute_host_path :: "string \<Rightarrow> bool" where
  "is_absolute_host_path p = starts_with (CHR ''/'') p"

definition normalized_shell_path :: "string \<Rightarrow> string" where
  "normalized_shell_path path =
     (let normalized = replace_byte (CHR 0x5C) (CHR ''/'') path;
          normalized = (case strip_prefix ''//?/'' normalized of
            None \<Rightarrow> normalized
          | Some rest \<Rightarrow> (case strip_prefix ''UNC/'' rest of None \<Rightarrow> rest | Some unc \<Rightarrow> ''//'' @ unc))
      in case normalized of
           drive # colon # rest \<Rightarrow>
             if is_ascii_alphabetic drive \<and> colon = CHR '':'' then
               (let d = (if CHR ''A'' \<le> drive \<and> drive \<le> CHR ''Z'' then char_of (of_char drive + 32 :: nat) else drive);
                    rest = trim_start_matches (CHR ''/'') rest
                in if rest = [] then [CHR ''/'', d] else [CHR ''/'', d, CHR ''/''] @ rest)
             else (let t = trim_end_matches (CHR ''/'') normalized in if t = [] then ''/'' else t)
         | _ \<Rightarrow> (let t = trim_end_matches (CHR ''/'') normalized in if t = [] then ''/'' else t))"

text \<open>One component of a path: empty and dot components are skipped, a double dot removes the last one.\<close>

definition resolve_component :: "string \<Rightarrow> string list \<Rightarrow> string list" where
  "resolve_component c components =
     (if c = [] \<or> c = ''.'' then components else if c = ''..'' then butlast components else components @ [c])"

definition path_components :: "string \<Rightarrow> string list" where
  "path_components path = fold resolve_component (split_on (CHR ''/'') (replace_byte (CHR 0x5C) (CHR ''/'') path)) []"

definition components_to_path :: "string list \<Rightarrow> string" where
  "components_to_path components = (if components = [] then ''/'' else CHR ''/'' # join_with ''/'' components)"

definition logical_cwd :: "string option \<Rightarrow> string option \<Rightarrow> string option" where
  "logical_cwd command_cwd execution_cwd =
     (case execution_cwd of
        None \<Rightarrow> None
      | Some path \<Rightarrow>
          let cwd = normalized_shell_path path in
          case map_option trim command_cwd of
            None \<Rightarrow> Some cwd
          | Some raw \<Rightarrow>
              if raw = [] then Some cwd
              else let normalized = normalized_shell_path raw in
                if normalized = ''.'' then Some cwd
                else if \<not> is_absolute_host_path normalized
                then Some (components_to_path (path_components (cwd @ ''/'' @ normalized)))
                else Some (components_to_path (path_components normalized)))"

definition is_shell_drive_root :: "string \<Rightarrow> bool" where
  "is_shell_drive_root path = (case path of [a, b] \<Rightarrow> a = CHR ''/'' \<and> is_ascii_alphabetic b | _ \<Rightarrow> False)"

section \<open>Globs\<close>

definition contains_active_glob :: "string \<Rightarrow> bool" where
  "contains_active_glob component = list_ex (\<lambda>c. c \<in> set ''*?['') component"

definition glob_covers_all_children :: "string \<Rightarrow> bool" where
  "glob_covers_all_children component = (component \<in> {''*'', ''**'', ''.*'', ''.**'', ''{*,.*}'', ''{.*,*}''})"

text \<open>
  One row of the matching table from the row before it. The star's loop writes each cell and then pushes it
  to the next one; the other two shift the row by one place.
\<close>

fun star_row :: "bool \<Rightarrow> bool list \<Rightarrow> bool list" where
  "star_row pushed [] = []"
| "star_row pushed (m # row) = (m \<or> pushed) # star_row (m \<or> pushed) row"

definition glob_row :: "string \<Rightarrow> char \<Rightarrow> bool list \<Rightarrow> bool list" where
  "glob_row literal p row =
     (if p = CHR ''*'' then star_row False row
      else if p = CHR ''?'' then False # butlast row
      else False # map2 (\<lambda>c m. p = c \<and> m) literal (butlast row))"

definition glob_matches_literal :: "string \<Rightarrow> string \<Rightarrow> bool" where
  "glob_matches_literal pattern literal =
     last (fold (glob_row literal) pattern (True # replicate (length literal) False))"

section \<open>Targets\<close>

record AnalyzedPath =
  parent :: string
  direct_glob :: "string option"

fun analyze_components :: "string list \<Rightarrow> string list \<Rightarrow> AnalyzedPath option" where
  "analyze_components components [] = Some \<lparr>parent = components_to_path components, direct_glob = None\<rparr>"
| "analyze_components components (c # rest) =
     (if c = [] \<or> c = ''.'' then analyze_components components rest
      else if c = ''..'' then analyze_components (butlast components) rest
      else if contains_active_glob c then
        (if list_ex (\<lambda>d. d \<noteq> [] \<and> d \<noteq> ''.'') rest then None
         else Some \<lparr>parent = components_to_path components, direct_glob = Some c\<rparr>)
      else analyze_components (components @ [c]) rest)"

definition analyze_path_target :: "string \<Rightarrow> string option \<Rightarrow> AnalyzedPath option result" where
  "analyze_path_target target cwd =
     (if target = [] \<or> contains_sub LITERAL_GLOB_MARKER target then Ok None
      else let normalized_target = normalized_shell_path target in
        if starts_with (CHR ''/'') normalized_target
        then Ok (analyze_components [] (split_on (CHR ''/'') normalized_target))
        else case cwd of
          None \<Rightarrow> Ok None
        | Some cwd \<Rightarrow> Ok (analyze_components (path_components cwd) (split_on (CHR ''/'') normalized_target)))"

definition covers_symbolic_root :: "string \<Rightarrow> bool" where
  "covers_symbolic_root rest =
     (let t = trim_matches (CHR ''/'') rest in t = [] \<or> t = ''.'' \<or> t = ''..'' \<or> glob_covers_all_children t)"

definition covers_home_metadata :: "string \<Rightarrow> bool" where
  "covers_home_metadata rest =
     (let t = trim_matches (CHR ''/'') rest in
      t = ''.centaeris'' \<or> t = ''.centaeris/.'' \<or>
      (case strip_prefix ''.centaeris/'' t of None \<Rightarrow> False
       | Some g \<Rightarrow> g \<in> {''*'', ''**'', ''.*'', ''.**'', ''{*,.*}'', ''{.*,*}''}))"

definition classify_path :: "AnalyzedPath \<Rightarrow> string option \<Rightarrow> ProtectedRoot option" where
  "classify_path path cwd =
     (case direct_glob path of
        Some glob \<Rightarrow>
          if parent path = ''/'' \<and> glob_covers_all_children glob then Some System
          else if is_shell_drive_root (parent path) \<and> glob_covers_all_children glob then Some System
          else if cwd = Some (parent path) \<and> glob_covers_all_children glob then Some WorkingDirectory
          else (case Option.bind cwd (rsplit_once (CHR ''/'')) of
            Some (working_parent, working_name) \<Rightarrow>
              if parent path = working_parent \<and> glob_matches_literal glob working_name then Some WorkingDirectory else None
          | None \<Rightarrow> None)
      | None \<Rightarrow>
          if parent path = ''/'' \<or> is_shell_drive_root (parent path) then Some System
          else if cwd = Some (parent path) then Some WorkingDirectory else None)"

definition classify_protected_target :: "string \<Rightarrow> string option \<Rightarrow> ProtectedRoot option result" where
  "classify_protected_target target cwd =
     (if contains_sub DYNAMIC_EXPANSION_MARKER target then Ok None
      else case strip_prefix HOME_ROOT_MARKER target of
        Some rest \<Rightarrow>
          Ok (if covers_symbolic_root rest then Some Home
              else if covers_home_metadata rest then Some HomeMetadata else None)
      | None \<Rightarrow>
          if contains_sub HOME_ROOT_MARKER target then Ok None
          else res_bind (analyze_path_target target cwd) (\<lambda>path.
            Ok (case path of None \<Rightarrow> None | Some path \<Rightarrow> classify_path path cwd)))"

section \<open>Commands\<close>

definition is_recursive_rm_option :: "string \<Rightarrow> bool" where
  "is_recursive_rm_option argument \<longleftrightarrow> argument = ''--recursive'' \<or>
     starts_with (CHR ''-'') argument \<and> \<not> prefix ''--'' argument \<and> list_ex (\<lambda>c. c = CHR ''r'' \<or> c = CHR ''R'') (drop 1 argument)"

text \<open>The loop over the arguments of \<open>rm\<close>: whether an option is recursive, and the targets.\<close>

fun rm_arguments :: "bool \<Rightarrow> string list \<Rightarrow> bool \<times> string list" where
  "rm_arguments options_ended [] = (False, [])"
| "rm_arguments options_ended (argument # rest) =
     (if \<not> options_ended \<and> argument = ''--'' then rm_arguments True rest
      else if \<not> options_ended \<and> is_recursive_rm_option argument then (True, snd (rm_arguments options_ended rest))
      else if \<not> options_ended \<and> starts_with (CHR ''-'') argument \<and> argument \<noteq> ''-'' then rm_arguments options_ended rest
      else (fst (rm_arguments options_ended rest), argument # snd (rm_arguments options_ended rest)))"

fun first_protected :: "string option \<Rightarrow> string list \<Rightarrow> ProtectedRoot option result" where
  "first_protected cwd [] = Ok None"
| "first_protected cwd (target # targets) =
     res_bind (classify_protected_target target cwd) (\<lambda>root.
     case root of Some r \<Rightarrow> Ok (Some r) | None \<Rightarrow> first_protected cwd targets)"

definition inspect_rm_arguments :: "string list \<Rightarrow> string option \<Rightarrow> ProtectedRoot option result" where
  "inspect_rm_arguments arguments cwd =
     (let (recursive, targets) = rm_arguments False arguments in
      if \<not> recursive then Ok None else first_protected cwd targets)"

definition inspect_command :: "bash_node \<Rightarrow> string option \<Rightarrow> ProtectedRoot option result" where
  "inspect_command node cwd =
     (case name_text node of
        None \<Rightarrow> Ok None
      | Some name \<Rightarrow>
          res_bind (normalized_node_text name) (\<lambda>command_name.
          res_bind (map_result normalized_node_text (argument_texts node)) (\<lambda>arguments.
          case unwrap_transparent_command command_name arguments of
            None \<Rightarrow> Ok None
          | Some (executable, arguments) \<Rightarrow>
              if executable_basename executable \<noteq> ''rm'' then Ok None
              else inspect_rm_arguments arguments cwd)))"

fun inspect_node :: "string option \<Rightarrow> bash_node \<Rightarrow> ProtectedRoot option result"
  and inspect_nodes :: "string option \<Rightarrow> bash_node list \<Rightarrow> ProtectedRoot option result" where
  "inspect_node cwd (BashNode kind name arguments children) =
     (if kind = ''function_definition'' then Ok None
      else res_bind (if kind = ''command'' then inspect_command (BashNode kind name arguments children) cwd else Ok None) (\<lambda>root.
        case root of Some r \<Rightarrow> Ok (Some r) | None \<Rightarrow> inspect_nodes cwd children))"
| "inspect_nodes cwd [] = Ok None"
| "inspect_nodes cwd (child # children) =
     res_bind (inspect_node cwd child) (\<lambda>root.
     case root of Some r \<Rightarrow> Ok (Some r) | None \<Rightarrow> inspect_nodes cwd children)"

definition directly_recursively_deleted_protected_root ::
    "bash_grammar \<Rightarrow> string \<Rightarrow> string option \<Rightarrow> string option \<Rightarrow> ProtectedRoot option result" where
  "directly_recursively_deleted_protected_root grammar command command_cwd execution_cwd =
     res_bind (map_err (\<lambda>error. ''load Bash deletion-guard grammar failed: '' @ error) (set_language grammar)) (\<lambda>_.
     res_bind (ok_or ''Bash deletion-guard parser returned no syntax tree'' (parse_tree grammar command)) (\<lambda>(root, has_error).
     if has_error then Ok None else inspect_node (logical_cwd command_cwd execution_cwd) root))"

end
