(* ===== verification/ToolPermission.thy ===== *)
theory ToolPermission
  imports BashDeletion
begin

text \<open>
  The permission decision of \<open>core/src/tool/permission.rs\<close> over the tool catalog of
  \<open>core/src/tool/catalog.rs\<close>. The JSON library (\<open>serde_json\<close>) is a parameter: parsing a text, and reading a
  string member of a value.
\<close>

record 'v json_library =
  from_str :: "string \<Rightarrow> 'v option"
  get_str :: "'v \<Rightarrow> string \<Rightarrow> string option"

section \<open>Requests and decisions\<close>

definition MODEL_TOOL_CATALOG_ORDER :: "string list" where
  "MODEL_TOOL_CATALOG_ORDER = [''read'', ''bash'', ''edit'', ''write'', ''task_output'', ''agent'']"

definition canonicalize_tool_name :: "string \<Rightarrow> string option" where
  "canonicalize_tool_name raw = List.find (\<lambda>candidate. candidate = raw) MODEL_TOOL_CATALOG_ORDER"

abbreviation PERMISSION_DECISION_SCHEMA :: string where
  "PERMISSION_DECISION_SCHEMA \<equiv> ''permission_decision_v1''"

abbreviation PROTECTED_ROOT_RECURSIVE_DELETE_MESSAGE :: string where
  "PROTECTED_ROOT_RECURSIVE_DELETE_MESSAGE \<equiv>
     ''Command was not executed: recursive deletion of a protected root is prohibited.''"

datatype RiskLevel = Safe | Restricted | HighRisk

datatype PermissionDecisionKind = Allowed | Blocked

record PermissionNormalizedInput =
  input_tool_name :: string
  command_name :: "string option"
  input_path :: "string option"
  input_task_id :: "string option"

record PermissionDecision =
  schema :: string
  allowed :: bool
  risk_level :: RiskLevel
  reason :: string
  reason_type :: string
  policy_source :: string
  normalized_input :: PermissionNormalizedInput

definition permission_decision_new ::
    "bool \<Rightarrow> RiskLevel \<Rightarrow> string \<Rightarrow> string \<Rightarrow> string \<Rightarrow> PermissionNormalizedInput \<Rightarrow> PermissionDecision" where
  "permission_decision_new ok risk why why_type source input =
     \<lparr>schema = PERMISSION_DECISION_SCHEMA, allowed = ok, risk_level = risk, reason = why, reason_type = why_type,
      policy_source = source, normalized_input = input\<rparr>"

definition decision_kind :: "PermissionDecision \<Rightarrow> PermissionDecisionKind" where
  "decision_kind d = (if allowed d then Allowed else Blocked)"

record ToolPermissionRequest =
  request_tool_name :: string
  args_json :: "string option"
  dynamic_contract :: bool
  bash_cwd :: "string option"

definition request_new :: "string \<Rightarrow> string option \<Rightarrow> ToolPermissionRequest" where
  "request_new name args = \<lparr>request_tool_name = name, args_json = args, dynamic_contract = False, bash_cwd = None\<rparr>"

definition with_dynamic_contract :: "ToolPermissionRequest \<Rightarrow> ToolPermissionRequest" where
  "with_dynamic_contract r = r\<lparr>dynamic_contract := True\<rparr>"

definition with_bash_cwd :: "ToolPermissionRequest \<Rightarrow> string \<Rightarrow> ToolPermissionRequest" where
  "with_bash_cwd r cwd = r\<lparr>bash_cwd := Some cwd\<rparr>"

section \<open>Normalised input\<close>

definition parse_args_json :: "'v json_library \<Rightarrow> string option \<Rightarrow> 'v option" where
  "parse_args_json js args =
     (case args of None \<Rightarrow> None
      | Some raw \<Rightarrow> let raw = trim raw in if raw = [] then None else from_str js raw)"

text \<open>The first item of \<open>split_whitespace\<close>: leading white space is skipped, the next white space ends it.\<close>

fun before_whitespace :: "string \<Rightarrow> string" where
  "before_whitespace [] = []"
| "before_whitespace (c # cs) = (if ws_front (c # cs) \<noteq> 0 then [] else c # before_whitespace cs)"

definition is_quote :: "char \<Rightarrow> bool" where
  "is_quote c \<longleftrightarrow> c = CHR 0x22 \<or> c = CHR 0x27"

definition trim_quotes :: "string \<Rightarrow> string" where
  "trim_quotes s = rev (dropWhile is_quote (rev (dropWhile is_quote s)))"

definition non_empty :: "string \<Rightarrow> string option" where
  "non_empty s = (if s = [] then None else Some s)"

definition first_bash_word :: "string \<Rightarrow> string option" where
  "first_bash_word command =
     (let item = before_whitespace (trim_start command) in
      if item = [] then None else non_empty (trim_quotes item))"

definition normalize_permission_input ::
    "'v json_library \<Rightarrow> string \<Rightarrow> string option \<Rightarrow> PermissionNormalizedInput" where
  "normalize_permission_input js tool_name args =
     (let parsed = parse_args_json js args;
          member = (\<lambda>key. Option.bind parsed (\<lambda>item. get_str js item key))
      in \<lparr>input_tool_name = tool_name,
          command_name = Option.bind (member ''command'') first_bash_word,
          input_path = Option.bind (member ''path'') (\<lambda>item. non_empty (replace_byte (CHR 0x5C) (CHR ''/'') (trim item))),
          input_task_id = Option.bind (member ''task_id'') (\<lambda>item. non_empty (trim item))\<rparr>)"

section \<open>Evaluation\<close>

definition evaluate_bash_protected_root_deletion ::
    "bash_grammar \<Rightarrow> 'v json_library \<Rightarrow> string option \<Rightarrow> string option \<Rightarrow> PermissionNormalizedInput
     \<Rightarrow> PermissionDecision option" where
  "evaluate_bash_protected_root_deletion grammar js args execution_cwd input =
     Option.bind (parse_args_json js args) (\<lambda>args.
     Option.bind (get_str js args ''command'') (\<lambda>command.
     case directly_recursively_deleted_protected_root grammar command (get_str js args ''cwd'') execution_cwd of
       Inr root \<Rightarrow> Option.bind root (\<lambda>protected_root.
         Some (permission_decision_new False HighRisk PROTECTED_ROOT_RECURSIVE_DELETE_MESSAGE
           ''bash_recursive_delete_protected_root'' ''core_tool_policy''
           (input\<lparr>input_path := Some (logical_path protected_root)\<rparr>)))
     | Inl error \<Rightarrow>
         Some (permission_decision_new False HighRisk
           (''Command was not executed: protected-root deletion safety inspection failed: '' @ error)
           ''bash_deletion_inspection_failed'' ''core_tool_policy'' input)))"

definition evaluate_tool_action ::
    "bash_grammar \<Rightarrow> 'v json_library \<Rightarrow> ToolPermissionRequest \<Rightarrow> PermissionDecision" where
  "evaluate_tool_action grammar js request =
     (let canonical = canonicalize_tool_name (request_tool_name request);
          normalized = (case canonical of Some name \<Rightarrow> name | None \<Rightarrow> request_tool_name request);
          input = normalize_permission_input js normalized (args_json request)
      in if canonical = None \<and> \<not> dynamic_contract request
         then permission_decision_new False Restricted
           (''unknown tool blocked by runtime contract: '' @ normalized)
           ''unknown_tool_blocked'' ''core_tool_policy'' input
         else case (if normalized = ''bash''
                    then evaluate_bash_protected_root_deletion grammar js (args_json request) (bash_cwd request) input
                    else None) of
           Some decision \<Rightarrow> decision
         | None \<Rightarrow> permission_decision_new True (if normalized = ''bash'' then HighRisk else Safe)
             ''tool allowed by runtime contract''
             (if dynamic_contract request then ''dynamic_tool_contract_allow'' else ''static_tool_default_allow'')
             ''core_tool_policy'' input)"

end
