(* ===== verification/PermissionProperties.thy ===== *)
theory PermissionProperties
  imports ToolPermission
begin

text \<open>
  What the deletion guard and the permission decision show: the glob table against a recursive matcher, the
  bound on the unwrapping loop, completeness of the walk over the syntax tree, lexical resolution of targets,
  and the exact condition under which a tool action is allowed.
\<close>

section \<open>Globs\<close>

text \<open>The meaning of a pattern: a star stands for any string, a question mark for any byte.\<close>

fun glob_denotes :: "string \<Rightarrow> string \<Rightarrow> bool" where
  "glob_denotes [] s \<longleftrightarrow> s = []"
| "glob_denotes (p # ps) s \<longleftrightarrow>
     (if p = CHR ''*'' then list_ex (\<lambda>k. glob_denotes ps (drop k s)) [0..<Suc (length s)]
      else case s of [] \<Rightarrow> False | c # cs \<Rightarrow> (p = CHR ''?'' \<or> p = c) \<and> glob_denotes ps cs)"

text \<open>A row of the table marks the prefixes of the literal from which the rest has to match.\<close>

definition row_matches :: "string \<Rightarrow> string \<Rightarrow> bool list \<Rightarrow> bool" where
  "row_matches pattern literal row \<longleftrightarrow> (\<exists>i \<le> length literal. row ! i \<and> glob_denotes pattern (drop i literal))"

lemma length_star_row [simp]: "length (star_row b row) = length row"
  by (induction row arbitrary: b) auto

lemma nth_star_row: "i < length row \<Longrightarrow> star_row b row ! i \<longleftrightarrow> b \<or> (\<exists>j \<le> i. row ! j)"
proof (induction row arbitrary: b i)
  case (Cons m row)
  show ?case
  proof (cases i)
    case (Suc k)
    have "(\<exists>j \<le> Suc k. (m # row) ! j) \<longleftrightarrow> m \<or> (\<exists>j \<le> k. row ! j)"
      by (metis Suc_le_mono less_eq_nat.simps(1) not0_implies_Suc nth_Cons_0 nth_Cons_Suc)
    then show ?thesis using Cons Suc by auto
  qed auto
qed simp

lemma length_glob_row [simp]: "length row = Suc (length literal) \<Longrightarrow> length (glob_row literal p row) = Suc (length literal)"
  by (simp add: glob_row_def)

lemma glob_denotes_star: "glob_denotes (CHR ''*'' # ps) s \<longleftrightarrow> (\<exists>k \<le> length s. glob_denotes ps (drop k s))"
  by (auto simp: list_ex_iff less_Suc_eq_le Bex_def simp del: upt_Suc)

lemma row_matches_star:
  assumes "length row = Suc (length literal)"
  shows "row_matches ps literal (star_row False row) \<longleftrightarrow> row_matches (CHR ''*'' # ps) literal row"
proof -
  have star: "star_row False row ! i \<longleftrightarrow> (\<exists>j \<le> i. row ! j)" if "i \<le> length literal" for i
    using that assms by (simp add: nth_star_row)
  show ?thesis
  proof
    assume "row_matches ps literal (star_row False row)"
    then obtain i j where "i \<le> length literal" "j \<le> i" "row ! j" "glob_denotes ps (drop (i - j) (drop j literal))"
      by (auto simp: row_matches_def star)
    then show "row_matches (CHR ''*'' # ps) literal row"
      unfolding row_matches_def glob_denotes_star length_drop by (meson diff_le_mono le_trans)
  next
    assume "row_matches (CHR ''*'' # ps) literal row"
    then obtain j k where "j \<le> length literal" "row ! j" "k \<le> length literal - j" "glob_denotes ps (drop (j + k) literal)"
      unfolding row_matches_def glob_denotes_star by (auto simp: add.commute)
    then show "row_matches ps literal (star_row False row)"
      unfolding row_matches_def by (intro exI [of _ "j + k"]) (auto simp: star intro: exI [of _ j])
  qed
qed

lemma nth_glob_row_shift:
  assumes "length row = Suc (length literal)" "p \<noteq> CHR ''*''"
  shows "\<not> glob_row literal p row ! 0"
    and "i < length literal \<Longrightarrow> glob_row literal p row ! Suc i \<longleftrightarrow> (p = CHR ''?'' \<or> p = literal ! i) \<and> row ! i"
  using assms by (auto simp: glob_row_def nth_butlast)

lemma row_matches_shift:
  assumes "length row = Suc (length literal)" "p \<noteq> CHR ''*''"
  shows "row_matches ps literal (glob_row literal p row) \<longleftrightarrow> row_matches (p # ps) literal row"
proof -
  have "row_matches ps literal (glob_row literal p row) \<longleftrightarrow>
      (\<exists>i < length literal. (p = CHR ''?'' \<or> p = literal ! i) \<and> row ! i \<and> glob_denotes ps (drop (Suc i) literal))"
    (is "_ \<longleftrightarrow> ?shifted")
  proof
    assume "row_matches ps literal (glob_row literal p row)"
    then obtain i where i: "i \<le> length literal" "glob_row literal p row ! i" "glob_denotes ps (drop i literal)"
      by (auto simp: row_matches_def)
    with nth_glob_row_shift(1) [OF assms] obtain k where k: "i = Suc k" "k < length literal"
      by (cases i) auto
    with i nth_glob_row_shift(2) [OF assms k(2)] show ?shifted
      by (intro exI [of _ k]) simp
  next
    assume ?shifted
    then obtain i where "i < length literal" "glob_row literal p row ! Suc i" "glob_denotes ps (drop (Suc i) literal)"
      using nth_glob_row_shift(2) [OF assms] by auto
    then show "row_matches ps literal (glob_row literal p row)"
      unfolding row_matches_def by (intro exI [of _ "Suc i"]) auto
  qed
  also have "\<dots> \<longleftrightarrow> (\<exists>i < length literal. row ! i \<and> glob_denotes (p # ps) (drop i literal))"
    using assms(2) by (intro ex_cong1) (auto simp: Cons_nth_drop_Suc [symmetric])
  also have "\<dots> \<longleftrightarrow> row_matches (p # ps) literal row"
    unfolding row_matches_def using assms(2) by (auto simp: le_less)
  finally show ?thesis .
qed

lemma fold_glob_row:
  "length row = Suc (length literal) \<Longrightarrow> last (fold (glob_row literal) pattern row) \<longleftrightarrow> row_matches pattern literal row"
proof (induction pattern arbitrary: row)
  case Nil
  then have "row \<noteq> []" by auto
  with Nil show ?case
    by (auto simp: row_matches_def last_conv_nth)
next
  case (Cons p ps)
  then show ?case
    by (cases "p = CHR ''*''")
      (simp_all add: row_matches_shift row_matches_star [symmetric] glob_row_def [of _ "CHR ''*''"] del: glob_denotes.simps)
qed

text \<open>
  The dynamic-programming table of the glob matcher decides exactly the meaning of the pattern, a star standing for
  any string, a question mark for any one byte and every other byte for itself.
\<close>

theorem glob_table_correct: "glob_matches_literal pattern literal = glob_denotes pattern literal"
proof -
  have first: "(True # replicate (length literal) False) ! i \<longleftrightarrow> i = 0" if "i \<le> length literal" for i
    using that by (cases i) auto
  have "row_matches pattern literal (True # replicate (length literal) False) \<longleftrightarrow> glob_denotes pattern literal"
    using first by (auto simp: row_matches_def)
  then show ?thesis
    by (simp add: glob_matches_literal_def fold_glob_row)
qed

section \<open>Wrappers\<close>

text \<open>One iteration of the loop: it returns, or goes on with another command.\<close>

definition unwrap_step ::
    "string \<Rightarrow> string list \<Rightarrow> (string \<times> string list) option + (string \<times> string list)" where
  "unwrap_step executable arguments =
     (if executable_basename executable = ''command'' then
        (if queries_command arguments then Inl None
         else case command_at (command_index arguments) arguments of None \<Rightarrow> Inl None | Some next_command \<Rightarrow> Inr next_command)
      else if executable_basename executable = ''env'' then
        (case command_at (env_command_index arguments) arguments of None \<Rightarrow> Inl None | Some next_command \<Rightarrow> Inr next_command)
      else Inl (Some (executable, arguments)))"

fun unwrap_loop :: "nat \<Rightarrow> string \<Rightarrow> string list \<Rightarrow> (string \<times> string list) option option" where
  "unwrap_loop 0 executable arguments = None"
| "unwrap_loop (Suc n) executable arguments = (case unwrap_step executable arguments of
     Inl r \<Rightarrow> Some r | Inr (executable, arguments) \<Rightarrow> unwrap_loop n executable arguments)"

lemma unwrap_by_step:
  "unwrap_transparent_command e as = (case unwrap_step e as of Inl r \<Rightarrow> r | Inr (e', as') \<Rightarrow> unwrap_transparent_command e' as')"
  by (subst unwrap_transparent_command.simps) (auto simp: unwrap_step_def split: option.split)

lemma unwrap_step_shorter: "unwrap_step e as = Inr (e', as') \<Longrightarrow> length as' < length as"
  by (auto simp: unwrap_step_def split: if_splits option.splits dest: command_at_shorter)

lemma command_at_suffix: "command_at i as = Some (e', as') \<Longrightarrow> suffix (e' # as') as"
  by (auto simp: command_at_def Cons_nth_drop_Suc suffix_drop split: option.splits if_splits)

lemma unwrap_step_suffix: "unwrap_step e as = Inr (e', as') \<Longrightarrow> suffix (e' # as') (e # as)"
  by (auto simp: unwrap_step_def suffix_Cons split: if_splits option.splits dest: command_at_suffix)

lemma unwrap_step_done:
  "unwrap_step e as = Inl (Some (e', as')) \<Longrightarrow>
     e' = e \<and> as' = as \<and> executable_basename e \<noteq> ''command'' \<and> executable_basename e \<noteq> ''env''"
  by (auto simp: unwrap_step_def split: if_splits option.splits)

lemma unwrap_loop_enough: "length as < n \<Longrightarrow> unwrap_loop n e as = Some (unwrap_transparent_command e as)"
proof (induction n arbitrary: e as)
  case (Suc n)
  show ?case
  proof (cases "unwrap_step e as")
    case (Inr b)
    then obtain f bs where b: "unwrap_step e as = Inr (f, bs)" by (cases b) auto
    from unwrap_step_shorter [OF b] Suc.prems have "length bs < n" by simp
    with Suc.IH [of bs f] b show ?thesis
      by (simp add: unwrap_by_step [of e as])
  qed (simp add: unwrap_by_step [of e as])
qed simp

lemma unwrap_suffix:
  "unwrap_transparent_command e as = Some (e', as') \<Longrightarrow>
     suffix (e' # as') (e # as) \<and> executable_basename e' \<noteq> ''command'' \<and> executable_basename e' \<noteq> ''env''"
proof (induction "length as" arbitrary: e as rule: less_induct)
  case less
  show ?case
  proof (cases "unwrap_step e as")
    case (Inl r)
    with less.prems have "unwrap_step e as = Inl (Some (e', as'))"
      by (simp add: unwrap_by_step [of e as])
    from unwrap_step_done [OF this] show ?thesis by simp
  next
    case (Inr b)
    then obtain f bs where b: "unwrap_step e as = Inr (f, bs)" by (cases b) auto
    with less.prems have "unwrap_transparent_command f bs = Some (e', as')"
      by (simp add: unwrap_by_step [of e as])
    from less.hyps [OF unwrap_step_shorter [OF b] this] unwrap_step_suffix [OF b] show ?thesis
      using suffix_order.trans by blast
  qed
qed

text \<open>
  C19: The unwrapping loop returns after at most one iteration more than there are arguments, and what it returns is a
  command that stands in the original command line, with all its arguments, and is not itself a wrapper.
\<close>

theorem unwrap_terminates:
  "unwrap_loop (Suc (length arguments)) executable arguments = Some (unwrap_transparent_command executable arguments)
   \<and> (unwrap_transparent_command executable arguments = Some (e, as) \<longrightarrow>
        suffix (e # as) (executable # arguments) \<and> executable_basename e \<noteq> ''command'' \<and> executable_basename e \<noteq> ''env'')"
  by (intro conjI impI unwrap_loop_enough) (auto dest: unwrap_suffix)

text \<open>A command behind two wrappers with options and an assignment.\<close>

theorem unwrap_terminates_witness:
  "unwrap_transparent_command ''command'' [''-p'', ''env'', ''MODE=test'', ''/bin/rm'', ''-R'', ''/''] =
     Some (''/bin/rm'', [''-R'', ''/''])
   \<and> suffix [''/bin/rm'', ''-R'', ''/''] [''command'', ''-p'', ''env'', ''MODE=test'', ''/bin/rm'', ''-R'', ''/'']"
proof -
  have u: "unwrap_transparent_command ''command'' [''-p'', ''env'', ''MODE=test'', ''/bin/rm'', ''-R'', ''/''] =
      Some (''/bin/rm'', [''-R'', ''/''])"
    by code_simp
  from unwrap_terminates [THEN conjunct2, THEN mp, OF u] u show ?thesis
    by (intro conjI) simp_all
qed

section \<open>The walk over the syntax tree\<close>

text \<open>The commands a script runs directly: every command node that is not inside a function definition.\<close>

fun direct_commands :: "bash_node \<Rightarrow> bash_node list" where
  "direct_commands (BashNode kind name arguments children) =
     (if kind = ''function_definition'' then []
      else (if kind = ''command'' then [BashNode kind name arguments children] else []) @ concat (map direct_commands children))"

text \<open>The first command with an error or a protected root decides.\<close>

fun first_verdict :: "'a option result list \<Rightarrow> 'a option result" where
  "first_verdict [] = Ok None"
| "first_verdict (v # vs) = (if v = Ok None then first_verdict vs else v)"

lemma first_verdict_append:
  "first_verdict (vs @ ws) = (if first_verdict vs = Ok None then first_verdict ws else first_verdict vs)"
  by (induction vs) auto

lemma bind_verdict: "res_bind v (\<lambda>root. case root of Some r \<Rightarrow> Ok (Some r) | None \<Rightarrow> w) = (if v = Ok None then w else v)"
  by (cases v) (auto split: option.split)

lemma inspect_walk:
  "inspect_node cwd node = first_verdict (map (\<lambda>c. inspect_command c cwd) (direct_commands node))"
  "inspect_nodes cwd nodes = first_verdict (map (\<lambda>c. inspect_command c cwd) (concat (map direct_commands nodes)))"
  by (induction cwd node and cwd nodes rule: inspect_node_inspect_nodes.induct)
    (simp_all add: bind_verdict first_verdict_append)

text \<open>
  The walk over the syntax tree gives the verdict of the first directly executed command that has one: no command
  outside a function definition is skipped, at any depth, and an inspection error is never swallowed.
\<close>

theorem inspection_complete:
  "inspect_node cwd node = first_verdict (map (\<lambda>c. inspect_command c cwd) (direct_commands node))"
  by (rule inspect_walk)

section \<open>Targets\<close>

text \<open>The path a target without globs and expansions names, resolved lexically.\<close>

definition lexical_target :: "string \<Rightarrow> string option \<Rightarrow> string option" where
  "lexical_target target cwd =
     (let n = normalized_shell_path target in
      if is_absolute_host_path n then Some (components_to_path (path_components n))
      else map_option (\<lambda>c. components_to_path (path_components (c @ ''/'' @ n))) cwd)"

definition plain_target :: "string \<Rightarrow> bool" where
  "plain_target target \<longleftrightarrow> target \<noteq> [] \<and> \<not> contains_active_glob target \<and>
     \<not> contains_sub HOME_ROOT_MARKER target \<and> \<not> contains_sub DYNAMIC_EXPANSION_MARKER target \<and>
     \<not> contains_sub LITERAL_GLOB_MARKER target"

lemma lowercase_alphabetic:
  "CHR ''A'' \<le> d \<Longrightarrow> d \<le> CHR ''Z'' \<Longrightarrow> is_ascii_alphabetic (char_of (of_char d + 32 :: nat))"
  by (simp add: is_ascii_alphabetic_def less_eq_char_def)

lemma strip_verbatim_subset:
  "set (case strip_prefix ''//?/'' s of None \<Rightarrow> s
     | Some rest \<Rightarrow> (case strip_prefix ''UNC/'' rest of None \<Rightarrow> rest | Some unc \<Rightarrow> ''//'' @ unc)) \<subseteq> insert (CHR ''/'') (set s)"
  by (auto simp: strip_prefix_def split: option.splits if_splits dest: in_set_dropD)

lemma drive_path_subset:
  "set (case s of
      drive # colon # rest \<Rightarrow>
        if is_ascii_alphabetic drive \<and> colon = CHR '':'' then
          (let d = (if CHR ''A'' \<le> drive \<and> drive \<le> CHR ''Z'' then char_of (of_char drive + 32 :: nat) else drive);
               rest = trim_start_matches (CHR ''/'') rest
           in if rest = [] then [CHR ''/'', d] else [CHR ''/'', d, CHR ''/''] @ rest)
        else (let t = trim_end_matches (CHR ''/'') s in if t = [] then ''/'' else t)
    | _ \<Rightarrow> (let t = trim_end_matches (CHR ''/'') s in if t = [] then ''/'' else t))
   \<subseteq> insert (CHR ''/'') (set s \<union> Collect is_ascii_alphabetic)"
  using trim_end_matches_subset [of "CHR ''/''" s]
  by (auto simp: Let_def lowercase_alphabetic split: list.split dest: subsetD [OF trim_start_matches_subset])

lemma normalized_shell_path_subset:
  "set (normalized_shell_path p) \<subseteq> insert (CHR ''/'') (set (replace_byte (CHR 0x5C) (CHR ''/'') p) \<union> Collect is_ascii_alphabetic)"
  unfolding normalized_shell_path_def Let_def
  by (rule subset_trans [OF drive_path_subset [unfolded Let_def]])
    (use strip_verbatim_subset [of "replace_byte (CHR 0x5C) (CHR ''/'') p"] in blast)

lemma normalized_no_backslash: "CHR 0x5C \<notin> set (normalized_shell_path p)"
  using normalized_shell_path_subset [of p]
  by (auto simp: replace_byte_def is_ascii_alphabetic_def less_eq_char_def split: if_splits)

lemma normalized_no_glob: "\<not> contains_active_glob p \<Longrightarrow> \<not> contains_active_glob (normalized_shell_path p)"
  using normalized_shell_path_subset [of p]
  by (fastforce simp: contains_active_glob_def list_ex_iff replace_byte_def is_ascii_alphabetic_def less_eq_char_def split: if_splits)

lemma path_components_normalized:
  "path_components (normalized_shell_path p) = fold resolve_component (split_on (CHR ''/'') (normalized_shell_path p)) []"
  by (simp add: path_components_def replace_byte_id normalized_no_backslash)

lemma path_components_below:
  "path_components (cwd @ ''/'' @ normalized_shell_path p) =
     fold resolve_component (split_on (CHR ''/'') (normalized_shell_path p)) (path_components cwd)"
  using replace_byte_id [OF normalized_no_backslash, of "CHR ''/''" p]
  by (simp add: path_components_def replace_byte_def split_on_append)

lemma analyze_plain_components:
  "list_all (\<lambda>w. \<not> contains_active_glob w) ws \<Longrightarrow>
     analyze_components cs ws = Some \<lparr>parent = components_to_path (fold resolve_component ws cs), direct_glob = None\<rparr>"
  by (induction ws arbitrary: cs) (auto simp: resolve_component_def)

lemma plain_components:
  "\<not> contains_active_glob s \<Longrightarrow> list_all (\<lambda>w. \<not> contains_active_glob w) (split_on c s)"
  using split_on_subset by (fastforce simp: contains_active_glob_def list_ex_iff list_all_iff)

lemma analyze_plain_target:
  assumes "plain_target target"
  shows "analyze_path_target target cwd =
    Ok (map_option (\<lambda>p. \<lparr>parent = p, direct_glob = None\<rparr>) (lexical_target target cwd))"
proof -
  have "list_all (\<lambda>w. \<not> contains_active_glob w) (split_on (CHR ''/'') (normalized_shell_path target))"
    using assms by (intro plain_components normalized_no_glob) (simp add: plain_target_def)
  from analyze_plain_components [OF this] assms show ?thesis
    by (simp add: analyze_path_target_def lexical_target_def Let_def is_absolute_host_path_def plain_target_def
      path_components_normalized path_components_below [simplified] split: option.split)
qed

text \<open>
  A target without globs and expansions is judged by the path it names: it is protected exactly when, resolved
  lexically against the working directory, it is the file system root, a drive root or the working directory, whatever
  dots, double dots, repeated slashes, backslashes or drive letters it is spelled with.
\<close>

theorem literal_target_resolved:
  assumes "plain_target target"
  shows "classify_protected_target target cwd =
    Ok (case lexical_target target cwd of
          None \<Rightarrow> None
        | Some p \<Rightarrow> if p = ''/'' \<or> is_shell_drive_root p then Some System
            else if cwd = Some p then Some WorkingDirectory else None)"
proof -
  have "strip_prefix HOME_ROOT_MARKER target = None"
    using assms contains_sub_prefix by (auto simp: plain_target_def strip_prefix_def)
  with assms show ?thesis
    by (simp add: classify_protected_target_def analyze_plain_target classify_path_def plain_target_def split: option.split)
qed

text \<open>A roundabout spelling of the working directory.\<close>

theorem literal_target_resolved_witness:
  "classify_protected_target ''./src//../../work'' (Some ''/host/work'') = Ok (Some WorkingDirectory)"
proof -
  have "plain_target ''./src//../../work''" by code_simp
  moreover have "lexical_target ''./src//../../work'' (Some ''/host/work'') = Some ''/host/work''" by code_simp
  ultimately show ?thesis
    using literal_target_resolved [of "''./src//../../work''" "Some ''/host/work''"]
    by (simp add: is_shell_drive_root_def)
qed

text \<open>A glob for one path component, without quoting, expansions or separators.\<close>

definition component_glob :: "string \<Rightarrow> bool" where
  "component_glob g \<longleftrightarrow> contains_active_glob g \<and> CHR ''/'' \<notin> set g \<and> CHR 0x5C \<notin> set g \<and>
     \<not> contains_sub HOME_ROOT_MARKER g \<and> \<not> contains_sub DYNAMIC_EXPANSION_MARKER g \<and> \<not> contains_sub LITERAL_GLOB_MARKER g"

lemma split_on_none: "c \<notin> set s \<Longrightarrow> split_on c s = [s]"
  by (induction s) auto

lemma component_glob_nonempty: "component_glob g \<Longrightarrow> g \<noteq> []"
  by (auto simp: component_glob_def contains_active_glob_def)

lemma normalized_root_child:
  assumes "component_glob g"
  shows "normalized_shell_path (CHR ''/'' # g) = CHR ''/'' # g"
proof -
  have g: "g \<noteq> []" "CHR ''/'' \<notin> set g" "CHR 0x5C \<notin> set g"
    using assms component_glob_nonempty by (auto simp: component_glob_def)
  then have "replace_byte (CHR 0x5C) (CHR ''/'') (CHR ''/'' # g) = CHR ''/'' # g"
    by (intro replace_byte_id) simp
  moreover have "strip_prefix ''//?/'' (CHR ''/'' # g) = None"
    using g by (cases g) (auto simp: strip_prefix_def)
  moreover have "trim_end_matches (CHR ''/'') (CHR ''/'' # g) = CHR ''/'' # g"
    using g by (cases g rule: rev_cases) (auto simp: trim_end_matches_def)
  moreover have "\<not> is_ascii_alphabetic (CHR ''/'')" by code_simp
  ultimately show ?thesis
    by (simp add: normalized_shell_path_def Let_def split: list.split)
qed

lemma analyze_root_child:
  assumes "component_glob g"
  shows "analyze_path_target (CHR ''/'' # g) cwd = Ok (Some \<lparr>parent = ''/'', direct_glob = Some g\<rparr>)"
proof -
  have "g \<noteq> ''.''" "g \<noteq> ''..''"
    using assms by (auto simp: component_glob_def contains_active_glob_def)
  with assms component_glob_nonempty [OF assms] show ?thesis
    by (simp add: analyze_path_target_def normalized_root_child starts_with_def component_glob_def split_on_none
      components_to_path_def LITERAL_GLOB_MARKER_def)
qed

lemma rsplit_root_child: "CHR ''/'' \<notin> set name \<Longrightarrow> rsplit_once (CHR ''/'') (CHR ''/'' # name) = Some ([], name)"
  by (simp add: rsplit_once_def split_once_def dropWhile_append takeWhile_append)

text \<open>
  C20: When the working directory lies directly under the file system root, a recursive deletion of a root-level glob that
  matches its name is not recognised, unless the glob is one of those that cover every child: the parent of such a
  working directory is taken to be the empty string, and the parent of the target is a slash.
\<close>

theorem root_level_glob_missed:
  assumes "component_glob g" and "\<not> glob_covers_all_children g"
    and "name \<noteq> []" and "CHR ''/'' \<notin> set name" and "glob_matches_literal g name"
  shows "classify_protected_target (CHR ''/'' # g) (Some (CHR ''/'' # name)) = Ok None"
proof -
  have "strip_prefix HOME_ROOT_MARKER (CHR ''/'' # g) = None"
    by (simp add: strip_prefix_def HOME_ROOT_MARKER_def)
  with assms show ?thesis
    by (simp add: classify_protected_target_def analyze_root_child classify_path_def rsplit_root_child
      is_shell_drive_root_def component_glob_def DYNAMIC_EXPANSION_MARKER_def HOME_ROOT_MARKER_def)
qed

text \<open>The same glob one level deeper is recognised.\<close>

theorem root_level_glob_missed_witness:
  "glob_matches_literal ''wor*'' ''work''
   \<and> classify_protected_target ''/wor*'' (Some ''/work'') = Ok None
   \<and> classify_protected_target ''/host/wor*'' (Some ''/host/work'') = Ok (Some WorkingDirectory)"
proof (intro conjI)
  show m: "glob_matches_literal ''wor*'' ''work''" by code_simp
  have "component_glob ''wor*''" "\<not> glob_covers_all_children ''wor*''" by code_simp+
  from root_level_glob_missed [OF this _ _ m] show "classify_protected_target ''/wor*'' (Some ''/work'') = Ok None"
    by simp
  show "classify_protected_target ''/host/wor*'' (Some ''/host/work'') = Ok (Some WorkingDirectory)" by code_simp
qed

section \<open>Decisions\<close>

text \<open>The command of a request and its working directory member, if the arguments have a command.\<close>

definition bash_command :: "'v json_library \<Rightarrow> ToolPermissionRequest \<Rightarrow> (string \<times> string option) option" where
  "bash_command js r = Option.bind (parse_args_json js (args_json r)) (\<lambda>args.
     map_option (\<lambda>command. (command, get_str js args ''cwd'')) (get_str js args ''command''))"

lemma canonicalize_tool_name_iff:
  "canonicalize_tool_name raw = (if raw \<in> set MODEL_TOOL_CATALOG_ORDER then Some raw else None)"
  by (simp add: canonicalize_tool_name_def find_same)

lemma first_verdict_none: "first_verdict vs = Ok None \<longleftrightarrow> list_all (\<lambda>v. v = Ok None) vs"
  by (induction vs) auto

lemma decision_kind_new [simp]:
  "decision_kind (permission_decision_new ok risk why why_type source input) = (if ok then Allowed else Blocked)"
  by (simp add: decision_kind_def permission_decision_new_def)

lemma guard_silent_iff:
  assumes "set_language grammar = Ok ()"
  shows "directly_recursively_deleted_protected_root grammar command cwd execution_cwd \<noteq> Ok None \<longleftrightarrow>
    (case parse_tree grammar command of
       None \<Rightarrow> True
     | Some (tree, has_error) \<Rightarrow> \<not> has_error \<and>
         list_ex (\<lambda>c. inspect_command c (logical_cwd cwd execution_cwd) \<noteq> Ok None) (direct_commands tree))"
  using assms
  by (auto simp: directly_recursively_deleted_protected_root_def inspect_walk(1) first_verdict_none ok_or_def map_err_def
    list_all_iff list_ex_iff split: option.split)

lemma deletion_decision_iff:
  "evaluate_bash_protected_root_deletion grammar js (args_json r) (bash_cwd r) input = None \<longleftrightarrow>
    (case bash_command js r of
       None \<Rightarrow> True
     | Some (command, cwd) \<Rightarrow> directly_recursively_deleted_protected_root grammar command cwd (bash_cwd r) = Ok None)"
  by (auto simp: evaluate_bash_protected_root_deletion_def bash_command_def split: option.splits sum.splits bind_splits)

lemma deletion_decision_blocks:
  "evaluate_bash_protected_root_deletion grammar js args cwd input = Some d \<Longrightarrow> decision_kind d = Blocked"
  by (auto simp: evaluate_bash_protected_root_deletion_def split: sum.splits bind_splits)

lemma evaluate_blocked_iff:
  "decision_kind (evaluate_tool_action grammar js r) = Blocked \<longleftrightarrow>
     request_tool_name r \<notin> set MODEL_TOOL_CATALOG_ORDER \<and> \<not> dynamic_contract r \<or>
     request_tool_name r = ''bash'' \<and>
       evaluate_bash_protected_root_deletion grammar js (args_json r) (bash_cwd r)
         (normalize_permission_input js ''bash'' (args_json r)) \<noteq> None"
proof -
  have bash: "''bash'' \<in> set MODEL_TOOL_CATALOG_ORDER" by code_simp
  show ?thesis
    by (auto simp: evaluate_tool_action_def Let_def canonicalize_tool_name_iff bash dest: deletion_decision_blocks
      split: option.split)
qed

text \<open>
  C18: With a grammar that loads, a tool action is blocked exactly when its tool is neither in the catalog nor under a
  dynamic contract, or when it is a Bash call with a command for which the parser returns no tree, or whose error-free
  tree has, at any depth outside function definitions, a command whose inspection fails or finds a protected root.
\<close>

theorem permission_decision_exact:
  assumes "set_language grammar = Ok ()"
  shows "decision_kind (evaluate_tool_action grammar js r) = Blocked \<longleftrightarrow>
    request_tool_name r \<notin> set MODEL_TOOL_CATALOG_ORDER \<and> \<not> dynamic_contract r \<or>
    request_tool_name r = ''bash'' \<and>
      (case bash_command js r of
         None \<Rightarrow> False
       | Some (command, cwd) \<Rightarrow>
           (case parse_tree grammar command of
              None \<Rightarrow> True
            | Some (tree, has_error) \<Rightarrow> \<not> has_error \<and>
                list_ex (\<lambda>c. inspect_command c (logical_cwd cwd (bash_cwd r)) \<noteq> Ok None) (direct_commands tree)))"
  unfolding evaluate_blocked_iff deletion_decision_iff
  by (simp add: guard_silent_iff [OF assms] split: option.split)

text \<open>
  A grammar that knows one script, a deletion inside a command substitution, and a library whose values are texts
  with a command only.
\<close>

definition sample_grammar :: bash_grammar where
  "sample_grammar = \<lparr>set_language = Ok (), parse_tree = (\<lambda>_. Some (BashNode ''program'' None []
     [BashNode ''command_substitution'' None []
       [BashNode ''command'' (Some (Ok ''rm'')) [Ok ''-rf'', Ok ''/work''] []]], False))\<rparr>"

definition sample_json :: "string json_library" where
  "sample_json = \<lparr>from_str = Some, get_str = (\<lambda>v key. if key = ''command'' then Some v else None)\<rparr>"

theorem permission_decision_exact_witness:
  "decision_kind (evaluate_tool_action sample_grammar sample_json
     (with_bash_cwd (request_new ''bash'' (Some ''$(rm -rf /work)'')) ''/work'')) = Blocked"
proof (rule iffD2 [OF permission_decision_exact])
  show "set_language sample_grammar = Ok ()" by (simp add: sample_grammar_def)
qed code_simp

end
