(* ===== verification/WeakRegistry.thy ===== *)
theory WeakRegistry
  imports Machines
begin

text \<open>
  Reference-counted objects and the registries of weak references to them, which two components
  keep: the activity gates of the executions (\<open>execution_recovery_policy.rs\<close>) and the tool budgets of
  the execution scopes (\<open>tool/concurrency.rs\<close>). An \<open>Arc\<close> is the index of its object in a heap that
  pairs every object with its strong count; a \<open>Weak\<close> is the same index without a share in the count.

  The interface locale \<open>weak_registry\<close> states what both lookups do to heap and registry. Inside it,
  for every interleaving of lookups, clones and drops: the strong count is the number of handles,
  and two live handles obtained for the same key name the same object.
\<close>

type_synonym 'a arc_heap = "('a \<times> nat) list"
type_synonym weak_map = "(string \<times> nat) list"

section \<open>Arc, Weak and the registry map\<close>

definition arc_new :: "'a \<Rightarrow> 'a arc_heap \<Rightarrow> nat \<times> 'a arc_heap" where
  "arc_new v h = (length h, h @ [(v, 1)])"

definition strong_count :: "'a arc_heap \<Rightarrow> nat \<Rightarrow> nat" where
  "strong_count h p = (if p < length h then snd (h ! p) else 0)"

definition arc_clone :: "nat \<Rightarrow> 'a arc_heap \<Rightarrow> 'a arc_heap" where
  "arc_clone p h = h[p := (fst (h ! p), snd (h ! p) + 1)]"

definition arc_drop :: "nat \<Rightarrow> 'a arc_heap \<Rightarrow> 'a arc_heap" where
  "arc_drop p h = h[p := (fst (h ! p), snd (h ! p) - 1)]"

definition weak_upgrade :: "'a arc_heap \<Rightarrow> nat \<Rightarrow> (nat \<times> 'a arc_heap) option" where
  "weak_upgrade h p = (if 0 < strong_count h p then Some (p, arc_clone p h) else None)"

text \<open>\<open>retain(|_, weak| weak.strong_count() > 0)\<close>, \<open>get\<close> and \<open>insert\<close> of the hash map.\<close>

definition registry_retain :: "'a arc_heap \<Rightarrow> weak_map \<Rightarrow> weak_map" where
  "registry_retain h reg = filter (\<lambda>(k, p). 0 < strong_count h p) reg"

definition registry_insert :: "string \<Rightarrow> nat \<Rightarrow> weak_map \<Rightarrow> weak_map" where
  "registry_insert k p reg = (k, p) # filter (\<lambda>(k', _). k' \<noteq> k) reg"

lemma strong_count_clone:
  "p < length h \<Longrightarrow> strong_count (arc_clone p h) q = strong_count h q + (if q = p then 1 else 0)"
  by (simp add: strong_count_def arc_clone_def nth_list_update)

lemma strong_count_drop:
  "p < length h \<Longrightarrow> strong_count (arc_drop p h) q = strong_count h q - (if q = p then 1 else 0)"
  by (simp add: strong_count_def arc_drop_def nth_list_update)

lemma strong_count_new:
  "strong_count (h @ [(v, Suc 0)]) q = (if q = length h then 1 else strong_count h q)"
  by (simp add: strong_count_def nth_append)

lemma strong_count_pos_bound: "0 < strong_count h p \<Longrightarrow> p < length h"
  by (simp add: strong_count_def split: if_splits)

lemma length_arc [simp]:
  "length (arc_clone p h) = length h" "length (arc_drop p h) = length h"
  by (simp_all add: arc_clone_def arc_drop_def)

lemma arc_value_kept [simp]:
  "p < length h \<Longrightarrow> fst (arc_clone q h ! p) = fst (h ! p)"
  "p < length h \<Longrightarrow> fst (arc_drop q h ! p) = fst (h ! p)"
  by (cases "q = p"; simp add: arc_clone_def arc_drop_def)+

lemma map_of_registry_retain:
  "distinct (map fst reg) \<Longrightarrow>
    map_of (registry_retain h reg) k = (case map_of reg k of None \<Rightarrow> None
      | Some p \<Rightarrow> if 0 < strong_count h p then Some p else None)"
proof (induction reg)
  case (Cons e reg)
  obtain k' p where e: "e = (k', p)" by (cases e)
  have "map_of reg k' = None" using Cons.prems e by (auto simp: map_of_eq_None_iff)
  then show ?case using Cons e
    by (auto simp: registry_retain_def split: option.splits)
qed (simp add: registry_retain_def)

lemma distinct_registry_retain:
  "distinct (map fst reg) \<Longrightarrow> distinct (map fst (registry_retain h reg))"
  by (simp add: registry_retain_def distinct_map_filter)

lemma map_of_registry_insert [simp]:
  "map_of (registry_insert k p reg) = (map_of reg)(k \<mapsto> p)"
proof -
  have "map_of (filter (\<lambda>(k', _). k' \<noteq> k) reg) k' = (if k' = k then None else map_of reg k')" for k'
    by (induction reg) auto
  then show ?thesis by (auto simp: registry_insert_def)
qed

lemma distinct_registry_insert:
  "distinct (map fst reg) \<Longrightarrow> distinct (map fst (registry_insert k p reg))"
  by (auto simp: registry_insert_def distinct_map_filter)

section \<open>The contract of a lookup\<close>

text \<open>
  A lookup purges the dead entries, and then either hands out one more reference to the object the
  key still names or creates an object and records it under the key.
\<close>

inductive opens :: "('a \<Rightarrow> bool) \<Rightarrow> string \<Rightarrow> 'a arc_heap \<times> weak_map \<Rightarrow> nat \<Rightarrow> 'a arc_heap \<times> weak_map \<Rightarrow> bool"
  for admissible :: "'a \<Rightarrow> bool" where
  opens_live: "map_of (registry_retain h reg) k = Some p \<Longrightarrow> weak_upgrade h p = Some (p, h') \<Longrightarrow>
    admissible (fst (h ! p)) \<Longrightarrow> opens admissible k (h, reg) p (h', registry_retain h reg)"
| opens_new: "map_of (registry_retain h reg) k = None \<Longrightarrow> arc_new v h = (p, h') \<Longrightarrow> admissible v \<Longrightarrow>
    opens admissible k (h, reg) p (h', registry_insert k p (registry_retain h reg))"

inductive_cases opensE: "opens adm k s p s'"

text \<open>
  The world around a registry: besides heap and registry, the live handles, each with the request it
  was obtained by. The objects change behind their handles; \<open>mut\<close> says which changes are possible.
\<close>

record ('q, 'a) registry_world =
  arcs :: "'a arc_heap"
  weak_refs :: weak_map
  handles :: "('q \<times> nat) list"

datatype 'q handle_event = OpenHandle 'q | CloneHandle nat | DropHandle nat | MutateObject nat

definition remove_nth :: "nat \<Rightarrow> 'x list \<Rightarrow> 'x list" where
  "remove_nth i xs = take i xs @ drop (Suc i) xs"

lemma set_remove_nth: "set (remove_nth i xs) \<subseteq> set xs"
  by (auto simp: remove_nth_def dest: in_set_takeD in_set_dropD)

lemma count_remove_nth:
  "i < length xs \<Longrightarrow>
    count_list (map f (remove_nth i xs)) q = count_list (map f xs) q - (if f (xs ! i) = q then 1 else 0)"
proof -
  assume i: "i < length xs"
  have "xs = take i xs @ xs ! i # drop (Suc i) xs" using i by (rule id_take_nth_drop)
  then have "count_list (map f xs) q =
      count_list (map f (take i xs)) q + count_list (map f (xs ! i # drop (Suc i) xs)) q"
    by (metis count_list_append map_append)
  then show ?thesis by (simp add: remove_nth_def)
qed

definition registry_inv :: "('q \<Rightarrow> string) \<Rightarrow> ('q \<Rightarrow> 'a \<Rightarrow> bool) \<Rightarrow> ('q, 'a) registry_world \<Rightarrow> bool" where
  "registry_inv key_of admissible w \<longleftrightarrow>
    distinct (map fst (weak_refs w)) \<and> distinct (map snd (weak_refs w)) \<and>
    (\<forall>p < length (arcs w). strong_count (arcs w) p = count_list (map snd (handles w)) p) \<and>
    (\<forall>(q, p) \<in> set (handles w). map_of (weak_refs w) (key_of q) = Some p \<and> p < length (arcs w) \<and>
      admissible q (fst (arcs w ! p))) \<and>
    (\<forall>(k, p) \<in> set (weak_refs w). p < length (arcs w))"

lemma registry_invI:
  assumes "distinct (map fst (weak_refs w))" and "distinct (map snd (weak_refs w))"
    and "\<And>p. p < length (arcs w) \<Longrightarrow> strong_count (arcs w) p = count_list (map snd (handles w)) p"
    and "\<And>q p. (q, p) \<in> set (handles w) \<Longrightarrow> map_of (weak_refs w) (key_of q) = Some p \<and>
      p < length (arcs w) \<and> admissible q (fst (arcs w ! p))"
    and "\<And>k p. (k, p) \<in> set (weak_refs w) \<Longrightarrow> p < length (arcs w)"
  shows "registry_inv key_of admissible w"
  using assms unfolding registry_inv_def by blast

lemma registry_invD:
  assumes "registry_inv key_of admissible w"
  shows "distinct (map fst (weak_refs w))" and "distinct (map snd (weak_refs w))"
    and "p < length (arcs w) \<Longrightarrow> strong_count (arcs w) p = count_list (map snd (handles w)) p"
    and "(q, p) \<in> set (handles w) \<Longrightarrow> map_of (weak_refs w) (key_of q) = Some p \<and>
      p < length (arcs w) \<and> admissible q (fst (arcs w ! p))"
    and "(k, p) \<in> set (weak_refs w) \<Longrightarrow> p < length (arcs w)"
  using assms unfolding registry_inv_def by blast+

lemma handle_is_live:
  assumes "registry_inv key_of admissible w" and "(q, p) \<in> set (handles w)"
  shows "0 < strong_count (arcs w) p"
proof -
  have "p \<in> set (map snd (handles w))" using assms(2) by force
  then have "count_list (map snd (handles w)) p \<noteq> 0" by (simp add: count_list_0_iff)
  then show ?thesis using registry_invD(3,4) [OF assms(1)] assms(2) by fastforce
qed

lemma handle_retained:
  assumes "registry_inv key_of admissible w" and "(q, p) \<in> set (handles w)"
  shows "map_of (registry_retain (arcs w) (weak_refs w)) (key_of q) = Some p"
  using registry_invD(1,4) [OF assms(1)] handle_is_live [OF assms] assms(2)
  by (simp only: map_of_registry_retain) (fastforce split: option.splits)

lemma registry_inv_purge:
  assumes inv: "registry_inv key_of admissible w"
  shows "registry_inv key_of admissible (w\<lparr>weak_refs := registry_retain (arcs w) (weak_refs w)\<rparr>)"
proof -
  note D = registry_invD [OF inv]
  show ?thesis
    apply (rule registry_invI)
    subgoal using D(1) by (simp add: distinct_registry_retain)
    subgoal using D(2) by (simp add: registry_retain_def distinct_map_filter)
    subgoal using D(3) by simp
    subgoal using D(4) handle_retained [OF inv] by simp
    subgoal using D(5) by (auto simp: registry_retain_def)
    done
qed

section \<open>Clients of a lookup\<close>

inductive registry_step ::
  "('q \<Rightarrow> 'a arc_heap \<times> weak_map \<Rightarrow> (string + nat) \<times> 'a arc_heap \<times> weak_map) \<Rightarrow> ('a \<Rightarrow> 'a \<Rightarrow> bool) \<Rightarrow>
    ('q, 'a) registry_world \<Rightarrow> 'q handle_event \<Rightarrow> ('q, 'a) registry_world \<Rightarrow> bool"
  for lookup and mut where
  step_open: "lookup q (arcs w, weak_refs w) = (Ok p, h, reg) \<Longrightarrow>
    registry_step lookup mut w (OpenHandle q)
      (w\<lparr>arcs := h, weak_refs := reg, handles := (q, p) # handles w\<rparr>)"
| step_open_error: "lookup q (arcs w, weak_refs w) = (Err e, h, reg) \<Longrightarrow>
    registry_step lookup mut w (OpenHandle q) (w\<lparr>arcs := h, weak_refs := reg\<rparr>)"
| step_clone: "i < length (handles w) \<Longrightarrow>
    registry_step lookup mut w (CloneHandle i)
      (w\<lparr>arcs := arc_clone (snd (handles w ! i)) (arcs w), handles := handles w ! i # handles w\<rparr>)"
| step_drop: "i < length (handles w) \<Longrightarrow>
    registry_step lookup mut w (DropHandle i)
      (w\<lparr>arcs := arc_drop (snd (handles w ! i)) (arcs w), handles := remove_nth i (handles w)\<rparr>)"
| step_mutate: "p < length (arcs w) \<Longrightarrow> mut (fst (arcs w ! p)) v \<Longrightarrow>
    registry_step lookup mut w (MutateObject p)
      (w\<lparr>arcs := (arcs w)[p := (v, snd (arcs w ! p))]\<rparr>)"

inductive_cases registry_stepE: "registry_step lookup mut w e w'"

locale weak_registry =
  fixes lookup :: "'q \<Rightarrow> 'a arc_heap \<times> weak_map \<Rightarrow> (string + nat) \<times> 'a arc_heap \<times> weak_map"
    and key_of :: "'q \<Rightarrow> string" and admissible :: "'q \<Rightarrow> 'a \<Rightarrow> bool" and mut :: "'a \<Rightarrow> 'a \<Rightarrow> bool"
  assumes lookup_opens: "lookup q s = (Ok p, s') \<Longrightarrow> opens (admissible q) (key_of q) s p s'"
    and lookup_fails: "lookup q s = (Err e, s') \<Longrightarrow> s' = s \<or> s' = (fst s, registry_retain (fst s) (snd s))"
    and mut_admissible: "admissible q v \<Longrightarrow> mut v v' \<Longrightarrow> admissible q v'"
begin

lemma open_inv:
  assumes inv: "registry_inv key_of admissible w" and ok: "lookup q (arcs w, weak_refs w) = (Ok p, h, reg)"
  shows "registry_inv key_of admissible (w\<lparr>arcs := h, weak_refs := reg, handles := (q, p) # handles w\<rparr>)"
  using lookup_opens [OF ok]
proof (cases rule: opens.cases)
  case opens_live
  note D = registry_invD [OF inv]
  have reg: "map_of (weak_refs w) (key_of q) = Some p" "0 < strong_count (arcs w) p"
    using opens_live D(1) by (auto simp: map_of_registry_retain split: option.splits if_splits)
  have p: "p < length (arcs w)" using reg(2) by (rule strong_count_pos_bound)
  have h: "h = arc_clone p (arcs w)" using opens_live by (simp add: weak_upgrade_def split: if_splits)
  show ?thesis
    apply (rule registry_invI)
    subgoal using opens_live D(1) by (simp add: distinct_registry_retain)
    subgoal using opens_live D(2) by (simp add: registry_retain_def distinct_map_filter)
    subgoal using p h D(3) by (simp add: strong_count_clone)
    subgoal for q' p' using opens_live h p D(4) [of q' p'] handle_retained [OF inv, of q' p'] by auto
    subgoal using opens_live h D(5) by (auto simp: registry_retain_def)
    done
next
  case (opens_new v)
  note D = registry_invD [OF inv]
  have p: "p = length (arcs w)" and h: "h = arcs w @ [(v, 1)]"
    using opens_new by (simp_all add: arc_new_def)
  have no: "key_of q' \<noteq> key_of q" if "(q', p') \<in> set (handles w)" for q' p'
    using opens_new handle_retained [OF inv that] by auto
  have "p \<notin> snd ` set (weak_refs w)" using D(5) p by force
  then have fresh: "distinct (map snd (registry_insert (key_of q) p (registry_retain (arcs w) (weak_refs w))))"
    using D(2) by (auto simp: registry_insert_def registry_retain_def distinct_map_filter)
  have cnt: "count_list (map snd (handles w)) p = 0"
    using D(4) p by (force simp: count_list_0_iff)
  show ?thesis
    apply (rule registry_invI)
    subgoal using opens_new D(1) by (simp add: distinct_registry_retain distinct_registry_insert)
    subgoal using opens_new fresh by simp
    subgoal for p' using p h D(3) [of p'] cnt by (auto simp: strong_count_new)
    subgoal for q' p' using opens_new h p no [of q' p'] D(4) [of q' p'] handle_retained [OF inv, of q' p']
      by (auto simp: nth_append)
    subgoal using opens_new h p D(5) by (fastforce simp: registry_insert_def registry_retain_def)
    done
qed

lemma step_inv:
  assumes inv: "registry_inv key_of admissible w" and step: "registry_step lookup mut w e w'"
  shows "registry_inv key_of admissible w'"
  using step
proof (cases rule: registry_step.cases)
  case (step_open q p h reg)
  then show ?thesis using open_inv [OF inv] by simp
next
  case (step_open_error q e h reg)
  then have "w' = w \<or> w' = w\<lparr>weak_refs := registry_retain (arcs w) (weak_refs w)\<rparr>"
    using lookup_fails [OF step_open_error(3)] by auto
  then show ?thesis using inv registry_inv_purge [OF inv] by auto
next
  case (step_clone i)
  note D = registry_invD [OF inv]
  obtain k p where h: "handles w ! i = (k, p)" by (cases "handles w ! i")
  have kp: "(k, p) \<in> set (handles w)" unfolding h [symmetric] by (rule nth_mem) (rule step_clone(3))
  have p: "p < length (arcs w)" using D(4) [OF kp] by simp
  show ?thesis
    apply (rule registry_invI; unfold step_clone)
    subgoal using D(1) by simp
    subgoal using D(2) by simp
    subgoal for q using D(3) [of q] p h by (simp add: strong_count_clone)
    subgoal for k' p' using D(4) [of k' p'] D(4) [OF kp] h by auto
    subgoal for k' p' using D(5) [of k' p'] by simp
    done
next
  case (step_drop i)
  note D = registry_invD [OF inv]
  obtain k p where h: "handles w ! i = (k, p)" by (cases "handles w ! i")
  have kp: "(k, p) \<in> set (handles w)" unfolding h [symmetric] by (rule nth_mem) (rule step_drop(3))
  have sub: "x \<in> set (remove_nth i (handles w)) \<Longrightarrow> x \<in> set (handles w)" for x
    by (rule subsetD [OF set_remove_nth])
  have p: "p < length (arcs w)" using D(4) [OF kp] by simp
  show ?thesis
    apply (rule registry_invI; unfold step_drop)
    subgoal using D(1) by simp
    subgoal using D(2) by simp
    subgoal for q using D(3) [of q] p h step_drop by (simp add: strong_count_drop count_remove_nth)
    subgoal for k' p' using D(4) [of k' p'] sub [of "(k', p')"] by simp
    subgoal for k' p' using D(5) [of k' p'] by simp
    done
next
  case (step_mutate p v)
  note D = registry_invD [OF inv]
  have kept: "strong_count ((arcs w)[p := (v, snd (arcs w ! p))]) q = strong_count (arcs w) q" for q
    by (cases "q = p") (simp_all add: strong_count_def)
  show ?thesis
    apply (rule registry_invI; unfold step_mutate)
    subgoal using D(1) by simp
    subgoal using D(2) by simp
    subgoal for q using D(3) [of q] by (simp add: kept)
    subgoal for q p' using D(4) [of q p'] mut_admissible step_mutate(3,4)
      by (cases "p' = p") auto
    subgoal for k' p' using D(5) [of k' p'] by simp
    done
qed

text \<open>Two live handles share the object exactly when they were requested for the same key.\<close>

lemma handles_share:
  assumes inv: "registry_inv key_of admissible w"
    and h: "(q, p) \<in> set (handles w)" "(q', p') \<in> set (handles w)"
  shows "key_of q = key_of q' \<longleftrightarrow> p = p'"
proof
  assume "key_of q = key_of q'"
  then show "p = p'" using registry_invD(4) [OF inv h(1)] registry_invD(4) [OF inv h(2)] by simp
next
  assume "p = p'"
  moreover have "(key_of q, p) \<in> set (weak_refs w)" "(key_of q', p') \<in> set (weak_refs w)"
    using registry_invD(4) [OF inv h(1)] registry_invD(4) [OF inv h(2)] by (auto dest: map_of_SomeD)
  ultimately show "key_of q = key_of q'" using registry_invD(2) [OF inv]
    by (auto simp: distinct_map dest!: inj_onD [of snd "set (weak_refs w)" "(key_of q, p)" "(key_of q', p')"])
qed

end

sublocale weak_registry \<subseteq> weak_reg: invariant_system "registry_step lookup mut" "registry_inv key_of admissible"
  by unfold_locales (rule step_inv)

context weak_registry
begin

lemma reachable_inv:
  assumes "run (registry_step lookup mut) \<lparr>arcs = [], weak_refs = [], handles = []\<rparr> es w"
  shows "registry_inv key_of admissible w"
proof -
  have "registry_inv key_of admissible \<lparr>arcs = [], weak_refs = [], handles = []\<rparr>"
    by (simp add: registry_inv_def)
  then show ?thesis using weak_reg.run_inv [OF assms] by blast
qed

end

end
