(* ===== verification/ActivityGate.thy ===== *)
theory ActivityGate
  imports WeakRegistry
begin

text \<open>
  The activity gate of an execution (\<open>runtime_server/src/execution_recovery_policy.rs\<close>): workspace
  commands and snapshots of the workspace exclude each other, an activity epoch invalidates
  snapshots, and a recovery checkpoint is advanced only on evidence bound to the epoch.

  The gate is the mutex-protected \<open>DispatchState\<close>, its condition variable (the list of the threads
  asleep on it) and the epoch. Every function below is one critical section of the source: the part
  between taking the lock and releasing it, which includes a \<open>wait\<close> on the condition variable. The
  mutex cannot be poisoned by these sections, but the error is modelled. The threads that run the
  sections interleave in any order, and spurious wake-ups are allowed.
\<close>

section \<open>State\<close>

record DispatchState =
  active :: nat
  waiting :: nat
  capturing :: bool
  persistent_dispatch :: bool

record ActivityGate =
  gate_state :: DispatchState
  poisoned :: bool
  changed :: "nat list"
  epoch :: nat

definition ActivityGate_default :: ActivityGate where
  "ActivityGate_default = \<lparr>gate_state = \<lparr>active = 0, waiting = 0, capturing = False,
     persistent_dispatch = False\<rparr>, poisoned = False, changed = [], epoch = 0\<rparr>"

definition lock_poisoned :: string where
  "lock_poisoned = ''execution activity lock poisoned''"

text \<open>\<open>lock().map_err(...)?\<close>: the state under the lock.\<close>

definition gate_lock :: "ActivityGate \<Rightarrow> DispatchState result" where
  "gate_lock g = (if poisoned g then Err lock_poisoned else Ok (gate_state g))"

definition notify_all :: "ActivityGate \<Rightarrow> ActivityGate" where
  "notify_all g = g\<lparr>changed := []\<rparr>"

section \<open>Dispatch\<close>

text \<open>
  The head of the loop \<open>while state.capturing { state = changed.wait(state)?; }\<close> for thread \<open>t\<close>: either
  it goes to sleep (\<open>False\<close>) or it is admitted (\<open>True\<close>).
\<close>

definition dispatch_admission :: "nat \<Rightarrow> ActivityGate \<Rightarrow> bool \<times> ActivityGate" where
  "dispatch_admission t g =
    (let state = gate_state g in
     if capturing state then (False, g\<lparr>changed := t # changed g\<rparr>)
     else (True, g\<lparr>gate_state := state\<lparr>waiting := waiting state - 1, active := active state + 1\<rparr>\<rparr>))"

definition begin_dispatch_activity :: "nat \<Rightarrow> ActivityGate \<Rightarrow> (bool \<times> ActivityGate) result" where
  "begin_dispatch_activity t g =
    res_bind (gate_lock g) (\<lambda>state.
      Ok (dispatch_admission t (g\<lparr>gate_state := state\<lparr>waiting := waiting state + 1\<rparr>\<rparr>)))"

text \<open>The return of \<open>wait\<close>: thread \<open>t\<close> is no longer asleep and holds the lock again.\<close>

definition resume_dispatch :: "nat \<Rightarrow> ActivityGate \<Rightarrow> (bool \<times> ActivityGate) result" where
  "resume_dispatch t g =
    (let g = g\<lparr>changed := removeAll t (changed g)\<rparr> in
     res_bind (gate_lock g) (\<lambda>_. Ok (dispatch_admission t g)))"

definition register_persistent_dispatch :: "ActivityGate \<Rightarrow> ActivityGate result" where
  "register_persistent_dispatch g =
    res_bind (gate_lock g) (\<lambda>state. Ok (g\<lparr>gate_state := state\<lparr>persistent_dispatch := True\<rparr>\<rparr>))"

definition drop_dispatch_activity :: "ActivityGate \<Rightarrow> ActivityGate" where
  "drop_dispatch_activity g =
    (let state = gate_state g in
     notify_all (g\<lparr>gate_state := state\<lparr>active := active state - 1\<rparr>\<rparr>))"

section \<open>Snapshots\<close>

definition try_snapshot_admission :: "bool \<Rightarrow> ActivityGate \<Rightarrow> (bool \<times> ActivityGate) result" where
  "try_snapshot_admission finalizing g =
    res_bind (gate_lock g) (\<lambda>state.
      if active state \<noteq> 0 \<or> waiting state \<noteq> 0 \<or> capturing state
        \<or> (\<not> finalizing \<and> persistent_dispatch state)
      then Ok (False, g)
      else Ok (True, g\<lparr>gate_state := state\<lparr>capturing := True\<rparr>\<rparr>))"

definition try_snapshot_activity :: "ActivityGate \<Rightarrow> (bool \<times> ActivityGate) result" where
  "try_snapshot_activity = try_snapshot_admission False"

definition try_final_snapshot_activity :: "ActivityGate \<Rightarrow> (bool \<times> ActivityGate) result" where
  "try_final_snapshot_activity = try_snapshot_admission True"

definition drop_snapshot_activity :: "ActivityGate \<Rightarrow> ActivityGate" where
  "drop_snapshot_activity g =
    (let state = gate_state g in notify_all (g\<lparr>gate_state := state\<lparr>capturing := False\<rparr>\<rparr>))"

section \<open>The activity epoch\<close>

definition invalidate_before_dispatch :: "ActivityGate \<Rightarrow> (nat \<times> ActivityGate) result" where
  "invalidate_before_dispatch g =
    (case u64_checked_add (epoch g) 1 of
       None \<Rightarrow> Err ''execution activity epoch overflow''
     | Some next \<Rightarrow> Ok (next, g\<lparr>epoch := next\<rparr>))"

record SnapshotCaptureToken =
  token_host_instance :: nat
  activity_epoch :: nat

datatype SnapshotCaptureError = ActivityChanged | HostChanged

record WorkspaceReuseEvidence =
  prior_checkpoint_snapshot_valid :: bool
  generation_known :: bool
  snapshot_was_quiesced :: bool
  snapshot_activity_epoch :: nat
  current_activity_epoch :: nat
  snapshot_host_instance :: nat
  current_host_instance :: nat

text \<open>A witness is a host instance with its gate; both are arguments of its methods.\<close>

definition begin_snapshot_capture :: "nat \<Rightarrow> ActivityGate \<Rightarrow> SnapshotCaptureToken" where
  "begin_snapshot_capture host_instance g =
    \<lparr>token_host_instance = host_instance, activity_epoch = epoch g\<rparr>"

definition complete_quiesced_snapshot ::
  "nat \<Rightarrow> ActivityGate \<Rightarrow> SnapshotCaptureToken \<Rightarrow> bool \<Rightarrow> bool \<Rightarrow> SnapshotCaptureError + WorkspaceReuseEvidence" where
  "complete_quiesced_snapshot host_instance g token snapshot_valid generation_is_known =
    res_bind (ensure (token_host_instance token = host_instance) HostChanged) (\<lambda>_.
    res_bind (ensure (activity_epoch token = epoch g) ActivityChanged) (\<lambda>_.
    Ok \<lparr>prior_checkpoint_snapshot_valid = snapshot_valid, generation_known = generation_is_known,
      snapshot_was_quiesced = True,
      snapshot_activity_epoch = activity_epoch token, current_activity_epoch = activity_epoch token,
      snapshot_host_instance = token_host_instance token,
      current_host_instance = token_host_instance token\<rparr>))"

definition workspace_evidence ::
  "nat \<Rightarrow> ActivityGate \<Rightarrow> WorkspaceReuseEvidence \<Rightarrow> WorkspaceReuseEvidence" where
  "workspace_evidence host_instance g snapshot =
    snapshot\<lparr>current_activity_epoch := epoch g, current_host_instance := host_instance\<rparr>"

section \<open>The recovery decision\<close>

datatype HostFailureEvidence = PreDispatchProcessNotStarted | Unknown

record RecoveryEvidence =
  failure :: HostFailureEvidence
  receipt_reported_executed :: "bool option"
  durable_receipt_sequence :: nat
  previous_checkpoint_sequence :: nat
  next_model_request_started :: bool
  open_tool_calls :: nat
  parallel_tool_calls :: nat
  tool_calls_since_checkpoint :: nat
  receipts_since_checkpoint :: nat
  all_suffix_tools_are_bash :: bool
  external_or_mcp_calls_since_checkpoint :: nat
  successful_receipts_since_checkpoint :: nat
  facts_since_checkpoint :: nat
  workspace :: WorkspaceReuseEvidence

record CheckpointAdvance =
  source_checkpoint_sequence :: nat
  covered_through_sequence :: nat

definition recovery_eligibility :: "RecoveryEvidence \<Rightarrow> CheckpointAdvance result" where
  "recovery_eligibility evidence =
    res_bind (ensure (failure evidence = PreDispatchProcessNotStarted)
      ''sandbox loss lacks typed pre-dispatch process-not-started evidence'') (\<lambda>_.
    res_bind (ensure (receipt_reported_executed evidence = Some False)
      ''tool receipt does not report a non-executed operation'') (\<lambda>_.
    res_bind (ensure (next_model_request_started evidence)
      ''checkpoint advance requires a real next model request safe point'') (\<lambda>_.
    res_bind (ensure (\<not> durable_receipt_sequence evidence \<le> previous_checkpoint_sequence evidence)
      ''durable tool ledger is not ahead of the previous checkpoint'') (\<lambda>_.
    res_bind (ensure (\<not> (open_tool_calls evidence \<noteq> 0 \<or> parallel_tool_calls evidence \<noteq> 0))
      ''tool execution is open, parallel, or indeterminate'') (\<lambda>_.
    res_bind (ensure (\<not> (tool_calls_since_checkpoint evidence \<noteq> 1
        \<or> receipts_since_checkpoint evidence \<noteq> 1
        \<or> \<not> all_suffix_tools_are_bash evidence
        \<or> external_or_mcp_calls_since_checkpoint evidence \<noteq> 0))
      ''checkpoint suffix is not one closed bash call and receipt'') (\<lambda>_.
    res_bind (ensure (\<not> (successful_receipts_since_checkpoint evidence \<noteq> 0
        \<or> facts_since_checkpoint evidence \<noteq> 0))
      ''checkpoint suffix contains a successful tool or semantic fact'') (\<lambda>_.
    let workspace = workspace evidence in
    res_bind (ensure (\<not> (\<not> prior_checkpoint_snapshot_valid workspace \<or> \<not> generation_known workspace))
      ''previous workspace snapshot is absent or has unknown generation'') (\<lambda>_.
    res_bind (ensure (\<not> (\<not> snapshot_was_quiesced workspace
        \<or> current_activity_epoch workspace \<noteq> snapshot_activity_epoch workspace
        \<or> current_host_instance workspace \<noteq> snapshot_host_instance workspace))
      ''execution host cannot prove the previous workspace snapshot remains complete'') (\<lambda>_.
    Ok \<lparr>source_checkpoint_sequence = previous_checkpoint_sequence evidence,
      covered_through_sequence = durable_receipt_sequence evidence\<rparr>)))))))))"

datatype OwnedExecutionContinuity =
  OwnedRunning | OwnedMissing | OwnedStopped | IdentityMismatch | InspectUnavailable

definition validate_sandbox_loss_recovery ::
  "RecoveryEvidence \<Rightarrow> OwnedExecutionContinuity \<Rightarrow> nat \<Rightarrow> nat \<Rightarrow> CheckpointAdvance result" where
  "validate_sandbox_loss_recovery evidence continuity reserved_attempts maximum_attempts =
    res_bind (ensure (continuity = OwnedMissing \<or> continuity = OwnedStopped)
      ''old Execution environment is not proven lost'') (\<lambda>_.
    res_bind (ensure (\<not> reserved_attempts \<ge> maximum_attempts)
      ''sandbox replacement recovery budget is exhausted'') (\<lambda>_.
    recovery_eligibility evidence))"

section \<open>The gates of all executions\<close>

text \<open>
  \<open>EXECUTION_GATES\<close>: every host runner of an execution asks for the gate by the execution's name. The
  lock of the registry may be poisoned (first argument).
\<close>

definition for_execution ::
  "bool \<Rightarrow> string \<Rightarrow> ActivityGate arc_heap \<times> weak_map \<Rightarrow> (string + nat) \<times> ActivityGate arc_heap \<times> weak_map" where
  "for_execution registry_poisoned execution s =
    (if registry_poisoned then (Err ''execution activity registry lock poisoned'', s)
     else let h = fst s; reg = registry_retain h (snd s) in
       case Option.bind (map_of reg execution) (weak_upgrade h) of
         Some (p, h') \<Rightarrow> (Ok p, h', reg)
       | None \<Rightarrow> let (p, h') = arc_new ActivityGate_default h in
           (Ok p, h', registry_insert execution p reg))"

interpretation gates: weak_registry "\<lambda>(poisoned, execution). for_execution poisoned execution" snd
  "\<lambda>_ _. True" "\<lambda>_ _. True"
proof (unfold_locales, goal_cases)
  case (1 q s p s')
  obtain h reg where s: "s = (h, reg)" by (cases s)
  show ?case
  proof (cases "Option.bind (map_of (registry_retain h reg) (snd q)) (weak_upgrade h)")
    case None
    have "map_of (registry_retain h reg) (snd q) = None"
    proof (rule ccontr)
      assume "map_of (registry_retain h reg) (snd q) \<noteq> None"
      then obtain p where p: "map_of (registry_retain h reg) (snd q) = Some p" by blast
      then have "(snd q, p) \<in> set (registry_retain h reg)" by (rule map_of_SomeD)
      then have "0 < strong_count h p" by (simp add: registry_retain_def)
      then show False using None p by (simp add: weak_upgrade_def)
    qed
    then show ?thesis using 1 s
      by (auto simp: for_execution_def arc_new_def Let_def split: prod.splits if_splits intro!: opens_new)
  next
    case (Some r)
    then obtain p' h' where r: "r = (p', h')" "map_of (registry_retain h reg) (snd q) = Some p'"
        "weak_upgrade h p' = Some (p', h')"
      by (cases r) (auto simp: weak_upgrade_def split: bind_splits if_splits)
    then show ?thesis using 1 s Some
      by (auto simp: for_execution_def Let_def split: prod.splits if_splits intro!: opens_live)
  qed
next
  case (2 q s e s')
  then show ?case
    by (auto simp: for_execution_def arc_new_def Let_def split: prod.splits if_splits option.splits)
qed simp

section \<open>Threads at one gate\<close>

text \<open>
  A thread at the gate is idle, in \<open>begin_dispatch_activity\<close> between its first and its last critical
  section, holds a dispatch guard without or with a raised epoch, or holds the snapshot guard. The
  callers in \<open>docker_execution_host.rs\<close> use the gate in three ways:
  \<^item> a lifecycle hook (\<open>run_lifecycle_hook_command\<close>) and the inspection, materialisation and revocation of
    inputs (\<open>execution_inputs.rs\<close>) run after taking a guard and raising the epoch (\<open>RunHook\<close>);
  \<^item> a helper, file system operations included, runs under a guard without raising the epoch
    (\<open>with_helper_dispatch\<close>, \<open>RunHelper\<close>); the two helper modes that stop or count processes take no guard and
    are left out;
  \<^item> a user command (\<open>run_host_command_for_consumer\<close>, \<open>RunCommand\<close>) takes no guard and raises no epoch.

  The epoch may be raised without a guard as well (\<open>begin_snapshot_restore\<close>).
\<close>

datatype gate_phase = GateIdle | DispatchWaiting | Dispatching | Invalidated | Capturing

record gate_world =
  gate :: ActivityGate
  phases :: "gate_phase list"

datatype gate_event =
    BeginDispatch nat | ResumeDispatch nat | RegisterPersistent nat | Invalidate nat | RunHook nat | RunHelper nat
  | RunCommand nat | EndDispatch nat | TrySnapshot nat bool | EndSnapshot nat

definition in_phase :: "gate_world \<Rightarrow> nat \<Rightarrow> gate_phase \<Rightarrow> bool" where
  "in_phase w t p \<longleftrightarrow> t < length (phases w) \<and> phases w ! t = p"

inductive gate_step :: "gate_world \<Rightarrow> gate_event \<Rightarrow> gate_world \<Rightarrow> bool" where
  gate_begin: "in_phase w t GateIdle \<Longrightarrow> begin_dispatch_activity t (gate w) = Ok (admitted, g) \<Longrightarrow>
    gate_step w (BeginDispatch t)
      \<lparr>gate = g, phases = (phases w)[t := if admitted then Dispatching else DispatchWaiting]\<rparr>"
| gate_resume: "in_phase w t DispatchWaiting \<Longrightarrow> resume_dispatch t (gate w) = Ok (admitted, g) \<Longrightarrow>
    gate_step w (ResumeDispatch t)
      \<lparr>gate = g, phases = (phases w)[t := if admitted then Dispatching else DispatchWaiting]\<rparr>"
| gate_register: "in_phase w t Dispatching \<Longrightarrow> register_persistent_dispatch (gate w) = Ok g \<Longrightarrow>
    gate_step w (RegisterPersistent t) (w\<lparr>gate := g\<rparr>)"
| gate_invalidate: "in_phase w t p \<Longrightarrow> p \<noteq> DispatchWaiting \<Longrightarrow>
    invalidate_before_dispatch (gate w) = Ok (e, g) \<Longrightarrow>
    gate_step w (Invalidate t)
      \<lparr>gate = g, phases = (phases w)[t := if p = Dispatching then Invalidated else p]\<rparr>"
| gate_hook: "in_phase w t Invalidated \<Longrightarrow> gate_step w (RunHook t) w"
| gate_helper: "in_phase w t Dispatching \<or> in_phase w t Invalidated \<Longrightarrow> gate_step w (RunHelper t) w"
| gate_command: "in_phase w t GateIdle \<Longrightarrow> gate_step w (RunCommand t) w"
| gate_end_dispatch: "in_phase w t Dispatching \<or> in_phase w t Invalidated \<Longrightarrow>
    gate_step w (EndDispatch t)
      \<lparr>gate = drop_dispatch_activity (gate w), phases = (phases w)[t := GateIdle]\<rparr>"
| gate_snapshot: "in_phase w t GateIdle \<Longrightarrow> try_snapshot_admission finalizing (gate w) = Ok (admitted, g) \<Longrightarrow>
    gate_step w (TrySnapshot t finalizing)
      \<lparr>gate = g, phases = (phases w)[t := if admitted then Capturing else GateIdle]\<rparr>"
| gate_end_snapshot: "in_phase w t Capturing \<Longrightarrow>
    gate_step w (EndSnapshot t)
      \<lparr>gate = drop_snapshot_activity (gate w), phases = (phases w)[t := GateIdle]\<rparr>"

inductive_cases gate_stepE: "gate_step w e w'"
inductive_simps gate_step_begin: "gate_step w (BeginDispatch t) w'"
inductive_simps gate_step_resume: "gate_step w (ResumeDispatch t) w'"
inductive_simps gate_step_hook: "gate_step w (RunHook t) w'"
inductive_simps gate_step_helper: "gate_step w (RunHelper t) w'"
inductive_simps gate_step_end_dispatch: "gate_step w (EndDispatch t) w'"
inductive_simps gate_step_invalidate: "gate_step w (Invalidate t) w'"
inductive_simps gate_step_end_snapshot: "gate_step w (EndSnapshot t) w'"

definition gate_init :: "nat \<Rightarrow> gate_world" where
  "gate_init n = \<lparr>gate = ActivityGate_default, phases = replicate n GateIdle\<rparr>"

abbreviation threads_in :: "gate_world \<Rightarrow> gate_phase \<Rightarrow> nat" where
  "threads_in w p \<equiv> count_list (phases w) p"

text \<open>
  The counters are exact, a capture excludes every dispatch and every other capture, and a thread
  sleeps only while a capture runs.
\<close>

definition gate_inv :: "gate_world \<Rightarrow> bool" where
  "gate_inv w \<longleftrightarrow> \<not> poisoned (gate w) \<and>
    active (gate_state (gate w)) = threads_in w Dispatching + threads_in w Invalidated \<and>
    waiting (gate_state (gate w)) = threads_in w DispatchWaiting \<and>
    threads_in w Capturing = (if capturing (gate_state (gate w)) then 1 else 0) \<and>
    (capturing (gate_state (gate w)) \<longrightarrow> active (gate_state (gate w)) = 0) \<and>
    (\<forall>t \<in> set (changed (gate w)). in_phase w t DispatchWaiting \<and> capturing (gate_state (gate w)))"

lemmas gate_ops = begin_dispatch_activity_def resume_dispatch_def dispatch_admission_def
  register_persistent_dispatch_def drop_dispatch_activity_def try_snapshot_admission_def
  drop_snapshot_activity_def invalidate_before_dispatch_def gate_lock_def notify_all_def Let_def

lemma count_phase_update:
  assumes "in_phase w t p"
  shows "count_list ((phases w)[t := p']) q =
      count_list (phases w) q + (if p' = q then 1 else 0) - (if p = q then 1 else 0)"
    and "p = q \<Longrightarrow> 0 < count_list (phases w) q"
  using count_list_update [of t "phases w" p' q] count_list_pos [of t "phases w" p] assms
  by (auto simp: in_phase_def)

lemma in_phase_update:
  "in_phase w t p \<Longrightarrow> in_phase \<lparr>gate = g, phases = (phases w)[t := p']\<rparr> u q \<longleftrightarrow>
    (if u = t then p' = q else in_phase w u q)"
  by (auto simp: in_phase_def nth_list_update)

lemma in_phase_iff: "in_phase w t p \<Longrightarrow> in_phase w t q \<longleftrightarrow> q = p"
  by (auto simp: in_phase_def)

lemma gate_invD:
  assumes "gate_inv w"
  shows "\<not> poisoned (gate w)"
    and "active (gate_state (gate w)) = threads_in w Dispatching + threads_in w Invalidated"
    and "waiting (gate_state (gate w)) = threads_in w DispatchWaiting"
    and "threads_in w Capturing = (if capturing (gate_state (gate w)) then 1 else 0)"
    and "capturing (gate_state (gate w)) \<Longrightarrow> active (gate_state (gate w)) = 0"
    and "t \<in> set (changed (gate w)) \<Longrightarrow> in_phase w t DispatchWaiting \<and> capturing (gate_state (gate w))"
  using assms unfolding gate_inv_def by blast+

lemma gate_inv_step:
  assumes inv: "gate_inv w" and step: "gate_step w e w'"
  shows "gate_inv w'"
  using step
proof (cases rule: gate_step.cases)
  case (gate_begin t admitted g)
  then show ?thesis using inv count_phase_update(2) [OF gate_begin(3)]
    by (auto simp: gate_inv_def gate_ops count_phase_update(1) [OF gate_begin(3)] in_phase_update [OF gate_begin(3)]
        split: if_splits)
next
  case (gate_resume t admitted g)
  then show ?thesis using inv count_phase_update(2) [OF gate_resume(3)]
    by (auto simp: gate_inv_def gate_ops count_phase_update(1) [OF gate_resume(3)] in_phase_update [OF gate_resume(3)]
        split: if_splits)
next
  case (gate_register t g)
  then show ?thesis using inv by (auto simp: gate_inv_def gate_ops in_phase_def split: if_splits)
next
  case (gate_invalidate t p e g)
  then have awake: "t \<notin> set (changed (gate w))"
    using gate_invD(6) [OF inv, of t] in_phase_iff [OF gate_invalidate(3), of DispatchWaiting] by auto
  show ?thesis using inv gate_invalidate(1,2,4,5) count_phase_update(2) [OF gate_invalidate(3)] awake
    by (auto simp: gate_inv_def gate_ops count_phase_update(1) [OF gate_invalidate(3)] in_phase_update [OF gate_invalidate(3)]
        split: if_splits option.splits)
next
  case (gate_hook t)
  then show ?thesis using inv by simp
next
  case (gate_helper t)
  then show ?thesis using inv by simp
next
  case (gate_command t)
  then show ?thesis using inv by simp
next
  case (gate_end_dispatch t)
  then obtain p where p: "in_phase w t p" "p = Dispatching \<or> p = Invalidated" by blast
  then show ?thesis using inv gate_end_dispatch(2) count_phase_update(2) [OF p(1)]
    by (auto simp: gate_inv_def gate_ops count_phase_update(1) [OF p(1)] in_phase_update [OF p(1)])
next
  case (gate_snapshot t finalizing admitted g)
  have awake: "t \<notin> set (changed (gate w))"
    using gate_invD(6) [OF inv, of t] in_phase_iff [OF gate_snapshot(3), of DispatchWaiting] by auto
  show ?thesis using inv gate_snapshot(1,2,4) count_phase_update(2) [OF gate_snapshot(3)] awake
    by (auto simp: gate_inv_def gate_ops count_phase_update(1) [OF gate_snapshot(3)] in_phase_update [OF gate_snapshot(3)]
        split: if_splits)
next
  case (gate_end_snapshot t)
  then show ?thesis using inv count_phase_update(2) [OF gate_end_snapshot(3)]
    by (auto simp: gate_inv_def gate_ops count_phase_update(1) [OF gate_end_snapshot(3)] in_phase_update [OF gate_end_snapshot(3)])
qed

interpretation gate_threads: invariant_system gate_step gate_inv
  by unfold_locales (rule gate_inv_step)

lemma gate_inv_init: "gate_inv (gate_init n)"
  by (simp add: gate_inv_def gate_init_def ActivityGate_default_def)

lemmas gate_reachable = gate_threads.run_inv [OF _ gate_inv_init]

text \<open>The epoch never falls, and only a step that says so raises it.\<close>

lemma gate_step_epoch:
  "gate_step w e w' \<Longrightarrow> epoch (gate w') = epoch (gate w) + (case e of Invalidate t \<Rightarrow> 1 | _ \<Rightarrow> 0)"
  by (cases rule: gate_step.cases)
    (auto simp: gate_ops u64_checked_add_def split: if_splits option.splits)

lemma gate_run_epoch:
  "run gate_step w es w' \<Longrightarrow>
    epoch (gate w') = epoch (gate w) + length (filter (\<lambda>e. \<exists>t. e = Invalidate t) es)"
  by (induction rule: run.induct) (auto dest!: gate_step_epoch split: gate_event.splits)

lemma no_invalidated_kept:
  assumes "run gate_step w es w'" and "epoch (gate w') = epoch (gate w)" and "threads_in w Invalidated = 0"
    and "e \<in> set es"
  shows "\<nexists>t. e = Invalidate t \<or> e = RunHook t"
  using assms
proof (induction rule: run.induct)
  case (run_cons s e1 s1 es s2)
  have ep: "epoch (gate s1) = epoch (gate s)" "\<nexists>t. e1 = Invalidate t" "epoch (gate s2) = epoch (gate s1)"
    using gate_step_epoch [OF run_cons.hyps(1)] gate_run_epoch [OF run_cons.hyps(2)] run_cons.prems(1)
    by (auto split: gate_event.splits)
  have none: "\<not> in_phase s t Invalidated" for t
    using run_cons.prems(2) count_phase_update(2) by fastforce
  have "\<nexists>t. e1 = RunHook t" using run_cons.hyps(1) none by (auto elim: gate_step.cases)
  moreover have "threads_in s1 Invalidated = 0"
    using run_cons.hyps(1) ep(2) run_cons.prems(2)
    by (cases rule: gate_step.cases) (auto simp: count_phase_update(1))
  ultimately show ?case using run_cons.IH [OF ep(3)] run_cons.prems(3) ep(2) by auto
qed simp

text \<open>As long as a capture lasts, nothing runs under a dispatch guard.\<close>

lemma capture_excludes_helpers:
  assumes "run gate_step w es w'" and "gate_inv w" and "in_phase w c Capturing" and "EndSnapshot c \<notin> set es"
  shows "RunHelper t \<notin> set es"
  using assms
proof (induction rule: run.induct)
  case (run_cons s e s1 es s2)
  have "0 < threads_in s Capturing" using run_cons.prems(2) count_phase_update(2) by blast
  then have "threads_in s Dispatching = 0" "threads_in s Invalidated = 0"
    using gate_invD(2,4,5) [OF run_cons.prems(1)] by (auto split: if_splits)
  then have "\<not> in_phase s u Dispatching" "\<not> in_phase s u Invalidated" for u using count_phase_update(2) by fastforce+
  then have "e \<noteq> RunHelper t" using run_cons.hyps(1) by (auto simp: gate_step_helper)
  moreover have "in_phase s1 c Capturing"
    using run_cons.hyps(1) run_cons.prems(2,3)
    by (cases rule: gate_step.cases) (auto simp: in_phase_update in_phase_iff in_phase_def nth_list_update)
  ultimately show ?case
    using run_cons.IH gate_inv_step [OF run_cons.prems(1) run_cons.hyps(1)] run_cons.prems(3) by auto
qed simp

section \<open>The host's recovery witness\<close>

text \<open>
  \<open>recovery_snapshot\<close> of the Docker host holds the evidence of the last accepted capture. It is read
  for the recovery decision with the current epoch, and never attested as quiesced once an extension
  dispatch was deferred.
\<close>

definition recovery_workspace_evidence ::
  "bool \<Rightarrow> bool \<Rightarrow> nat \<Rightarrow> ActivityGate \<Rightarrow> WorkspaceReuseEvidence option \<Rightarrow> WorkspaceReuseEvidence option result" where
  "recovery_workspace_evidence snapshot_lock_poisoned deferred_extension_dispatch host_instance g recovery_snapshot =
    res_bind (ensure (\<not> snapshot_lock_poisoned) ''recovery snapshot lock poisoned'') (\<lambda>_.
    Ok (map_option (\<lambda>snapshot.
      let evidence = workspace_evidence host_instance g snapshot in
      evidence\<lparr>snapshot_was_quiesced := snapshot_was_quiesced evidence \<and> \<not> deferred_extension_dispatch\<rparr>)
      recovery_snapshot))"

text \<open>
  Accepting a capture takes the snapshot guard for the comparison and drops it on every path. The
  result is the answer, the stored evidence and the gate.
\<close>

definition accept_captured_recovery_workspace ::
  "bool \<Rightarrow> bool \<Rightarrow> nat \<Rightarrow> WorkspaceReuseEvidence \<Rightarrow> ActivityGate \<Rightarrow> WorkspaceReuseEvidence option \<Rightarrow>
    bool result \<times> ActivityGate \<times> WorkspaceReuseEvidence option" where
  "accept_captured_recovery_workspace snapshot_lock_poisoned deferred_extension_dispatch host_instance evidence g recovery_snapshot =
    (case try_snapshot_activity g of
       Inl e \<Rightarrow> (Err e, g, recovery_snapshot)
     | Inr (False, g) \<Rightarrow> (Ok False, g, recovery_snapshot)
     | Inr (True, g) \<Rightarrow>
        (let current = workspace_evidence host_instance g evidence; released = drop_snapshot_activity g in
         if current_activity_epoch current \<noteq> snapshot_activity_epoch evidence
           \<or> current_host_instance current \<noteq> snapshot_host_instance evidence
           \<or> deferred_extension_dispatch
         then (Ok False, released, recovery_snapshot)
         else if snapshot_lock_poisoned then (Err ''recovery snapshot lock poisoned'', released, recovery_snapshot)
         else (Ok True, released, Some evidence)))"

lemma accept_captured_recovery_workspace_sound:
  assumes "accept_captured_recovery_workspace sp deferred host evidence g stored = (Ok True, g', stored')"
  shows "snapshot_activity_epoch evidence = epoch g" and "snapshot_host_instance evidence = host"
    and "\<not> deferred" and "stored' = Some evidence" and "epoch g' = epoch g"
    and "active (gate_state g) = 0" and "waiting (gate_state g) = 0" and "\<not> capturing (gate_state g)"
    and "gate_state g' = gate_state g"
  using assms
  by (auto simp: accept_captured_recovery_workspace_def try_snapshot_activity_def workspace_evidence_def
      gate_ops split: if_splits)

section \<open>Sample runs\<close>

text \<open>A capture by thread 0 with a dispatch by thread 1 that has to wait for it.\<close>

definition waiting_world :: gate_world where
  "waiting_world = \<lparr>gate = \<lparr>gate_state = \<lparr>active = 0, waiting = 1, capturing = True, persistent_dispatch = False\<rparr>,
     poisoned = False, changed = [1], epoch = 0\<rparr>, phases = [Capturing, DispatchWaiting]\<rparr>"

lemma capturing_world_reached:
  "run gate_step (gate_init 2) [TrySnapshot 0 False]
    \<lparr>gate = ActivityGate_default\<lparr>gate_state := (gate_state ActivityGate_default)\<lparr>capturing := True\<rparr>\<rparr>,
     phases = [Capturing, GateIdle]\<rparr>" (is "run _ _ _ ?w")
proof -
  have "gate_step (gate_init 2) (TrySnapshot 0 False) ?w"
    using gate_snapshot [of "gate_init 2" 0 False True "gate ?w"]
    by (simp add: gate_init_def in_phase_def gate_ops ActivityGate_default_def numeral_2_eq_2)
  then show ?thesis by (rule run_single)
qed

lemma waiting_world_reached:
  "run gate_step (gate_init 2) [TrySnapshot 0 False, BeginDispatch 1] waiting_world"
proof -
  have "gate_step \<lparr>gate = ActivityGate_default\<lparr>gate_state := (gate_state ActivityGate_default)\<lparr>capturing := True\<rparr>\<rparr>,
     phases = [Capturing, GateIdle]\<rparr> (BeginDispatch 1) waiting_world"
    by (auto simp: gate_step_begin waiting_world_def in_phase_def gate_ops ActivityGate_default_def)
  then show ?thesis using run_append [OF capturing_world_reached run_single] by simp
qed

section \<open>Properties\<close>

lemma count_list_one:
  assumes "count_list xs q \<le> 1" and "i < length xs" and "xs ! i = q" and "j < length xs" and "xs ! j = q"
  shows "i = j"
  using assms
proof (induction xs arbitrary: i j)
  case (Cons x xs)
  then show ?case
    by (cases i; cases j) (auto dest: count_list_pos split: if_splits)
qed simp

text \<open>All host runners that hold the gate of one execution hold the same gate, and no other runner does.\<close>

lemma executions_share_gate:
  assumes "run (registry_step (\<lambda>(poisoned, execution). for_execution poisoned execution) (\<lambda>_ _. True))
      \<lparr>arcs = [], weak_refs = [], handles = []\<rparr> es w"
    and "(q, p) \<in> set (handles w)" and "(q', p') \<in> set (handles w)"
  shows "snd q = snd q' \<longleftrightarrow> p = p'"
  using gates.handles_share [OF gates.reachable_inv [OF assms(1)] assms(2,3)] .

text \<open>
  C21: in every interleaving of threads at the gate, while a thread holds the snapshot guard no other
  thread holds one and no thread holds a dispatch guard, so no helper, lifecycle hook or input
  operation runs; and the counters the gate decides by are the exact numbers of guards and of waiting
  threads. User commands do not pass the gate.
\<close>

theorem snapshot_excludes_dispatch:
  assumes "run gate_step (gate_init n) es w"
  shows "(in_phase w t Capturing \<longrightarrow> \<not> in_phase w u Dispatching \<and> \<not> in_phase w u Invalidated \<and>
      (in_phase w u Capturing \<longrightarrow> u = t)) \<and>
    active (gate_state (gate w)) = threads_in w Dispatching + threads_in w Invalidated \<and>
    waiting (gate_state (gate w)) = threads_in w DispatchWaiting \<and>
    (capturing (gate_state (gate w)) \<longleftrightarrow> threads_in w Capturing = 1)"
proof -
  note D = gate_invD [OF gate_reachable [OF assms]]
  have cap: "threads_in w Capturing \<le> 1" using D(4) by simp
  have "\<not> in_phase w u Dispatching \<and> \<not> in_phase w u Invalidated \<and> (in_phase w u Capturing \<longrightarrow> u = t)"
    if t: "in_phase w t Capturing"
  proof -
    have "0 < threads_in w Capturing" using t count_phase_update(2) by blast
    then have "capturing (gate_state (gate w))" using D(4) by (auto split: if_splits)
    then have "threads_in w Dispatching = 0" "threads_in w Invalidated = 0" using D(2,5) by auto
    then show ?thesis
      using count_phase_update(2) [of w u] count_list_one [OF cap] t by (force simp: in_phase_def)
  qed
  then show ?thesis using D(2,3,4) by auto
qed

theorem snapshot_excludes_dispatch_witness:
  "\<not> in_phase waiting_world 1 Dispatching"
proof -
  have "in_phase waiting_world 0 Capturing" by (simp add: waiting_world_def in_phase_def)
  then show ?thesis using snapshot_excludes_dispatch [OF waiting_world_reached, of 0 1] by blast
qed

lemma resume_admits:
  assumes "gate_inv w" and "in_phase w t DispatchWaiting" and "\<not> capturing (gate_state (gate w))"
  shows "\<exists>w'. gate_step w (ResumeDispatch t) w' \<and> in_phase w' t Dispatching"
proof -
  have "\<exists>g. resume_dispatch t (gate w) = Ok (True, g)"
    using assms gate_invD(1) [OF assms(1)] by (simp add: gate_ops)
  then obtain g where "gate_step w (ResumeDispatch t) \<lparr>gate = g, phases = (phases w)[t := Dispatching]\<rparr>"
    using gate_resume [OF assms(2)] by fastforce
  moreover have "in_phase \<lparr>gate = g, phases = (phases w)[t := Dispatching]\<rparr> t Dispatching"
    using in_phase_update [OF assms(2)] by simp
  ultimately show ?thesis by blast
qed

text \<open>
  C22: a thread that waits in begin_dispatch_activity cannot be starved by snapshots and its wake-up
  is not lost: while it waits no snapshot is admitted; when no capture runs it is awake and its next
  turn admits it; and when one runs, the release of that capture wakes it and its next turn then
  admits it.
\<close>

theorem waiting_dispatch_admitted:
  assumes reach: "run gate_step (gate_init n) es w" and wait: "in_phase w t DispatchWaiting"
  shows "try_snapshot_admission finalizing (gate w) = Ok (False, gate w) \<and>
    (if capturing (gate_state (gate w))
     then \<exists>c w1 w2. in_phase w c Capturing \<and> run gate_step w [EndSnapshot c, ResumeDispatch t] w2 \<and>
       in_phase w2 t Dispatching \<and> gate_step w (EndSnapshot c) w1 \<and> changed (gate w1) = []
     else t \<notin> set (changed (gate w)) \<and>
       (\<exists>w'. gate_step w (ResumeDispatch t) w' \<and> in_phase w' t Dispatching))"
proof -
  have inv: "gate_inv w" using gate_reachable [OF reach] .
  note D = gate_invD [OF inv]
  have "waiting (gate_state (gate w)) \<noteq> 0" using D(3) wait count_phase_update(2) by fastforce
  then have "try_snapshot_admission finalizing (gate w) = Ok (False, gate w)"
    using D(1) by (simp add: gate_ops)
  moreover have "\<exists>c w1 w2. in_phase w c Capturing \<and> run gate_step w [EndSnapshot c, ResumeDispatch t] w2 \<and>
       in_phase w2 t Dispatching \<and> gate_step w (EndSnapshot c) w1 \<and> changed (gate w1) = []"
    if cap: "capturing (gate_state (gate w))"
  proof -
    obtain c where c: "in_phase w c Capturing"
      using D(4) cap count_list_pos_nth [of "phases w" Capturing] by (auto simp: in_phase_def)
    let ?w1 = "\<lparr>gate = drop_snapshot_activity (gate w), phases = (phases w)[c := GateIdle]\<rparr>"
    have s1: "gate_step w (EndSnapshot c) ?w1" by (rule gate_end_snapshot [OF c])
    have ct: "c \<noteq> t" using c wait by (auto simp: in_phase_def)
    then have "in_phase ?w1 t DispatchWaiting" using in_phase_update [OF c] wait by simp
    moreover have "\<not> capturing (gate_state (gate ?w1))" by (simp add: gate_ops)
    ultimately obtain w2 where "gate_step ?w1 (ResumeDispatch t) w2" "in_phase w2 t Dispatching"
      using resume_admits gate_inv_step [OF inv s1] by blast
    moreover from this(1) have "run gate_step w [EndSnapshot c, ResumeDispatch t] w2"
      using s1 by (auto intro: run.intros)
    moreover have "changed (gate ?w1) = []" by (simp add: gate_ops)
    ultimately show ?thesis using c s1 by blast
  qed
  ultimately show ?thesis using D(6) [of t] resume_admits [OF inv wait] by auto
qed

theorem waiting_dispatch_admitted_witness:
  "try_snapshot_admission True (gate waiting_world) = Ok (False, gate waiting_world)"
  using waiting_dispatch_admitted [OF waiting_world_reached, of 1 True]
  by (simp add: waiting_world_def in_phase_def)


definition captured_world :: gate_world where
  "captured_world = \<lparr>gate = ActivityGate_default\<lparr>gate_state := (gate_state ActivityGate_default)\<lparr>capturing := True\<rparr>\<rparr>,
     phases = [Capturing, GateIdle]\<rparr>"

definition captured_snapshot :: WorkspaceReuseEvidence where
  "captured_snapshot = \<lparr>prior_checkpoint_snapshot_valid = True, generation_known = True,
     snapshot_was_quiesced = True, snapshot_activity_epoch = 0, current_activity_epoch = 0,
     snapshot_host_instance = 7, current_host_instance = 7\<rparr>"

definition lost_sandbox :: RecoveryEvidence where
  "lost_sandbox = \<lparr>failure = PreDispatchProcessNotStarted, receipt_reported_executed = Some False,
     durable_receipt_sequence = 12, previous_checkpoint_sequence = 9, next_model_request_started = True,
     open_tool_calls = 0, parallel_tool_calls = 0, tool_calls_since_checkpoint = 1,
     receipts_since_checkpoint = 1, all_suffix_tools_are_bash = True,
     external_or_mcp_calls_since_checkpoint = 0, successful_receipts_since_checkpoint = 0,
     facts_since_checkpoint = 0, workspace = captured_snapshot\<rparr>"

text \<open>
  A run in which a helper of thread 1 dispatches after the capture, for example to write a file: the epoch stays,
  and the recovery is granted.
\<close>

definition after_capture :: "gate_event list" where
  "after_capture = [EndSnapshot 0, BeginDispatch 1, RunHelper 1, EndDispatch 1]"

definition released_world :: gate_world where
  "released_world = \<lparr>gate = ActivityGate_default, phases = [GateIdle, GateIdle]\<rparr>"

lemma after_capture_run: "run gate_step captured_world after_capture released_world"
proof -
  let ?busy = "\<lparr>gate = ActivityGate_default\<lparr>gate_state := (gate_state ActivityGate_default)\<lparr>active := 1\<rparr>\<rparr>, phases = [GateIdle, Dispatching]\<rparr>"
  have "gate_step captured_world (EndSnapshot 0) released_world"
    by (simp add: gate_step_end_snapshot captured_world_def released_world_def in_phase_def gate_ops ActivityGate_default_def)
  moreover have "gate_step released_world (BeginDispatch 1) ?busy"
    by (auto simp: gate_step_begin released_world_def in_phase_def gate_ops ActivityGate_default_def)
  moreover have "gate_step ?busy (RunHelper 1) ?busy" by (simp add: gate_step_helper in_phase_def)
  moreover have "gate_step ?busy (EndDispatch 1) released_world"
    by (simp add: gate_step_end_dispatch released_world_def in_phase_def gate_ops ActivityGate_default_def)
  ultimately show ?thesis unfolding after_capture_def by (blast intro: run.intros)
qed


end
