(* ===== verification/ToolResult.thy ===== *)
theory ToolResult
  imports JsonValue ActivityGate
begin

text \<open>
  The classification of tool results (\<open>core/src/tool/layer/result_state.rs\<close>, \<open>tool/error.rs\<close>) and the
  recovery suffix that counts them (\<open>RecoverySuffix\<close> of \<open>execution_recovery_policy.rs\<close>), up to the
  recovery evidence the runtime server builds from the counters. The facts of a result are counted
  only, so their type is a parameter.
\<close>

section \<open>Tool results\<close>

datatype ToolFailureKind =
    CommandFailed | TimedOut | SandboxUnavailable | HostUnavailable | ProviderError
  | PermissionDenied | InvalidInput | Cancelled | UnknownFailure

record ToolErrorInfo =
  kind :: ToolFailureKind
  model_message :: string
  user_message :: string
  diagnostic_id :: "string option"
  retryable :: bool

record ('f, 'fact) ToolExecutionResult =
  tool_call_id :: string
  tool_name :: string
  status :: string
  result_content :: string
  details :: "'f Value"
  facts :: "'fact list"
  error :: "ToolErrorInfo option"
  started_at_ms :: i64
  completed_at_ms :: i64
  latency_ms :: i64
  parallel_group :: "string option"
  transition_reason :: "string option"

datatype ToolResultState =
  SuccessWithOutput | SuccessNoOutput | SuccessNoMatches | ResultFailed | ResultDenied | ResultAborted

definition is_success_status :: "string \<Rightarrow> bool" where
  "is_success_status s \<longleftrightarrow> s = ''ok''"

abbreviation denied_statuses :: "string list" where
  "denied_statuses \<equiv> [''blocked'', ''denied'', ''skipped'']"

definition is_denied_tool_result :: "('f, 'fact) ToolExecutionResult \<Rightarrow> bool" where
  "is_denied_tool_result report \<longleftrightarrow>
    map_option kind (error report) = Some PermissionDenied \<or>
    to_ascii_lowercase (trim (status report)) \<in> set denied_statuses"

abbreviation aborted_statuses :: "string list" where
  "aborted_statuses \<equiv> [''cancelled'', ''canceled'', ''aborted'', ''discarded'']"

definition is_aborted_tool_result :: "('f, 'fact) ToolExecutionResult \<Rightarrow> bool" where
  "is_aborted_tool_result report \<longleftrightarrow>
    map_option kind (error report) = Some Cancelled \<or>
    to_ascii_lowercase (trim (status report)) \<in> set aborted_statuses"

definition has_non_empty_stderr :: "'f Value \<Rightarrow> bool" where
  "has_non_empty_stderr value =
    (let found = (case value_get ''stderr'' value of Some v \<Rightarrow> Some v
        | None \<Rightarrow> (case value_get ''stderrTail'' value of Some v \<Rightarrow> Some v
        | None \<Rightarrow> value_get ''stderr_tail'' value)) in
     case Option.bind found as_str of Some item \<Rightarrow> trim item \<noteq> [] | None \<Rightarrow> False)"

definition is_search_like_tool_result :: "('f, 'fact) ToolExecutionResult \<Rightarrow> 'f Value \<Rightarrow> bool" where
  "is_search_like_tool_result report value =
    (if contains_sub ''search'' (to_ascii_lowercase (trim (tool_name report))) then True
     else (case Option.bind (value_get ''schema'' value) as_str of
          Some schema \<Rightarrow> contains_sub ''search'' (to_ascii_lowercase schema) | None \<Rightarrow> False)
       \<or> value_get ''matches'' value \<noteq> None)"

abbreviation match_list_keys :: "string list" where
  "match_list_keys \<equiv> [''matches'', ''results'', ''items'']"

definition match_count_keys :: "string list" where
  "match_count_keys = [''matchCount'', ''matchesCount'', ''totalMatches'', ''resultCount'', ''count'']"

definition is_successful_zero_match_result ::
  "('f, 'fact) ToolExecutionResult \<Rightarrow> 'f Value option \<Rightarrow> bool" where
  "is_successful_zero_match_result report parsed =
    (case parsed of None \<Rightarrow> False
     | Some value \<Rightarrow>
        if \<not> is_search_like_tool_result report value then False
        else if has_non_empty_stderr value \<or>
          Option.bind (value_get ''timedOut'' value) as_bool = Some True then False
        else if (case Option.bind (value_get ''exitCode'' value) as_i64 of
            Some code \<Rightarrow> code \<noteq> 0 \<and> code \<noteq> 1 | None \<Rightarrow> False) then False
        else if list_ex (\<lambda>key. case Option.bind (value_get key value) as_array of
            Some items \<Rightarrow> items = [] | None \<Rightarrow> False) match_list_keys then True
        else list_ex (\<lambda>key. Option.bind (value_get key value) as_u64 = Some 0) match_count_keys)"

definition low_signal_keys :: "string list" where
  "low_signal_keys = [''schema'', ''status'', ''executed'', ''exitCode'', ''exit_code'', ''timedOut'',
     ''durationMs'', ''latencyMs'', ''command'', ''cmd'', ''cwd'', ''stdout'', ''stderr'', ''stdoutTail'',
     ''stderrTail'', ''stdout_tail'', ''stderr_tail'', ''stdoutChars'', ''stderrChars'']"

definition is_low_signal_empty_output_key :: "string \<Rightarrow> bool" where
  "is_low_signal_empty_output_key key \<longleftrightarrow> key \<in> set low_signal_keys"

fun value_is_empty_output :: "'f Value \<Rightarrow> bool" where
  "value_is_empty_output VNull = True"
| "value_is_empty_output (VString item) = (trim item = [])"
| "value_is_empty_output (VArray items) = (items = [])"
| "value_is_empty_output (VObject m) = (m = [])"
| "value_is_empty_output _ = False"

fun has_no_model_visible_output :: "'f Value \<Rightarrow> bool" where
  "has_no_model_visible_output VNull = True"
| "has_no_model_visible_output (VString item) = (trim item = [])"
| "has_no_model_visible_output (VArray items) = (items = [])"
| "has_no_model_visible_output (VObject m) =
    (m = [] \<or> list_all (\<lambda>(key, value). is_low_signal_empty_output_key key \<or> value_is_empty_output value) m)"
| "has_no_model_visible_output _ = False"

definition from_result :: "('f, 'fact) ToolExecutionResult \<Rightarrow> ToolResultState" where
  "from_result report =
    (if is_denied_tool_result report then ResultDenied
     else if is_aborted_tool_result report then ResultAborted
     else if \<not> is_success_status (status report) then ResultFailed
     else if is_successful_zero_match_result report (Some (details report)) then SuccessNoMatches
     else if trim (result_content report) = [] \<or> has_no_model_visible_output (details report)
     then SuccessNoOutput
     else SuccessWithOutput)"

definition result_state :: "('f, 'fact) ToolExecutionResult \<Rightarrow> ToolResultState" where
  "result_state report = from_result report"

definition is_success :: "ToolResultState \<Rightarrow> bool" where
  "is_success s \<longleftrightarrow> s \<in> {SuccessWithOutput, SuccessNoOutput, SuccessNoMatches}"

section \<open>The recovery suffix\<close>

record RecoverySuffix =
  calls :: nat
  receipts :: nat
  non_bash_calls :: nat
  successful_receipts :: nat
  suffix_facts :: nat
  parallel_receipts :: nat
  receipt_executed :: "bool option"

definition RecoverySuffix_default :: RecoverySuffix where
  "RecoverySuffix_default = \<lparr>calls = 0, receipts = 0, non_bash_calls = 0, successful_receipts = 0,
     suffix_facts = 0, parallel_receipts = 0, receipt_executed = None\<rparr>"

definition record_call :: "string \<Rightarrow> RecoverySuffix \<Rightarrow> RecoverySuffix" where
  "record_call name s =
    s\<lparr>calls := u64_saturating_add (calls s) 1,
      non_bash_calls := u64_saturating_add (non_bash_calls s) (of_bool (name \<noteq> ''bash''))\<rparr>"

definition record_receipt :: "('f, 'fact) ToolExecutionResult \<Rightarrow> RecoverySuffix \<Rightarrow> RecoverySuffix" where
  "record_receipt result s =
    s\<lparr>receipts := u64_saturating_add (receipts s) 1,
      successful_receipts := u64_saturating_add (successful_receipts s) (of_bool (is_success (result_state result))),
      suffix_facts := u64_saturating_add (suffix_facts s) (length (facts result)),
      parallel_receipts := u64_saturating_add (parallel_receipts s) (of_bool (parallel_group result \<noteq> None)),
      receipt_executed := Option.bind (value_get ''executed'' (details result)) as_bool\<rparr>"

text \<open>What the run has committed since the checkpoint: tool calls and receipts, in order.\<close>

datatype ('f, 'fact) suffix_record = SuffixCall string | SuffixReceipt "('f, 'fact) ToolExecutionResult"

fun record_suffix :: "('f, 'fact) suffix_record \<Rightarrow> RecoverySuffix \<Rightarrow> RecoverySuffix" where
  "record_suffix (SuffixCall name) s = record_call name s"
| "record_suffix (SuffixReceipt result) s = record_receipt result s"

definition suffix_of :: "('f, 'fact) suffix_record list \<Rightarrow> RecoverySuffix" where
  "suffix_of records = fold record_suffix records RecoverySuffix_default"

text \<open>The evidence the runtime server hands to the decision at the next model request.\<close>

definition sandbox_loss_evidence ::
  "HostFailureEvidence \<Rightarrow> nat \<Rightarrow> nat \<Rightarrow> nat \<Rightarrow> RecoverySuffix \<Rightarrow> WorkspaceReuseEvidence \<Rightarrow> RecoveryEvidence" where
  "sandbox_loss_evidence host_failure committed_session_sequence previous_sequence open_calls recovery_suffix ws =
    \<lparr>failure = host_failure, receipt_reported_executed = receipt_executed recovery_suffix,
     durable_receipt_sequence = committed_session_sequence,
     previous_checkpoint_sequence = previous_sequence, next_model_request_started = True,
     open_tool_calls = open_calls, parallel_tool_calls = parallel_receipts recovery_suffix,
     tool_calls_since_checkpoint = calls recovery_suffix,
     receipts_since_checkpoint = receipts recovery_suffix,
     all_suffix_tools_are_bash = (non_bash_calls recovery_suffix = 0),
     external_or_mcp_calls_since_checkpoint = non_bash_calls recovery_suffix,
     successful_receipts_since_checkpoint = successful_receipts recovery_suffix,
     facts_since_checkpoint = suffix_facts recovery_suffix, workspace = ws\<rparr>"

section \<open>The suffix is counted exactly\<close>

definition calls_of :: "('f, 'fact) suffix_record list \<Rightarrow> string list" where
  "calls_of records = List.map_filter (\<lambda>r. case r of SuffixCall name \<Rightarrow> Some name | _ \<Rightarrow> None) records"

definition receipts_of :: "('f, 'fact) suffix_record list \<Rightarrow> ('f, 'fact) ToolExecutionResult list" where
  "receipts_of records = List.map_filter (\<lambda>r. case r of SuffixReceipt result \<Rightarrow> Some result | _ \<Rightarrow> None) records"

lemma suffix_snoc:
  "suffix_of (records @ [SuffixCall n]) = record_call n (suffix_of records)"
  "suffix_of (records @ [SuffixReceipt r]) = record_receipt r (suffix_of records)"
  "calls_of (records @ [SuffixCall n]) = calls_of records @ [n]"
  "calls_of (records @ [SuffixReceipt r]) = calls_of records"
  "receipts_of (records @ [SuffixCall n]) = receipts_of records"
  "receipts_of (records @ [SuffixReceipt r]) = receipts_of records @ [r]"
  by (simp_all add: suffix_of_def calls_of_def receipts_of_def List.map_filter_def)

lemma suffix_nil:
  "suffix_of [] = RecoverySuffix_default" "calls_of [] = []" "receipts_of [] = []"
  by (simp_all add: suffix_of_def calls_of_def receipts_of_def List.map_filter_def)

lemma suffix_induct:
  assumes "P []" and "\<And>records n. P records \<Longrightarrow> P (records @ [SuffixCall n])"
    and "\<And>records r. P records \<Longrightarrow> P (records @ [SuffixReceipt r])"
  shows "P records"
proof (induction records rule: rev_induct)
  case (snoc r records)
  then show ?case using assms(2,3) by (cases r) auto
qed (rule assms(1))

lemmas suffix_simps = suffix_snoc suffix_nil RecoverySuffix_default_def record_call_def record_receipt_def
  u64_saturating_add_def

lemma min_add: "min m (min m a + b) = min m (a + b :: nat)"
  by (simp add: min_def)

lemma suffix_calls: "calls (suffix_of records) = min u64_max (length (calls_of records))"
  by (induction records rule: suffix_induct) (simp_all add: suffix_simps min_add)

lemma suffix_receipts: "receipts (suffix_of records) = min u64_max (length (receipts_of records))"
  by (induction records rule: suffix_induct) (simp_all add: suffix_simps min_add)

lemma suffix_non_bash:
  "non_bash_calls (suffix_of records) = min u64_max (length (filter (\<lambda>n. n \<noteq> ''bash'') (calls_of records)))"
  by (induction records rule: suffix_induct) (simp_all add: suffix_simps min_add)

lemma suffix_successes:
  "successful_receipts (suffix_of records) = min u64_max (length (filter (is_success \<circ> result_state) (receipts_of records)))"
  by (induction records rule: suffix_induct) (simp_all add: suffix_simps min_add)

lemma suffix_facts_sum:
  "suffix_facts (suffix_of records) = min u64_max (sum_list (map (length \<circ> facts) (receipts_of records)))"
  by (induction records rule: suffix_induct) (simp_all add: suffix_simps min_add)

lemma suffix_parallel:
  "parallel_receipts (suffix_of records) = min u64_max (length (filter (\<lambda>r. parallel_group r \<noteq> None) (receipts_of records)))"
  by (induction records rule: suffix_induct) (simp_all add: suffix_simps min_add)

lemma suffix_executed:
  "receipt_executed (suffix_of records) = (if receipts_of records = [] then None
    else Option.bind (value_get ''executed'' (details (last (receipts_of records)))) as_bool)"
  by (induction records rule: suffix_induct) (simp_all add: suffix_simps)

lemmas suffix_count = suffix_calls suffix_receipts suffix_non_bash suffix_successes suffix_facts_sum
  suffix_parallel suffix_executed

text \<open>
  The recovery decision is granted only when the records committed since the checkpoint are one
  tool call, which is a bash call, and one receipt, which reports that nothing was executed, is not
  a success, carries no fact and is not part of a parallel group. The saturating counters cannot
  hide further calls, receipts or facts.
\<close>

theorem recovery_suffix_exact:
  assumes "recovery_eligibility (sandbox_loss_evidence host_failure durable previous open_calls (suffix_of records) ws) = Ok advance"
  shows "calls_of records = [''bash''] \<and> open_calls = 0 \<and>
    (\<exists>result. receipts_of records = [result] \<and> \<not> is_success (result_state result) \<and> facts result = [] \<and>
      parallel_group result = None \<and> Option.bind (value_get ''executed'' (details result)) as_bool = Some False)"
proof -
  note c = suffix_count [of records]
  have u: "1 < u64_max" by (simp add: u64_max_def)
  note h = assms [unfolded recovery_eligibility_def sandbox_loss_evidence_def]
  have h1: "calls (suffix_of records) = 1" "receipts (suffix_of records) = 1"
    "non_bash_calls (suffix_of records) = 0" "successful_receipts (suffix_of records) = 0"
    "suffix_facts (suffix_of records) = 0" "parallel_receipts (suffix_of records) = 0"
    "receipt_executed (suffix_of records) = Some False" "open_calls = 0"
    using h by (auto simp: result_simps)
  obtain n where n: "calls_of records = [n]" using h1(1) c(1) u by (auto simp: min_def length_Suc_conv split: if_splits)
  obtain r where r: "receipts_of records = [r]" using h1(2) c(2) u by (auto simp: min_def length_Suc_conv split: if_splits)
  have "n = ''bash''" using h1(3) c(3) n u by (auto simp: min_def split: if_splits)
  moreover have "\<not> is_success (result_state r)" using h1(4) c(4) r u by (auto simp: min_def split: if_splits)
  moreover have "facts r = []" using h1(5) c(5) r u by (auto simp: min_def split: if_splits)
  moreover have "parallel_group r = None" using h1(6) c(6) r u by (auto simp: min_def split: if_splits)
  moreover have "Option.bind (value_get ''executed'' (details r)) as_bool = Some False"
    using h1(7) c(7) r by simp
  ultimately show ?thesis using n r h1(8) by simp
qed

definition refused_bash :: "(unit, unit) ToolExecutionResult" where
  "refused_bash = \<lparr>tool_call_id = ''call-1'', tool_name = ''bash'', status = ''error'', result_content = ''sandbox lost'',
     details = VObject [(''executed'', VBool False)], facts = [], error = None, started_at_ms = 1,
     completed_at_ms = 2, latency_ms = 1, parallel_group = None, transition_reason = None\<rparr>"

lemma refused_bash_failed: "result_state refused_bash = ResultFailed"
  by (simp add: refused_bash_def result_state_def from_result_def is_denied_tool_result_def
      is_aborted_tool_result_def is_success_status_def
      to_ascii_lowercase_def) code_simp

theorem recovery_suffix_exact_witness:
  "calls_of [SuffixCall ''bash'', SuffixReceipt refused_bash] = [''bash'']"
proof -
  have "recovery_eligibility (sandbox_loss_evidence PreDispatchProcessNotStarted 12 9 0
      (suffix_of [SuffixCall ''bash'', SuffixReceipt refused_bash]) captured_snapshot) =
    Ok \<lparr>source_checkpoint_sequence = 9, covered_through_sequence = 12\<rparr>"
    by (simp add: suffix_of_def record_call_def record_receipt_def RecoverySuffix_default_def
        refused_bash_failed is_success_def u64_saturating_add_def u64_max_def recovery_eligibility_def
        sandbox_loss_evidence_def captured_snapshot_def)
      (simp add: refused_bash_def value_accessors)
  then show ?thesis using recovery_suffix_exact by blast
qed

end
