(* ===== verification/ToolLimits.thy ===== *)
theory ToolLimits
  imports JsonValue Utf8
begin

text \<open>
  Size limits of tool contracts (\<open>core/src/tool/limits.rs\<close>): the bounded counting writer behind
  \<open>json_size_with_limit\<close>, the budget of all contracts of one declaration, descriptions and contract
  files. The JSON encoder is a parameter: the byte chunks it writes for a value, and how it displays
  an error of the writer.
\<close>

record 'f json_writer =
  chunks :: "'f Value \<Rightarrow> string list"
  display_io_error :: "string \<Rightarrow> string"

definition json_text :: "'f json_writer \<Rightarrow> 'f Value \<Rightarrow> string" where
  "json_text lib v = concat (chunks lib v)"

section \<open>Definitions\<close>

abbreviation MAX_TOOL_DESCRIPTION_CHARS :: nat where
  "MAX_TOOL_DESCRIPTION_CHARS \<equiv> 4096"

abbreviation MAX_TOOL_DESCRIPTION_BYTES :: nat where
  "MAX_TOOL_DESCRIPTION_BYTES \<equiv> 16 * 1024"

definition MAX_TOOL_INPUT_SCHEMA_BYTES :: nat where
  "MAX_TOOL_INPUT_SCHEMA_BYTES = 64 * 1024"

definition MAX_TOOL_CONTRACT_BYTES :: nat where
  "MAX_TOOL_CONTRACT_BYTES = 4 * 1024 * 1024"

definition validate_tool_description :: "string \<Rightarrow> unit result" where
  "validate_tool_description value =
    (if length value > MAX_TOOL_DESCRIPTION_BYTES
       \<or> min (MAX_TOOL_DESCRIPTION_CHARS + 1) (chars_count value) > MAX_TOOL_DESCRIPTION_CHARS
       \<or> trim value = []
     then Err ''tool description must be nonblank and at most 4096 characters / 16384 UTF-8 bytes''
     else Ok ())"

text \<open>\<open>Counter::write\<close>: the state is the number of bytes counted so far.\<close>

definition counter_write :: "nat \<Rightarrow> nat \<Rightarrow> string \<Rightarrow> nat result" where
  "counter_write limit counted bytes =
    (if length bytes > limit - counted then Err ''JSON byte limit exceeded'' else Ok (counted + length bytes))"

definition json_size_with_limit :: "'f json_writer \<Rightarrow> 'f Value \<Rightarrow> nat \<Rightarrow> nat result" where
  "json_size_with_limit lib value limit =
    map_err (\<lambda>e. ''JSON must fit within '' @ show_nat limit @ '' bytes: '' @ display_io_error lib e)
      (fold_result (counter_write limit) 0 (chunks lib value))"

record ToolContractBudget =
  budget_bytes :: nat
  budget_empty :: bool

definition ToolContractBudget_default :: ToolContractBudget where
  "ToolContractBudget_default = \<lparr>budget_bytes = 2, budget_empty = True\<rparr>"

definition budget_add :: "'f json_writer \<Rightarrow> ToolContractBudget \<Rightarrow> 'f Value \<Rightarrow> ToolContractBudget result" where
  "budget_add lib budget value =
    (let separator = of_bool (\<not> budget_empty budget) in
     if MAX_TOOL_CONTRACT_BYTES < budget_bytes budget + separator
     then Err ''tool contracts exceed 4194304 bytes''
     else
       let remaining = MAX_TOOL_CONTRACT_BYTES - (budget_bytes budget + separator) in
       res_bind (map_err (\<lambda>e. ''tool contracts exceed 4194304 bytes: '' @ e)
         (json_size_with_limit lib value remaining)) (\<lambda>size.
       Ok \<lparr>budget_bytes = budget_bytes budget + (separator + size), budget_empty = False\<rparr>))"

text \<open>
  Reading a contract file: the outcomes of opening and reading are arguments, the whole content of
  the file when both succeed.
\<close>

definition read_tool_contract_file :: "string \<Rightarrow> string result \<Rightarrow> string result \<Rightarrow> (string \<Rightarrow> string) \<Rightarrow> string result" where
  "read_tool_contract_file path opened content utf8_error =
    res_bind (map_err (\<lambda>e. ''open tool contract file '' @ path @ '': '' @ e) opened) (\<lambda>_.
    res_bind (map_err (\<lambda>e. ''read tool contract file '' @ path @ '': '' @ e) content) (\<lambda>content.
    let bytes = take (MAX_TOOL_CONTRACT_BYTES + 1) content in
    if length bytes > MAX_TOOL_CONTRACT_BYTES
    then Err (''tool contract file '' @ path @ '' exceeds 4194304 bytes'')
    else if utf8_valid bytes then Ok bytes
    else Err (''tool contract file '' @ path @ '' must be UTF-8: '' @ utf8_error bytes)))"

lemmas limit_constants =
  MAX_TOOL_INPUT_SCHEMA_BYTES_def MAX_TOOL_CONTRACT_BYTES_def

section \<open>Exact sizes\<close>

lemma counter_exact:
  "m \<le> limit \<Longrightarrow> fold_result (counter_write limit) m cs = Ok n \<longleftrightarrow>
    n = m + length (concat cs) \<and> n \<le> limit"
proof (induction cs arbitrary: m)
  case (Cons c cs)
  show ?case
  proof (cases "length c > limit - m")
    case True
    then show ?thesis using Cons.prems by (auto simp: counter_write_def)
  next
    case False
    then show ?thesis using Cons.IH [of "m + length c"] Cons.prems by (auto simp: counter_write_def)
  qed
qed auto

lemma json_size_exact:
  "json_size_with_limit lib v limit = Ok n \<longleftrightarrow> n = length (json_text lib v) \<and> n \<le> limit"
  using counter_exact [of 0 limit "chunks lib v" n] by (simp add: json_size_with_limit_def json_text_def)

lemma budget_add_exact:
  "budget_add lib b v = Ok b' \<longleftrightarrow>
    b' = \<lparr>budget_bytes = budget_bytes b + of_bool (\<not> budget_empty b) + length (json_text lib v), budget_empty = False\<rparr> \<and>
    budget_bytes b' \<le> MAX_TOOL_CONTRACT_BYTES"
proof -
  let ?used = "budget_bytes b + of_bool (\<not> budget_empty b)" and ?n = "length (json_text lib v)"
  have "budget_add lib b v = Ok b' \<longleftrightarrow> ?used \<le> MAX_TOOL_CONTRACT_BYTES \<and> ?n \<le> MAX_TOOL_CONTRACT_BYTES - ?used \<and>
      b' = \<lparr>budget_bytes = budget_bytes b + (of_bool (\<not> budget_empty b) + ?n), budget_empty = False\<rparr>"
    unfolding budget_add_def Let_def by (simp add: res_bind_eq_Inr json_size_exact del: of_bool_not_iff) blast
  also have "\<dots> \<longleftrightarrow> b' = \<lparr>budget_bytes = ?used + ?n, budget_empty = False\<rparr> \<and>
      ?used + ?n \<le> MAX_TOOL_CONTRACT_BYTES"
    by (auto simp: add.assoc)
  finally show ?thesis by auto
qed

lemma budget_fold_exact:
  "fold_result (budget_add lib) b (v # vs) = Ok b' \<longleftrightarrow>
    b' = \<lparr>budget_bytes = budget_bytes b + of_bool (\<not> budget_empty b) +
        (sum_list (map (\<lambda>v. length (json_text lib v)) (v # vs)) + length vs), budget_empty = False\<rparr> \<and>
    budget_bytes b' \<le> MAX_TOOL_CONTRACT_BYTES"
proof (induction vs arbitrary: b v)
  case Nil
  show ?case by (simp add: res_bind_eq_Inr budget_add_exact) force
next
  case (Cons w vs)
  let ?b1 = "\<lparr>budget_bytes = budget_bytes b + of_bool (\<not> budget_empty b) + length (json_text lib v), budget_empty = False\<rparr>"
  have "fold_result (budget_add lib) b (v # w # vs) = Ok b' \<longleftrightarrow>
      (\<exists>b1. budget_add lib b v = Ok b1 \<and> fold_result (budget_add lib) b1 (w # vs) = Ok b')"
    unfolding fold_result.simps(2) [of _ b v] res_bind_eq_Inr ..
  also have "\<dots> \<longleftrightarrow> budget_bytes ?b1 \<le> MAX_TOOL_CONTRACT_BYTES \<and>
      fold_result (budget_add lib) ?b1 (w # vs) = Ok b'"
    unfolding budget_add_exact by blast
  also have "\<dots> \<longleftrightarrow> budget_bytes ?b1 \<le> MAX_TOOL_CONTRACT_BYTES \<and>
      b' = \<lparr>budget_bytes = budget_bytes ?b1 + 1 +
        (sum_list (map (\<lambda>v. length (json_text lib v)) (w # vs)) + length vs), budget_empty = False\<rparr> \<and>
      budget_bytes b' \<le> MAX_TOOL_CONTRACT_BYTES"
    unfolding Cons.IH by simp
  finally show ?case by (auto simp del: fold_result.simps)
qed

definition array_text :: "'f json_writer \<Rightarrow> 'f Value list \<Rightarrow> string" where
  "array_text lib vs = ''['' @ join_with '','' (map (json_text lib) vs) @ '']''"

lemma length_join_with:
  "length (join_with sep ws) = sum_list (map length ws) + length sep * (length ws - 1)"
  by (induction sep ws rule: join_with.induct) auto

text \<open>
  C25: the budget counts exactly the bytes of the JSON array of the added values. Adding a list of
  values to a fresh budget succeeds exactly when the array of their encodings fits into 4 MiB, and
  then the count is the length of that array text.
\<close>

theorem tool_contract_budget_exact:
  "fold_result (budget_add lib) ToolContractBudget_default (v # vs) = Ok b \<longleftrightarrow>
    b = \<lparr>budget_bytes = length (array_text lib (v # vs)), budget_empty = False\<rparr> \<and>
    length (array_text lib (v # vs)) \<le> MAX_TOOL_CONTRACT_BYTES"
  by (auto simp: budget_fold_exact ToolContractBudget_default_def array_text_def length_join_with
      comp_def simp del: fold_result.simps)

end
