(* ===== verification/CanonicalJson.thy ===== *)
theory CanonicalJson
  imports JsonValue
begin

text \<open>
  Canonical JSON and the digests over it (\<open>core/src/runtime/canonical_json.rs\<close>): object fields are
  sorted by key at every level, the result is encoded and hashed under a domain. The encoder and
  SHA-256 are parameters.

  Two values that differ only in the order of object fields are the same JSON value
  (\<open>same_value\<close>); sorting is shown to compute exactly that equivalence.
\<close>

section \<open>Sorting\<close>

lemma value_in_object_size: "(k, v) \<in> set m \<Longrightarrow> size v \<le> size_list (size_prod (\<lambda>_. 0) size) m"
  by (induction m) auto

function sort_value :: "'f Value \<Rightarrow> 'f Value" where
  "sort_value (VArray items) = VArray (map sort_value items)"
| "sort_value (VObject items) = VObject (map (\<lambda>(key, v). (key, sort_value v)) (sort_key fst items))"
| "sort_value VNull = VNull"
| "sort_value (VBool b) = VBool b"
| "sort_value (VNumber n) = VNumber n"
| "sort_value (VString s) = VString s"
  by pat_completeness auto
termination
  by (relation "measure size") (auto simp: value_in_object_size less_Suc_eq_le dest: size_list_estimation' [OF _ order_refl])

text \<open>Equality of values compares objects regardless of the order of their fields.\<close>

definition value_eq :: "'f Value \<Rightarrow> 'f Value \<Rightarrow> bool" where
  "value_eq v w \<longleftrightarrow> sort_value v = sort_value w"

record 'f json_codec =
  encode :: "'f Value \<Rightarrow> string result"
  sha256_hex :: "string \<Rightarrow> string"

text \<open>
  The argument is the JSON value that \<open>serde_json::to_value\<close> makes of what is hashed. The components that hash a
  struct write this value out field by field; the conversion of such a struct cannot fail.
\<close>

definition to_vec :: "'f json_codec \<Rightarrow> 'f Value \<Rightarrow> string result" where
  "to_vec lib value =
    map_err (\<lambda>e. ''encode canonical JSON failed: '' @ e) (encode lib (sort_value value))"

definition sha256 :: "'f json_codec \<Rightarrow> string \<Rightarrow> 'f Value \<Rightarrow> string result" where
  "sha256 lib domain value =
    res_bind (to_vec lib value) (\<lambda>bytes. Ok (''sha256:'' @ sha256_hex lib (domain @ [CHR 0x00] @ bytes)))"

section \<open>The same value up to field order\<close>

inductive same_value :: "'f Value \<Rightarrow> 'f Value \<Rightarrow> bool" where
  same_null: "same_value VNull VNull"
| same_bool: "same_value (VBool b) (VBool b)"
| same_number: "same_value (VNumber n) (VNumber n)"
| same_string: "same_value (VString s) (VString s)"
| same_array: "list_all2 same_value xs ys \<Longrightarrow> same_value (VArray xs) (VArray ys)"
| same_object: "(\<And>k. rel_option same_value (map_of m k) (map_of m' k)) \<Longrightarrow>
    same_value (VObject m) (VObject m')"
monos list.rel_mono_strong option.rel_mono_strong

inductive_simps same_value_simps [simp]:
  "same_value VNull w" "same_value (VBool b) w" "same_value (VNumber n) w" "same_value (VString s) w"
inductive_simps same_value_array: "same_value (VArray xs) w"
inductive_simps same_value_object: "same_value (VObject m) w"

lemma map_insort_key: "(\<And>x. g (f x) = h x) \<Longrightarrow> map f (insort_key h x xs) = insort_key g (f x) (map f xs)"
  by (induction xs) auto

lemma map_sort_key: "(\<And>x. g (f x) = h x) \<Longrightarrow> map f (sort_key h xs) = sort_key g (map f xs)"
  by (induction xs) (simp_all add: map_insort_key [where g = g and h = h])

lemma sort_value_object:
  "sort_value (VObject m) = VObject (sort_key fst (map (\<lambda>(k, v). (k, sort_value v)) m))"
  by (simp, rule map_sort_key) auto

lemma sorted_fields_eq:
  assumes "distinct (map fst A)" and "distinct (map fst B)"
  shows "sort_key fst A = sort_key fst B \<longleftrightarrow> map_of A = map_of B"
proof
  assume "sort_key fst A = sort_key fst B"
  then have "set A = set B" by (metis set_sort)
  then show "map_of A = map_of B" using assms map_of_inject_set by blast
next
  assume "map_of A = map_of B"
  then have sets: "set A = set B" using assms map_of_inject_set by blast
  have inj: "inj_on fst (set A)" using assms(1) by (simp add: distinct_map)
  have d: "distinct (map fst (sort_key fst L))" if "distinct (map fst L)" for L :: "('a \<times> 'b) list"
    using that by (metis distinct_map distinct_sort set_sort)
  show "sort_key fst A = sort_key fst B"
    by (rule map_sorted_distinct_set_unique [of fst]) (use sets inj assms d in auto)
qed

lemma map_of_sorted_values:
  "map_of (map (\<lambda>(k, v). (k, sort_value v)) m) = map_option sort_value \<circ> map_of m"
  by (simp add: map_of_map)

lemma map_eq_iff_list_all2:
  "(\<And>x y. x \<in> set xs \<Longrightarrow> y \<in> set ys \<Longrightarrow> f x = f y \<longleftrightarrow> R x y) \<Longrightarrow> map f xs = map f ys \<longleftrightarrow> list_all2 R xs ys"
  by (auto simp: list_all2_conv_all_nth list_eq_iff_nth_eq)

lemma sort_value_eq_iff:
  "value_wf v \<Longrightarrow> value_wf w \<Longrightarrow> sort_value v = sort_value w \<longleftrightarrow> same_value v w"
proof (induction v arbitrary: w)
  case (VArray xs)
  show ?case
  proof (cases w)
    case (VArray ys)
    have "map sort_value xs = map sort_value ys \<longleftrightarrow> list_all2 same_value xs ys"
      using VArray.IH VArray.prems VArray by (intro map_eq_iff_list_all2) (auto simp: list_all_iff)
    then show ?thesis using VArray by (simp add: same_value_array)
  qed (simp_all add: same_value_array sort_value_object del: sort_value.simps(2))
next
  case (VObject m)
  show ?case
  proof (cases w)
    case w: (VObject m')
    have wf: "distinct (map fst m)" "distinct (map fst m')"
      "list_all (\<lambda>(_, v). value_wf v) m" "list_all (\<lambda>(_, v). value_wf v) m'"
      using VObject.prems w by auto
    have "sort_value (VObject m) = sort_value w \<longleftrightarrow>
        map_option sort_value \<circ> map_of m = map_option sort_value \<circ> map_of m'"
      unfolding w sort_value_object map_of_sorted_values [symmetric] Value.inject
      by (rule sorted_fields_eq) (use wf in \<open>simp_all add: comp_def case_prod_unfold\<close>)
    also have "\<dots> \<longleftrightarrow> (\<forall>k. rel_option same_value (map_of m k) (map_of m' k))"
    proof -
      have "map_option sort_value (map_of m k) = map_option sort_value (map_of m' k) \<longleftrightarrow>
          rel_option same_value (map_of m k) (map_of m' k)" for k
      proof (cases "map_of m k"; cases "map_of m' k")
        fix a b assume ab: "map_of m k = Some a" "map_of m' k = Some b"
        then have "(k, a) \<in> set m" "(k, b) \<in> set m'" by (auto dest: map_of_SomeD)
        then have "sort_value a = sort_value b \<longleftrightarrow> same_value a b"
          using VObject.IH [of "(k, a)" a b] wf(3,4) by (auto simp: list_all_iff)
        then show ?thesis using ab by simp
      qed simp_all
      then show ?thesis by (simp add: fun_eq_iff)
    qed
    finally show ?thesis using w by (simp add: same_value_object)
  qed (simp_all add: same_value_object sort_value_object del: sort_value.simps(2))
next
  case (VBool b)
  show ?case by (cases w) auto
next
  case (VNumber n)
  show ?case by (cases w) auto
next
  case (VString s)
  show ?case by (cases w) auto
next
  case VNull
  show ?case by (cases w) auto
qed

lemma to_vec_same_value:
  "value_wf v \<Longrightarrow> value_wf w \<Longrightarrow> same_value v w \<Longrightarrow> to_vec lib v = to_vec lib w"
  by (simp add: to_vec_def sort_value_eq_iff [symmetric])

lemma domain_separated:
  assumes "d @ [z] @ b = d' @ [z] @ b'" and "z \<notin> set d" and "z \<notin> set d'"
  shows "d = d' \<and> b = b'"
  using assms
proof (induction d arbitrary: d')
  case Nil
  then show ?case by (cases d') auto
next
  case (Cons x d)
  then show ?case by (cases d') auto
qed

lemma sha256_to_vec: "sha256 lib d v = Ok h \<longleftrightarrow>
    (\<exists>s. to_vec lib v = Ok s \<and> h = ''sha256:'' @ sha256_hex lib (d @ [CHR 0x00] @ s))"
  unfolding sha256_def res_bind_eq_Inr by (simp only: sum.inject) metis

lemma sha256_Ok_iff:
  "sha256 lib d v = Ok h \<longleftrightarrow>
    (\<exists>s. encode lib (sort_value v) = Ok s \<and> h = ''sha256:'' @ sha256_hex lib (d @ [CHR 0x00] @ s))"
  unfolding sha256_to_vec to_vec_def by (cases "encode lib (sort_value v)") (auto simp: map_err_def)

definition encoding_faithful :: "'f json_codec \<Rightarrow> bool" where
  "encoding_faithful lib \<longleftrightarrow> (\<forall>v w t. encode lib v = Ok t \<longrightarrow> encode lib w = Ok t \<longrightarrow> v = w)"

text \<open>
  A collision of the hash on two given inputs: the texts that are hashed for them differ and have the same hash.
\<close>

definition digest_collision :: "'f json_codec \<Rightarrow> string \<Rightarrow> 'f Value \<Rightarrow> string \<Rightarrow> 'f Value \<Rightarrow> bool" where
  "digest_collision lib d v d' w \<longleftrightarrow> (\<exists>s t. to_vec lib v = Ok s \<and> to_vec lib w = Ok t \<and>
    d @ [CHR 0x00] @ s \<noteq> d' @ [CHR 0x00] @ t \<and>
    sha256_hex lib (d @ [CHR 0x00] @ s) = sha256_hex lib (d' @ [CHR 0x00] @ t))"

lemma no_collision: "inj (sha256_hex lib) \<Longrightarrow> \<not> digest_collision lib d v d' w"
  by (auto simp: digest_collision_def dest: injD)

lemma same_digest:
  assumes enc: "encoding_faithful lib" and wf: "value_wf v" "value_wf w"
    and domains: "CHR 0x00 \<notin> set d" "CHR 0x00 \<notin> set d'"
    and h: "sha256 lib d v = Ok h \<and> sha256 lib d' w = Ok h"
  shows "d = d' \<and> same_value v w \<or> digest_collision lib d v d' w"
proof -
  from h obtain s t where s: "to_vec lib v = Ok s" "h = ''sha256:'' @ sha256_hex lib (d @ [CHR 0x00] @ s)"
    and t: "to_vec lib w = Ok t" "h = ''sha256:'' @ sha256_hex lib (d' @ [CHR 0x00] @ t)"
    unfolding sha256_to_vec by (elim conjE exE) (rule that)
  have eq: "sha256_hex lib (d @ [CHR 0x00] @ s) = sha256_hex lib (d' @ [CHR 0x00] @ t)"
    using s(2) t(2) by (simp only: same_append_eq)
  show ?thesis
  proof (cases "d @ [CHR 0x00] @ s = d' @ [CHR 0x00] @ t")
    case True
    then have same: "d = d'" "s = t" using domain_separated [OF True domains] by simp_all
    then have "sort_value v = sort_value w"
      using enc s(1) t(1) by (auto simp: encoding_faithful_def to_vec_def map_err_def split: sum.splits)
    then show ?thesis using same(1) sort_value_eq_iff [OF wf] by simp
  next
    case False
    then show ?thesis unfolding digest_collision_def using s(1) t(1) eq by blast
  qed
qed

text \<open>
  C24: canonical digests identify JSON values up to the order of object fields. Two values that
  differ only in field order, at any depth, have the same digest; and two values with the same
  digest were hashed under the same domain and differ only in field order, unless the two texts
  hashed for them, domain, zero byte and sorted encoding, are different and have the same hash. The
  encoder maps different values to different texts, and domains contain no zero byte.
\<close>

theorem canonical_digest_exact:
  assumes enc: "encoding_faithful lib" and wf: "value_wf v" "value_wf w"
    and domains: "CHR 0x00 \<notin> set d" "CHR 0x00 \<notin> set d'"
  shows "(same_value v w \<longrightarrow> sha256 lib d v = sha256 lib d w) \<and>
    (\<forall>h. sha256 lib d v = Ok h \<and> sha256 lib d' w = Ok h \<longrightarrow>
      d = d' \<and> same_value v w \<or>
      (\<exists>s t. to_vec lib v = Ok s \<and> to_vec lib w = Ok t \<and> d @ [CHR 0x00] @ s \<noteq> d' @ [CHR 0x00] @ t \<and>
        sha256_hex lib (d @ [CHR 0x00] @ s) = sha256_hex lib (d' @ [CHR 0x00] @ t)))"
proof (intro conjI impI allI)
  assume "same_value v w"
  then show "sha256 lib d v = sha256 lib d w" using to_vec_same_value [OF wf] by (simp add: sha256_def)
next
  fix h assume "sha256 lib d v = Ok h \<and> sha256 lib d' w = Ok h"
  from same_digest [OF enc wf domains this] show "d = d' \<and> same_value v w \<or>
      (\<exists>s t. to_vec lib v = Ok s \<and> to_vec lib w = Ok t \<and> d @ [CHR 0x00] @ s \<noteq> d' @ [CHR 0x00] @ t \<and>
        sha256_hex lib (d @ [CHR 0x00] @ s) = sha256_hex lib (d' @ [CHR 0x00] @ t))"
    unfolding digest_collision_def .
qed

text \<open>An encoder that knows two values, with the identity as an injective hash.\<close>

definition sample_codec :: "unit json_codec" where
  "sample_codec = \<lparr>encode = (\<lambda>v. if v = VObject [(''a'', VNull), (''b'', VBool True)] then Ok ''{a,b}''
     else if v = VNull then Ok ''null'' else Err ''unsupported''), sha256_hex = (\<lambda>s. s)\<rparr>"

theorem canonical_digest_exact_witness:
  "sha256 sample_codec ''d'' (VObject [(''b'', VBool True), (''a'', VNull)]) =
     sha256 sample_codec ''d'' (VObject [(''a'', VNull), (''b'', VBool True)]) \<and>
   sha256 sample_codec ''d'' VNull = Ok (''sha256:d'' @ [CHR 0x00] @ ''null'') \<and>
   sha256 sample_codec ''e'' VNull \<noteq> sha256 sample_codec ''d'' VNull"
proof -
  have enc: "encoding_faithful sample_codec" by (auto simp: encoding_faithful_def sample_codec_def split: if_splits)
  have "same_value (VObject [(''b'', VBool True), (''a'', VNull)])
      (VObject [(''a'', VNull), (''b'', VBool True)] :: unit Value)"
    by (rule same_object) auto
  then have order: "sha256 sample_codec ''d'' (VObject [(''b'', VBool True), (''a'', VNull)]) =
      sha256 sample_codec ''d'' (VObject [(''a'', VNull), (''b'', VBool True)])"
    using canonical_digest_exact [OF enc, of "VObject [(''b'', VBool True), (''a'', VNull)]"
        "VObject [(''a'', VNull), (''b'', VBool True)]" "''d''" "''d''"] by simp
  have d: "sha256 sample_codec ''d'' VNull = Ok (''sha256:d'' @ [CHR 0x00] @ ''null'')"
    by (simp add: sha256_def to_vec_def sample_codec_def map_err_def)
  have "sha256 sample_codec ''e'' VNull \<noteq> sha256 sample_codec ''d'' VNull"
    using canonical_digest_exact [OF enc, of VNull VNull "''e''" "''d''"] d by (auto simp: sample_codec_def)
  with order d show ?thesis by blast
qed

end
