(* ===== verification/ToolContracts.thy ===== *)
theory ToolContracts
  imports ToolLimits CanonicalJson ToolPermission "HOL-Library.Multiset"
begin

text \<open>
  Tool contracts and the registry of dynamic tools (\<open>core/src/tool/types.rs\<close>, \<open>tool/dynamic.rs\<close>). The
  JSON form of a contract is written out field by field as its \<open>Serialize\<close> derive emits it; encoder
  and hash are parameters. The registry is shown to compute a specification in one step: a list of
  contracts is accepted exactly when every contract is valid, names are distinct and not built in,
  and the whole fits the budget, and the result is the sorted list.
\<close>

section \<open>Contracts\<close>

datatype ToolTurnBehavior = ContinueTurn | CompleteTurnOnSuccess

fun turn_behavior_str :: "ToolTurnBehavior \<Rightarrow> string" where
  "turn_behavior_str ContinueTurn = ''continueTurn''"
| "turn_behavior_str CompleteTurnOnSuccess = ''completeTurnOnSuccess''"

record 'f ToolContract =
  contract_name :: string
  contract_category :: string
  contract_summary :: string
  contract_input_schema :: "'f Value"
  contract_concurrency_safe :: bool
  contract_turn_behavior :: ToolTurnBehavior
  contract_provider_id :: "string option"
  contract_schema_hash :: "string option"
  contract_scopes :: "string list"
  contract_dynamic :: bool

definition opt_field :: "string \<Rightarrow> 'f Value option \<Rightarrow> (string \<times> 'f Value) list" where
  "opt_field key v = (case v of None \<Rightarrow> [] | Some x \<Rightarrow> [(key, x)])"

definition ToolContract_value :: "'f ToolContract \<Rightarrow> 'f Value" where
  "ToolContract_value c = VObject (
    [(''name'', VString (contract_name c)), (''category'', VString (contract_category c)),
     (''summary'', VString (contract_summary c)), (''inputSchema'', contract_input_schema c),
     (''concurrencySafe'', VBool (contract_concurrency_safe c)),
     (''turnBehavior'', VString (turn_behavior_str (contract_turn_behavior c)))]
    @ opt_field ''providerId'' (map_option VString (contract_provider_id c))
    @ opt_field ''schemaHash'' (map_option VString (contract_schema_hash c))
    @ (if contract_scopes c = [] then [] else [(''scopes'', VArray (map VString (contract_scopes c)))])
    @ (if contract_dynamic c then [(''dynamic'', VBool True)] else []))"

definition is_sha256 :: "string \<Rightarrow> bool" where
  "is_sha256 value = (case strip_prefix ''sha256:'' value of None \<Rightarrow> False
     | Some hex \<Rightarrow> length hex = 64 \<and> list_all lowercase_hex hex)"

definition contract_digest :: "'f json_codec \<Rightarrow> 'f ToolContract \<Rightarrow> string result" where
  "contract_digest lib c =
    (case contract_schema_hash c of
       Some digest \<Rightarrow> if is_sha256 digest then Ok digest
         else Err ''tool contract schemaHash must be sha256:<64 lowercase hex>''
     | None \<Rightarrow> sha256 lib ''centaeris.tool_contract.v1'' (ToolContract_value (c\<lparr>contract_schema_hash := None\<rparr>)))"

record 'f DynamicToolContract =
  name :: string
  category :: string
  summary :: string
  input_schema :: "'f Value"
  provider_id :: string
  scopes :: "string list"
  concurrency_safe :: bool
  turn_behavior :: ToolTurnBehavior

definition DynamicToolContract_value :: "'f DynamicToolContract \<Rightarrow> 'f Value" where
  "DynamicToolContract_value c = VObject
    [(''name'', VString (name c)), (''category'', VString (category c)), (''summary'', VString (summary c)),
     (''inputSchema'', input_schema c), (''providerId'', VString (provider_id c)),
     (''scopes'', VArray (map VString (scopes c))), (''concurrencySafe'', VBool (concurrency_safe c)),
     (''turnBehavior'', VString (turn_behavior_str (turn_behavior c)))]"

section \<open>Validation\<close>

definition is_object :: "'f Value \<Rightarrow> bool" where
  "is_object v = (case v of VObject _ \<Rightarrow> True | _ \<Rightarrow> False)"

text \<open>\<open>windows(2).any(|pair| pair[0] == pair[1])\<close>.\<close>

definition adjacent_equal :: "'a list \<Rightarrow> bool" where
  "adjacent_equal xs = list_ex (\<lambda>(x, y). x = y) (zip xs (tl xs))"

definition validate_contract :: "'f json_writer \<Rightarrow> 'f DynamicToolContract \<Rightarrow> unit result" where
  "validate_contract lib c =
    res_bind (ensure (trim (name c) \<noteq> []) ''dynamic tool name is required'') (\<lambda>_.
    res_bind (ensure (name c = trim (name c)) ''dynamic tool name must not contain surrounding whitespace'') (\<lambda>_.
    res_bind (ensure (\<not> (\<not> (name c \<noteq> [] \<and> is_ascii_lowercase (hd (name c)))
        \<or> (name c \<noteq> [] \<and> last (name c) = CHR ''_'')
        \<or> contains_sub ''__'' (name c)
        \<or> \<not> list_all (\<lambda>b. is_ascii_lowercase b \<or> is_ascii_digit b \<or> b = CHR ''_'') (name c)))
      ''dynamic tool name must use canonical lower_snake_case'') (\<lambda>_.
    res_bind (ensure (trim (provider_id c) \<noteq> []) ''dynamic tool providerId is required'') (\<lambda>_.
    res_bind (ensure (provider_id c = trim (provider_id c))
      ''dynamic tool providerId must not contain surrounding whitespace'') (\<lambda>_.
    res_bind (validate_tool_description (summary c)) (\<lambda>_.
    res_bind (ensure (\<not> (trim (category c) = [] \<or> category c \<noteq> trim (category c)))
      ''dynamic tool category must be exact and non-empty'') (\<lambda>_.
    res_bind (ensure (is_object (input_schema c)) ''dynamic tool inputSchema must be an object'') (\<lambda>_.
    res_bind (map_err (\<lambda>e. ''dynamic tool inputSchema: '' @ e)
      (json_size_with_limit lib (input_schema c) MAX_TOOL_INPUT_SCHEMA_BYTES)) (\<lambda>_.
    let scopes = sort (scopes c) in
    ensure (\<not> (list_ex (\<lambda>scope. trim scope = [] \<or> scope \<noteq> trim scope) scopes \<or> adjacent_equal scopes))
      ''dynamic tool scopes must be exact and unique'')))))))))"

section \<open>The registry\<close>

record 'f DynamicToolRegistry =
  contracts :: "'f DynamicToolContract list"
  registry_budget :: ToolContractBudget

definition DynamicToolRegistry_empty :: "'f DynamicToolRegistry" where
  "DynamicToolRegistry_empty = \<lparr>contracts = [], registry_budget = ToolContractBudget_default\<rparr>"

definition sort_scopes :: "'f DynamicToolContract \<Rightarrow> 'f DynamicToolContract" where
  "sort_scopes c = c\<lparr>scopes := sort (scopes c)\<rparr>"

definition register :: "'f json_writer \<Rightarrow> 'f DynamicToolRegistry \<Rightarrow> 'f DynamicToolContract \<Rightarrow> 'f DynamicToolRegistry result" where
  "register lib registry contract =
    res_bind (budget_add lib (registry_budget registry) (DynamicToolContract_value contract)) (\<lambda>budget.
    res_bind (validate_contract lib contract) (\<lambda>_.
    let contract = sort_scopes contract in
    res_bind (ensure (\<not> list_ex (\<lambda>existing. existing = name contract) MODEL_TOOL_CATALOG_ORDER)
      (''dynamic tool identity collides with built-in tool: '' @ name contract)) (\<lambda>_.
    res_bind (ensure (\<not> list_ex (\<lambda>existing. name existing = name contract) (contracts registry))
      (''duplicate dynamic tool identity: '' @ name contract)) (\<lambda>_.
    Ok \<lparr>contracts = sort_key name (contracts registry @ [contract]), registry_budget = budget\<rparr>))))"

definition from_contracts :: "'f json_writer \<Rightarrow> 'f DynamicToolContract list \<Rightarrow> 'f DynamicToolRegistry result" where
  "from_contracts lib cs = fold_result (register lib) DynamicToolRegistry_empty cs"

text \<open>The model-visible contract of a registered tool; a failing digest is the panic of \<open>expect\<close>.\<close>

definition schema_hash :: "'f json_codec \<Rightarrow> 'f DynamicToolContract \<Rightarrow> string result" where
  "schema_hash lib c = sha256 lib ''centaeris.dynamic_tool_contract.v1'' (DynamicToolContract_value c)"

definition tool_contract :: "'f json_codec \<Rightarrow> 'f DynamicToolContract \<Rightarrow> 'f ToolContract result" where
  "tool_contract lib c =
    res_bind (schema_hash lib c) (\<lambda>hash.
    Ok \<lparr>contract_name = name c, contract_category = category c, contract_summary = summary c,
      contract_input_schema = input_schema c, contract_concurrency_safe = concurrency_safe c,
      contract_turn_behavior = turn_behavior c, contract_provider_id = Some (provider_id c),
      contract_schema_hash = Some hash, contract_scopes = scopes c, contract_dynamic = True\<rparr>)"

definition list_contracts :: "'f json_codec \<Rightarrow> 'f DynamicToolRegistry \<Rightarrow> 'f ToolContract list result" where
  "list_contracts lib registry = map_result (tool_contract lib) (contracts registry)"

definition find_contract :: "'f json_codec \<Rightarrow> 'f DynamicToolRegistry \<Rightarrow> string \<Rightarrow> 'f ToolContract option result" where
  "find_contract lib registry n =
    (case find (\<lambda>c. name c = n) (contracts registry) of
       None \<Rightarrow> Ok None
     | Some c \<Rightarrow> res_bind (tool_contract lib c) (\<lambda>t. Ok (Some t)))"

definition select_contracts_by_names ::
  "'f json_codec \<Rightarrow> 'f DynamicToolRegistry \<Rightarrow> string list \<Rightarrow> nat \<Rightarrow> 'f ToolContract list result" where
  "select_contracts_by_names lib registry names limit =
    map_result (tool_contract lib)
      (take limit (List.map_filter (\<lambda>n. find (\<lambda>c. name c = n) (contracts registry)) names))"

definition list_tool_contracts_with_dynamic ::
  "'f json_codec \<Rightarrow> 'f ToolContract list \<Rightarrow> 'f DynamicToolRegistry \<Rightarrow> 'f ToolContract list result" where
  "list_tool_contracts_with_dynamic lib builtin registry =
    res_bind (list_contracts lib registry) (\<lambda>dynamic. Ok (builtin @ dynamic))"

section \<open>The registry computes its specification\<close>

lemma sort_key_sorted_prefix: "sort_key f (sort_key f xs @ ys) = sort_key f (xs @ ys)"
proof (rule properties_for_sort_key)
  show "mset (sort_key f (xs @ ys)) = mset (sort_key f xs @ ys)" by simp
  fix k
  have "filter (\<lambda>x. f x = f k) (sort_key f (xs @ ys)) = filter (\<lambda>x. f x = f k) (sort_key f xs @ ys)"
    by (simp only: filter_append sort_key_stable)
  then show "filter (\<lambda>x. f k = f x) (sort_key f (xs @ ys)) = filter (\<lambda>x. f k = f x) (sort_key f xs @ ys)"
    by (simp only: eq_commute [of "f k"])
qed simp

lemma sort_key_mset_eq:
  assumes "mset xs = mset ys" and "distinct (map f xs)"
  shows "sort_key f xs = sort_key f ys"
proof (rule map_sorted_distinct_set_unique [of f])
  have s: "set xs = set ys" using assms(1) by (rule mset_eq_setD)
  show "inj_on f (set (sort_key f xs) \<union> set (sort_key f ys))" using assms(2) s by (simp add: distinct_map)
  show "set (sort_key f xs) = set (sort_key f ys)" using s by simp
  have "mset (map f (sort_key f xs)) = mset (map f xs)" "mset (map f (sort_key f ys)) = mset (map f xs)"
    by (simp_all only: mset_map mset_sort assms(1))
  then show "distinct (map f (sort_key f xs))" "distinct (map f (sort_key f ys))"
    using assms(2) by (metis mset_eq_imp_distinct_iff)+
qed simp_all

definition acceptable :: "'f json_writer \<Rightarrow> 'f DynamicToolContract \<Rightarrow> bool" where
  "acceptable lib c \<longleftrightarrow> validate_contract lib c = Ok () \<and> name c \<notin> set MODEL_TOOL_CATALOG_ORDER"

lemma name_sort_scopes [simp]: "name (sort_scopes c) = name c"
  by (simp add: sort_scopes_def)

lemma register_iff:
  "register lib registry c = Ok registry' \<longleftrightarrow>
    acceptable lib c \<and> name c \<notin> name ` set (contracts registry) \<and>
    (\<exists>b. budget_add lib (registry_budget registry) (DynamicToolContract_value c) = Ok b \<and>
      registry' = \<lparr>contracts = sort_key name (contracts registry @ [sort_scopes c]), registry_budget = b\<rparr>)"
proof -
  have "name c \<notin> name ` set (contracts registry) \<longleftrightarrow> \<not> list_ex (\<lambda>e. name e = name c) (contracts registry)"
    unfolding list_ex_iff image_iff by metis
  then show ?thesis
    by (auto simp: register_def acceptable_def res_bind_eq_Inr Let_def list_ex_iff simp del: sort_key_simps)
qed

lemma register_fold:
  "fold_result (register lib) \<lparr>contracts = sort_key name A, registry_budget = b\<rparr> cs = Ok reg \<longleftrightarrow>
    list_all (acceptable lib) cs \<and> distinct (map name cs) \<and> name ` set cs \<inter> name ` set A = {} \<and>
    contracts reg = sort_key name (A @ map sort_scopes cs) \<and>
    fold_result (budget_add lib) b (map DynamicToolContract_value cs) = Ok (registry_budget reg)"
proof (induction cs arbitrary: A b)
  case Nil
  show ?case by (cases reg) auto
next
  case (Cons c cs)
  have "fold_result (register lib) \<lparr>contracts = sort_key name A, registry_budget = b\<rparr> (c # cs) = Ok reg \<longleftrightarrow>
      (\<exists>b1. acceptable lib c \<and> name c \<notin> name ` set A \<and>
        budget_add lib b (DynamicToolContract_value c) = Ok b1 \<and>
        fold_result (register lib) \<lparr>contracts = sort_key name (A @ [sort_scopes c]), registry_budget = b1\<rparr> cs = Ok reg)"
    unfolding fold_result.simps res_bind_eq_Inr register_iff
    by (simp only: DynamicToolRegistry.select_convs sort_key_sorted_prefix set_sort) blast
  also have "\<dots> \<longleftrightarrow> (\<exists>b1. acceptable lib c \<and> name c \<notin> name ` set A \<and>
        budget_add lib b (DynamicToolContract_value c) = Ok b1 \<and>
        list_all (acceptable lib) cs \<and> distinct (map name cs) \<and>
        name ` set cs \<inter> name ` set (A @ [sort_scopes c]) = {} \<and>
        contracts reg = sort_key name ((A @ [sort_scopes c]) @ map sort_scopes cs) \<and>
        fold_result (budget_add lib) b1 (map DynamicToolContract_value cs) = Ok (registry_budget reg))"
    unfolding Cons.IH ..
  also have "\<dots> \<longleftrightarrow> list_all (acceptable lib) (c # cs) \<and> distinct (map name (c # cs)) \<and>
      name ` set (c # cs) \<inter> name ` set A = {} \<and>
      contracts reg = sort_key name (A @ map sort_scopes (c # cs)) \<and>
      fold_result (budget_add lib) b (map DynamicToolContract_value (c # cs)) = Ok (registry_budget reg)"
    by (auto simp: res_bind_eq_Inr simp del: sort_key_simps)
  finally show ?case .
qed

definition registry_spec :: "'f json_writer \<Rightarrow> 'f DynamicToolContract list \<Rightarrow> 'f DynamicToolRegistry" where
  "registry_spec lib cs =
    \<lparr>contracts = sort_key name (map sort_scopes cs),
     registry_budget = (if cs = [] then ToolContractBudget_default
       else \<lparr>budget_bytes = length (array_text lib (map DynamicToolContract_value cs)), budget_empty = False\<rparr>)\<rparr>"

lemma budget_from_default:
  "fold_result (budget_add lib) ToolContractBudget_default vs = Ok b \<longleftrightarrow>
    (if vs = [] then b = ToolContractBudget_default
     else b = \<lparr>budget_bytes = length (array_text lib vs), budget_empty = False\<rparr> \<and>
       length (array_text lib vs) \<le> MAX_TOOL_CONTRACT_BYTES)"
  by (cases vs) (auto simp: budget_fold_exact ToolContractBudget_default_def array_text_def length_join_with
      comp_def simp del: fold_result.simps(2))

lemma from_contracts_iff:
  "from_contracts lib cs = Ok reg \<longleftrightarrow>
    list_all (acceptable lib) cs \<and> distinct (map name cs) \<and>
    (cs = [] \<or> length (array_text lib (map DynamicToolContract_value cs)) \<le> MAX_TOOL_CONTRACT_BYTES) \<and>
    reg = registry_spec lib cs"
  using register_fold [of lib "[]" ToolContractBudget_default cs reg]
  by (cases reg) (auto simp: from_contracts_def DynamicToolRegistry_empty_def registry_spec_def budget_from_default
      simp del: fold_result.simps(2))

lemma array_text_mset:
  "mset vs = mset vs' \<Longrightarrow> length (array_text lib vs) = length (array_text lib vs')"
  by (simp add: array_text_def length_join_with)
    (metis mset_eq_length mset_map sum_mset_sum_list)

lemma registry_spec_mset:
  assumes m: "mset cs = mset cs'" and d: "distinct (map name cs)"
  shows "registry_spec lib cs = registry_spec lib cs'"
proof -
  have "sort_key name (map sort_scopes cs) = sort_key name (map sort_scopes cs')"
    using m d by (intro sort_key_mset_eq) (simp_all add: comp_def)
  moreover have "length (array_text lib (map DynamicToolContract_value cs)) =
      length (array_text lib (map DynamicToolContract_value cs'))"
    using m by (intro array_text_mset) simp
  moreover have "cs = [] \<longleftrightarrow> cs' = []" using m by (metis mset_zero_iff)
  ultimately show ?thesis by (simp add: registry_spec_def)
qed

text \<open>
  C26: a list of dynamic tool contracts is accepted by the registry exactly when every contract is
  valid and not named like a built-in tool, names are distinct, and the JSON array of the contracts
  fits the budget; the registry then holds the contracts sorted by name with sorted scopes, and the
  exact size of that array. The result does not depend on the order of the contracts.
\<close>

theorem dynamic_registry_exact:
  "(from_contracts lib cs = Ok reg \<longleftrightarrow>
      list_all (acceptable lib) cs \<and> distinct (map name cs) \<and>
      (cs = [] \<or> length (array_text lib (map DynamicToolContract_value cs)) \<le> MAX_TOOL_CONTRACT_BYTES) \<and>
      reg = registry_spec lib cs) \<and>
    (mset cs = mset cs' \<longrightarrow> (from_contracts lib cs = Ok reg \<longleftrightarrow> from_contracts lib cs' = Ok reg))"
proof (intro conjI impI)
  show "from_contracts lib cs = Ok reg \<longleftrightarrow>
      list_all (acceptable lib) cs \<and> distinct (map name cs) \<and>
      (cs = [] \<or> length (array_text lib (map DynamicToolContract_value cs)) \<le> MAX_TOOL_CONTRACT_BYTES) \<and>
      reg = registry_spec lib cs"
    by (rule from_contracts_iff)
next
  assume m: "mset cs = mset cs'"
  have "list_all (acceptable lib) cs \<longleftrightarrow> list_all (acceptable lib) cs'"
    using mset_eq_setD [OF m] by (simp add: list_all_iff)
  moreover have "distinct (map name cs) \<longleftrightarrow> distinct (map name cs')"
    using m by (metis mset_eq_imp_distinct_iff mset_map)
  moreover have "length (array_text lib (map DynamicToolContract_value cs)) =
      length (array_text lib (map DynamicToolContract_value cs'))"
    using m by (intro array_text_mset) simp
  moreover have "cs = [] \<longleftrightarrow> cs' = []" using m by (metis mset_zero_iff)
  ultimately show "from_contracts lib cs = Ok reg \<longleftrightarrow> from_contracts lib cs' = Ok reg"
    unfolding from_contracts_iff using registry_spec_mset [OF m] by (metis (no_types))
qed

definition sample_writer :: "unit json_writer" where
  "sample_writer = \<lparr>chunks = (\<lambda>_. [''{'', ''}'']), display_io_error = (\<lambda>e. e)\<rparr>"

definition sample_tool :: "string \<Rightarrow> string list \<Rightarrow> unit DynamicToolContract" where
  "sample_tool n scope_list = \<lparr>name = n, category = ''external.context'', summary = ''Search.'', input_schema = VObject [],
     provider_id = ''example.local'', scopes = scope_list, concurrency_safe = True, turn_behavior = ContinueTurn\<rparr>"

lemma sample_trims:
  "trim ''search'' = ''search''" "trim ''lookup'' = ''lookup''" "trim ''external.context'' = ''external.context''"
  "trim ''example.local'' = ''example.local''" "trim ''Search.'' = ''Search.''" "trim ''a'' = ''a''" "trim ''b'' = ''b''"
  by code_simp+

lemma sample_tools_acceptable:
  "acceptable sample_writer (sample_tool ''search'' [''b'', ''a''])" "acceptable sample_writer (sample_tool ''lookup'' [])"
  by (simp_all add: acceptable_def validate_contract_def res_bind_eq_Inr json_size_exact json_text_def
      validate_tool_description_def chars_count_def limit_constants sample_tool_def sample_writer_def
      sample_trims is_object_def adjacent_equal_def is_ascii_lowercase_def MODEL_TOOL_CATALOG_ORDER_def
      byte_in_def byte_def Let_def)

theorem dynamic_registry_exact_witness:
  "from_contracts sample_writer [sample_tool ''search'' [''b'', ''a''], sample_tool ''lookup'' []] =
     Ok (registry_spec sample_writer [sample_tool ''search'' [''b'', ''a''], sample_tool ''lookup'' []]) \<and>
   from_contracts sample_writer [sample_tool ''lookup'' [], sample_tool ''search'' [''b'', ''a'']] =
     Ok (registry_spec sample_writer [sample_tool ''search'' [''b'', ''a''], sample_tool ''lookup'' []])"
  (is "from_contracts _ ?cs = Ok ?reg \<and> from_contracts _ ?cs' = _")
proof -
  have "from_contracts sample_writer ?cs = Ok ?reg"
    unfolding from_contracts_iff using sample_tools_acceptable
    by (simp add: array_text_def json_text_def sample_writer_def sample_tool_def MAX_TOOL_CONTRACT_BYTES_def)
  moreover have "mset ?cs = mset ?cs'" by simp
  ultimately show ?thesis using dynamic_registry_exact [of sample_writer ?cs ?reg ?cs'] by blast
qed

end
