(* ===== verification/McpServers.thy ===== *)
theory McpServers
  imports ToolContracts
begin

text \<open>
  Declarations of MCP servers in plugins (\<open>core/src/extension/mcp.rs\<close>, with the resource path check of
  \<open>extension/manifest.rs\<close>): their JSON form, their validation, the digest of the model-visible part and
  the dynamic tool contracts they give. Unicode normalisation (NFC), URL parsing and decoding of the
  file are parameters, as are encoder and hash.
\<close>

section \<open>Declarations\<close>

datatype McpLifecycleV1 = AutoLifecycle | InitializeLifecycle

fun lifecycle_str :: "McpLifecycleV1 \<Rightarrow> string" where
  "lifecycle_str AutoLifecycle = ''auto''"
| "lifecycle_str InitializeLifecycle = ''initialize''"

datatype McpTransportV1 = Stdio string "string list" | StreamableHttp string "string option"

record 'f McpToolDeclarationV1 =
  source_name :: string
  mcp_tool_name :: string
  description :: string
  mcp_input_schema :: "'f Value"
  mcp_concurrency_safe :: bool
  mcp_scopes :: "string list"

record 'f McpServerDeclarationV1 =
  server_id :: string
  model_contract_digest :: string
  transport :: McpTransportV1
  lifecycle :: McpLifecycleV1
  startup_timeout_ms :: nat
  tool_timeout_ms :: nat
  tools :: "'f McpToolDeclarationV1 list"

record 'f McpServersFileV1 =
  file_schema :: string
  servers :: "'f McpServerDeclarationV1 list"

fun transport_value :: "McpTransportV1 \<Rightarrow> 'f Value" where
  "transport_value (Stdio program args) =
    VObject [(''type'', VString ''stdio''), (''program'', VString program), (''args'', VArray (map VString args))]"
| "transport_value (StreamableHttp url credential) =
    VObject ([(''type'', VString ''streamableHttp''), (''url'', VString url)]
      @ opt_field ''bearerCredentialRef'' (map_option VString credential))"

definition McpToolDeclarationV1_value :: "'f McpToolDeclarationV1 \<Rightarrow> 'f Value" where
  "McpToolDeclarationV1_value t = VObject
    [(''sourceName'', VString (source_name t)), (''name'', VString (mcp_tool_name t)),
     (''description'', VString (description t)), (''inputSchema'', mcp_input_schema t),
     (''concurrencySafe'', VBool (mcp_concurrency_safe t)), (''scopes'', VArray (map VString (mcp_scopes t)))]"

definition McpServerDeclarationV1_value :: "'f McpServerDeclarationV1 \<Rightarrow> 'f Value" where
  "McpServerDeclarationV1_value s = VObject
    [(''id'', VString (server_id s)), (''modelContractDigest'', VString (model_contract_digest s)),
     (''transport'', transport_value (transport s)), (''lifecycle'', VString (lifecycle_str (lifecycle s))),
     (''startupTimeoutMs'', VNumber (JsonInt (int (startup_timeout_ms s)))),
     (''toolTimeoutMs'', VNumber (JsonInt (int (tool_timeout_ms s)))),
     (''tools'', VArray (map McpToolDeclarationV1_value (tools s)))]"

definition McpServersFileV1_value :: "'f McpServersFileV1 \<Rightarrow> 'f Value" where
  "McpServersFileV1_value f = VObject
    [(''schema'', VString (file_schema f)), (''servers'', VArray (map McpServerDeclarationV1_value (servers f)))]"

section \<open>What the code relies on\<close>

record parsed_url =
  scheme :: string
  host_str :: "string option"
  query :: "string option"
  fragment :: "string option"

record 'f mcp_env =
  writer :: "'f json_writer"
  codec :: "'f json_codec"
  nfc :: "string \<Rightarrow> string"
  parse_url :: "string \<Rightarrow> parsed_url option"

section \<open>Text checks\<close>

definition validate_exact_text :: "'f mcp_env \<Rightarrow> string \<Rightarrow> string \<Rightarrow> nat \<Rightarrow> unit result" where
  "validate_exact_text env label value max_chars =
    ensure (\<not> (value = [] \<or> trim value \<noteq> value \<or> chars_count value > max_chars \<or> has_control value
        \<or> nfc env value \<noteq> value))
      (label @ '' is invalid'')"

definition validate_model_description :: "'f mcp_env \<Rightarrow> string \<Rightarrow> unit result" where
  "validate_model_description env value =
    res_bind (validate_tool_description value) (\<lambda>_.
    ensure (nfc env value = value) ''MCP tool description is invalid or oversized'')"

definition require_sha256 :: "string \<Rightarrow> string \<Rightarrow> unit result" where
  "require_sha256 label value = ensure (is_sha256 value) (label @ '' must be sha256:<64 lowercase hex>'')"

definition starts_with_byte :: "char \<Rightarrow> string \<Rightarrow> bool" where
  "starts_with_byte c s \<longleftrightarrow> s \<noteq> [] \<and> hd s = c"

definition ends_with_byte :: "char \<Rightarrow> string \<Rightarrow> bool" where
  "ends_with_byte c s \<longleftrightarrow> s \<noteq> [] \<and> last s = c"

definition is_lower_kebab :: "string \<Rightarrow> bool" where
  "is_lower_kebab value \<longleftrightarrow> \<not> (value = [] \<or> length value > 64 \<or> starts_with_byte CHR ''-'' value
     \<or> ends_with_byte CHR ''-'' value \<or> contains_sub ''--'' value
     \<or> \<not> list_all (\<lambda>b. is_ascii_lowercase b \<or> is_ascii_digit b \<or> b = CHR ''-'') value)"

definition validate_lower_kebab :: "string \<Rightarrow> string \<Rightarrow> unit result" where
  "validate_lower_kebab label value = ensure (is_lower_kebab value) (label @ '' must use lower-kebab-case'')"

definition validate_lower_snake :: "string \<Rightarrow> string \<Rightarrow> unit result" where
  "validate_lower_snake label value =
    ensure (\<not> (value = [] \<or> length value > 128 \<or> \<not> is_ascii_lowercase (hd value)
        \<or> ends_with_byte CHR ''_'' value \<or> contains_sub ''__'' value
        \<or> \<not> list_all (\<lambda>b. is_ascii_lowercase b \<or> is_ascii_digit b \<or> b = CHR ''_'') value))
      (label @ '' must use canonical lower_snake_case'')"

text \<open>The authority of a URL: the text after the first scheme separator up to a slash, a question mark or a hash.\<close>

fun after_scheme :: "string \<Rightarrow> string option" where
  "after_scheme [] = None"
| "after_scheme (c # s) = (if prefix ''://'' (c # s) then Some (drop 3 (c # s)) else after_scheme s)"

definition authority_of :: "string \<Rightarrow> string" where
  "authority_of remainder = takeWhile (\<lambda>c. c \<notin> set ''/?#'') remainder"

definition validate_https_endpoint :: "'f mcp_env \<Rightarrow> string \<Rightarrow> unit result" where
  "validate_https_endpoint env value =
    res_bind (validate_exact_text env ''MCP Streamable HTTP URL'' value 2048) (\<lambda>_.
    res_bind (ok_or ''MCP Streamable HTTP URL is invalid'' (parse_url env value)) (\<lambda>url.
    let has_userinfo = (case after_scheme value of None \<Rightarrow> False
        | Some remainder \<Rightarrow> CHR ''@'' \<in> set (authority_of remainder)) in
    ensure (\<not> (scheme url \<noteq> ''https'' \<or> host_str url = None \<or> has_userinfo
        \<or> query url \<noteq> None \<or> fragment url \<noteq> None))
      ''MCP Streamable HTTP URL must be credential-free HTTPS without query or fragment''))"

text \<open>
  \<open>validate_relative_resource_path\<close> on a POSIX host. \<open>Path::components\<close> drops a single dot except at
  the start; a path is absolute when it starts with a slash.
\<close>

definition validate_relative_resource_path :: "'f mcp_env \<Rightarrow> string \<Rightarrow> string \<Rightarrow> unit result" where
  "validate_relative_resource_path env field raw_path =
    res_bind (ensure (trim raw_path \<noteq> []) (''plugin manifest '' @ field @ '' contains an empty path'')) (\<lambda>_.
    let parts = split_on CHR ''/'' raw_path in
    res_bind (ensure (\<not> (CHR 0x5C \<in> set raw_path \<or> CHR '':'' \<in> set raw_path
        \<or> list_ex (\<lambda>part. part = []) parts
        \<or> has_control raw_path \<or> nfc env raw_path \<noteq> raw_path))
      (''plugin manifest '' @ field @ '' path must be a canonical relative POSIX path: '' @ raw_path)) (\<lambda>_.
    res_bind (ensure (\<not> starts_with_byte CHR ''/'' raw_path)
      (''plugin manifest '' @ field @ '' path must be relative: '' @ raw_path)) (\<lambda>_.
    ensure (\<not> (hd parts = ''.'' \<or> list_ex (\<lambda>part. part = ''..'') parts \<or> starts_with_byte CHR ''/'' raw_path))
      (''plugin manifest '' @ field @ '' path must stay inside the plugin: '' @ raw_path))))"

section \<open>Validation\<close>

abbreviation MAX_SERVERS :: nat where
  "MAX_SERVERS \<equiv> 32"

abbreviation MAX_TOOLS_PER_SERVER :: nat where
  "MAX_TOOLS_PER_SERVER \<equiv> 128"

abbreviation MAX_ARGS :: nat where
  "MAX_ARGS \<equiv> 32"

text \<open>\<open>previous.is_some_and(|previous| previous >= current)\<close>.\<close>

definition not_after :: "string option \<Rightarrow> string \<Rightarrow> bool" where
  "not_after previous current = (case previous of None \<Rightarrow> False | Some p \<Rightarrow> p \<ge> current)"

definition check_scope :: "'f mcp_env \<Rightarrow> string option \<Rightarrow> string \<Rightarrow> string option result" where
  "check_scope env previous_scope scope =
    res_bind (validate_exact_text env ''MCP tool scope'' scope 128) (\<lambda>_.
    res_bind (ensure (\<not> not_after previous_scope scope) ''MCP tool scopes must be sorted and unique'') (\<lambda>_.
    Ok (Some scope)))"

text \<open>One round of the loop over the tools; the state is the previous source name and the names seen.\<close>

definition check_tool ::
  "'f mcp_env \<Rightarrow> string option \<times> string list \<Rightarrow> 'f McpToolDeclarationV1 \<Rightarrow> (string option \<times> string list) result" where
  "check_tool env st tool =
    res_bind (validate_exact_text env ''MCP sourceName'' (source_name tool) 128) (\<lambda>_.
    res_bind (validate_lower_snake ''MCP model tool name'' (mcp_tool_name tool)) (\<lambda>_.
    res_bind (validate_model_description env (description tool)) (\<lambda>_.
    res_bind (ensure (is_object (mcp_input_schema tool))
      ''MCP tool inputSchema must be an object of at most 65536 bytes'') (\<lambda>_.
    res_bind (map_err (\<lambda>e. ''MCP tool inputSchema: '' @ e)
      (json_size_with_limit (writer env) (mcp_input_schema tool) MAX_TOOL_INPUT_SCHEMA_BYTES)) (\<lambda>_.
    res_bind (ensure (\<not> not_after (fst st) (source_name tool)) ''MCP tools must be sorted by unique sourceName'') (\<lambda>_.
    res_bind (ensure (mcp_tool_name tool \<notin> set (snd st)) ''MCP model tool names must be unique per server'') (\<lambda>_.
    res_bind (fold_result (check_scope env) None (mcp_scopes tool)) (\<lambda>_.
    Ok (Some (source_name tool), mcp_tool_name tool # snd st)))))))))"

fun check_transport :: "'f mcp_env \<Rightarrow> McpTransportV1 \<Rightarrow> unit result" where
  "check_transport env (Stdio program args) =
    res_bind (validate_relative_resource_path env ''MCP stdio program'' program) (\<lambda>_.
    ensure (\<not> (length args > MAX_ARGS \<or> list_ex (\<lambda>arg. length arg > 4096 \<or> has_control arg \<or> nfc env arg \<noteq> arg) args))
      ''MCP stdio args are invalid'')"
| "check_transport env (StreamableHttp url bearer_credential_ref) =
    res_bind (validate_https_endpoint env url) (\<lambda>_.
    case bearer_credential_ref of
      None \<Rightarrow> Ok ()
    | Some credential_ref \<Rightarrow> validate_lower_kebab ''MCP bearer credential ref'' credential_ref)"

definition McpModelToolContractV1_value :: "'f McpToolDeclarationV1 \<Rightarrow> 'f Value" where
  "McpModelToolContractV1_value t = VObject
    [(''sourceName'', VString (source_name t)), (''name'', VString (mcp_tool_name t)),
     (''description'', VString (description t)), (''inputSchema'', mcp_input_schema t)]"

definition McpModelContractV1_value :: "string \<Rightarrow> 'f McpToolDeclarationV1 list \<Rightarrow> 'f Value" where
  "McpModelContractV1_value sid ts = VObject
    [(''schema'', VString ''mcp_model_contract_v1''), (''serverId'', VString sid),
     (''tools'', VArray (map McpModelToolContractV1_value ts))]"

definition digest_tool :: "'f mcp_env \<Rightarrow> ToolContractBudget \<Rightarrow> 'f McpToolDeclarationV1 \<Rightarrow> ToolContractBudget result" where
  "digest_tool env budget tool =
    res_bind (budget_add (writer env) budget (McpToolDeclarationV1_value tool)) (\<lambda>budget.
    res_bind (validate_model_description env (description tool)) (\<lambda>_.
    res_bind (map_err (\<lambda>e. ''MCP tool inputSchema: '' @ e)
      (json_size_with_limit (writer env) (mcp_input_schema tool) MAX_TOOL_INPUT_SCHEMA_BYTES)) (\<lambda>_.
    Ok budget)))"

definition mcp_model_contract_digest :: "'f mcp_env \<Rightarrow> string \<Rightarrow> 'f McpToolDeclarationV1 list \<Rightarrow> string result" where
  "mcp_model_contract_digest env sid ts =
    res_bind (validate_lower_kebab ''MCP server id'' sid) (\<lambda>_.
    res_bind (fold_result (digest_tool env) ToolContractBudget_default ts) (\<lambda>_.
    sha256 (codec env) ''centaeris.mcp_model_contract.v1'' (McpModelContractV1_value sid (sort_key source_name ts))))"

definition validate_server :: "'f mcp_env \<Rightarrow> 'f McpServerDeclarationV1 \<Rightarrow> unit result" where
  "validate_server env s =
    res_bind (json_size_with_limit (writer env) (McpServerDeclarationV1_value s) MAX_TOOL_CONTRACT_BYTES) (\<lambda>_.
    res_bind (validate_lower_kebab ''MCP server id'' (server_id s)) (\<lambda>_.
    res_bind (check_transport env (transport s)) (\<lambda>_.
    res_bind (ensure (1 \<le> startup_timeout_ms s \<and> startup_timeout_ms s \<le> 60000)
      ''MCP startupTimeoutMs must be between 1 and 60000'') (\<lambda>_.
    res_bind (ensure (1 \<le> tool_timeout_ms s \<and> tool_timeout_ms s \<le> 300000)
      ''MCP toolTimeoutMs must be between 1 and 300000'') (\<lambda>_.
    res_bind (ensure (\<not> (tools s = [] \<or> length (tools s) > MAX_TOOLS_PER_SERVER))
      ''MCP server must declare 1-128 tools'') (\<lambda>_.
    res_bind (fold_result (check_tool env) (None, []) (tools s)) (\<lambda>_.
    res_bind (require_sha256 ''MCP modelContractDigest'' (model_contract_digest s)) (\<lambda>_.
    res_bind (mcp_model_contract_digest env (server_id s) (tools s)) (\<lambda>digest.
    ensure (digest = model_contract_digest s) ''MCP modelContractDigest mismatch'')))))))))"

definition check_server :: "'f mcp_env \<Rightarrow> string option \<Rightarrow> 'f McpServerDeclarationV1 \<Rightarrow> string option result" where
  "check_server env previous_id server =
    res_bind (validate_server env server) (\<lambda>_.
    res_bind (ensure (\<not> not_after previous_id (server_id server)) ''MCP servers must be sorted by unique id'') (\<lambda>_.
    Ok (Some (server_id server))))"

definition validate_servers_file :: "'f mcp_env \<Rightarrow> 'f McpServersFileV1 \<Rightarrow> unit result" where
  "validate_servers_file env f =
    res_bind (ensure (file_schema f = ''mcp_servers_v1'') ''MCP server declaration schema mismatch'') (\<lambda>_.
    res_bind (ensure (\<not> (servers f = [] \<or> length (servers f) > MAX_SERVERS))
      ''MCP server declaration must contain 1-32 servers'') (\<lambda>_.
    res_bind (json_size_with_limit (writer env) (McpServersFileV1_value f) MAX_TOOL_CONTRACT_BYTES) (\<lambda>_.
    res_bind (fold_result (check_server env) None (servers f)) (\<lambda>_.
    Ok ()))))"

definition load_mcp_servers_file ::
  "'f mcp_env \<Rightarrow> (string \<Rightarrow> 'f McpServersFileV1 result) \<Rightarrow> string \<Rightarrow> string result \<Rightarrow> 'f McpServersFileV1 result" where
  "load_mcp_servers_file env decode path raw =
    res_bind (map_err (\<lambda>e. ''read MCP server declaration failed '' @ path @ '': '' @ e) raw) (\<lambda>raw.
    res_bind (map_err (\<lambda>e. ''parse MCP server declaration failed '' @ path @ '': '' @ e) (decode raw)) (\<lambda>declaration.
    res_bind (validate_servers_file env declaration) (\<lambda>_.
    Ok declaration)))"

definition mcp_provider_id :: "string \<Rightarrow> string \<Rightarrow> string result" where
  "mcp_provider_id plugin_name sid =
    res_bind (validate_lower_kebab ''MCP plugin name'' plugin_name) (\<lambda>_.
    res_bind (validate_lower_kebab ''MCP server id'' sid) (\<lambda>_.
    Ok (''mcp:'' @ plugin_name @ '':'' @ sid)))"

definition dynamic_tool_contracts ::
  "'f mcp_env \<Rightarrow> 'f McpServerDeclarationV1 \<Rightarrow> string \<Rightarrow> 'f DynamicToolContract list result" where
  "dynamic_tool_contracts env s plugin_name =
    res_bind (validate_server env s) (\<lambda>_.
    res_bind (mcp_provider_id plugin_name (server_id s)) (\<lambda>pid.
    Ok (map (\<lambda>tool. \<lparr>name = mcp_tool_name tool, category = ''external.mcp'', summary = description tool,
        input_schema = mcp_input_schema tool, provider_id = pid, scopes = mcp_scopes tool,
        concurrency_safe = mcp_concurrency_safe tool, turn_behavior = ContinueTurn\<rparr>) (tools s))))"

section \<open>Declared tools are registrable\<close>

lemma lower_byte_graphic: "is_ascii_lowercase b \<or> is_ascii_digit b \<or> b = CHR ''_'' \<or> b = CHR ''-'' \<Longrightarrow> is_ascii_graphic b"
  by (auto simp: is_ascii_lowercase_def is_ascii_digit_def is_ascii_graphic_def less_eq_char_def)

lemma trim_lower_snake: "validate_lower_snake l s = Ok () \<Longrightarrow> trim s = s \<and> s \<noteq> []"
proof -
  assume a: "validate_lower_snake l s = Ok ()"
  then have s: "s \<noteq> []" and "list_all (\<lambda>b. is_ascii_lowercase b \<or> is_ascii_digit b \<or> b = CHR ''_'') s"
    by (auto simp: validate_lower_snake_def)
  then have "\<forall>b \<in> set s. is_ascii_graphic b" by (auto simp: list_all_iff intro: lower_byte_graphic)
  then show ?thesis using s trim_graphic [of s] by simp
qed

lemma lower_kebab_graphic:
  "is_lower_kebab s \<Longrightarrow> s \<noteq> [] \<and> (\<forall>b \<in> set s. is_ascii_graphic b)"
  by (auto simp: is_lower_kebab_def list_all_iff intro: lower_byte_graphic)

lemma trim_provider_id:
  assumes "mcp_provider_id p s = Ok pid"
  shows "trim pid = pid \<and> pid \<noteq> []"
proof -
  have pid: "pid = ''mcp:'' @ p @ '':'' @ s" "is_lower_kebab s"
    using assms by (auto simp: mcp_provider_id_def validate_lower_kebab_def res_bind_eq_Inr)
  have "is_ascii_graphic (hd pid)" unfolding pid by (simp add: is_ascii_graphic_def)
  moreover have "is_ascii_graphic (last pid)" unfolding pid(1) using lower_kebab_graphic [OF pid(2)] by simp
  moreover have "pid \<noteq> []" unfolding pid(1) by simp
  ultimately show ?thesis using trim_graphic by blast
qed

text \<open>The scope loop accepts exactly the strictly increasing lists of exact texts.\<close>

lemma check_scope_ok:
  "check_scope env prev s = Ok r \<Longrightarrow> trim s = s \<and> s \<noteq> [] \<and> \<not> not_after prev s \<and> r = Some s"
  by (simp add: check_scope_def res_bind_eq_Inr validate_exact_text_def)

lemma check_scopes_sorted:
  "fold_result (check_scope env) prev ss = Ok r \<Longrightarrow>
    (\<forall>s \<in> set ss. trim s = s \<and> s \<noteq> []) \<and> sorted_wrt (<) ss \<and> (\<forall>p s. prev = Some p \<longrightarrow> s \<in> set ss \<longrightarrow> p < s)"
proof (induction ss arbitrary: prev)
  case (Cons s ss)
  then obtain r1 where "check_scope env prev s = Ok r1" and rest: "fold_result (check_scope env) r1 ss = Ok r"
    by (auto simp: res_bind_eq_Inr)
  then have s: "trim s = s" "s \<noteq> []" "\<not> not_after prev s" and r1: "r1 = Some s"
    using check_scope_ok by blast+
  have lt: "p < s" if "prev = Some p" for p using s(3) that by (simp add: not_after_def)
  from Cons.IH [OF rest] have "\<forall>s \<in> set ss. trim s = s \<and> s \<noteq> []" "sorted_wrt (<) ss" "\<forall>x \<in> set ss. s < x"
    using r1 by auto
  then show ?case using s(1,2) lt by (auto dest: less_trans)
qed simp

lemma check_tools_names:
  "fold_result (check_tool env) st ts = Ok r \<Longrightarrow>
    distinct (map mcp_tool_name ts) \<and> set (map mcp_tool_name ts) \<inter> set (snd st) = {}"
proof (induction ts arbitrary: st)
  case (Cons t ts)
  then obtain st1 where "check_tool env st t = Ok st1" and rest: "fold_result (check_tool env) st1 ts = Ok r"
    by (auto simp: res_bind_eq_Inr)
  then have "mcp_tool_name t \<notin> set (snd st)" "snd st1 = mcp_tool_name t # snd st"
    by (auto simp: check_tool_def res_bind_eq_Inr)
  then show ?case using Cons.IH [OF rest] by auto
qed simp

lemma check_tools_each:
  assumes "fold_result (check_tool env) st ts = Ok r" and "t \<in> set ts"
  shows "\<exists>st r. check_tool env st t = Ok r"
  using assms by (induction ts arbitrary: st) (auto simp: res_bind_eq_Inr)

lemma sorted_adjacent: "sorted_wrt (<) xs \<Longrightarrow> \<not> adjacent_equal (xs :: string list)"
proof (induction xs)
  case (Cons x xs)
  then show ?case by (cases xs) (auto simp: adjacent_equal_def)
qed (simp add: adjacent_equal_def)

lemma trim_external_mcp: "trim ''external.mcp'' = ''external.mcp''"
  by code_simp

lemma check_tool_ok:
  assumes "check_tool env st t = Ok r"
  shows "validate_lower_snake ''MCP model tool name'' (mcp_tool_name t) = Ok ()"
    and "validate_tool_description (description t) = Ok ()" and "is_object (mcp_input_schema t)"
    and "\<exists>n. json_size_with_limit (writer env) (mcp_input_schema t) MAX_TOOL_INPUT_SCHEMA_BYTES = Ok n"
    and "\<exists>p. fold_result (check_scope env) None (mcp_scopes t) = Ok p"
  using assms by (auto simp: check_tool_def validate_model_description_def res_bind_eq_Inr)

lemma declared_contract_valid:
  assumes t: "check_tool env st t = Ok r" and pid: "mcp_provider_id p sid = Ok pid"
  shows "validate_contract (writer env) \<lparr>name = mcp_tool_name t, category = ''external.mcp'', summary = description t,
        input_schema = mcp_input_schema t, provider_id = pid, scopes = mcp_scopes t,
        concurrency_safe = mcp_concurrency_safe t, turn_behavior = ContinueTurn\<rparr> = Ok ()"
    (is "validate_contract _ ?c = _")
proof -
  note ok = check_tool_ok [OF t]
  have nm: "trim (mcp_tool_name t) = mcp_tool_name t" "mcp_tool_name t \<noteq> []" using trim_lower_snake [OF ok(1)] by auto
  obtain q where q: "fold_result (check_scope env) None (mcp_scopes t) = Ok q" using ok(5) by blast
  have sc: "\<forall>s \<in> set (mcp_scopes t). trim s = s \<and> s \<noteq> []" "sorted_wrt (<) (mcp_scopes t)"
    using check_scopes_sorted [OF q] by blast+
  have "sorted (mcp_scopes t)" using sc(2) by (rule sorted_wrt_mono_rel [rotated]) simp
  then have sorted: "sort (mcp_scopes t) = mcp_scopes t" by (rule sorted_sort_id)
  have exact: "\<not> list_ex (\<lambda>scope. trim scope = [] \<or> scope \<noteq> trim scope) (mcp_scopes t)"
    using sc(1) by (auto simp: list_ex_iff)
  obtain n where n: "json_size_with_limit (writer env) (mcp_input_schema t) MAX_TOOL_INPUT_SCHEMA_BYTES = Ok n"
    using ok(4) by blast
  have snake: "is_ascii_lowercase (hd (mcp_tool_name t))" "last (mcp_tool_name t) \<noteq> CHR ''_''"
    "\<not> contains_sub ''__'' (mcp_tool_name t)"
    "list_all (\<lambda>b. is_ascii_lowercase b \<or> is_ascii_digit b \<or> b = CHR ''_'') (mcp_tool_name t)"
    using ok(1) by (auto simp: validate_lower_snake_def ends_with_byte_def)
  show ?thesis
    unfolding validate_contract_def
    by (simp add: nm snake trim_provider_id [OF pid] ok(2,3) trim_external_mcp n sorted exact sorted_adjacent [OF sc(2)])
qed

text \<open>
  The tools of a validated MCP server declaration are valid dynamic tools. Every contract the
  declaration gives passes the registry's own validation and their names are distinct, so that the
  registry accepts them exactly when none is named like a built-in tool and they fit the budget.
\<close>

theorem mcp_tools_registrable:
  assumes "dynamic_tool_contracts env s plugin_name = Ok cs"
  shows "list_all (\<lambda>c. validate_contract (writer env) c = Ok ()) cs \<and>
    map name cs = map mcp_tool_name (tools s) \<and> distinct (map name cs) \<and>
    (from_contracts (writer env) cs = Ok reg \<longleftrightarrow>
      set (map name cs) \<inter> set MODEL_TOOL_CATALOG_ORDER = {} \<and>
      length (array_text (writer env) (map DynamicToolContract_value cs)) \<le> MAX_TOOL_CONTRACT_BYTES \<and>
      reg = registry_spec (writer env) cs)"
proof -
  obtain pid r where pid: "mcp_provider_id plugin_name (server_id s) = Ok pid"
    and fold: "fold_result (check_tool env) (None, []) (tools s) = Ok r" and ne: "tools s \<noteq> []"
    and cs: "cs = map (\<lambda>tool. \<lparr>name = mcp_tool_name tool, category = ''external.mcp'', summary = description tool,
        input_schema = mcp_input_schema tool, provider_id = pid, scopes = mcp_scopes tool,
        concurrency_safe = mcp_concurrency_safe tool, turn_behavior = ContinueTurn\<rparr>) (tools s)"
    using assms unfolding dynamic_tool_contracts_def validate_server_def
    by (auto simp only: res_bind_eq_Inr ensure_eq_Inr sum.inject)
  have valid: "validate_contract (writer env) c = Ok ()" if c: "c \<in> set cs" for c
  proof -
    obtain t where t: "t \<in> set (tools s)" and ct: "c = \<lparr>name = mcp_tool_name t, category = ''external.mcp'', summary = description t,
        input_schema = mcp_input_schema t, provider_id = pid, scopes = mcp_scopes t,
        concurrency_safe = mcp_concurrency_safe t, turn_behavior = ContinueTurn\<rparr>" using c unfolding cs by auto
    obtain st r' where "check_tool env st t = Ok r'" using check_tools_each [OF fold t] by blast
    then show ?thesis unfolding ct by (rule declared_contract_valid [OF _ pid])
  qed
  have names: "map name cs = map mcp_tool_name (tools s)" unfolding cs by simp
  have distinct: "distinct (map name cs)" using check_tools_names [OF fold] names by simp
  have ne: "cs \<noteq> []" using ne cs by simp
  have "list_all (acceptable (writer env)) cs \<longleftrightarrow> set (map name cs) \<inter> set MODEL_TOOL_CATALOG_ORDER = {}"
    using valid by (auto simp: list_all_iff acceptable_def)
  then have "from_contracts (writer env) cs = Ok reg \<longleftrightarrow>
      set (map name cs) \<inter> set MODEL_TOOL_CATALOG_ORDER = {} \<and>
      length (array_text (writer env) (map DynamicToolContract_value cs)) \<le> MAX_TOOL_CONTRACT_BYTES \<and>
      reg = registry_spec (writer env) cs"
    using ne distinct unfolding from_contracts_iff by blast
  then show ?thesis using valid names distinct by (simp only: list_all_iff) blast
qed

definition sample_env :: "unit mcp_env" where
  "sample_env = \<lparr>writer = sample_writer,
     codec = \<lparr>encode = (\<lambda>_. Ok ''{}''), sha256_hex = (\<lambda>_. replicate 64 CHR ''0'')\<rparr>,
     nfc = (\<lambda>s. s), parse_url = (\<lambda>_. None)\<rparr>"

definition sample_declaration :: "unit McpToolDeclarationV1" where
  "sample_declaration = \<lparr>source_name = ''find'', mcp_tool_name = ''find_it'', description = ''Find.'',
     mcp_input_schema = VObject [], mcp_concurrency_safe = True, mcp_scopes = [''a'', ''b'']\<rparr>"

definition sample_server :: "unit McpServerDeclarationV1" where
  "sample_server = \<lparr>server_id = ''src'', model_contract_digest = ''sha256:'' @ replicate 64 CHR ''0'',
     transport = Stdio ''bin/mcp'' [], lifecycle = AutoLifecycle, startup_timeout_ms = 10, tool_timeout_ms = 10,
     tools = [sample_declaration]\<rparr>"

lemma sample_mcp_texts:
  "trim ''find'' = ''find''" "trim ''Find.'' = ''Find.''" "trim ''a'' = ''a''" "trim ''b'' = ''b''"
  "trim ''bin/mcp'' = ''bin/mcp''" "is_lower_kebab ''src''" "is_lower_kebab ''plug''"
  "\<not> has_control ''find''" "\<not> has_control ''a''" "\<not> has_control ''b''" "\<not> has_control ''bin/mcp''"
  "split_on CHR ''/'' ''bin/mcp'' = [''bin'', ''mcp'']"
  by (simp add: is_lower_kebab_def starts_with_byte_def ends_with_byte_def is_ascii_lowercase_def
      byte_in_def byte_def | code_simp)+

lemma sample_digest: "is_sha256 (''sha256:'' @ replicate 64 CHR ''0'')"
  unfolding is_sha256_def strip_prefix_def by (simp add: list_all_iff lowercase_hex_def is_ascii_digit_def)

lemma sample_tool_checked: "check_tool sample_env (None, []) sample_declaration = Ok (Some ''find'', [''find_it''])"
  by (simp add: check_tool_def sample_declaration_def sample_env_def validate_exact_text_def sample_mcp_texts
      validate_lower_snake_def validate_model_description_def validate_tool_description_def chars_count_def
      ends_with_byte_def is_ascii_lowercase_def is_object_def limit_constants json_size_with_limit_def
      sample_writer_def counter_write_def not_after_def check_scope_def byte_in_def byte_def)

lemma sample_server_valid: "validate_server sample_env sample_server = Ok ()"
proof -
  have "mcp_model_contract_digest sample_env ''src'' [sample_declaration] = Ok (''sha256:'' @ replicate 64 CHR ''0'')"
    by (simp add: mcp_model_contract_digest_def validate_lower_kebab_def sample_mcp_texts digest_tool_def
        sample_declaration_def sample_env_def validate_model_description_def validate_tool_description_def
        chars_count_def limit_constants json_size_with_limit_def sample_writer_def counter_write_def budget_add_def
        ToolContractBudget_default_def sha256_def to_vec_def byte_in_def byte_def)
  moreover have "fold_result (check_tool sample_env) (None, []) [sample_declaration] = Ok (Some ''find'', [''find_it''])"
    using sample_tool_checked by simp
  moreover have "json_size_with_limit (writer sample_env) v MAX_TOOL_CONTRACT_BYTES = Ok 2" for v
    by (simp add: json_size_exact json_text_def sample_env_def sample_writer_def limit_constants)
  moreover have "check_transport sample_env (Stdio ''bin/mcp'' []) = Ok ()"
    by (simp add: validate_relative_resource_path_def starts_with_byte_def sample_mcp_texts
        sample_env_def byte_in_def byte_def)
  ultimately show ?thesis
    unfolding validate_server_def
    by (simp add: sample_server_def validate_lower_kebab_def sample_mcp_texts
        require_sha256_def sample_digest [simplified] del: fold_result.simps check_transport.simps)
qed


theorem mcp_tools_registrable_witness:
  "\<exists>cs. dynamic_tool_contracts sample_env sample_server ''plug'' = Ok cs \<and> map name cs = [''find_it''] \<and>
    from_contracts (writer sample_env) cs = Ok (registry_spec (writer sample_env) cs)"
proof -
  have "\<exists>cs. dynamic_tool_contracts sample_env sample_server ''plug'' = Ok cs"
    unfolding dynamic_tool_contracts_def sample_server_valid
    by (simp add: mcp_provider_id_def validate_lower_kebab_def sample_mcp_texts sample_server_def)
  then obtain cs where cs: "dynamic_tool_contracts sample_env sample_server ''plug'' = Ok cs" by blast
  note P = mcp_tools_registrable [OF cs, of "registry_spec (writer sample_env) cs"]
  have nm: "map name cs = [''find_it'']" using P by (simp add: sample_server_def sample_declaration_def)
  then obtain c where "cs = [c]" by auto
  then have fits: "length (array_text (writer sample_env) (map DynamicToolContract_value cs)) \<le> MAX_TOOL_CONTRACT_BYTES"
    by (simp add: array_text_def json_text_def sample_env_def sample_writer_def limit_constants)
  have free: "set (map name cs) \<inter> set MODEL_TOOL_CATALOG_ORDER = {}"
    unfolding nm by (simp add: MODEL_TOOL_CATALOG_ORDER_def)
  have "from_contracts (writer sample_env) cs = Ok (registry_spec (writer sample_env) cs)"
    using iffD2 [OF P [THEN conjunct2, THEN conjunct2, THEN conjunct2]] free fits by simp
  then show ?thesis using cs nm by (intro exI [of _ cs] conjI)
qed

end
