(* ===== verification/AgentComposition.thy ===== *)
theory AgentComposition
  imports McpServers
begin

text \<open>
  The resolved composition of an agent (\<open>core/src/extension/composition.rs\<close>): tool contracts, model
  binding and digests of everything else a model request depends on, resolved from a request's
  environment and validated again wherever a composition is read back. Encoder and hash are
  parameters; the JSON forms that are hashed and counted are written out field by field.
\<close>

section \<open>Compositions\<close>

record ResolvedModelBindingV1 =
  binding_provider_id :: string
  model_name :: string
  wire_protocol :: string
  config_digest :: string

record 'f ResolvedToolContractV1 =
  resolved_name :: string
  resolved_category :: string
  resolved_summary :: string
  resolved_input_schema :: "'f Value"
  resolved_provider_id :: string
  resolved_contract_digest :: string
  resolved_concurrency_safe :: bool
  resolved_turn_behavior :: ToolTurnBehavior
  resolved_scopes :: "string list"
  resolved_dynamic :: bool

record AgentCompositionInputsV1 =
  prompt_digest :: string
  model_binding :: ResolvedModelBindingV1
  skill_catalog_digest :: string
  plugin_activation_digest :: string
  hook_composition_digest :: string
  execution_profile_digest :: string
  policy_version :: string

text \<open>The fields of a composition are those of its inputs, the schema, the tools and the digest.\<close>

record 'f ResolvedAgentCompositionV1 =
  composition_schema :: string
  composition_inputs :: AgentCompositionInputsV1
  tool_contracts :: "'f ResolvedToolContractV1 list"
  composition_digest :: string

abbreviation RESOLVED_AGENT_COMPOSITION_SCHEMA_V1 :: string where
  "RESOLVED_AGENT_COMPOSITION_SCHEMA_V1 \<equiv> ''resolved_agent_composition_v1''"

definition ResolvedModelBindingV1_value :: "ResolvedModelBindingV1 \<Rightarrow> 'f Value" where
  "ResolvedModelBindingV1_value b = VObject
    [(''providerId'', VString (binding_provider_id b)), (''modelName'', VString (model_name b)),
     (''wireProtocol'', VString (wire_protocol b)), (''configDigest'', VString (config_digest b))]"

definition ResolvedToolContractV1_value :: "'f ResolvedToolContractV1 \<Rightarrow> 'f Value" where
  "ResolvedToolContractV1_value t = VObject
    [(''name'', VString (resolved_name t)), (''category'', VString (resolved_category t)),
     (''summary'', VString (resolved_summary t)), (''inputSchema'', resolved_input_schema t),
     (''providerId'', VString (resolved_provider_id t)), (''contractDigest'', VString (resolved_contract_digest t)),
     (''concurrencySafe'', VBool (resolved_concurrency_safe t)),
     (''turnBehavior'', VString (turn_behavior_str (resolved_turn_behavior t))),
     (''scopes'', VArray (map VString (resolved_scopes t))), (''dynamic'', VBool (resolved_dynamic t))]"

definition CompositionDigestPreimage_value :: "'f ResolvedAgentCompositionV1 \<Rightarrow> 'f Value" where
  "CompositionDigestPreimage_value c =
    (let i = composition_inputs c in VObject
    [(''schema'', VString (composition_schema c)), (''promptDigest'', VString (prompt_digest i)),
     (''modelBinding'', ResolvedModelBindingV1_value (model_binding i)),
     (''toolContracts'', VArray (map ResolvedToolContractV1_value (tool_contracts c))),
     (''skillCatalogDigest'', VString (skill_catalog_digest i)),
     (''pluginActivationDigest'', VString (plugin_activation_digest i)),
     (''hookCompositionDigest'', VString (hook_composition_digest i)),
     (''executionProfileDigest'', VString (execution_profile_digest i)),
     (''policyVersion'', VString (policy_version i))])"

definition composition_digest_of :: "'f json_codec \<Rightarrow> 'f ResolvedAgentCompositionV1 \<Rightarrow> string result" where
  "composition_digest_of lib c =
    sha256 lib ''centaeris.resolved_agent_composition.v1'' (CompositionDigestPreimage_value c)"

section \<open>Validation\<close>

definition required :: "string \<Rightarrow> string option \<Rightarrow> string result" where
  "required field value =
    (let value = (case value of None \<Rightarrow> [] | Some v \<Rightarrow> v) in
     if value = [] \<or> value \<noteq> trim value then Err (field @ '' is required'') else Ok value)"

definition validate_resolved_model_binding :: "ResolvedModelBindingV1 \<Rightarrow> unit result" where
  "validate_resolved_model_binding b =
    res_bind (required ''modelBinding.providerId'' (Some (binding_provider_id b))) (\<lambda>_.
    res_bind (required ''modelBinding.modelName'' (Some (model_name b))) (\<lambda>_.
    res_bind (required ''modelBinding.wireProtocol'' (Some (wire_protocol b))) (\<lambda>_.
    require_sha256 ''modelBinding.configDigest'' (config_digest b))))"

definition validate_inputs :: "AgentCompositionInputsV1 \<Rightarrow> unit result" where
  "validate_inputs inputs =
    res_bind (require_sha256 ''promptDigest'' (prompt_digest inputs)) (\<lambda>_.
    res_bind (validate_resolved_model_binding (model_binding inputs)) (\<lambda>_.
    res_bind (fold_result (\<lambda>_ (field, digest). require_sha256 field digest) ()
      [(''skillCatalogDigest'', skill_catalog_digest inputs), (''pluginActivationDigest'', plugin_activation_digest inputs),
       (''hookCompositionDigest'', hook_composition_digest inputs),
       (''executionProfileDigest'', execution_profile_digest inputs)]) (\<lambda>_.
    res_bind (required ''policyVersion'' (Some (policy_version inputs))) (\<lambda>_.
    Ok ()))))"

definition validate_tool_content :: "'f json_writer \<Rightarrow> string \<Rightarrow> 'f Value \<Rightarrow> unit result" where
  "validate_tool_content lib text tool_schema =
    res_bind (validate_tool_description text) (\<lambda>_.
    res_bind (ensure (is_object tool_schema) ''resolved agent composition tool inputSchema must be an object'') (\<lambda>_.
    res_bind (map_err (\<lambda>e. ''resolved agent composition tool inputSchema: '' @ e)
      (json_size_with_limit lib tool_schema MAX_TOOL_INPUT_SCHEMA_BYTES)) (\<lambda>_.
    Ok ())))"

text \<open>\<open>scopes.windows(2).any(|pair| pair[0] >= pair[1])\<close>.\<close>

definition adjacent_not_increasing :: "string list \<Rightarrow> bool" where
  "adjacent_not_increasing xs = list_ex (\<lambda>(x, y). x \<ge> y) (zip xs (tl xs))"

definition validate_tool ::
  "'f json_writer \<Rightarrow> string option \<times> ToolContractBudget \<Rightarrow> 'f ResolvedToolContractV1 \<Rightarrow>
    (string option \<times> ToolContractBudget) result" where
  "validate_tool lib st tool =
    res_bind (budget_add lib (snd st) (ResolvedToolContractV1_value tool)) (\<lambda>budget.
    res_bind (validate_tool_content lib (resolved_summary tool) (resolved_input_schema tool)) (\<lambda>_.
    res_bind (required ''tool name'' (Some (resolved_name tool))) (\<lambda>_.
    res_bind (required ''tool category'' (Some (resolved_category tool))) (\<lambda>_.
    res_bind (required ''tool providerId'' (Some (resolved_provider_id tool))) (\<lambda>_.
    res_bind (require_sha256 ''tool contractDigest'' (resolved_contract_digest tool)) (\<lambda>_.
    res_bind (ensure (\<not> adjacent_not_increasing (resolved_scopes tool))
      ''resolved agent composition tool scopes must be uniquely sorted'') (\<lambda>_.
    res_bind (ensure (\<not> not_after (fst st) (resolved_name tool))
      ''resolved agent composition tools must be uniquely sorted'') (\<lambda>_.
    Ok (Some (resolved_name tool), budget)))))))))"

definition validate_resolved_agent_composition ::
  "'f json_writer \<Rightarrow> 'f json_codec \<Rightarrow> 'f ResolvedAgentCompositionV1 \<Rightarrow> unit result" where
  "validate_resolved_agent_composition wr lib c =
    res_bind (ensure (composition_schema c = RESOLVED_AGENT_COMPOSITION_SCHEMA_V1)
      ''resolved agent composition schema mismatch'') (\<lambda>_.
    res_bind (validate_inputs (composition_inputs c)) (\<lambda>_.
    res_bind (fold_result (validate_tool wr) (None, ToolContractBudget_default) (tool_contracts c)) (\<lambda>_.
    res_bind (require_sha256 ''compositionDigest'' (composition_digest c)) (\<lambda>_.
    res_bind (composition_digest_of lib c) (\<lambda>digest.
    ensure (digest = composition_digest c) ''resolved agent composition digest mismatch'')))))"

section \<open>Resolution\<close>

definition resolve_tool :: "'f json_codec \<Rightarrow> 'f ToolContract \<Rightarrow> 'f ResolvedToolContractV1 result" where
  "resolve_tool lib contract =
    res_bind (required ''tool providerId'' (contract_provider_id contract)) (\<lambda>pid.
    res_bind (contract_digest lib contract) (\<lambda>digest.
    res_bind (require_sha256 ''tool contractDigest'' digest) (\<lambda>_.
    let scopes = sort (contract_scopes contract) in
    res_bind (ensure (\<not> adjacent_equal scopes)
      (''resolved agent composition tool scopes are duplicated: '' @ contract_name contract)) (\<lambda>_.
    res_bind (required ''tool name'' (Some (contract_name contract))) (\<lambda>n.
    res_bind (required ''tool category'' (Some (contract_category contract))) (\<lambda>cat.
    Ok \<lparr>resolved_name = n, resolved_category = cat, resolved_summary = contract_summary contract,
      resolved_input_schema = contract_input_schema contract, resolved_provider_id = pid,
      resolved_contract_digest = digest, resolved_concurrency_safe = contract_concurrency_safe contract,
      resolved_turn_behavior = contract_turn_behavior contract, resolved_scopes = scopes,
      resolved_dynamic = contract_dynamic contract\<rparr>))))))"

text \<open>The mapping closure with the names seen so far, collected into a result.\<close>

fun resolve_tools :: "'f json_codec \<Rightarrow> string list \<Rightarrow> 'f ToolContract list \<Rightarrow> 'f ResolvedToolContractV1 list result" where
  "resolve_tools lib seen_names [] = Ok []"
| "resolve_tools lib seen_names (contract # rest) =
    res_bind (ensure (contract_name contract \<notin> set seen_names)
      (''resolved agent composition has duplicate tool name: '' @ contract_name contract)) (\<lambda>_.
    res_bind (resolve_tool lib contract) (\<lambda>tool.
    res_bind (resolve_tools lib (contract_name contract # seen_names) rest) (\<lambda>tools.
    Ok (tool # tools))))"

definition resolve_validated_agent_composition ::
  "'f json_writer \<Rightarrow> 'f json_codec \<Rightarrow> AgentCompositionInputsV1 \<Rightarrow> 'f ToolContract list \<Rightarrow>
    'f ResolvedAgentCompositionV1 result" where
  "resolve_validated_agent_composition wr lib inputs cs =
    res_bind (resolve_tools lib [] cs) (\<lambda>resolved_tools.
    let resolved_tools = sort_key resolved_name resolved_tools in
    res_bind (fold_result (budget_add wr) ToolContractBudget_default
      (map ResolvedToolContractV1_value resolved_tools)) (\<lambda>_.
    let resolved = \<lparr>composition_schema = RESOLVED_AGENT_COMPOSITION_SCHEMA_V1, composition_inputs = inputs,
      tool_contracts = resolved_tools, composition_digest = []\<rparr> in
    res_bind (composition_digest_of lib resolved) (\<lambda>digest.
    Ok (resolved\<lparr>composition_digest := digest\<rparr>))))"

definition admit_contract ::
  "'f json_writer \<Rightarrow> ToolContractBudget \<Rightarrow> 'f ToolContract \<Rightarrow> ToolContractBudget result" where
  "admit_contract wr budget contract =
    res_bind (budget_add wr budget (ToolContract_value contract)) (\<lambda>budget.
    res_bind (validate_tool_content wr (contract_summary contract) (contract_input_schema contract)) (\<lambda>_.
    Ok budget))"

definition resolve_agent_composition ::
  "'f json_writer \<Rightarrow> 'f json_codec \<Rightarrow> AgentCompositionInputsV1 \<Rightarrow> 'f ToolContract list \<Rightarrow>
    'f ResolvedAgentCompositionV1 result" where
  "resolve_agent_composition wr lib inputs cs =
    res_bind (validate_inputs inputs) (\<lambda>_.
    res_bind (fold_result (admit_contract wr) ToolContractBudget_default cs) (\<lambda>_.
    resolve_validated_agent_composition wr lib inputs cs))"

text \<open>
  Resolving a model request: the tools the model sees must be exactly resolved contracts, and the
  binding must be that of the request. The parts of the request the digests range over are given as
  JSON values; \<open>provider_kind\<close> is the JSON form of the provider kind.
\<close>

record 'f ModelToolDefinition =
  definition_name :: string
  definition_description :: string
  definition_input_schema :: "'f Value"

record 'f composition_request =
  tool_definitions :: "'f ModelToolDefinition list"
  system_prompt :: "'f Value"
  session_config :: "'f Value"
  provider_kind :: "'f Value result"
  request_provider_id :: string
  request_model :: string

record 'f AgentCompositionEnvironmentV1 =
  environment_tool_contracts :: "'f ToolContract list"
  environment_skill_catalog_digest :: string
  environment_plugin_activation_digest :: string
  environment_hook_composition_digest :: string
  environment_execution_profile_digest :: string
  environment_policy_version :: string
  model_binding_override :: "ResolvedModelBindingV1 option"

definition check_definition :: "'f ToolContract list \<Rightarrow> 'f ModelToolDefinition \<Rightarrow> unit result" where
  "check_definition cs d =
    (case find (\<lambda>c. contract_name c = definition_name d) cs of
       None \<Rightarrow> Err (''model-visible tool has no resolved contract: '' @ definition_name d)
     | Some c \<Rightarrow>
         ensure (\<not> (contract_summary c \<noteq> definition_description d
             \<or> \<not> value_eq (contract_input_schema c) (definition_input_schema d)))
           (''model-visible tool contract mismatch: '' @ definition_name d))"

definition resolve_request ::
  "'f json_writer \<Rightarrow> 'f json_codec \<Rightarrow> 'f AgentCompositionEnvironmentV1 \<Rightarrow> 'f composition_request \<Rightarrow>
    'f ResolvedAgentCompositionV1 result" where
  "resolve_request wr lib env request =
    res_bind (fold_result (\<lambda>_. check_definition (environment_tool_contracts env)) () (tool_definitions request)) (\<lambda>_.
    res_bind (sha256 lib ''centaeris.agent_prompt.v1'' (system_prompt request)) (\<lambda>prompt.
    res_bind (sha256 lib ''centaeris.model_session_config.v1'' (session_config request)) (\<lambda>config.
    res_bind (map_err (\<lambda>e. ''encode model provider kind failed: '' @ e) (provider_kind request)) (\<lambda>kind.
    res_bind (ok_or ''model provider kind must serialize as a string'' (as_str kind)) (\<lambda>wire.
    let binding = (case model_binding_override env of
        Some b \<Rightarrow> b
      | None \<Rightarrow> \<lparr>binding_provider_id = request_provider_id request, model_name = request_model request,
          wire_protocol = wire, config_digest = config\<rparr>) in
    res_bind (ensure (\<not> (binding_provider_id binding \<noteq> request_provider_id request
        \<or> model_name binding \<noteq> request_model request))
      ''resolved model binding does not match request config'') (\<lambda>_.
    resolve_agent_composition wr lib
      \<lparr>prompt_digest = prompt, model_binding = binding,
       skill_catalog_digest = environment_skill_catalog_digest env,
       plugin_activation_digest = environment_plugin_activation_digest env,
       hook_composition_digest = environment_hook_composition_digest env,
       execution_profile_digest = environment_execution_profile_digest env,
       policy_version = environment_policy_version env\<rparr>
      (environment_tool_contracts env)))))))"

section \<open>A resolved composition is valid\<close>

lemma required_Ok [simp]: "required f (Some v) = Ok r \<longleftrightarrow> r = v \<and> v \<noteq> [] \<and> trim v = v"
  by (auto simp: required_def)

lemma required_opt_Ok: "required f v = Ok r \<Longrightarrow> r \<noteq> [] \<and> trim r = r"
  by (auto simp: required_def Let_def split: if_splits)

lemma adjacent_sorted:
  "sorted xs \<Longrightarrow> \<not> adjacent_equal xs \<Longrightarrow> \<not> adjacent_not_increasing (xs :: string list)"
proof (induction xs)
  case (Cons x xs)
  then show ?case by (cases xs) (auto simp: adjacent_equal_def adjacent_not_increasing_def)
qed (simp add: adjacent_not_increasing_def)

definition resolved_ok :: "'f json_writer \<Rightarrow> 'f ResolvedToolContractV1 \<Rightarrow> bool" where
  "resolved_ok wr t \<longleftrightarrow> validate_tool_content wr (resolved_summary t) (resolved_input_schema t) = Ok () \<and>
    resolved_name t \<noteq> [] \<and> trim (resolved_name t) = resolved_name t \<and>
    resolved_category t \<noteq> [] \<and> trim (resolved_category t) = resolved_category t \<and>
    resolved_provider_id t \<noteq> [] \<and> trim (resolved_provider_id t) = resolved_provider_id t \<and>
    is_sha256 (resolved_contract_digest t) \<and> \<not> adjacent_not_increasing (resolved_scopes t)"

lemma resolve_tool_ok:
  assumes "resolve_tool lib c = Ok t" and "validate_tool_content wr (contract_summary c) (contract_input_schema c) = Ok ()"
  shows "resolved_ok wr t" and "resolved_name t = contract_name c"
proof -
  obtain pid digest where pid: "required ''tool providerId'' (contract_provider_id c) = Ok pid"
    and t: "t = \<lparr>resolved_name = contract_name c, resolved_category = contract_category c, resolved_summary = contract_summary c,
      resolved_input_schema = contract_input_schema c, resolved_provider_id = pid,
      resolved_contract_digest = digest, resolved_concurrency_safe = contract_concurrency_safe c,
      resolved_turn_behavior = contract_turn_behavior c, resolved_scopes = sort (contract_scopes c),
      resolved_dynamic = contract_dynamic c\<rparr>"
    and ok: "is_sha256 digest" "\<not> adjacent_equal (sort (contract_scopes c))"
      "contract_name c \<noteq> []" "trim (contract_name c) = contract_name c"
      "contract_category c \<noteq> []" "trim (contract_category c) = contract_category c"
    using assms(1) unfolding resolve_tool_def Let_def require_sha256_def
    by (auto simp only: res_bind_eq_Inr ensure_eq_Inr required_Ok sum.inject)
  show "resolved_ok wr t" "resolved_name t = contract_name c"
    using assms(2) ok required_opt_Ok [OF pid] adjacent_sorted [OF sorted_sort]
    by (simp_all add: t resolved_ok_def)
qed

lemma admit_contracts_content:
  "fold_result (admit_contract wr) b cs = Ok b' \<Longrightarrow> c \<in> set cs \<Longrightarrow>
    validate_tool_content wr (contract_summary c) (contract_input_schema c) = Ok ()"
  by (induction cs arbitrary: b) (auto simp: res_bind_eq_Inr admit_contract_def)

lemma resolve_tools_ok:
  assumes "resolve_tools lib seen cs = Ok ts"
    and "\<And>c. c \<in> set cs \<Longrightarrow> validate_tool_content wr (contract_summary c) (contract_input_schema c) = Ok ()"
  shows "list_all (resolved_ok wr) ts \<and> map resolved_name ts = map contract_name cs \<and>
    distinct (map contract_name cs) \<and> set (map contract_name cs) \<inter> set seen = {}"
  using assms
proof (induction cs arbitrary: seen ts)
  case (Cons c cs)
  then obtain t ts' where t: "resolve_tool lib c = Ok t" and ts: "ts = t # ts'"
    and seen: "contract_name c \<notin> set seen" and rest: "resolve_tools lib (contract_name c # seen) cs = Ok ts'"
    by (auto simp: res_bind_eq_Inr)
  have "resolved_ok wr t" "resolved_name t = contract_name c"
    using resolve_tool_ok [OF t] Cons.prems(2) by auto
  then show ?case using Cons.IH [OF rest] Cons.prems(2) ts seen by auto
qed simp

lemma validate_tools_ok:
  assumes "fold_result (budget_add wr) b (map ResolvedToolContractV1_value ts) = Ok b'"
    and "list_all (resolved_ok wr) ts" and "sorted_wrt (<) (map resolved_name ts)"
    and "\<And>p t. prev = Some p \<Longrightarrow> t \<in> set ts \<Longrightarrow> p < resolved_name t"
  shows "\<exists>r. fold_result (validate_tool wr) (prev, b) ts = Ok r"
  using assms
proof (induction ts arbitrary: prev b)
  case (Cons t ts)
  from Cons.prems(1) obtain b1 where b1: "budget_add wr b (ResolvedToolContractV1_value t) = Ok b1"
    and rest: "fold_result (budget_add wr) b1 (map ResolvedToolContractV1_value ts) = Ok b'"
    by (auto simp: res_bind_eq_Inr)
  have "\<not> not_after prev (resolved_name t)"
    using Cons.prems(4) by (auto simp: not_after_def not_le split: option.splits)
  then have "validate_tool wr (prev, b) t = Ok (Some (resolved_name t), b1)"
    using b1 Cons.prems(2) by (simp add: validate_tool_def resolved_ok_def require_sha256_def required_def)
  moreover have "\<exists>r. fold_result (validate_tool wr) (Some (resolved_name t), b1) ts = Ok r"
    using Cons.prems(2,3) by (intro Cons.IH [OF rest]) auto
  ultimately show ?case by simp
qed simp

section \<open>Order of the contracts\<close>

lemma resolve_tools_iff:
  "resolve_tools lib seen cs = Ok ts \<longleftrightarrow>
    (\<forall>c \<in> set cs. is_ok (resolve_tool lib c)) \<and> ts = map (projr \<circ> resolve_tool lib) cs \<and>
    distinct (map contract_name cs) \<and> set (map contract_name cs) \<inter> set seen = {}"
proof (induction cs arbitrary: seen ts)
  case Nil
  show ?case by auto
next
  case (Cons c cs)
  show ?case
  proof (cases "resolve_tool lib c")
    case (Inr t)
    then have "resolve_tools lib seen (c # cs) = Ok ts \<longleftrightarrow> contract_name c \<notin> set seen \<and>
        (\<exists>ts'. resolve_tools lib (contract_name c # seen) cs = Ok ts' \<and> ts = t # ts')"
      by (auto simp: res_bind_eq_Inr)
    then show ?thesis unfolding Cons.IH using Inr by auto
  qed (auto simp: res_bind_eq_Inr)
qed

lemma admit_contracts_iff:
  "is_ok (fold_result (admit_contract wr) b cs) \<longleftrightarrow>
    (\<forall>c \<in> set cs. validate_tool_content wr (contract_summary c) (contract_input_schema c) = Ok ()) \<and>
    is_ok (fold_result (budget_add wr) b (map ToolContract_value cs))"
proof (induction cs arbitrary: b)
  case (Cons c cs)
  show ?case
  proof (cases "budget_add wr b (ToolContract_value c)")
    case (Inr b1)
    then show ?thesis
      using Cons.IH [of b1]
      by (cases "validate_tool_content wr (contract_summary c) (contract_input_schema c)") (auto simp: admit_contract_def)
  qed (simp add: admit_contract_def)
qed simp

lemma budget_ok_iff:
  "is_ok (fold_result (budget_add wr) ToolContractBudget_default vs) \<longleftrightarrow>
    vs = [] \<or> length (array_text wr vs) \<le> MAX_TOOL_CONTRACT_BYTES"
  unfolding is_ok_iff budget_from_default by (cases "vs = []") simp_all

lemma budget_ok_mset:
  assumes "mset vs = mset vs'"
  shows "is_ok (fold_result (budget_add wr) ToolContractBudget_default vs) \<longleftrightarrow>
    is_ok (fold_result (budget_add wr) ToolContractBudget_default vs')"
proof -
  have "vs = [] \<longleftrightarrow> vs' = []" using assms by (metis mset_zero_iff)
  then show ?thesis unfolding budget_ok_iff array_text_mset [OF assms] by simp
qed

lemma resolve_validated_mset:
  assumes m: "mset cs = mset cs'" and content: "\<forall>c \<in> set cs. validate_tool_content wr (contract_summary c) (contract_input_schema c) = Ok ()"
    and r: "resolve_validated_agent_composition wr lib inputs cs = Ok r"
  shows "resolve_validated_agent_composition wr lib inputs cs' = Ok r"
proof -
  obtain ts where ts: "resolve_tools lib [] cs = Ok ts"
    using r unfolding resolve_validated_agent_composition_def by (auto simp: res_bind_eq_Inr)
  define ts' where "ts' = map (projr \<circ> resolve_tool lib) cs'"
  have d: "distinct (map contract_name cs')"
    using ts m unfolding resolve_tools_iff by (metis mset_eq_imp_distinct_iff mset_map)
  have ts': "resolve_tools lib [] cs' = Ok ts'"
    using ts d mset_eq_setD [OF m] unfolding resolve_tools_iff ts'_def by simp
  have "mset ts = mset ts'" using ts m unfolding resolve_tools_iff ts'_def by simp
  moreover have "distinct (map resolved_name ts)" using resolve_tools_ok [OF ts, of wr] content by simp
  ultimately have "sort_key resolved_name ts = sort_key resolved_name ts'" by (rule sort_key_mset_eq)
  then show ?thesis using r ts ts' unfolding resolve_validated_agent_composition_def by simp
qed

lemma resolve_mset:
  assumes m: "mset cs = mset cs'" and r: "resolve_agent_composition wr lib inputs cs = Ok r"
  shows "resolve_agent_composition wr lib inputs cs' = Ok r"
proof -
  have i: "validate_inputs inputs = Ok ()" and a: "is_ok (fold_result (admit_contract wr) ToolContractBudget_default cs)"
    and v: "resolve_validated_agent_composition wr lib inputs cs = Ok r"
    using r unfolding resolve_agent_composition_def by (auto simp: res_bind_eq_Inr)
  have content: "\<forall>c \<in> set cs. validate_tool_content wr (contract_summary c) (contract_input_schema c) = Ok ()"
    using a unfolding admit_contracts_iff by blast
  have "mset (map ToolContract_value cs) = mset (map ToolContract_value cs')" using m by simp
  then have "is_ok (fold_result (admit_contract wr) ToolContractBudget_default cs')"
    using a budget_ok_mset mset_eq_setD [OF m] unfolding admit_contracts_iff by metis
  then show ?thesis using i resolve_validated_mset [OF m content v]
    unfolding resolve_agent_composition_def by (auto simp: is_ok_iff)
qed

section \<open>Properties\<close>

definition digest_documented :: "'f json_codec \<Rightarrow> bool" where
  "digest_documented lib \<longleftrightarrow> (\<forall>s. length (sha256_hex lib s) = 64 \<and> list_all lowercase_hex (sha256_hex lib s))"

lemma sha256_is_sha256: "digest_documented lib \<Longrightarrow> sha256 lib d v = Ok h \<Longrightarrow> is_sha256 h"
  unfolding sha256_Ok_iff is_sha256_def digest_documented_def strip_prefix_def by auto

lemma sorted_names_strict:
  "distinct (map f xs) \<Longrightarrow> sorted_wrt (<) (map f (sort_key f (xs :: 'a list)) :: string list)"
proof -
  assume "distinct (map f xs)"
  moreover have "mset (map f (sort_key f xs)) = mset (map f xs)" by (simp only: mset_map mset_sort)
  ultimately have "distinct (map f (sort_key f xs))" by (metis mset_eq_imp_distinct_iff)
  then show ?thesis by (simp add: strict_sorted_iff)
qed

text \<open>
  C27: whatever composition resolution produces, validation accepts: a composition resolved from
  valid inputs passes validate_resolved_agent_composition unchanged, its tools are the given
  contracts sorted by name, and neither the tools nor the digest depend on the order in which the
  contracts were given. The hash yields 64 lower-case hexadecimal digits.
\<close>

theorem resolved_composition_valid:
  assumes lib: "digest_documented lib" and r: "resolve_agent_composition wr lib inputs cs = Ok r"
  shows "validate_resolved_agent_composition wr lib r = Ok () \<and>
    composition_inputs r = inputs \<and> map resolved_name (tool_contracts r) = sort (map contract_name cs) \<and>
    (mset cs = mset cs' \<longrightarrow> resolve_agent_composition wr lib inputs cs' = Ok r)"
proof -
  obtain ts b a digest where inputs: "validate_inputs inputs = Ok ()"
    and admit: "fold_result (admit_contract wr) ToolContractBudget_default cs = Ok a"
    and ts: "resolve_tools lib [] cs = Ok ts"
    and budget: "fold_result (budget_add wr) ToolContractBudget_default
      (map ResolvedToolContractV1_value (sort_key resolved_name ts)) = Ok b"
    and digest: "composition_digest_of lib \<lparr>composition_schema = RESOLVED_AGENT_COMPOSITION_SCHEMA_V1,
      composition_inputs = inputs, tool_contracts = sort_key resolved_name ts, composition_digest = []\<rparr> = Ok digest"
    and res: "r = \<lparr>composition_schema = RESOLVED_AGENT_COMPOSITION_SCHEMA_V1, composition_inputs = inputs,
      tool_contracts = sort_key resolved_name ts, composition_digest = digest\<rparr>"
    using r unfolding resolve_agent_composition_def resolve_validated_agent_composition_def Let_def
    by (auto simp: res_bind_eq_Inr)
  have tools: "list_all (resolved_ok wr) ts" "map resolved_name ts = map contract_name cs" "distinct (map resolved_name ts)"
    using resolve_tools_ok [OF ts admit_contracts_content [OF admit]] by auto
  have "\<exists>s. fold_result (validate_tool wr) (None, ToolContractBudget_default) (sort_key resolved_name ts) = Ok s"
    using tools(1) sorted_names_strict [OF tools(3)] by (intro validate_tools_ok [OF budget]) (auto simp: list_all_iff)
  then have "\<exists>s. fold_result (validate_tool wr) (None, ToolContractBudget_default) (tool_contracts r) = Ok s"
    by (simp add: res)
  moreover have "composition_digest_of lib r = Ok digest"
    using digest unfolding res composition_digest_of_def CompositionDigestPreimage_value_def by simp
  moreover have "is_sha256 digest"
    using digest sha256_is_sha256 [OF lib] unfolding composition_digest_of_def by blast
  ultimately have "validate_resolved_agent_composition wr lib r = Ok ()"
    using inputs unfolding validate_resolved_agent_composition_def by (auto simp: res require_sha256_def)
  moreover have "map resolved_name (tool_contracts r) = sort (map contract_name cs)"
    unfolding res using tools(2) map_sort_key [of "\<lambda>x. x" resolved_name resolved_name ts] by simp
  ultimately show ?thesis using resolve_mset [OF _ r] res by simp
qed

definition zero_digest :: string where
  "zero_digest = ''sha256:'' @ replicate 64 CHR ''0''"

definition sample_inputs :: AgentCompositionInputsV1 where
  "sample_inputs = \<lparr>prompt_digest = zero_digest,
     model_binding = \<lparr>binding_provider_id = ''a'', model_name = ''b'', wire_protocol = ''a'', config_digest = zero_digest\<rparr>,
     skill_catalog_digest = zero_digest, plugin_activation_digest = zero_digest,
     hook_composition_digest = zero_digest, execution_profile_digest = zero_digest, policy_version = ''b''\<rparr>"

definition sample_contract :: "string \<Rightarrow> unit ToolContract" where
  "sample_contract n = \<lparr>contract_name = n, contract_category = ''external.context'', contract_summary = ''Search.'',
     contract_input_schema = VObject [], contract_concurrency_safe = True, contract_turn_behavior = ContinueTurn,
     contract_provider_id = Some ''example.local'', contract_schema_hash = Some zero_digest,
     contract_scopes = [''b'', ''a''], contract_dynamic = True\<rparr>"

lemma zero_digest_ok: "is_sha256 zero_digest"
  unfolding zero_digest_def by (rule sample_digest)

lemma sample_inputs_valid: "validate_inputs sample_inputs = Ok ()"
  by (simp add: validate_inputs_def validate_resolved_model_binding_def sample_inputs_def require_sha256_def
      zero_digest_ok required_def sample_trims)

lemma sample_composition_resolved:
  "\<exists>r. resolve_agent_composition sample_writer (codec sample_env) sample_inputs
    [sample_contract ''search'', sample_contract ''lookup''] = Ok r"
proof -
  have content: "validate_tool_content sample_writer ''Search.'' (VObject []) = Ok ()"
    by (simp add: validate_tool_content_def validate_tool_description_def chars_count_def limit_constants
        is_object_def json_size_with_limit_def sample_writer_def counter_write_def sample_trims byte_in_def byte_def)
  have fits: "\<exists>b. fold_result (budget_add sample_writer) ToolContractBudget_default [v, w] = Ok b" for v w
    unfolding budget_from_default
    by (simp add: array_text_def json_text_def sample_writer_def limit_constants)
  have "is_ok (fold_result (admit_contract sample_writer) ToolContractBudget_default
      [sample_contract ''search'', sample_contract ''lookup''])"
    unfolding admit_contracts_iff using fits content by (simp add: is_ok_iff sample_contract_def)
  moreover have "\<exists>t. resolve_tool (codec sample_env) (sample_contract n) = Ok t" if "n = ''search'' \<or> n = ''lookup''" for n
    using that by (auto simp: resolve_tool_def sample_contract_def required_def sample_trims contract_digest_def
        zero_digest_ok require_sha256_def adjacent_equal_def)
  then have "\<exists>ts. resolve_tools (codec sample_env) [] [sample_contract ''search'', sample_contract ''lookup''] = Ok ts"
    unfolding resolve_tools_iff by (simp add: is_ok_iff) (simp add: sample_contract_def)
  then obtain ts where ts: "resolve_tools (codec sample_env) [] [sample_contract ''search'', sample_contract ''lookup''] = Ok ts"
    by blast
  then have "length (sort_key resolved_name ts) = 2" unfolding resolve_tools_iff by simp
  then obtain x y where xy: "sort_key resolved_name ts = [x, y]"
    unfolding numeral_2_eq_2 length_Suc_conv length_0_conv by blast
  have "\<exists>h. composition_digest_of (codec sample_env) c = Ok h" for c
    unfolding composition_digest_of_def sha256_Ok_iff by (simp add: sample_env_def)
  then have "\<exists>r. resolve_validated_agent_composition sample_writer (codec sample_env) sample_inputs
      [sample_contract ''search'', sample_contract ''lookup''] = Ok r"
    using fits [of "ResolvedToolContractV1_value x" "ResolvedToolContractV1_value y"] ts
    by (simp add: resolve_validated_agent_composition_def xy res_bind_eq_Inr Let_def del: resolve_tools.simps fold_result.simps)
  ultimately show ?thesis
    using sample_inputs_valid by (auto simp: resolve_agent_composition_def is_ok_iff simp del: fold_result.simps)
qed

theorem resolved_composition_valid_witness:
  "\<exists>r. resolve_agent_composition sample_writer (codec sample_env) sample_inputs
      [sample_contract ''search'', sample_contract ''lookup''] = Ok r \<and>
    validate_resolved_agent_composition sample_writer (codec sample_env) r = Ok () \<and>
    resolve_agent_composition sample_writer (codec sample_env) sample_inputs
      [sample_contract ''lookup'', sample_contract ''search''] = Ok r"
proof -
  obtain r where r: "resolve_agent_composition sample_writer (codec sample_env) sample_inputs
      [sample_contract ''search'', sample_contract ''lookup''] = Ok r" using sample_composition_resolved by (rule exE)
  have d: "digest_documented (codec sample_env)"
    unfolding digest_documented_def by (simp add: sample_env_def list_all_iff lowercase_hex_def is_ascii_digit_def)
  have m: "mset [sample_contract ''search'', sample_contract ''lookup''] = mset [sample_contract ''lookup'', sample_contract ''search'']"
    by simp
  note P = resolved_composition_valid [OF d r, of "[sample_contract ''lookup'', sample_contract ''search'']"]
  show ?thesis
    by (intro exI [of _ r] conjI r P [THEN conjunct1] mp [OF P [THEN conjunct2, THEN conjunct2, THEN conjunct2] m])
qed

end
