(* ===== verification/ToolConcurrency.thy ===== *)
theory ToolConcurrency
  imports WeakRegistry
begin

text \<open>
  The budget of tools that run at the same time in an execution scope (\<open>core/src/tool/concurrency.rs\<close>).
  A coordinator has a semaphore with as many permits as its capacity and a semaphore of one permit
  for tools that must not run beside each other; a serial tool takes the serial permit first and then
  a tool permit. The semaphore (\<open>tokio\<close>) is a parameter with its documented behaviour as a
  hypothesis.

  Threads interleave between their attempts: a blocking or asynchronous acquisition is a sequence of
  attempts on one semaphore, of which the last succeeds. Permits are released when they are dropped,
  the fields of a serial permit in their order of declaration.
\<close>

section \<open>Semaphores\<close>

datatype TryAcquireError = NoPermits | Closed

record 's semaphore_lib =
  semaphore_new :: "nat \<Rightarrow> 's"
  try_acquire_owned :: "'s \<Rightarrow> TryAcquireError + 's"
  release_permit :: "'s \<Rightarrow> 's"
  available_permits :: "'s \<Rightarrow> nat"

text \<open>
  What \<open>tokio::sync::Semaphore\<close> documents of a semaphore that is never closed: it starts with the given
  permits, an attempt takes one permit when there is one and fails with \<open>NoPermits\<close> otherwise, and a
  dropped permit is added back.
\<close>

definition semaphore_documented :: "'s semaphore_lib \<Rightarrow> bool" where
  "semaphore_documented lib \<longleftrightarrow>
    (\<forall>n. available_permits lib (semaphore_new lib n) = n) \<and>
    (\<forall>s. case try_acquire_owned lib s of
        Inl e \<Rightarrow> e = NoPermits \<and> available_permits lib s = 0
      | Inr s' \<Rightarrow> available_permits lib s = Suc (available_permits lib s')) \<and>
    (\<forall>s. available_permits lib (release_permit lib s) = Suc (available_permits lib s))"

section \<open>Coordinators\<close>

abbreviation MAX_TOOL_PARALLELISM :: nat where
  "MAX_TOOL_PARALLELISM \<equiv> 64"

definition normalize_tool_parallelism :: "nat \<Rightarrow> nat" where
  "normalize_tool_parallelism value = max 1 (min MAX_TOOL_PARALLELISM value)"

record 's ToolConcurrencyCoordinatorState =
  capacity :: nat
  semaphore :: 's
  serial_semaphore :: 's

definition coordinator_new :: "'s semaphore_lib \<Rightarrow> nat \<Rightarrow> 's ToolConcurrencyCoordinatorState" where
  "coordinator_new lib requested =
    (let capacity = normalize_tool_parallelism requested in
     \<lparr>capacity = capacity, semaphore = semaphore_new lib capacity, serial_semaphore = semaphore_new lib 1\<rparr>)"

text \<open>
  \<open>ToolConcurrencyRegistry::for_scope\<close>; the first argument says whether the lock of the registry is
  poisoned. The upgraded reference is dropped again when the capacities differ.
\<close>

definition for_scope ::
  "'s semaphore_lib \<Rightarrow> bool \<Rightarrow> string \<Rightarrow> nat \<Rightarrow> 's ToolConcurrencyCoordinatorState arc_heap \<times> weak_map \<Rightarrow>
    (string + nat) \<times> 's ToolConcurrencyCoordinatorState arc_heap \<times> weak_map" where
  "for_scope lib registry_poisoned scope requested s =
    (let scope_id = trim scope in
     if scope_id = [] then (Err ''tool concurrency coordinator scope id is required'', s)
     else let capacity' = normalize_tool_parallelism requested in
     if registry_poisoned then (Err ''tool concurrency coordinator registry poisoned'', s)
     else let h = fst s; reg = registry_retain h (snd s) in
     case Option.bind (map_of reg scope_id) (weak_upgrade h) of
       Some (existing, h') \<Rightarrow>
         let used = capacity (fst (h' ! existing)) in
         if used \<noteq> capacity'
         then (Err (''tool concurrency coordinator scope '' @ scope_id @ '' already uses capacity '' @ show_nat used
             @ '', requested '' @ show_nat capacity'), arc_drop existing h', reg)
         else (Ok existing, h', reg)
     | None \<Rightarrow>
         let (p, h') = arc_new (coordinator_new lib capacity') h in (Ok p, h', registry_insert scope_id p reg))"

section \<open>Acquiring and releasing\<close>

text \<open>
  One round of \<open>acquire_owned_blocking\<close>: the permit, another round after parking, or the panic on a
  closed semaphore.
\<close>

datatype 's acquire_round = Acquired 's | Parked | Panicked

definition acquire_owned_blocking_round :: "'s semaphore_lib \<Rightarrow> 's \<Rightarrow> 's acquire_round" where
  "acquire_owned_blocking_round lib s =
    (case try_acquire_owned lib s of
       Inr s' \<Rightarrow> Acquired s'
     | Inl NoPermits \<Rightarrow> Parked
     | Inl Closed \<Rightarrow> Panicked)"

text \<open>
  Phases of a thread: \<open>WantTool\<close> is inside \<open>acquire\<close>, \<open>WantSerial\<close> and \<open>SerialWantTool\<close> are inside
  \<open>acquire_serial\<close> without and with the serial permit; \<open>HoldSerial\<close> holds both permits and \<open>SerialDropped\<close>
  is inside the drop of a serial permit, after its first field.
\<close>

datatype budget_phase = BudgetIdle | WantTool | HoldTool | WantSerial | SerialWantTool | HoldSerial | SerialDropped

record 's budget_world =
  budget :: "'s ToolConcurrencyCoordinatorState"
  budget_phases :: "budget_phase list"

datatype budget_event = Acquire nat | AcquireSerial nat | Attempt nat | DropPermit nat

definition budget_phase_of :: "'s budget_world \<Rightarrow> nat \<Rightarrow> budget_phase \<Rightarrow> bool" where
  "budget_phase_of w t p \<longleftrightarrow> t < length (budget_phases w) \<and> budget_phases w ! t = p"

definition set_budget_phase :: "nat \<Rightarrow> budget_phase \<Rightarrow> 's budget_world \<Rightarrow> 's budget_world" where
  "set_budget_phase t p w = w\<lparr>budget_phases := (budget_phases w)[t := p]\<rparr>"

text \<open>One attempt of the thread on the semaphore its phase waits for, and one release.\<close>

definition attempt :: "'s semaphore_lib \<Rightarrow> nat \<Rightarrow> 's budget_world \<Rightarrow> 's budget_world option" where
  "attempt lib t w =
    (if budget_phase_of w t WantTool then
       case acquire_owned_blocking_round lib (semaphore (budget w)) of
         Acquired s \<Rightarrow> Some (set_budget_phase t HoldTool (w\<lparr>budget := (budget w)\<lparr>semaphore := s\<rparr>\<rparr>))
       | Parked \<Rightarrow> Some w | Panicked \<Rightarrow> None
     else if budget_phase_of w t WantSerial then
       case acquire_owned_blocking_round lib (serial_semaphore (budget w)) of
         Acquired s \<Rightarrow> Some (set_budget_phase t SerialWantTool (w\<lparr>budget := (budget w)\<lparr>serial_semaphore := s\<rparr>\<rparr>))
       | Parked \<Rightarrow> Some w | Panicked \<Rightarrow> None
     else if budget_phase_of w t SerialWantTool then
       case acquire_owned_blocking_round lib (semaphore (budget w)) of
         Acquired s \<Rightarrow> Some (set_budget_phase t HoldSerial (w\<lparr>budget := (budget w)\<lparr>semaphore := s\<rparr>\<rparr>))
       | Parked \<Rightarrow> Some w | Panicked \<Rightarrow> None
     else None)"

definition drop_permit :: "'s semaphore_lib \<Rightarrow> nat \<Rightarrow> 's budget_world \<Rightarrow> 's budget_world option" where
  "drop_permit lib t w =
    (if budget_phase_of w t HoldTool \<or> budget_phase_of w t SerialDropped then
       Some (set_budget_phase t BudgetIdle
         (w\<lparr>budget := (budget w)\<lparr>semaphore := release_permit lib (semaphore (budget w))\<rparr>\<rparr>))
     else if budget_phase_of w t HoldSerial then
       Some (set_budget_phase t SerialDropped
         (w\<lparr>budget := (budget w)\<lparr>serial_semaphore := release_permit lib (serial_semaphore (budget w))\<rparr>\<rparr>))
     else None)"

inductive budget_step :: "'s semaphore_lib \<Rightarrow> 's budget_world \<Rightarrow> budget_event \<Rightarrow> 's budget_world \<Rightarrow> bool"
  for lib :: "'s semaphore_lib" where
  budget_acquire: "budget_phase_of w t BudgetIdle \<Longrightarrow> budget_step lib w (Acquire t) (set_budget_phase t WantTool w)"
| budget_serial: "budget_phase_of w t BudgetIdle \<Longrightarrow> budget_step lib w (AcquireSerial t) (set_budget_phase t WantSerial w)"
| budget_attempt: "attempt lib t w = Some w' \<Longrightarrow> budget_step lib w (Attempt t) w'"
| budget_drop: "drop_permit lib t w = Some w' \<Longrightarrow> budget_step lib w (DropPermit t) w'"

inductive_cases budget_stepE: "budget_step lib w e w'"

definition budget_init :: "'s semaphore_lib \<Rightarrow> nat \<Rightarrow> nat \<Rightarrow> 's budget_world" where
  "budget_init lib requested n = \<lparr>budget = coordinator_new lib requested, budget_phases = replicate n BudgetIdle\<rparr>"

section \<open>Budgets of a scope are shared\<close>

lemma arc_drop_clone: "p < length h \<Longrightarrow> arc_drop p (arc_clone p h) = h"
  by (simp add: arc_drop_def arc_clone_def)

lemma live_entry_upgrades:
  assumes "map_of (registry_retain h reg) k = Some p"
  shows "weak_upgrade h p = Some (p, arc_clone p h)" and "p < length h"
proof -
  have "(k, p) \<in> set (registry_retain h reg)" using assms by (rule map_of_SomeD)
  then have live: "0 < strong_count h p" by (simp add: registry_retain_def)
  then show "weak_upgrade h p = Some (p, arc_clone p h)" by (simp add: weak_upgrade_def)
  show "p < length h" using live by (rule strong_count_pos_bound)
qed

lemma for_scope_cases:
  assumes "for_scope lib poisoned scope requested (h, reg) = (res, s')"
  obtains (error) e where "res = Err e" "s' = (h, reg) \<or> s' = (h, registry_retain h reg)"
  | (live) p where "res = Ok p" "map_of (registry_retain h reg) (trim scope) = Some p"
      "s' = (arc_clone p h, registry_retain h reg)" "capacity (fst (h ! p)) = normalize_tool_parallelism requested"
  | (fresh) p h' where "res = Ok p" "map_of (registry_retain h reg) (trim scope) = None"
      "arc_new (coordinator_new lib (normalize_tool_parallelism requested)) h = (p, h')"
      "s' = (h', registry_insert (trim scope) p (registry_retain h reg))"
proof (cases "trim scope = [] \<or> poisoned")
  case True
  then show thesis using assms by (cases "trim scope = []") (auto simp: for_scope_def Let_def intro: error)
next
  case False
  show thesis
  proof (cases "map_of (registry_retain h reg) (trim scope)")
    case None
    then show thesis using False assms by (auto simp: for_scope_def Let_def arc_new_def intro!: fresh)
  next
    case (Some p)
    note up = live_entry_upgrades [OF Some]
    show thesis
    proof (cases "capacity (fst (h ! p)) = normalize_tool_parallelism requested")
      case True
      then show thesis using False assms Some up by (auto simp: for_scope_def Let_def intro!: live)
    next
      case differ: False
      then show thesis using False assms Some up
        by (intro error) (auto simp: for_scope_def Let_def arc_drop_clone)
    qed
  qed
qed

interpretation budgets: weak_registry "\<lambda>(poisoned, scope, requested). for_scope lib poisoned scope requested"
  "\<lambda>(poisoned, scope, requested). trim scope"
  "\<lambda>(poisoned, scope, requested) c. capacity c = normalize_tool_parallelism requested"
  "\<lambda>c c'. capacity c' = capacity c" for lib
proof (unfold_locales, goal_cases)
  case (1 q s p s')
  obtain poisoned scope requested h reg where q: "q = (poisoned, scope, requested)" and s: "s = (h, reg)"
    by (metis prod_cases3 surj_pair)
  have call: "for_scope lib poisoned scope requested (h, reg) = (Ok p, s')" using 1 q s by simp
  show ?case using call
  proof (cases rule: for_scope_cases)
    case (live p')
    then show ?thesis using q s live_entry_upgrades [OF live(2)] by (auto intro!: opens_live)
  next
    case (fresh p' h')
    have "normalize_tool_parallelism (normalize_tool_parallelism requested) = normalize_tool_parallelism requested"
      by (simp add: normalize_tool_parallelism_def)
    then show ?thesis using q s fresh by (auto intro!: opens_new simp: coordinator_new_def Let_def)
  qed auto
next
  case (2 q s e s')
  obtain poisoned scope requested h reg where "q = (poisoned, scope, requested)" and "s = (h, reg)"
    by (metis prod_cases3 surj_pair)
  then have "for_scope lib poisoned scope requested (h, reg) = (Err e, s')" using 2 by simp
  then show ?case using \<open>s = (h, reg)\<close> by (cases rule: for_scope_cases) auto
qed auto

section \<open>The permits are exact\<close>

abbreviation in_budget :: "'s budget_world \<Rightarrow> budget_phase \<Rightarrow> nat" where
  "in_budget w p \<equiv> count_list (budget_phases w) p"

definition tool_holders :: "'s budget_world \<Rightarrow> nat" where
  "tool_holders w = in_budget w HoldTool + in_budget w HoldSerial + in_budget w SerialDropped"

definition serial_holders :: "'s budget_world \<Rightarrow> nat" where
  "serial_holders w = in_budget w SerialWantTool + in_budget w HoldSerial"

definition budget_inv :: "'s semaphore_lib \<Rightarrow> nat \<Rightarrow> 's budget_world \<Rightarrow> bool" where
  "budget_inv lib requested w \<longleftrightarrow> capacity (budget w) = normalize_tool_parallelism requested \<and>
    available_permits lib (semaphore (budget w)) + tool_holders w = capacity (budget w) \<and>
    available_permits lib (serial_semaphore (budget w)) + serial_holders w = 1"

lemma budget_count_update:
  assumes "budget_phases w' = budget_phases w" and "budget_phase_of w t p"
  shows "in_budget (set_budget_phase t p' w') q + (if p = q then 1 else 0) = in_budget w q + (if p' = q then 1 else 0)"
  using count_list_update [of t "budget_phases w" p' q] count_list_pos [of t "budget_phases w" p] assms
  by (auto simp: budget_phase_of_def set_budget_phase_def)

lemma acquire_round:
  assumes "semaphore_documented lib"
  shows "acquire_owned_blocking_round lib s = Acquired s' \<Longrightarrow> available_permits lib s = Suc (available_permits lib s')"
    and "acquire_owned_blocking_round lib s = Parked \<Longrightarrow> available_permits lib s = 0"
    and "acquire_owned_blocking_round lib s \<noteq> Panicked"
  using assms
  by (auto simp: semaphore_documented_def acquire_owned_blocking_round_def dest!: spec [of _ s]
      split: sum.splits TryAcquireError.splits)

lemma release_exact:
  "semaphore_documented lib \<Longrightarrow> available_permits lib (release_permit lib s) = Suc (available_permits lib s)"
  by (simp add: semaphore_documented_def)

lemmas budget_defs = budget_inv_def tool_holders_def serial_holders_def

lemma budget_phases_set [simp]:
  "budget (set_budget_phase t p w) = budget w"
  by (simp add: set_budget_phase_def)

lemma budget_inv_move:
  assumes "budget_inv lib requested w" and "budget_phase_of w t p" and "budget_phases w' = budget_phases w"
    and "capacity (budget w') = capacity (budget w)"
    and "available_permits lib (semaphore (budget w')) + (if p' \<in> {HoldTool, HoldSerial, SerialDropped} then 1 else 0) =
      available_permits lib (semaphore (budget w)) + (if p \<in> {HoldTool, HoldSerial, SerialDropped} then 1 else 0)"
    and "available_permits lib (serial_semaphore (budget w')) + (if p' \<in> {SerialWantTool, HoldSerial} then 1 else 0) =
      available_permits lib (serial_semaphore (budget w)) + (if p \<in> {SerialWantTool, HoldSerial} then 1 else 0)"
  shows "budget_inv lib requested (set_budget_phase t p' w')"
proof -
  note c = budget_count_update [OF assms(3,2), of p']
  have "tool_holders (set_budget_phase t p' w') + (if p \<in> {HoldTool, HoldSerial, SerialDropped} then 1 else 0) =
      tool_holders w + (if p' \<in> {HoldTool, HoldSerial, SerialDropped} then 1 else 0)"
    using c [of HoldTool] c [of HoldSerial] c [of SerialDropped] by (cases p; cases p') (simp_all add: tool_holders_def)
  moreover have "serial_holders (set_budget_phase t p' w') + (if p \<in> {SerialWantTool, HoldSerial} then 1 else 0) =
      serial_holders w + (if p' \<in> {SerialWantTool, HoldSerial} then 1 else 0)"
    using c [of SerialWantTool] c [of HoldSerial] by (cases p; cases p') (simp_all add: serial_holders_def)
  ultimately show ?thesis using assms(1,4,5,6) by (simp add: budget_inv_def)
qed

lemma budget_inv_step:
  assumes lib: "semaphore_documented lib" and inv: "budget_inv lib requested w" and step: "budget_step lib w e w'"
  shows "budget_inv lib requested w'"
  using step
proof (cases rule: budget_step.cases)
  case (budget_acquire t)
  then show ?thesis using inv by (auto intro!: budget_inv_move)
next
  case (budget_serial t)
  then show ?thesis using inv by (auto intro!: budget_inv_move)
next
  case (budget_attempt t)
  then consider (tool) "budget_phase_of w t WantTool" | (serial) "budget_phase_of w t WantSerial"
    | (both) "budget_phase_of w t SerialWantTool"
    by (auto simp: attempt_def split: if_splits)
  then show ?thesis
  proof cases
    case tool
    then show ?thesis using budget_attempt(2) inv acquire_round [OF lib]
      by (auto simp: attempt_def split: acquire_round.splits intro!: budget_inv_move)
  next
    case serial
    then have "\<not> budget_phase_of w t WantTool" by (auto simp: budget_phase_of_def)
    with serial show ?thesis using budget_attempt(2) inv acquire_round [OF lib]
      by (auto simp: attempt_def split: acquire_round.splits intro!: budget_inv_move)
  next
    case both
    then have "\<not> budget_phase_of w t WantTool" "\<not> budget_phase_of w t WantSerial" by (auto simp: budget_phase_of_def)
    with both show ?thesis using budget_attempt(2) inv acquire_round [OF lib]
      by (auto simp: attempt_def split: acquire_round.splits intro!: budget_inv_move)
  qed
next
  case (budget_drop t)
  then obtain p where "budget_phase_of w t p" "p \<in> {HoldTool, SerialDropped, HoldSerial}"
    by (auto simp: drop_permit_def split: if_splits)
  then show ?thesis using budget_drop(2) inv release_exact [OF lib]
    by (auto simp: drop_permit_def budget_phase_of_def split: if_splits intro!: budget_inv_move)
qed

lemma budget_init_inv: "semaphore_documented lib \<Longrightarrow> budget_inv lib requested (budget_init lib requested n)"
  by (simp add: budget_defs budget_init_def coordinator_new_def semaphore_documented_def Let_def)

lemma budget_reachable_inv:
  assumes "semaphore_documented lib" and "run (budget_step lib) (budget_init lib requested n) es w"
  shows "budget_inv lib requested w"
proof -
  have "invariant_system (budget_step lib) (budget_inv lib requested)"
    by unfold_locales (rule budget_inv_step [OF assms(1)])
  then show ?thesis using assms(2) budget_init_inv [OF assms(1)] by (rule invariant_system.run_inv)
qed

lemma capacity_bounds: "1 \<le> normalize_tool_parallelism requested" "normalize_tool_parallelism requested \<le> 64"
  by (simp_all add: normalize_tool_parallelism_def)

section \<open>Every waiting thread can be served\<close>

fun budget_weight :: "budget_phase \<Rightarrow> nat" where
  "budget_weight BudgetIdle = 0"
| "budget_weight WantTool = 2"
| "budget_weight HoldTool = 1"
| "budget_weight WantSerial = 4"
| "budget_weight SerialWantTool = 3"
| "budget_weight HoldSerial = 2"
| "budget_weight SerialDropped = 1"

definition budget_measure :: "'s budget_world \<Rightarrow> nat" where
  "budget_measure w = sum_list (map budget_weight (budget_phases w))"

lemma budget_measure_set:
  assumes "budget_phase_of w t p" and "budget_phases w' = budget_phases w" and "budget_weight p = Suc (budget_weight p')"
  shows "Suc (budget_measure (set_budget_phase t p' w')) = budget_measure w"
proof -
  have "t < length (map budget_weight (budget_phases w))" "map budget_weight (budget_phases w) ! t = Suc (budget_weight p')"
    using assms by (auto simp: budget_phase_of_def)
  then show ?thesis
    using assms(2) elem_le_sum_list [of t "map budget_weight (budget_phases w)"]
      sum_list_update [of t "map budget_weight (budget_phases w)" "budget_weight p'"]
    by (simp add: budget_measure_def set_budget_phase_def map_update)
qed

definition releases_or_retries :: "nat \<Rightarrow> budget_event \<Rightarrow> bool" where
  "releases_or_retries t e \<longleftrightarrow> (case e of DropPermit t' \<Rightarrow> t' \<noteq> t | Attempt _ \<Rightarrow> True | _ \<Rightarrow> False)"

definition waits_for_tool :: "'s budget_world \<Rightarrow> nat \<Rightarrow> bool" where
  "waits_for_tool w t \<longleftrightarrow> budget_phase_of w t WantTool \<or> budget_phase_of w t WantSerial \<or> budget_phase_of w t SerialWantTool"

lemma permit_available:
  assumes "semaphore_documented lib" and "0 < available_permits lib s"
  obtains s' where "acquire_owned_blocking_round lib s = Acquired s'"
  using acquire_round [OF assms(1), of s] assms(2)
  by (cases "acquire_owned_blocking_round lib s") auto

lemma phase_unique: "budget_phase_of w t p \<Longrightarrow> budget_phase_of w t q \<longleftrightarrow> q = p"
  by (auto simp: budget_phase_of_def)

text \<open>What a step of thread \<open>t'\<close> leaves of the phase of another thread.\<close>

lemma phase_of_other [simp]:
  "t \<noteq> t' \<Longrightarrow> budget_phases w' = budget_phases w \<Longrightarrow>
    budget_phase_of (set_budget_phase t' p w') t = budget_phase_of w t"
  by (auto simp: budget_phase_of_def set_budget_phase_def fun_eq_iff)

lemma phase_of_same [simp]:
  "budget_phase_of w t q \<Longrightarrow> budget_phases w' = budget_phases w \<Longrightarrow> budget_phase_of (set_budget_phase t p w') t p' \<longleftrightarrow> p' = p"
  by (auto simp: budget_phase_of_def set_budget_phase_def)

lemma holder_exists:
  assumes "0 < tool_holders w"
  obtains t p where "budget_phase_of w t p" "p \<in> {HoldTool, HoldSerial, SerialDropped}"
  using assms count_list_pos_nth [of "budget_phases w"]
  by (auto simp: tool_holders_def budget_phase_of_def)

lemma drop_progress:
  assumes "budget_phase_of w t p" and "p \<in> {HoldTool, HoldSerial, SerialDropped}"
  obtains w' p' where "drop_permit lib t w = Some (set_budget_phase t p' w')" "budget_phases w' = budget_phases w"
    "budget_weight p = Suc (budget_weight p')"
  using assms by (auto simp: drop_permit_def phase_unique [OF assms(1)])

lemma attempt_progress:
  assumes lib: "semaphore_documented lib" and p: "budget_phase_of w t p"
    and "p \<in> {WantTool, SerialWantTool} \<and> 0 < available_permits lib (semaphore (budget w)) \<or>
      p = WantSerial \<and> 0 < available_permits lib (serial_semaphore (budget w))"
  obtains w' p' where "attempt lib t w = Some (set_budget_phase t p' w')" "budget_phases w' = budget_phases w"
    "budget_weight p = Suc (budget_weight p')"
    "(p, p') \<in> {(WantTool, HoldTool), (WantSerial, SerialWantTool), (SerialWantTool, HoldSerial)}"
  using assms(3) by (auto simp: attempt_def phase_unique [OF p] elim!: permit_available [OF lib])

lemma budget_progress:
  assumes lib: "semaphore_documented lib" and inv: "budget_inv lib requested w" and wait: "waits_for_tool w t"
  obtains e t' p p' w' where "budget_step lib w e (set_budget_phase t' p' w')" "releases_or_retries t e"
    "budget_phase_of w t' p" "budget_phases w' = budget_phases w" "budget_weight p = Suc (budget_weight p')"
    "t' = t \<longrightarrow> (p, p') \<in> {(WantTool, HoldTool), (WantSerial, SerialWantTool), (SerialWantTool, HoldSerial)}"
proof (cases "0 < tool_holders w")
  case True
  then obtain t' p where t': "budget_phase_of w t' p" "p \<in> {HoldTool, HoldSerial, SerialDropped}" by (rule holder_exists)
  obtain w' p' where "drop_permit lib t' w = Some (set_budget_phase t' p' w')" "budget_phases w' = budget_phases w"
    "budget_weight p = Suc (budget_weight p')"
    using t' by (rule drop_progress)
  moreover have "t' \<noteq> t" using wait t' by (auto simp: waits_for_tool_def phase_unique)
  ultimately show thesis using t'(1)
    by (intro that [of "DropPermit t'" t' p' w' p]) (auto intro: budget_drop simp: releases_or_retries_def)
next
  case False
  then have tool: "0 < available_permits lib (semaphore (budget w))"
    using inv capacity_bounds(1) [of requested] by (simp add: budget_inv_def)
  have "\<exists>t' p. budget_phase_of w t' p \<and> (p \<in> {WantTool, SerialWantTool} \<and> 0 < available_permits lib (semaphore (budget w)) \<or>
      p = WantSerial \<and> 0 < available_permits lib (serial_semaphore (budget w)))"
  proof (cases "\<exists>t'. budget_phase_of w t' SerialWantTool")
    case True
    then show ?thesis using tool by blast
  next
    case no_serial: False
    have "serial_holders w = 0"
      using no_serial False count_list_pos_nth [of "budget_phases w" SerialWantTool]
      by (auto simp: serial_holders_def tool_holders_def budget_phase_of_def)
    then have "0 < available_permits lib (serial_semaphore (budget w))" using inv by (simp add: budget_inv_def)
    then show ?thesis using wait tool by (auto simp: waits_for_tool_def)
  qed
  then obtain t' p where t': "budget_phase_of w t' p" and
    free: "p \<in> {WantTool, SerialWantTool} \<and> 0 < available_permits lib (semaphore (budget w)) \<or>
      p = WantSerial \<and> 0 < available_permits lib (serial_semaphore (budget w))" by blast
  show thesis using lib t' free
  proof (rule attempt_progress)
    fix w' p'
    assume "attempt lib t' w = Some (set_budget_phase t' p' w')" "budget_phases w' = budget_phases w"
      "budget_weight p = Suc (budget_weight p')"
      "(p, p') \<in> {(WantTool, HoldTool), (WantSerial, SerialWantTool), (SerialWantTool, HoldSerial)}"
    then show thesis using t'
      by (intro that [of "Attempt t'" t' p' w' p]) (auto intro: budget_attempt simp: releases_or_retries_def)
  qed
qed

text \<open>The permit a waiting thread is after.\<close>

definition served :: "'s budget_world \<Rightarrow> nat \<Rightarrow> budget_phase" where
  "served w t = (if budget_phase_of w t WantTool then HoldTool else HoldSerial)"

lemma waiting_served:
  assumes lib: "semaphore_documented lib"
  shows "budget_inv lib requested w \<Longrightarrow> waits_for_tool w t \<Longrightarrow>
    \<exists>es w'. run (budget_step lib) w es w' \<and> list_all (releases_or_retries t) es \<and>
      length es \<le> budget_measure w \<and> budget_phase_of w' t (served w t)"
proof (induction "budget_measure w" arbitrary: w rule: less_induct)
  case less
  obtain e t' p p' w1 where step: "budget_step lib w e (set_budget_phase t' p' w1)" "releases_or_retries t e"
    and t': "budget_phase_of w t' p" "budget_phases w1 = budget_phases w" "budget_weight p = Suc (budget_weight p')"
    and own: "t' = t \<longrightarrow> (p, p') \<in> {(WantTool, HoldTool), (WantSerial, SerialWantTool), (SerialWantTool, HoldSerial)}"
    using lib less.prems by (rule budget_progress)
  let ?w = "set_budget_phase t' p' w1"
  have m: "Suc (budget_measure ?w) = budget_measure w" using t' by (rule budget_measure_set)
  consider (got) "budget_phase_of ?w t (served w t)" | (on) "waits_for_tool ?w t" "served ?w t = served w t"
    using own t' less.prems(2)
    by (cases "t' = t") (auto simp: waits_for_tool_def served_def phase_unique)
  then show ?case
  proof cases
    case got
    then show ?thesis using step m by (intro exI [of _ "[e]"] exI [of _ ?w]) (auto intro: run_single)
  next
    case on
    obtain es w' where "run (budget_step lib) ?w es w'" "list_all (releases_or_retries t) es"
      "length es \<le> budget_measure ?w" "budget_phase_of w' t (served w t)"
      using less.hyps [of ?w] m budget_inv_step [OF lib less.prems(1) step(1)] on by auto
    then show ?thesis using step m by (intro exI [of _ "e # es"] exI [of _ w']) (auto intro: run_cons)
  qed
qed

lemma budget_threads:
  assumes "run (budget_step lib) w es w'"
  shows "length (budget_phases w') = length (budget_phases w)"
proof -
  have step: "length (budget_phases w') = length (budget_phases w)" if "budget_step lib w e w'" for w e w'
    using that by (cases rule: budget_step.cases)
      (auto simp: attempt_def drop_permit_def set_budget_phase_def split: if_splits acquire_round.splits)
  show ?thesis using assms by (induction rule: run.induct) (auto dest: step)
qed

lemma budget_measure_bound: "budget_measure w \<le> 4 * length (budget_phases w)"
proof -
  have "budget_weight p \<le> 4" for p by (cases p) simp_all
  then show ?thesis using sum_list_mono [of "budget_phases w" budget_weight "\<lambda>_. 4"]
    by (simp add: budget_measure_def sum_list_triv mult.commute)
qed

section \<open>Properties\<close>

text \<open>
  C28: for any number of threads and any interleaving of their acquisitions, attempts and releases, the
  capacity of a tool budget lies between 1 and 64, the threads that hold a tool permit never exceed it,
  at most one thread holds the serial permit, no permit is lost or invented, and no acquisition panics
  on a closed semaphore.
\<close>

theorem tool_parallelism_bounded:
  assumes "semaphore_documented lib" and "run (budget_step lib) (budget_init lib requested n) es w"
  shows "1 \<le> capacity (budget w) \<and> capacity (budget w) \<le> 64 \<and> tool_holders w \<le> capacity (budget w) \<and>
    serial_holders w \<le> 1 \<and>
    available_permits lib (semaphore (budget w)) = capacity (budget w) - tool_holders w \<and>
    available_permits lib (serial_semaphore (budget w)) = 1 - serial_holders w \<and>
    (waits_for_tool w t \<longrightarrow> attempt lib t w \<noteq> None)"
proof -
  have "budget_inv lib requested w" using assms by (rule budget_reachable_inv)
  moreover have "attempt lib t w \<noteq> None" if "waits_for_tool w t"
    using that acquire_round(3) [OF assms(1)]
    by (auto simp: attempt_def waits_for_tool_def phase_unique split: acquire_round.splits)
  ultimately show ?thesis using capacity_bounds [of requested] unfolding budget_inv_def by linarith
qed

definition counting :: "nat semaphore_lib" where
  "counting = \<lparr>semaphore_new = (\<lambda>n. n), try_acquire_owned = (\<lambda>s. case s of 0 \<Rightarrow> Inl NoPermits | Suc s' \<Rightarrow> Inr s'),
    release_permit = Suc, available_permits = (\<lambda>s. s)\<rparr>"

lemma counting_documented: "semaphore_documented counting"
  by (simp add: semaphore_documented_def counting_def split: nat.splits)

text \<open>Two threads and a budget of one permit: the second waits while the first holds it.\<close>

definition contended :: "nat budget_world" where
  "contended = \<lparr>budget = \<lparr>capacity = 1, semaphore = 0, serial_semaphore = 0\<rparr>, budget_phases = [HoldTool, SerialWantTool]\<rparr>"

lemmas budget_eval = budget_phase_of_def set_budget_phase_def attempt_def drop_permit_def counting_def
  acquire_owned_blocking_round_def

lemma contended_reached:
  "run (budget_step counting) (budget_init counting 0 2) [Acquire 0, AcquireSerial 1, Attempt 0, Attempt 1] contended"
proof -
  let ?w = "\<lambda>s r ps. \<lparr>budget = \<lparr>capacity = 1, semaphore = s, serial_semaphore = r\<rparr>, budget_phases = ps\<rparr> :: nat budget_world"
  have "budget_init counting 0 2 = ?w 1 1 [BudgetIdle, BudgetIdle]"
    by (simp add: budget_init_def coordinator_new_def counting_def normalize_tool_parallelism_def Let_def numeral_2_eq_2)
  moreover have "budget_step counting (?w 1 1 [BudgetIdle, BudgetIdle]) (Acquire 0) (?w 1 1 [WantTool, BudgetIdle])"
    using budget_acquire [of "?w 1 1 [BudgetIdle, BudgetIdle]" 0 counting] by (simp add: budget_eval)
  moreover have "budget_step counting (?w 1 1 [WantTool, BudgetIdle]) (AcquireSerial 1) (?w 1 1 [WantTool, WantSerial])"
    using budget_serial [of "?w 1 1 [WantTool, BudgetIdle]" 1 counting] by (simp add: budget_eval)
  moreover have "budget_step counting (?w 1 1 [WantTool, WantSerial]) (Attempt 0) (?w 0 1 [HoldTool, WantSerial])"
    by (rule budget_attempt) (simp add: budget_eval)
  moreover have "budget_step counting (?w 0 1 [HoldTool, WantSerial]) (Attempt 1) contended"
    by (rule budget_attempt) (simp add: budget_eval contended_def)
  ultimately show ?thesis by (metis run_nil run_cons)
qed

theorem tool_parallelism_bounded_witness:
  "tool_holders contended \<le> 1 \<and> serial_holders contended \<le> 1 \<and> attempt counting 1 contended \<noteq> None"
  using tool_parallelism_bounded [OF counting_documented contended_reached, of 1]
  by (simp add: contended_def waits_for_tool_def budget_phase_of_def)

text \<open>
  C29: a thread that waits for a tool permit or a serial permit is never deadlocked: from every reachable
  state, without any new request and without a release of its own, at most four releases and retries
  per thread lead to a state in which it holds the permit it asked for. The serial permit is taken
  before the tool permit everywhere, so holders of a tool permit never wait.
\<close>

theorem waiting_tool_served:
  assumes "semaphore_documented lib" and "run (budget_step lib) (budget_init lib requested n) es w" and "waits_for_tool w t"
  shows "\<exists>es' w'. run (budget_step lib) w es' w' \<and> list_all (releases_or_retries t) es' \<and> length es' \<le> 4 * n \<and>
    budget_phase_of w' t (served w t)"
proof -
  have "length (budget_phases w) = n" using budget_threads [OF assms(2)] by (simp add: budget_init_def)
  then have "budget_measure w \<le> 4 * n" using budget_measure_bound [of w] by simp
  then show ?thesis
    using waiting_served [OF assms(1) budget_reachable_inv [OF assms(1,2)] assms(3)] by (meson le_trans)
qed

theorem waiting_tool_served_witness:
  "\<exists>es' w'. run (budget_step counting) contended es' w' \<and> list_all (releases_or_retries 1) es' \<and> length es' \<le> 8 \<and>
    budget_phase_of w' 1 HoldSerial"
  using waiting_tool_served [OF counting_documented contended_reached, of 1]
  by (simp add: contended_def waits_for_tool_def budget_phase_of_def served_def)

text \<open>
  Live handles are one budget exactly when their trimmed scopes are equal, and the budget has the
  normalised capacity every one of them asked for.
\<close>

lemma scopes_share_budget:
  assumes "run (registry_step (\<lambda>(poisoned, scope, requested). for_scope lib poisoned scope requested)
        (\<lambda>c c'. capacity c' = capacity c)) \<lparr>arcs = [], weak_refs = [], handles = []\<rparr> es w"
    and "((b, scope, requested), p) \<in> set (handles w)" and "((b', scope', requested'), p') \<in> set (handles w)"
  shows "(trim scope = trim scope' \<longleftrightarrow> p = p') \<and> capacity (fst (arcs w ! p)) = normalize_tool_parallelism requested"
  using budgets.handles_share [OF budgets.reachable_inv [OF assms(1)] assms(2,3)]
    registry_invD(4) [OF budgets.reachable_inv [OF assms(1)] assms(2)]
  by simp

end
