(* ===== verification/ContextNormalization.thy ===== *)
theory ContextNormalization
  imports SessionSamples CanonicalJson
begin

text \<open>
  From the result of an external HTTP tool to an external context object
  (\<open>core/src/session/external_context.rs\<close>): JSON paths, text normalisation, canonical JSON, the
  content-derived object identity and the pointer that the model sees.

  The JSON text of a value (\<open>Value::to_string\<close>) is a parameter. It is the compact text, so it is never
  empty and neither starts nor ends with white space.
\<close>

section \<open>Text\<close>

text \<open>\<open>str::replace\<close> of a carriage return and line feed by a line feed.\<close>

fun replace_crlf :: "string \<Rightarrow> string" where
  "replace_crlf [] = []"
| "replace_crlf [x] = [x]"
| "replace_crlf (x # y # s) =
    (if x = CHR 0x0D \<and> y = CHR 0x0A then CHR 0x0A # replace_crlf s else x # replace_crlf (y # s))"

definition normalize_external_text :: "string \<Rightarrow> string" where
  "normalize_external_text raw = replace_crlf (trim raw)"

text \<open>\<open>str::trim_end_matches\<close> with a string pattern.\<close>

function trim_end_pattern :: "string \<Rightarrow> string \<Rightarrow> string" where
  "trim_end_pattern p s = (if p \<noteq> [] \<and> suffix p s then trim_end_pattern p (take (length s - length p) s) else s)"
  by pat_completeness auto
termination
  by (relation "measure (\<lambda>(p, s). length s)") (auto simp: suffix_def)

declare trim_end_pattern.simps [simp del]

section \<open>Canonical values\<close>

text \<open>The keys of an object are distinct, so looking each sorted key up again gives the sorted fields.\<close>

function canonicalize_json_value :: "'f Value \<Rightarrow> 'f Value" where
  "canonicalize_json_value (VArray items) = VArray (map canonicalize_json_value items)"
| "canonicalize_json_value (VObject object) =
    VObject (map (\<lambda>(key, v). (key, canonicalize_json_value v)) (sort_key fst object))"
| "canonicalize_json_value (VString s) = VString (normalize_external_text s)"
| "canonicalize_json_value VNull = VNull"
| "canonicalize_json_value (VBool b) = VBool b"
| "canonicalize_json_value (VNumber n) = VNumber n"
  by pat_completeness auto
termination
  by (relation "measure size") (auto simp: value_in_object_size less_Suc_eq_le dest: size_list_estimation' [OF _ order_refl])

definition canonical_json_string :: "('f Value \<Rightarrow> string) \<Rightarrow> 'f Value \<Rightarrow> string" where
  "canonical_json_string json_text value = json_text (canonicalize_json_value value)"

definition stable_fnv1a64 :: "string \<Rightarrow> 64 word" where
  "stable_fnv1a64 input = foldl fnv_step 1469598103934665603 input"

text \<open>The format \<open>{:016x}\<close> of a 64-bit word.\<close>

definition hex_digit :: "nat \<Rightarrow> char" where
  "hex_digit n = (if n < 10 then char_of (48 + n) else char_of (87 + n))"

definition hex16 :: "64 word \<Rightarrow> string" where
  "hex16 w = map (\<lambda>i. hex_digit (unat w div 16 ^ (15 - i) mod 16)) [0..<16]"

abbreviation EXTERNAL_CONTEXT_SCHEMA_VERSION :: string where
  "EXTERNAL_CONTEXT_SCHEMA_VERSION \<equiv> ''external_context.v1''"

definition build_external_context_object_id ::
  "('f Value \<Rightarrow> string) \<Rightarrow> string \<Rightarrow> string \<Rightarrow> string \<Rightarrow> string \<Rightarrow> string \<Rightarrow> 'f Value \<Rightarrow> string" where
  "build_external_context_object_id json_text provider_id tool_name kind heading content metadata =
    (let preimage = VObject
       [(''schemaVersion'', VString EXTERNAL_CONTEXT_SCHEMA_VERSION),
        (''providerId'', VString (trim provider_id)),
        (''toolName'', VString (trim tool_name)),
        (''objectKind'', VString (trim kind)),
        (''title'', VString (normalize_external_text heading)),
        (''content'', VString (normalize_external_text content)),
        (''metadata'', canonicalize_json_value metadata)]
     in ''external_context:'' @ hex16 (stable_fnv1a64 (canonical_json_string json_text preimage)))"

section \<open>JSON paths\<close>

definition extract_step :: "string \<Rightarrow> 'f Value list \<Rightarrow> 'f Value list" where
  "extract_step segment current =
    (let is_array_wildcard = suffix ''[*]'' segment;
         key = (if is_array_wildcard then trim_end_pattern ''[*]'' segment else segment) in
     concat (map (\<lambda>item. case value_get key item of None \<Rightarrow> []
       | Some child \<Rightarrow>
           if is_array_wildcard then (case as_array child of Some items \<Rightarrow> items | None \<Rightarrow> []) else [child]) current))"

fun extract_segments :: "string list \<Rightarrow> 'f Value list \<Rightarrow> 'f Value list" where
  "extract_segments [] current = current"
| "extract_segments (segment # segments) current =
    (let next = extract_step segment current in if next = [] then next else extract_segments segments next)"

definition extract_json_path_values :: "'f Value \<Rightarrow> string \<Rightarrow> 'f Value list" where
  "extract_json_path_values value path =
    (let normalized = (case strip_prefix ''$.'' (trim path) of Some rest \<Rightarrow> rest | None \<Rightarrow> trim path) in
     if normalized = [] \<or> normalized = ''$'' then [value]
     else extract_segments (split_on (CHR ''.'') normalized) [value])"

definition extract_json_path_texts :: "('f Value \<Rightarrow> string) \<Rightarrow> 'f Value \<Rightarrow> string \<Rightarrow> string list" where
  "extract_json_path_texts json_text value path =
    filter (\<lambda>t. trim t \<noteq> [])
      (map (\<lambda>v. case v of VString s \<Rightarrow> s | _ \<Rightarrow> json_text v) (extract_json_path_values value path))"

definition extract_first_json_path_text :: "('f Value \<Rightarrow> string) \<Rightarrow> 'f Value \<Rightarrow> string \<Rightarrow> string option" where
  "extract_first_json_path_text json_text value path =
    (case extract_json_path_texts json_text value path of [] \<Rightarrow> None | t # _ \<Rightarrow> Some t)"

definition extract_first_json_path_value :: "'f Value \<Rightarrow> string \<Rightarrow> 'f Value option" where
  "extract_first_json_path_value value path =
    (case extract_json_path_values value path of [] \<Rightarrow> None | v # _ \<Rightarrow> Some v)"

section \<open>Objects and pointers\<close>

record 'f ExternalToolResult =
  result_provider_id :: string
  result_tool_name :: string
  result_tool_call_id :: string
  result_payload :: "'f Value"
  result_source :: "string option"
  result_source_timestamp_ms :: "int option"
  result_schema_version :: string

definition for_http :: "string \<Rightarrow> string \<Rightarrow> string \<Rightarrow> 'f Value \<Rightarrow> int \<Rightarrow> 'f ExternalToolResult" where
  "for_http provider_id tool_name tool_call_id payload timestamp_ms =
    \<lparr>result_provider_id = provider_id, result_tool_name = tool_name, result_tool_call_id = tool_call_id,
     result_payload = payload, result_source = Some ''http.tool'', result_source_timestamp_ms = Some timestamp_ms,
     result_schema_version = EXTERNAL_CONTEXT_SCHEMA_VERSION\<rparr>"

record ExternalContextNormalizationConfig =
  config_kind :: "string option"
  title_path :: "string option"
  content_path :: "string option"
  metadata_path :: "string option"

abbreviation default_normalization_config :: ExternalContextNormalizationConfig where
  "default_normalization_config \<equiv> \<lparr>config_kind = None, title_path = None, content_path = None, metadata_path = None\<rparr>"

text \<open>An external context object before it is stored: its metadata is still a JSON value.\<close>

record 'f context_object =
  ctx_schema_version :: string
  ctx_object_id :: string
  ctx_object_kind :: string
  ctx_provider_id :: string
  ctx_tool_name :: string
  ctx_title :: string
  ctx_content :: string
  ctx_metadata :: "'f Value"
  ctx_updated_at_ms :: int

definition normalize_schema_version :: "string \<Rightarrow> string" where
  "normalize_schema_version version =
    (let trimmed = trim version in if trimmed = [] then EXTERNAL_CONTEXT_SCHEMA_VERSION else trimmed)"

definition normalize_config_path :: "string option \<Rightarrow> string option" where
  "normalize_config_path raw =
    (case map_option trim raw of Some p \<Rightarrow> if p \<noteq> [] then Some p else None | None \<Rightarrow> None)"

text \<open>The four values that \<open>normalize_external_result\<close> takes from configuration and payload.\<close>

definition config_object_kind :: "ExternalContextNormalizationConfig \<Rightarrow> string" where
  "config_object_kind config = (case map_option trim (config_kind config) of
     Some k \<Rightarrow> if k \<noteq> [] then k else ''externalKnowledge'' | None \<Rightarrow> ''externalKnowledge'')"

definition title_source ::
  "('f Value \<Rightarrow> string) \<Rightarrow> 'f ExternalToolResult \<Rightarrow> ExternalContextNormalizationConfig \<Rightarrow> string result" where
  "title_source json_text result config = (case normalize_config_path (title_path config) of
     Some path \<Rightarrow> ok_or (''external context title path produced no value: '' @ path)
       (extract_first_json_path_text json_text (result_payload result) path)
   | None \<Rightarrow> Ok (result_tool_name result @ '' result''))"

definition content_source ::
  "('f Value \<Rightarrow> string) \<Rightarrow> 'f ExternalToolResult \<Rightarrow> ExternalContextNormalizationConfig \<Rightarrow> string result" where
  "content_source json_text result config = (case normalize_config_path (content_path config) of
     Some path \<Rightarrow>
       let extracted = join_with [CHR 0x0A, CHR 0x0A] (extract_json_path_texts json_text (result_payload result) path) in
       if trim extracted = [] then Err (''external context content path produced no value: '' @ path) else Ok extracted
   | None \<Rightarrow> Ok (canonical_json_string json_text (result_payload result)))"

definition metadata_source :: "'f ExternalToolResult \<Rightarrow> ExternalContextNormalizationConfig \<Rightarrow> 'f Value result" where
  "metadata_source result config = (case normalize_config_path (metadata_path config) of
     Some path \<Rightarrow> ok_or (''external context metadata path produced no value: '' @ path)
       (extract_first_json_path_value (result_payload result) path)
   | None \<Rightarrow> Ok (VObject []))"

definition normalize_external_result ::
  "('f Value \<Rightarrow> string) \<Rightarrow> 'f ExternalToolResult \<Rightarrow> ExternalContextNormalizationConfig \<Rightarrow> 'f context_object result" where
  "normalize_external_result json_text result config =
    (let kind = config_object_kind config in
     res_bind (title_source json_text result config) (\<lambda>title_text.
     let heading = normalize_external_text title_text in
     res_bind (content_source json_text result config) (\<lambda>content_text.
     let content = normalize_external_text content_text in
     res_bind (metadata_source result config) (\<lambda>raw_metadata.
     let metadata = canonicalize_json_value raw_metadata;
         i = build_external_context_object_id json_text (result_provider_id result) (result_tool_name result) kind heading
           content metadata in
     Ok \<lparr>ctx_schema_version = normalize_schema_version (result_schema_version result), ctx_object_id = i,
         ctx_object_kind = kind, ctx_provider_id = result_provider_id result, ctx_tool_name = result_tool_name result,
         ctx_title = heading, ctx_content = content, ctx_metadata = metadata,
         ctx_updated_at_ms = (case result_source_timestamp_ms result of Some t \<Rightarrow> t | None \<Rightarrow> 0)\<rparr>))))"

record ExternalContextPointer =
  ptr_object_id :: string
  ptr_object_kind :: string
  ptr_source :: string
  ptr_recency :: string
  ptr_trust :: string
  ptr_score :: "f64 option"
  ptr_reason :: string
  ptr_updated_at_ms :: int

definition project_context_pointer :: "'f context_object \<Rightarrow> string \<Rightarrow> string \<Rightarrow> ExternalContextPointer" where
  "project_context_pointer obj source why =
    \<lparr>ptr_object_id = ctx_object_id obj, ptr_object_kind = ctx_object_kind obj, ptr_source = trim source,
     ptr_recency = ''warm'', ptr_trust = ''raw'', ptr_score = Some (Num False (round_f64 (72 / 100))),
     ptr_reason = why, ptr_updated_at_ms = ctx_updated_at_ms obj\<rparr>"

record 'f ExternalContextObjectPayload =
  payload_mode :: string
  payload_pointer :: ExternalContextPointer
  payload_object :: "'f context_object"

definition build_http_external_object_output ::
  "('f Value \<Rightarrow> string) \<Rightarrow> string \<Rightarrow> string \<Rightarrow> string \<Rightarrow> ExternalContextNormalizationConfig \<Rightarrow> 'f Value \<Rightarrow> int \<Rightarrow>
    'f ExternalContextObjectPayload result" where
  "build_http_external_object_output json_text provider_id tool_name tool_call_id config body timestamp_ms =
    (let result = for_http provider_id tool_name tool_call_id body timestamp_ms in
     res_bind (normalize_external_result json_text result config) (\<lambda>obj.
     Ok \<lparr>payload_mode = ''externalObject'',
         payload_pointer = project_context_pointer obj ''http.tool''
           (''external HTTP provider result from '' @ tool_name),
         payload_object = obj\<rparr>))"

text \<open>The JSON form of the payload, as derived for its types.\<close>

definition context_object_value :: "'f context_object \<Rightarrow> 'f Value" where
  "context_object_value obj = VObject
    [(''schemaVersion'', VString (ctx_schema_version obj)), (''objectId'', VString (ctx_object_id obj)),
     (''objectKind'', VString (ctx_object_kind obj)), (''sourceProviderId'', VString (ctx_provider_id obj)),
     (''sourceToolName'', VString (ctx_tool_name obj)), (''title'', VString (ctx_title obj)),
     (''content'', VString (ctx_content obj)), (''metadata'', ctx_metadata obj),
     (''updatedAtMs'', VNumber (JsonInt (ctx_updated_at_ms obj)))]"

definition ExternalContextPointer_value :: "ExternalContextPointer \<Rightarrow> f64 Value" where
  "ExternalContextPointer_value p = VObject (
    [(''objectId'', VString (ptr_object_id p)), (''objectKind'', VString (ptr_object_kind p)),
     (''source'', VString (ptr_source p)), (''recency'', VString (ptr_recency p)), (''trust'', VString (ptr_trust p))]
    @ (case ptr_score p of Some x \<Rightarrow> [(''score'', VNumber (JsonFloat x))] | None \<Rightarrow> [])
    @ [(''reason'', VString (ptr_reason p)), (''updatedAtMs'', VNumber (JsonInt (ptr_updated_at_ms p)))])"

definition build_http_external_object_json ::
  "(f64 Value \<Rightarrow> string) \<Rightarrow> string \<Rightarrow> string \<Rightarrow> string \<Rightarrow> ExternalContextNormalizationConfig option \<Rightarrow> f64 Value \<Rightarrow> int \<Rightarrow>
    f64 Value result" where
  "build_http_external_object_json json_text provider_id tool_name tool_call_id config body timestamp_ms =
    res_bind (build_http_external_object_output json_text provider_id tool_name tool_call_id
      (case config of Some c \<Rightarrow> c | None \<Rightarrow> default_normalization_config) body timestamp_ms) (\<lambda>payload.
    Ok (VObject [(''mode'', VString (payload_mode payload)),
      (''pointer'', ExternalContextPointer_value (payload_pointer payload)),
      (''object'', context_object_value (payload_object payload))]))"

section \<open>Normalised text is trimmed\<close>

lemma white_space_lengths:
  "\<forall>w \<in> set ws1. length w = 1" "\<forall>w \<in> set ws2. length w = 2" "\<forall>w \<in> set ws3. length w = 3"
  by (simp_all add: ws1_def ws2_def ws3_def)

lemma take_iff_prefix: "length w = n \<Longrightarrow> 0 < n \<Longrightarrow> take n s = w \<longleftrightarrow> prefix w s"
  by (auto simp: prefix_def) (metis append_take_drop_id)

lemma take_last_iff_suffix: "length w = n \<Longrightarrow> 0 < n \<Longrightarrow> take_last n s = w \<longleftrightarrow> suffix w s"
  by (auto simp: take_last_def suffix_def) (metis append_take_drop_id)

lemma take_in_iff:
  assumes "\<forall>w \<in> set W. length w = n" and "0 < n"
  shows "take n s \<in> set W \<longleftrightarrow> (\<exists>w \<in> set W. prefix w s)" and "take_last n s \<in> set W \<longleftrightarrow> (\<exists>w \<in> set W. suffix w s)"
  using take_iff_prefix [OF bspec [OF assms(1)] assms(2)] take_last_iff_suffix [OF bspec [OF assms(1)] assms(2)] by metis+

lemmas white_space_in = take_in_iff [OF white_space_lengths(1) zero_less_one]
  take_in_iff [OF white_space_lengths(2) zero_less_numeral] take_in_iff [OF white_space_lengths(3) zero_less_numeral]

lemma ws_front_iff: "ws_front s \<noteq> 0 \<longleftrightarrow> (\<exists>w \<in> set (ws1 @ ws2 @ ws3). prefix w s)"
  unfolding ws_front_def white_space_in set_append bex_Un by simp

lemma ws_back_iff: "ws_back s \<noteq> 0 \<longleftrightarrow> (\<exists>w \<in> set (ws1 @ ws2 @ ws3). suffix w s)"
  unfolding ws_back_def white_space_in set_append bex_Un by simp

lemma replace_crlf_unchanged: "CHR 0x0A \<notin> set (replace_crlf s) \<Longrightarrow> replace_crlf s = s"
  by (induction s rule: replace_crlf.induct) (auto split: if_splits)

lemma replace_crlf_prefix: "prefix w (replace_crlf s) \<Longrightarrow> CHR 0x0A \<notin> set w \<Longrightarrow> prefix w s"
proof (induction s arbitrary: w rule: replace_crlf.induct)
  case (3 x y s)
  then show ?case by (cases w) (auto split: if_splits)
qed auto

lemma replace_crlf_suffix: "suffix w (replace_crlf s) \<Longrightarrow> CHR 0x0A \<notin> set w \<Longrightarrow> suffix w s"
proof (induction s arbitrary: w rule: replace_crlf.induct)
  case (3 x y s)
  show ?case
  proof (cases "w = replace_crlf (x # y # s)")
    case True
    then show ?thesis using 3 replace_crlf_unchanged by metis
  next
    case False
    then show ?thesis using 3 by (auto simp: suffix_Cons split: if_splits)
  qed
qed auto

lemma replace_crlf_ends:
  "s \<noteq> [] \<Longrightarrow> replace_crlf s \<noteq> [] \<and> last (replace_crlf s) = last s \<and>
    (hd (replace_crlf s) = hd s \<or> hd (replace_crlf s) = CHR 0x0A \<and> hd s = CHR 0x0D)"
  by (induction s rule: replace_crlf.induct) auto

lemma replace_crlf_empty [simp]: "replace_crlf s = [] \<longleftrightarrow> s = []"
  using replace_crlf_ends by (cases "s = []") auto

lemma white_space_line_feed: "w \<in> set (ws1 @ ws2 @ ws3) \<Longrightarrow> CHR 0x0A \<in> set w \<Longrightarrow> w = [CHR 0x0A]"
  by (auto simp: ws1_def ws2_def ws3_def)

lemma ws_front_replace_crlf: "ws_front s = 0 \<Longrightarrow> ws_front (replace_crlf s) = 0"
proof (rule ccontr)
  assume s: "ws_front s = 0" and "ws_front (replace_crlf s) \<noteq> 0"
  then obtain w where w: "w \<in> set (ws1 @ ws2 @ ws3)" "prefix w (replace_crlf s)" by (auto simp only: ws_front_iff)
  have front: "\<not> prefix v s" if "v \<in> set (ws1 @ ws2 @ ws3)" for v using s ws_front_iff [of s] that by blast
  have "w = [CHR 0x0A]" using replace_crlf_prefix [OF w(2)] front [OF w(1)] white_space_line_feed [OF w(1)] by blast
  then have "s \<noteq> []" "hd (replace_crlf s) = CHR 0x0A" using w(2) by (auto simp: prefix_def)
  then have "prefix [CHR 0x0A] s \<or> prefix [CHR 0x0D] s" using replace_crlf_ends [of s] by (cases s) auto
  then show False using front [of "[CHR 0x0A]"] front [of "[CHR 0x0D]"] by (auto simp: ws1_def)
qed

lemma ws_back_replace_crlf: "ws_back s = 0 \<Longrightarrow> ws_back (replace_crlf s) = 0"
proof (rule ccontr)
  assume s: "ws_back s = 0" and "ws_back (replace_crlf s) \<noteq> 0"
  then obtain w where w: "w \<in> set (ws1 @ ws2 @ ws3)" "suffix w (replace_crlf s)" by (auto simp only: ws_back_iff)
  have rear: "\<not> suffix v s" if "v \<in> set (ws1 @ ws2 @ ws3)" for v using s ws_back_iff [of s] that by blast
  have "w = [CHR 0x0A]" using replace_crlf_suffix [OF w(2)] rear [OF w(1)] white_space_line_feed [OF w(1)] by blast
  then have "s \<noteq> []" "last (replace_crlf s) = CHR 0x0A" using w(2) by (auto simp: suffix_def)
  then have "suffix [CHR 0x0A] s" using replace_crlf_ends [of s] by (metis append_butlast_last_id suffix_def)
  then show False using rear [of "[CHR 0x0A]"] by (simp add: ws1_def)
qed

lemma ws_trim [simp]: "ws_front (trim s) = 0" "ws_back (trim s) = 0"
  unfolding trim_def by (rule ws_front_prefix [OF trim_end_prefix ws_front_trim_start]) (rule ws_back_trim_end)

lemma trim_normalize_external_text [simp]: "trim (normalize_external_text s) = normalize_external_text s"
  by (rule trim_fixed) (simp_all add: normalize_external_text_def ws_front_replace_crlf ws_back_replace_crlf)

lemma normalize_external_text_empty [simp]: "normalize_external_text s = [] \<longleftrightarrow> trim s = []"
  by (simp add: normalize_external_text_def)

section \<open>Canonical values ignore field order\<close>

lemma map_sorted_fields:
  "map (\<lambda>(k, v). (k, f v)) (sort_key fst m) = sort_key fst (map (\<lambda>(k, v). (k, f v)) m)"
  by (rule map_sort_key) auto

lemma sort_key_sorted_fields: "sort_key fst (sort_key fst m) = sort_key fst m"
  by (rule sort_key_id_if_sorted) (rule sorted_sort_key)

lemma canonicalize_sort_value: "canonicalize_json_value (sort_value v) = canonicalize_json_value v"
proof (induction v)
  case (VObject m)
  have "canonicalize_json_value (sort_value (VObject m)) =
      VObject (sort_key fst (map (\<lambda>(k, v). (k, canonicalize_json_value v)) (sort_key fst (map (\<lambda>(k, v). (k, sort_value v)) m))))"
    by (simp add: map_sorted_fields)
  also have "\<dots> = VObject (sort_key fst (map (\<lambda>(k, v). (k, canonicalize_json_value (sort_value v))) m))"
    by (simp only: map_sorted_fields sort_key_sorted_fields map_map) (simp add: comp_def case_prod_unfold)
  also have "map (\<lambda>(k, v). (k, canonicalize_json_value (sort_value v))) m = map (\<lambda>(k, v). (k, canonicalize_json_value v)) m"
    using VObject.IH by (fastforce simp: snds.simps)
  finally show ?case by (simp add: map_sorted_fields)
qed auto

lemma sort_canonical: "sort_value (canonicalize_json_value v) = canonicalize_json_value v"
proof (induction v)
  case (VObject m)
  have "sort_value (canonicalize_json_value (VObject m)) =
      VObject (sort_key fst (map (\<lambda>(k, v). (k, sort_value (canonicalize_json_value v))) m))"
    by (simp only: canonicalize_json_value.simps sort_value.simps map_sorted_fields sort_key_sorted_fields map_map)
      (simp add: comp_def case_prod_unfold)
  also have "map (\<lambda>(k, v). (k, sort_value (canonicalize_json_value v))) m = map (\<lambda>(k, v). (k, canonicalize_json_value v)) m"
    using VObject.IH by (fastforce simp: snds.simps)
  finally show ?case by (simp add: map_sorted_fields)
qed auto

lemma canonical_wf: "value_wf v \<Longrightarrow> value_wf (canonicalize_json_value v)"
proof (induction v)
  case (VObject m)
  have "distinct (map fst (map (\<lambda>(k, v). (k, canonicalize_json_value v)) (sort_key fst m)))"
    using VObject.prems by (simp add: comp_def case_prod_unfold distinct_map)
  moreover have "value_wf (canonicalize_json_value v)" if "(k, v) \<in> set m" for k v
    using that VObject by (fastforce simp: list_all_iff snds.simps)
  ultimately show ?case by (auto simp: list_all_iff)
qed (auto simp: list_all_iff)

lemma same_value_canonical:
  assumes "value_wf v" and "value_wf w" and "same_value v w"
  shows "canonicalize_json_value v = canonicalize_json_value w"
  using assms sort_value_eq_iff canonicalize_sort_value by metis

section \<open>JSON paths respect field order\<close>

definition same_wf :: "'f Value \<Rightarrow> 'f Value \<Rightarrow> bool" where
  "same_wf v w \<longleftrightarrow> value_wf v \<and> value_wf w \<and> same_value v w"

lemma same_get: "same_wf v w \<Longrightarrow> rel_option same_wf (value_get key v) (value_get key w)"
proof (cases v)
  case (VObject m)
  assume v: "same_wf v w"
  then obtain m' where w: "w = VObject m'" and rel: "rel_option same_value (map_of m key) (map_of m' key)"
    using VObject by (auto simp: same_wf_def same_value_object)
  have "value_wf x" if "map_of m key = Some x" for x
    using that v VObject by (auto simp: same_wf_def list_all_iff dest: map_of_SomeD)
  moreover have "value_wf x" if "map_of m' key = Some x" for x
    using that v w by (auto simp: same_wf_def list_all_iff dest: map_of_SomeD)
  ultimately show ?thesis using rel VObject w
    by (cases "map_of m key"; cases "map_of m' key") (auto simp: value_get_def same_wf_def)
qed (auto simp: same_wf_def value_get_def same_value_array)

lemma same_items:
  "same_wf v w \<Longrightarrow> list_all2 same_wf (case as_array v of Some items \<Rightarrow> items | None \<Rightarrow> [])
    (case as_array w of Some items \<Rightarrow> items | None \<Rightarrow> [])"
  by (cases v) (auto simp: same_wf_def as_array_def same_value_array same_value_object list_all_iff list_all2_conv_all_nth)

lemma extract_step_same:
  "list_all2 same_wf vs ws \<Longrightarrow> list_all2 same_wf (extract_step segment vs) (extract_step segment ws)"
proof (induction rule: list_all2_induct)
  case (Cons v vs w ws)
  let ?key = "if suffix ''[*]'' segment then trim_end_pattern ''[*]'' segment else segment"
  have "rel_option same_wf (value_get ?key v) (value_get ?key w)" using Cons.hyps(1) by (rule same_get)
  then have "list_all2 same_wf (extract_step segment [v]) (extract_step segment [w])"
    by (cases rule: option.rel_cases) (simp_all add: extract_step_def Let_def same_items)
  then show ?case using Cons.IH by (auto simp: extract_step_def Let_def intro: list_all2_appendI)
qed (simp add: extract_step_def)

lemma extract_segments_same:
  "list_all2 same_wf vs ws \<Longrightarrow> list_all2 same_wf (extract_segments segments vs) (extract_segments segments ws)"
proof (induction segments arbitrary: vs ws)
  case (Cons segment segments)
  have step: "list_all2 same_wf (extract_step segment vs) (extract_step segment ws)"
    using Cons.prems by (rule extract_step_same)
  then show ?case using Cons.IH [OF step] by (auto simp: Let_def)
qed simp

lemma extract_values_same:
  "same_wf v w \<Longrightarrow> list_all2 same_wf (extract_json_path_values v path) (extract_json_path_values w path)"
  by (simp add: extract_json_path_values_def Let_def extract_segments_same)

definition is_scalar :: "'f Value \<Rightarrow> bool" where
  "is_scalar v = (case v of VArray _ \<Rightarrow> False | VObject _ \<Rightarrow> False | _ \<Rightarrow> True)"

text \<open>Paths of the configuration that select text select scalars only.\<close>

definition selects_scalars :: "'f Value \<Rightarrow> string option \<Rightarrow> bool" where
  "selects_scalars v path =
    (case normalize_config_path path of None \<Rightarrow> True | Some p \<Rightarrow> list_all is_scalar (extract_json_path_values v p))"

lemma same_scalar: "same_value v w \<Longrightarrow> is_scalar v \<Longrightarrow> v = w"
  by (cases v) (auto simp: is_scalar_def)

lemma extract_scalars_same:
  assumes "same_wf v w" and "list_all is_scalar (extract_json_path_values v p)"
  shows "extract_json_path_values v p = extract_json_path_values w p"
proof -
  have "list_all2 (=) (extract_json_path_values v p) (extract_json_path_values w p)"
    using extract_values_same [OF assms(1), of p] assms(2)
    by (auto simp: list_all2_conv_all_nth list_all_length same_wf_def intro: same_scalar)
  then show ?thesis by (simp add: list.rel_eq)
qed

lemma first_value_same:
  assumes "same_wf v w"
  shows "rel_option same_wf (extract_first_json_path_value v p) (extract_first_json_path_value w p)"
  using extract_values_same [OF assms, of p]
  by (cases "extract_json_path_values v p"; cases "extract_json_path_values w p")
    (auto simp: extract_first_json_path_value_def)

section \<open>Shape of an object\<close>

definition json_compact :: "('f Value \<Rightarrow> string) \<Rightarrow> bool" where
  "json_compact json_text \<longleftrightarrow> (\<forall>v. json_text v \<noteq> [] \<and> trim (json_text v) = json_text v)"

definition trimmed_text :: "string \<Rightarrow> bool" where
  "trimmed_text s \<longleftrightarrow> s \<noteq> [] \<and> trim s = s"

text \<open>
  The type invariant of an external context object: identity, kind, schema version, title and content
  are non-empty trimmed texts, the identity is the prefix and sixteen lowercase hexadecimal digits, and
  the metadata is a JSON value whose objects are sorted by key and have distinct keys.
\<close>

definition context_object_ok :: "'f context_object \<Rightarrow> bool" where
  "context_object_ok obj \<longleftrightarrow>
    (\<exists>h. ctx_object_id obj = ''external_context:'' @ h \<and> length h = 16 \<and> list_all lowercase_hex h) \<and>
    trimmed_text (ctx_schema_version obj) \<and> trimmed_text (ctx_object_kind obj) \<and> trimmed_text (ctx_title obj) \<and>
    trimmed_text (ctx_content obj) \<and> value_wf (ctx_metadata obj) \<and> sort_value (ctx_metadata obj) = ctx_metadata obj"

lemma hex_digit_lowercase: "n < 16 \<Longrightarrow> lowercase_hex (hex_digit n)"
proof -
  assume "n < 16"
  then have "n \<in> set [0..<16]" by simp
  moreover have "list_all (\<lambda>n. lowercase_hex (hex_digit n)) [0..<16]" by code_simp
  ultimately show ?thesis by (simp add: list_all_iff)
qed

lemma object_id_shape:
  "\<exists>h. build_external_context_object_id json_text p t k h0 c m = ''external_context:'' @ h \<and> length h = 16 \<and> list_all lowercase_hex h"
  unfolding build_external_context_object_id_def Let_def
  by (rule exI, rule conjI, rule refl) (simp add: hex16_def list_all_iff hex_digit_lowercase)

lemma trimmed_normalized: "trim s \<noteq> [] \<Longrightarrow> trimmed_text (normalize_external_text s)"
  by (simp add: trimmed_text_def)

lemma schema_version_trimmed: "trimmed_text (normalize_schema_version v)"
proof -
  have "trim EXTERNAL_CONTEXT_SCHEMA_VERSION = EXTERNAL_CONTEXT_SCHEMA_VERSION" by code_simp
  then show ?thesis by (simp add: trimmed_text_def normalize_schema_version_def Let_def)
qed

lemma extracted_wf: "value_wf v \<Longrightarrow> x \<in> set (extract_json_path_values v p) \<Longrightarrow> value_wf x"
proof -
  assume v: "value_wf v" and x: "x \<in> set (extract_json_path_values v p)"
  have "sort_value v = sort_value v" by (rule refl)
  then have "same_wf v v" using v sort_value_eq_iff [OF v v] by (simp add: same_wf_def)
  from extract_values_same [OF this, of p] x show ?thesis by (auto simp: list_all2_conv_all_nth in_set_conv_nth same_wf_def)
qed

lemma ws_front_take: "ws_front s \<noteq> 0 \<Longrightarrow> take (ws_front s) s \<in> set (ws1 @ ws2 @ ws3)"
  unfolding ws_front_def set_append by (simp split: if_splits)

lemma trim_start_keeps_last:
  "s \<noteq> [] \<Longrightarrow> ws_back s = 0 \<Longrightarrow> trim_start s \<noteq> [] \<and> last (trim_start s) = last s"
proof (induction s rule: trim_start.induct)
  case (1 s)
  show ?case
  proof (cases "ws_front s = 0")
    case True
    then show ?thesis using 1(2) by (simp add: trim_start.simps)
  next
    case False
    let ?r = "drop (ws_front s) s"
    have "?r \<noteq> []"
    proof
      assume "?r = []"
      then have "s \<in> set (ws1 @ ws2 @ ws3)" using ws_front_take [OF False] by simp
      then have "ws_back s \<noteq> 0" unfolding ws_back_iff by (rule rev_bexI) simp
      then show False using 1(3) by simp
    qed
    moreover have "ws_back ?r = 0"
    proof (rule ccontr)
      assume "ws_back ?r \<noteq> 0"
      then have "ws_back s \<noteq> 0" unfolding ws_back_iff by (meson suffix_drop suffix_order.trans)
      then show False using 1(3) by simp
    qed
    ultimately show ?thesis using 1(1) [OF False] False by (simp add: trim_start.simps [of s])
  qed
qed

lemma tool_title_text: "trim (t @ '' result'') \<noteq> []"
proof -
  let ?s = "t @ '' result''"
  have "ws_back ?s = 0" by (rule ws_back_graphic) (simp_all add: is_ascii_graphic_def)
  then have start: "trim_start ?s \<noteq> [] \<and> last (trim_start ?s) = CHR ''t''" using trim_start_keeps_last [of ?s] by simp
  then have "ws_back (trim_start ?s) = 0" by (intro ws_back_graphic) (simp_all add: is_ascii_graphic_def)
  then show ?thesis using start by (simp add: trim_def trim_end.simps)
qed

section \<open>Properties\<close>

lemma first_text_nonblank: "extract_first_json_path_text json_text v p = Some t \<Longrightarrow> trim t \<noteq> []"
proof -
  assume "extract_first_json_path_text json_text v p = Some t"
  then have "t \<in> set (extract_json_path_texts json_text v p)"
    by (auto simp: extract_first_json_path_text_def split: list.splits)
  then show ?thesis by (simp add: extract_json_path_texts_def)
qed

lemma title_source_nonblank: "title_source json_text result config = Ok t \<Longrightarrow> trim t \<noteq> []"
  by (auto simp: title_source_def ok_or_def tool_title_text dest: first_text_nonblank split: option.splits)

lemma content_source_nonblank: "json_compact json_text \<Longrightarrow> content_source json_text result config = Ok c \<Longrightarrow> trim c \<noteq> []"
  by (auto simp: content_source_def Let_def json_compact_def canonical_json_string_def split: option.splits if_splits)

lemma first_value_wf: "value_wf v \<Longrightarrow> extract_first_json_path_value v p = Some m \<Longrightarrow> value_wf m"
  using extracted_wf [of v m p] by (auto simp: extract_first_json_path_value_def split: list.splits)

lemma metadata_source_wf: "value_wf (result_payload result) \<Longrightarrow> metadata_source result config = Ok m \<Longrightarrow> value_wf m"
  by (auto intro: first_value_wf simp: metadata_source_def ok_or_def split: option.splits)

lemma config_object_kind_trimmed: "trimmed_text (config_object_kind config)"
proof -
  have "trim ''externalKnowledge'' = ''externalKnowledge''" by code_simp
  then show ?thesis by (cases "config_kind config") (simp_all add: trimmed_text_def config_object_kind_def)
qed

text \<open>
  C33: every external context object the normaliser produces from a well-formed JSON payload is well typed.
  Its identity is the fixed prefix and sixteen lowercase hexadecimal digits; schema version, kind, title
  and content are non-empty and trimmed, whatever the tool returned and however its paths are
  configured; its metadata has distinct keys and is sorted by key at every level. The JSON text of a value
  is not empty and not surrounded by white space.
\<close>

theorem external_object_well_typed:
  assumes "json_compact json_text" and "value_wf (result_payload result)"
    and "normalize_external_result json_text result config = Ok obj"
  shows "context_object_ok obj"
proof -
  from assms(3) obtain t c m where src: "title_source json_text result config = Ok t"
      "content_source json_text result config = Ok c" "metadata_source result config = Ok m"
    and obj: "obj = \<lparr>ctx_schema_version = normalize_schema_version (result_schema_version result),
      ctx_object_id = build_external_context_object_id json_text (result_provider_id result) (result_tool_name result)
        (config_object_kind config) (normalize_external_text t) (normalize_external_text c) (canonicalize_json_value m),
      ctx_object_kind = config_object_kind config, ctx_provider_id = result_provider_id result,
      ctx_tool_name = result_tool_name result, ctx_title = normalize_external_text t,
      ctx_content = normalize_external_text c, ctx_metadata = canonicalize_json_value m,
      ctx_updated_at_ms = (case result_source_timestamp_ms result of Some t \<Rightarrow> t | None \<Rightarrow> 0)\<rparr>"
    unfolding normalize_external_result_def Let_def by (auto simp only: res_bind_eq_Inr sum.inject)
  have "trimmed_text (normalize_external_text t)" "trimmed_text (normalize_external_text c)" "value_wf (canonicalize_json_value m)"
    using src assms(1,2)
    by (simp_all add: trimmed_normalized title_source_nonblank content_source_nonblank canonical_wf metadata_source_wf)
  then show ?thesis
    unfolding context_object_ok_def obj context_object.select_convs
    by (intro conjI object_id_shape schema_version_trimmed config_object_kind_trimmed sort_canonical)
qed

definition sample_json_text :: "unit Value \<Rightarrow> string" where
  "sample_json_text v = ''{}''"

definition sample_tool_result :: "unit ExternalToolResult" where
  "sample_tool_result = for_http ''http.knowledge'' ''lookup'' ''call-1''
    (VObject [(''title'', VString '' Guide ''), (''chunks'', VArray [VObject [(''text'', VString ''a'')],
      VObject [(''text'', VString ''b'')]])]) 42"

definition sample_paths :: ExternalContextNormalizationConfig where
  "sample_paths = \<lparr>config_kind = None, title_path = Some ''$.title'', content_path = Some ''$.chunks[*].text'',
    metadata_path = None\<rparr>"

lemma sample_paths_parsed:
  "normalize_config_path (Some ''$.title'') = Some ''$.title''" "normalize_config_path (Some ''$.chunks[*].text'') = Some ''$.chunks[*].text''"
  "normalize_config_path None = None"
  by code_simp+

lemma sample_extracted:
  "extract_json_path_texts sample_json_text (result_payload sample_tool_result) ''$.title'' = ['' Guide '']"
  "extract_json_path_texts sample_json_text (result_payload sample_tool_result) ''$.chunks[*].text'' = [''a'', ''b'']"
  by code_simp+

lemma sample_content_trim: "trim (''a'' @ [CHR 0x0A, CHR 0x0A] @ ''b'') = ''a'' @ [CHR 0x0A, CHR 0x0A] @ ''b''"
  by code_simp

theorem external_object_well_typed_witness:
  "\<exists>obj. normalize_external_result sample_json_text sample_tool_result sample_paths = Ok obj \<and> context_object_ok obj"
proof -
  have compact: "json_compact sample_json_text" unfolding json_compact_def sample_json_text_def by (auto, code_simp)
  have wf: "value_wf (result_payload sample_tool_result)" by (simp add: sample_tool_result_def for_http_def)
  have "is_ok (normalize_external_result sample_json_text sample_tool_result sample_paths)"
    unfolding normalize_external_result_def title_source_def content_source_def metadata_source_def
    using sample_content_trim
    by (simp add: sample_paths_def sample_paths_parsed sample_extracted extract_first_json_path_text_def ok_or_def
        is_ok_def Let_def)
  then obtain obj where "normalize_external_result sample_json_text sample_tool_result sample_paths = Ok obj"
    unfolding is_ok_def by (auto split: sum.splits)
  then show ?thesis using external_object_well_typed [OF compact wf] by blast
qed

text \<open>
  C34: the object does not depend on the order in which the provider writes the fields of its JSON
  payload, at any depth, nor on the tool call. Payloads that are the same up to field order give the same
  error or the same object, with the same identity; a title or content path, if configured, selects strings,
  numbers, booleans or null. Only the timestamp follows the call.
\<close>

theorem external_object_field_order:
  assumes "value_wf v" and "value_wf w" and "same_value v w"
    and "selects_scalars v (title_path config)" and "selects_scalars v (content_path config)"
  shows "normalize_external_result json_text (for_http provider tool call v t_ms) config =
    map_sum id (\<lambda>obj. obj\<lparr>ctx_updated_at_ms := t_ms\<rparr>)
      (normalize_external_result json_text (for_http provider tool call' w t_ms') config)"
proof -
  let ?v = "for_http provider tool call v t_ms" and ?w = "for_http provider tool call' w t_ms'"
  have same: "same_wf v w" using assms(1-3) by (simp add: same_wf_def)
  have texts: "extract_json_path_texts json_text v p = extract_json_path_texts json_text w p"
    if "selects_scalars v q" "normalize_config_path q = Some p" for p q
    using extract_scalars_same [OF same] that by (simp add: extract_json_path_texts_def selects_scalars_def)
  have t: "title_source json_text ?v config = title_source json_text ?w config"
    using texts [OF assms(4)] by (simp add: title_source_def for_http_def extract_first_json_path_text_def split: option.splits)
  have c: "content_source json_text ?v config = content_source json_text ?w config"
    using texts [OF assms(5)] same_value_canonical [OF assms(1-3)]
    by (simp add: content_source_def for_http_def canonical_json_string_def split: option.splits)
  have "rel_sum (=) same_wf (metadata_source ?v config) (metadata_source ?w config)"
  proof (cases "normalize_config_path (metadata_path config)")
    case (Some p)
    from first_value_same [OF same, of p] show ?thesis
      by (cases rule: option.rel_cases) (simp_all add: metadata_source_def for_http_def ok_or_def Some)
  qed (simp add: metadata_source_def for_http_def same_wf_def same_value_object)
  then have m: "map_sum id canonicalize_json_value (metadata_source ?v config) =
      map_sum id canonicalize_json_value (metadata_source ?w config)"
    by (cases rule: rel_sum.cases) (auto simp: same_wf_def same_value_canonical)
  show ?thesis
    unfolding normalize_external_result_def Let_def t c using m
    by (cases "title_source json_text ?w config"; cases "content_source json_text ?w config";
        cases "metadata_source ?v config"; cases "metadata_source ?w config")
      (simp_all add: for_http_def)
qed

theorem external_object_field_order_witness:
  "normalize_external_result sample_json_text (for_http ''p'' ''t'' ''c1''
      (VObject [(''b'', VNumber (JsonInt 2)), (''a'', VObject [(''y'', VNull), (''x'', VBool True)])]) 1) default_normalization_config =
    map_sum id (\<lambda>obj. obj\<lparr>ctx_updated_at_ms := 1\<rparr>) (normalize_external_result sample_json_text (for_http ''p'' ''t'' ''c2''
      (VObject [(''a'', VObject [(''x'', VBool True), (''y'', VNull)]), (''b'', VNumber (JsonInt 2))]) 9) default_normalization_config)"
proof (rule external_object_field_order)
  show "same_value (VObject [(''b'', VNumber (JsonInt 2)), (''a'', VObject [(''y'', VNull), (''x'', VBool True)])])
      (VObject [(''a'', VObject [(''x'', VBool True), (''y'', VNull)]), (''b'', VNumber (JsonInt 2))] :: unit Value)"
    by (intro same_object) (auto intro: same_object)
qed (simp_all add: selects_scalars_def normalize_config_path_def)

text \<open>The object as the store takes it.\<close>

definition stored_object :: "f64 context_object \<Rightarrow> ExternalContextObject" where
  "stored_object obj =
    \<lparr>ext_schema_version = ctx_schema_version obj, ext_object_id = ctx_object_id obj, ext_object_kind = ctx_object_kind obj,
     ext_provider_id = ctx_provider_id obj, ext_tool_name = ctx_tool_name obj, ext_title = ctx_title obj,
     ext_content = ctx_content obj, ext_metadata = ctx_metadata obj, ext_updated_at_ms = ctx_updated_at_ms obj\<rparr>"

definition body_path :: ExternalContextNormalizationConfig where
  "body_path = \<lparr>config_kind = None, title_path = None, content_path = Some ''$.body'', metadata_path = None\<rparr>"

definition body_result :: "string \<Rightarrow> string \<Rightarrow> string \<Rightarrow> string \<Rightarrow> int \<Rightarrow> 'f ExternalToolResult" where
  "body_result provider tool call body now_ms = for_http provider tool call (VObject [(''body'', VString body)]) now_ms"

definition two_returns :: string where
  "two_returns = ''a'' @ [CHR 0x0D, CHR 0x0D, CHR 0x0A] @ ''b''"

definition one_return :: string where
  "one_return = ''a'' @ [CHR 0x0D, CHR 0x0A] @ ''b''"

lemma return_texts:
  "normalize_external_text two_returns = one_return" "normalize_external_text one_return = ''a'' @ [CHR 0x0A] @ ''b''"
  "normalize_external_text (''a'' @ [CHR 0x0A] @ ''b'') = ''a'' @ [CHR 0x0A] @ ''b''"
  "trim two_returns \<noteq> []" "trim one_return \<noteq> []" "utf8_valid one_return" "utf8_valid (''a'' @ [CHR 0x0A] @ ''b'')"
  by code_simp+

lemma body_normalized:
  fixes json_text :: "'f Value \<Rightarrow> string"
  assumes "trim body \<noteq> []"
  obtains obj where "normalize_external_result json_text (body_result provider tool call body now_ms) body_path = Ok obj"
    "ctx_content obj = normalize_external_text body"
    "ctx_object_id obj = build_external_context_object_id json_text provider tool ''externalKnowledge''
      (normalize_external_text (tool @ '' result'')) (normalize_external_text body) (VObject [])"
    "ctx_metadata obj = VObject []"
proof -
  have path: "normalize_config_path (Some ''$.body'') = Some ''$.body''" "normalize_config_path None = None" by code_simp+
  have "extract_json_path_values v ''$.body'' = extract_segments [''body''] [v]" for v :: "'f Value"
  proof -
    have "trim ''$.body'' = ''$.body''" "strip_prefix ''$.'' ''$.body'' = Some ''body''" "split_on (CHR ''.'') ''body'' = [''body'']"
      by code_simp+
    then show ?thesis by (simp add: extract_json_path_values_def)
  qed
  moreover have "suffix ''[*]'' ''body'' = False" by code_simp
  ultimately have "extract_json_path_texts json_text (VObject [(''body'', VString body)]) ''$.body'' = [body]"
    using assms by (simp add: extract_json_path_texts_def extract_step_def value_get_def Let_def)
  then have "normalize_external_result json_text (body_result provider tool call body now_ms) body_path =
    Ok \<lparr>ctx_schema_version = normalize_schema_version EXTERNAL_CONTEXT_SCHEMA_VERSION,
      ctx_object_id = build_external_context_object_id json_text provider tool ''externalKnowledge''
        (normalize_external_text (tool @ '' result'')) (normalize_external_text body) (VObject []),
      ctx_object_kind = ''externalKnowledge'', ctx_provider_id = provider, ctx_tool_name = tool,
      ctx_title = normalize_external_text (tool @ '' result''), ctx_content = normalize_external_text body,
      ctx_metadata = VObject [], ctx_updated_at_ms = now_ms\<rparr>"
    using assms
    by (simp add: normalize_external_result_def title_source_def content_source_def metadata_source_def body_result_def
        body_path_def for_http_def path Let_def config_object_kind_def)
  then show thesis by (rule that) simp_all
qed

lemma object_id_nonempty: "build_external_context_object_id json_text p t k h0 c m \<noteq> []"
  by (simp add: build_external_context_object_id_def)

lemma object_id_trimmed:
  "trim (build_external_context_object_id json_text p t k h0 c m) = build_external_context_object_id json_text p t k h0 c m"
proof -
  obtain h where h: "build_external_context_object_id json_text p t k h0 c m = ''external_context:'' @ h" "length h = 16"
    "list_all lowercase_hex h" using object_id_shape by blast
  have ne: "h \<noteq> []" using h(2) by auto
  then have "lowercase_hex (last h)" using h(3) last_in_set [OF ne] by (simp add: list_all_iff)
  then have "is_ascii_graphic (last h)" by (auto simp: is_ascii_graphic_def lowercase_hex_def is_ascii_digit_def less_eq_char_def)
  with ne show ?thesis unfolding h(1) by (intro trim_graphic) (simp_all add: is_ascii_graphic_def)
qed

text \<open>
  C35: two different contents can take each other's place. The content of an object has its line ends
  normalised once, but its identity is computed from a text normalised again, and normalising is not
  idempotent: a carriage return before a carriage return and line feed is kept the first time and removed the
  second. For every provider, tool, JSON text and database, with a working compressor and a JSON library that writes
  an empty object and reads it back, two tool results with different stored contents get the same identity, and
  storing the second overwrites the content of the first.
\<close>

theorem external_content_overwritten:
  assumes "\<And>b e n. zstd_encode_all lib b = Ok e \<Longrightarrow> zstd_read lib e n = Ok (take n b)"
    and json: "json_reads_back lib" "json_to_string lib (VObject []) = Ok t"
  shows "\<exists>obj obj' s1 s2.
    normalize_external_result json_text (body_result provider tool call two_returns now_ms) body_path = Ok obj \<and>
    normalize_external_result json_text (body_result provider tool call one_return now_ms) body_path = Ok obj' \<and>
    ctx_content obj \<noteq> ctx_content obj' \<and>
    upsert_external_context_object_conn lib (stored_object obj) s = Ok ((), s1) \<and>
    load_external_context_object lib (ctx_object_id obj) s1 = Ok (Some (stored_object obj)) \<and>
    upsert_external_context_object_conn lib (stored_object obj') s1 = Ok ((), s2) \<and>
    load_external_context_object lib (ctx_object_id obj) s2 = Ok (Some (stored_object obj'))"
proof -
  obtain obj where obj: "normalize_external_result json_text (body_result provider tool call two_returns now_ms) body_path = Ok obj"
      "ctx_content obj = one_return"
      "ctx_object_id obj = build_external_context_object_id json_text provider tool ''externalKnowledge''
        (normalize_external_text (tool @ '' result'')) one_return (VObject [])"
      "ctx_metadata obj = VObject []"
    using body_normalized [OF return_texts(4)] return_texts(1) by metis
  obtain obj' where obj': "normalize_external_result json_text (body_result provider tool call one_return now_ms) body_path = Ok obj'"
      "ctx_content obj' = ''a'' @ [CHR 0x0A] @ ''b''"
      "ctx_object_id obj' = build_external_context_object_id json_text provider tool ''externalKnowledge''
        (normalize_external_text (tool @ '' result'')) (''a'' @ [CHR 0x0A] @ ''b'') (VObject [])"
      "ctx_metadata obj' = VObject []"
    using body_normalized [OF return_texts(5)] return_texts(2) by metis
  have same: "ctx_object_id obj = ctx_object_id obj'"
    unfolding obj(3) obj'(3) build_external_context_object_id_def return_texts(2,3) by (rule refl)
  have small: "length one_return < EXTERNAL_CONTEXT_ZSTD_MIN_BYTES" "length (''a'' @ [CHR 0x0A] @ ''b'') < EXTERNAL_CONTEXT_ZSTD_MIN_BYTES"
    by (simp_all add: one_return_def EXTERNAL_CONTEXT_ZSTD_MIN_BYTES_def)
  have "\<exists>s'. upsert_external_context_object_conn lib x s = Ok ((), s')"
    if "length (ext_content x) < EXTERNAL_CONTEXT_ZSTD_MIN_BYTES" "ext_metadata x = VObject []" for x s
    using that json(2) by (simp add: upsert_external_context_object_conn_def encode_external_context_content_def i64_try_from_def
        i64_max_def EXTERNAL_CONTEXT_ZSTD_MIN_BYTES_def Let_def)
  then obtain s1 s2 where up: "upsert_external_context_object_conn lib (stored_object obj) s = Ok ((), s1)"
    "upsert_external_context_object_conn lib (stored_object obj') s1 = Ok ((), s2)"
    using small obj(2,4) obj'(2,4) by (metis ExternalContextObject.select_convs(7,8) stored_object_def)
  have empty: "json_from_str lib t = Ok (VObject [])" using json by (simp add: json_reads_back_def)
  have "ctx_object_id obj \<noteq> []" "trim (ctx_object_id obj) = ctx_object_id obj"
    unfolding obj(3) by (rule object_id_nonempty) (rule object_id_trimmed)
  then have "load_external_context_object lib (ctx_object_id obj) s1 = Ok (Some (stored_object obj))"
    "load_external_context_object lib (ctx_object_id obj) s2 = Ok (Some (stored_object obj'))"
    using load_after_upsert [OF assms(1) _ _ _ up(1)] load_after_upsert [OF assms(1) _ _ _ up(2)] return_texts(6,7) obj(2,4)
      obj'(2,4) same json(2) empty
    by (simp_all add: stored_object_def)
  moreover have "ctx_content obj \<noteq> ctx_content obj'" by (simp add: obj(2) obj'(2) one_return_def)
  ultimately show ?thesis using obj(1) obj'(1) up by blast
qed

theorem external_content_overwritten_witness:
  "\<exists>obj obj' s1 s2.
    normalize_external_result (\<lambda>_. ''{}'') (body_result ''p'' ''t'' ''c'' two_returns 1) body_path = Ok obj \<and>
    normalize_external_result (\<lambda>_. ''{}'') (body_result ''p'' ''t'' ''c'' one_return 1) body_path = Ok obj' \<and>
    ctx_content obj \<noteq> ctx_content obj' \<and>
    upsert_external_context_object_conn sample_lib (stored_object obj) run_db = Ok ((), s1) \<and>
    load_external_context_object sample_lib (ctx_object_id obj) s1 = Ok (Some (stored_object obj)) \<and>
    upsert_external_context_object_conn sample_lib (stored_object obj') s1 = Ok ((), s2) \<and>
    load_external_context_object sample_lib (ctx_object_id obj) s2 = Ok (Some (stored_object obj'))"
  by (rule external_content_overwritten [OF _ sample_json(1,2)]) (simp add: sample_lib_def)

text \<open>The payload that reaches the model: its pointer names the object it carries, with the object's kind and time.\<close>

lemma payload_points_to_object:
  assumes "build_http_external_object_output json_text provider tool call config body now_ms = Ok payload"
  shows "ptr_object_id (payload_pointer payload) = ctx_object_id (payload_object payload) \<and>
    ptr_object_kind (payload_pointer payload) = ctx_object_kind (payload_object payload) \<and>
    ptr_updated_at_ms (payload_pointer payload) = now_ms \<and> ctx_updated_at_ms (payload_object payload) = now_ms \<and>
    normalize_external_result json_text (for_http provider tool call body now_ms) config = Ok (payload_object payload)"
proof -
  obtain obj where obj: "normalize_external_result json_text (for_http provider tool call body now_ms) config = Ok obj"
    "payload_object payload = obj"
    "payload_pointer payload = project_context_pointer obj ''http.tool'' (''external HTTP provider result from '' @ tool)"
    using assms unfolding build_http_external_object_output_def Let_def by (auto simp only: res_bind_eq_Inr sum.inject
        ExternalContextObjectPayload.select_convs)
  moreover have "ctx_updated_at_ms obj = now_ms"
    using obj(1) unfolding normalize_external_result_def Let_def
    by (auto simp only: res_bind_eq_Inr sum.inject context_object.select_convs for_http_def ExternalToolResult.select_convs option.case)
  ultimately show ?thesis by (simp add: project_context_pointer_def)
qed

end
