(* ===== verification/ResolvedInputs.thy ===== *)
theory ResolvedInputs
  imports Machines
begin

text \<open>
  The inputs an agent run may read (\<open>core/src/tool/inputs.rs\<close>): declared inputs with an immutable identity,
  inputs that the host admits later, and the manifest of inputs that have been resolved to a virtual path.

  The resolver is code of the host, so its answers are arbitrary. \<open>resolve_input\<close> looks a declaration up,
  calls the resolver without a lock and then enters the manifest in one critical section; runs interleave
  any number of such calls and admissions. Nothing that runs under the two locks can panic, so they are
  never poisoned. Unicode normalisation is a parameter, and paths are those of a POSIX host.
\<close>

section \<open>Inputs\<close>

record InputIdentityV1 =
  owner_kind :: string
  owner_id :: string
  generation :: nat
  identity_sha256 :: string

record DeclaredInput =
  decl_schema :: string
  decl_input_ref :: string
  decl_display_name :: string
  decl_content_type :: string
  input_identity :: InputIdentityV1
  decl_size_bytes :: nat

record ResolvedInput =
  res_schema :: string
  res_input_ref :: string
  object_ref :: string
  res_owner_kind :: string
  virtual_path :: string
  res_display_name :: string
  res_content_type :: string
  res_size_bytes :: nat
  res_sha256 :: string
  source_version :: string
  evidence_kind :: string
  citation_allowed :: bool

record ResolvedInputManifest =
  manifest_schema :: string
  manifest_agent_run_id :: string
  manifest_authorization_digest :: string
  manifest_inputs :: "ResolvedInput list"

abbreviation RESOLVED_INPUT_SCHEMA :: string where
  "RESOLVED_INPUT_SCHEMA \<equiv> ''runtime.resolved_input.v1''"

abbreviation RESOLVED_INPUT_MANIFEST_SCHEMA :: string where
  "RESOLVED_INPUT_MANIFEST_SCHEMA \<equiv> ''runtime.resolved_input_manifest.v1''"

abbreviation DECLARED_INPUT_SCHEMA :: string where
  "DECLARED_INPUT_SCHEMA \<equiv> ''runtime.declared_input.v1''"

section \<open>Validation\<close>

definition require_non_empty :: "(string \<Rightarrow> string) \<Rightarrow> string \<Rightarrow> string \<Rightarrow> unit result" where
  "require_non_empty nfc label value =
    res_bind (ensure (\<not> (trim value = [] \<or> trim value \<noteq> value)) (label @ '' is required without outer whitespace'')) (\<lambda>_.
    ensure (nfc value = value) (label @ '' must use NFC Unicode normalization''))"

definition require_opaque_ref :: "(string \<Rightarrow> string) \<Rightarrow> string \<Rightarrow> string \<Rightarrow> unit result" where
  "require_opaque_ref nfc label value =
    res_bind (require_non_empty nfc label value) (\<lambda>_.
    ensure (\<not> (CHR ''/'' \<in> set value \<or> CHR 0x5C \<in> set value)) (label @ '' must be an opaque ref, not a path''))"

definition validate_sha256 :: "string \<Rightarrow> unit result" where
  "validate_sha256 value =
    res_bind (ok_or ''sha256 must use sha256:<hex> format'' (strip_prefix ''sha256:'' value)) (\<lambda>hex.
    ensure (\<not> (length hex \<noteq> 64 \<or> \<not> list_all lowercase_hex hex)) ''sha256 must contain 64 lowercase hexadecimal characters'')"

text \<open>\<open>Path::components\<close> of a POSIX path.\<close>

datatype path_component = RootDir | CurDir | ParentDir | NormalComponent string

definition posix_components :: "string \<Rightarrow> path_component list" where
  "posix_components value =
    (let parts = split_on (CHR ''/'') value in
     (if prefix ''/'' value then [RootDir] else if hd parts = ''.'' then [CurDir] else []) @
     map (\<lambda>p. if p = ''..'' then ParentDir else NormalComponent p) (filter (\<lambda>p. p \<noteq> [] \<and> p \<noteq> ''.'') parts))"

definition is_normal_component :: "path_component \<Rightarrow> bool" where
  "is_normal_component c = (case c of NormalComponent _ \<Rightarrow> True | _ \<Rightarrow> False)"

definition validate_virtual_path :: "(string \<Rightarrow> string) \<Rightarrow> string \<Rightarrow> unit result" where
  "validate_virtual_path nfc value =
    res_bind (require_non_empty nfc ''virtualPath'' value) (\<lambda>_.
    res_bind (ensure (\<not> (CHR 0x5C \<in> set value \<or> CHR '':'' \<in> set value \<or> prefix ''/'' value))
      ''virtualPath must be a relative POSIX path'') (\<lambda>_.
    res_bind (ensure (\<not> list_ex (\<lambda>part. part = [] \<or> part = ''.'' \<or> part = ''..'') (split_on (CHR ''/'') value))
      ''virtualPath must not contain empty, dot, or parent components'') (\<lambda>_.
    ensure (list_all is_normal_component (posix_components value))
      ''virtualPath must not contain root, dot, or parent components'')))"

definition validate_identity :: "(string \<Rightarrow> string) \<Rightarrow> InputIdentityV1 \<Rightarrow> unit result" where
  "validate_identity nfc i =
    res_bind (ensure (owner_kind i \<in> set [''sourceObject'', ''userLibraryObject'', ''artifact''])
      (''unsupported ownerKind: '' @ owner_kind i)) (\<lambda>_.
    res_bind (require_opaque_ref nfc ''ownerId'' (owner_id i)) (\<lambda>_.
    res_bind (ensure (generation i \<noteq> 0) ''input identity generation must be positive'') (\<lambda>_.
    validate_sha256 (identity_sha256 i))))"

definition validate_declared :: "(string \<Rightarrow> string) \<Rightarrow> DeclaredInput \<Rightarrow> unit result" where
  "validate_declared nfc d =
    res_bind (ensure (decl_schema d = DECLARED_INPUT_SCHEMA) ''declared_input_schema_mismatch'') (\<lambda>_.
    res_bind (require_opaque_ref nfc ''inputRef'' (decl_input_ref d)) (\<lambda>_.
    res_bind (require_non_empty nfc ''displayName'' (decl_display_name d)) (\<lambda>_.
    res_bind (require_non_empty nfc ''contentType'' (decl_content_type d)) (\<lambda>_.
    validate_identity nfc (input_identity d)))))"

definition validate_resolved :: "(string \<Rightarrow> string) \<Rightarrow> ResolvedInput \<Rightarrow> unit result" where
  "validate_resolved nfc x =
    res_bind (ensure (res_schema x = RESOLVED_INPUT_SCHEMA) ''resolved_input_schema_mismatch'') (\<lambda>_.
    res_bind (require_opaque_ref nfc ''inputRef'' (res_input_ref x)) (\<lambda>_.
    res_bind (require_opaque_ref nfc ''objectRef'' (object_ref x)) (\<lambda>_.
    res_bind (require_non_empty nfc ''ownerKind'' (res_owner_kind x)) (\<lambda>_.
    res_bind (require_non_empty nfc ''displayName'' (res_display_name x)) (\<lambda>_.
    res_bind (require_non_empty nfc ''contentType'' (res_content_type x)) (\<lambda>_.
    res_bind (require_non_empty nfc ''sourceVersion'' (source_version x)) (\<lambda>_.
    res_bind (require_non_empty nfc ''evidenceKind'' (evidence_kind x)) (\<lambda>_.
    res_bind (validate_virtual_path nfc (virtual_path x)) (\<lambda>_.
    validate_sha256 (res_sha256 x))))))))))"

text \<open>The loop of \<open>validate_declared_inputs\<close>, with the previous reference and the references seen.\<close>

definition declared_step :: "(string \<Rightarrow> string) \<Rightarrow> string option \<times> string set \<Rightarrow> DeclaredInput \<Rightarrow> (string option \<times> string set) result" where
  "declared_step nfc = (\<lambda>(previous, refs) d.
    res_bind (validate_declared nfc d) (\<lambda>_.
    res_bind (ensure (case previous of Some p \<Rightarrow> p < decl_input_ref d | None \<Rightarrow> True)
      ''declared inputs must be sorted by unique inputRef'') (\<lambda>_.
    res_bind (ensure (decl_input_ref d \<notin> refs) (''duplicate inputRef: '' @ decl_input_ref d)) (\<lambda>_.
    Ok (Some (decl_input_ref d), insert (decl_input_ref d) refs)))))"

definition validate_declared_inputs :: "(string \<Rightarrow> string) \<Rightarrow> DeclaredInput list \<Rightarrow> unit result" where
  "validate_declared_inputs nfc ds = res_bind (fold_result (declared_step nfc) (None, {}) ds) (\<lambda>_. Ok ())"

definition same_metadata :: "DeclaredInput \<Rightarrow> ResolvedInput \<Rightarrow> bool" where
  "same_metadata d x \<longleftrightarrow> decl_display_name d = res_display_name x \<and> decl_content_type d = res_content_type x \<and>
    owner_kind (input_identity d) = res_owner_kind x \<and> owner_id (input_identity d) = object_ref x \<and>
    show_nat (generation (input_identity d)) = source_version x \<and> identity_sha256 (input_identity d) = res_sha256 x \<and>
    decl_size_bytes d = res_size_bytes x"

definition manifest_step ::
  "(string \<Rightarrow> string) \<Rightarrow> DeclaredInput list \<Rightarrow> string option \<times> string set \<times> (string \<times> string) set \<times> string set \<Rightarrow> ResolvedInput \<Rightarrow>
    (string option \<times> string set \<times> (string \<times> string) set \<times> string set) result" where
  "manifest_step nfc ds = (\<lambda>(previous, refs, versions, paths) x.
    res_bind (validate_resolved nfc x) (\<lambda>_.
    res_bind (ensure (case previous of Some p \<Rightarrow> p < res_input_ref x | None \<Rightarrow> True)
      ''resolved inputs must be sorted by unique inputRef'') (\<lambda>_.
    res_bind (ensure (res_input_ref x \<notin> refs) (''duplicate inputRef: '' @ res_input_ref x)) (\<lambda>_.
    res_bind (ensure ((object_ref x, source_version x) \<notin> versions)
      (''duplicate objectRef/sourceVersion: '' @ object_ref x @ ''/'' @ source_version x)) (\<lambda>_.
    res_bind (ensure (virtual_path x \<notin> paths) (''duplicate virtualPath: '' @ virtual_path x)) (\<lambda>_.
    res_bind (ok_or (''resolved input is not declared for this AgentRun: '' @ res_input_ref x)
      (List.find (\<lambda>d. decl_input_ref d = res_input_ref x) ds)) (\<lambda>d.
    res_bind (ensure (same_metadata d x) (''resolved input metadata changed: '' @ res_input_ref x)) (\<lambda>_.
    Ok (Some (res_input_ref x), insert (res_input_ref x) refs, insert (object_ref x, source_version x) versions,
        insert (virtual_path x) paths)))))))))"

definition validate_against ::
  "(string \<Rightarrow> string) \<Rightarrow> string \<Rightarrow> string \<Rightarrow> DeclaredInput list \<Rightarrow> ResolvedInputManifest \<Rightarrow> unit result" where
  "validate_against nfc agent_run digest ds m =
    res_bind (ensure (manifest_schema m = RESOLVED_INPUT_MANIFEST_SCHEMA) ''resolved input manifest schema mismatch'') (\<lambda>_.
    res_bind (require_opaque_ref nfc ''agentRunId'' agent_run) (\<lambda>_.
    res_bind (ensure (manifest_agent_run_id m = agent_run) ''resolved input manifest AgentRun binding mismatch'') (\<lambda>_.
    res_bind (validate_sha256 (manifest_authorization_digest m)) (\<lambda>_.
    res_bind (ensure (manifest_authorization_digest m = digest) ''resolved input manifest authorization binding mismatch'') (\<lambda>_.
    res_bind (fold_result (manifest_step nfc ds) (None, {}, {}, {}) (manifest_inputs m)) (\<lambda>_. Ok ()))))))"

section \<open>Lookups\<close>

definition manifest_input_by_ref :: "string \<Rightarrow> ResolvedInputManifest \<Rightarrow> ResolvedInput option" where
  "manifest_input_by_ref r m = List.find (\<lambda>x. res_input_ref x = r) (manifest_inputs m)"

definition canonical_virtual_path :: "string \<Rightarrow> string result" where
  "canonical_virtual_path raw_path =
    (let trimmed = trim raw_path in
     res_bind (ensure (\<not> (trimmed = [] \<or> CHR 0x5C \<in> set trimmed)) ''resolved input virtual path is invalid'') (\<lambda>_.
     res_bind (ensure (\<not> prefix ''/'' trimmed) ''resolved input absolute path alias is unsupported'') (\<lambda>_.
     res_bind (ensure (\<not> (suffix ''/'' trimmed \<or>
         list_ex (\<lambda>c. c = [] \<or> c = ''.'' \<or> c = ''..'') (split_on (CHR ''/'') trimmed)))
       ''resolved input virtual path is invalid'') (\<lambda>_. Ok trimmed))))"

definition manifest_input_by_virtual_path :: "string \<Rightarrow> ResolvedInputManifest \<Rightarrow> ResolvedInput option result" where
  "manifest_input_by_virtual_path raw_path m =
    (case canonical_virtual_path raw_path of
       Inl _ \<Rightarrow> Ok None
     | Inr normalized \<Rightarrow> Ok (List.find (\<lambda>x. virtual_path x = normalized) (manifest_inputs m)))"

section \<open>The state of a run\<close>

record ResolvedInputState =
  run_id :: string
  run_digest :: string
  declared :: "DeclaredInput list"
  admitted :: "DeclaredInput list"
  manifest :: ResolvedInputManifest
  has_resolver :: bool

datatype DeferredInputResolutionFailureKind =
  AssetRemoved | AccessRevoked | SourceDeleted | StaleGeneration | AssetUnavailable | HostUnavailable

type_synonym DeferredInputResolutionError = "DeferredInputResolutionFailureKind \<times> string"

definition ResolvedInputState_new ::
  "(string \<Rightarrow> string) \<Rightarrow> string \<Rightarrow> string \<Rightarrow> DeclaredInput list \<Rightarrow> ResolvedInputManifest \<Rightarrow> bool \<Rightarrow> ResolvedInputState result" where
  "ResolvedInputState_new nfc agent_run digest ds m resolver =
    res_bind (require_opaque_ref nfc ''agentRunId'' agent_run) (\<lambda>_.
    res_bind (validate_sha256 digest) (\<lambda>_.
    res_bind (validate_declared_inputs nfc ds) (\<lambda>_.
    res_bind (validate_against nfc agent_run digest ds m) (\<lambda>_.
    Ok \<lparr>run_id = agent_run, run_digest = digest, declared = ds, admitted = [], manifest = m, has_resolver = resolver\<rparr>))))"

definition declared_inputs :: "ResolvedInputState \<Rightarrow> DeclaredInput list" where
  "declared_inputs st = declared st @ admitted st"

definition declared_input_by_ref :: "string \<Rightarrow> ResolvedInputState \<Rightarrow> DeclaredInput option" where
  "declared_input_by_ref r st = List.find (\<lambda>d. decl_input_ref d = r) (declared_inputs st)"

definition display_name_by_ref :: "string \<Rightarrow> ResolvedInputState \<Rightarrow> string option" where
  "display_name_by_ref r st =
    (case List.find (\<lambda>d. decl_input_ref d = r) (declared_inputs st) of
       Some d \<Rightarrow> Some (decl_display_name d) | None \<Rightarrow> None)"

definition input_by_ref :: "string \<Rightarrow> ResolvedInputState \<Rightarrow> ResolvedInput option" where
  "input_by_ref r st = manifest_input_by_ref r (manifest st)"

definition input_by_virtual_path :: "string \<Rightarrow> ResolvedInputState \<Rightarrow> ResolvedInput option result" where
  "input_by_virtual_path path st = manifest_input_by_virtual_path path (manifest st)"

definition inputs_by_virtual_path_prefix :: "string \<Rightarrow> ResolvedInputState \<Rightarrow> ResolvedInput list result" where
  "inputs_by_virtual_path_prefix raw_prefix st =
    res_bind (canonical_virtual_path raw_prefix) (\<lambda>p.
    let p = trim_end_matches (CHR ''/'') p @ ''/'' in
    Ok (sort_key virtual_path (filter (\<lambda>x. prefix p (virtual_path x)) (manifest_inputs (manifest st)))))"

definition admit_step :: "DeclaredInput list \<Rightarrow> DeclaredInput \<Rightarrow> DeclaredInput list result" where
  "admit_step next input =
    (case List.find (\<lambda>d. decl_input_ref d = decl_input_ref input) next of
       Some existing \<Rightarrow> if existing \<noteq> input then Err ''admitted_input_identity_conflict'' else Ok next
     | None \<Rightarrow> Ok (next @ [input]))"

definition admit_declared_inputs ::
  "(string \<Rightarrow> string) \<Rightarrow> DeclaredInput list \<Rightarrow> ResolvedInputState \<Rightarrow> ResolvedInputState result" where
  "admit_declared_inputs nfc inputs st =
    res_bind (validate_declared_inputs nfc inputs) (\<lambda>_.
    res_bind (fold_result admit_step (declared st @ admitted st) inputs) (\<lambda>next.
    let next = sort_key decl_input_ref next in
    res_bind (validate_declared_inputs nfc next) (\<lambda>_.
    Ok (st\<lparr>admitted := filter (\<lambda>item. \<not> list_ex (\<lambda>d. decl_input_ref d = decl_input_ref item) (declared st)) next\<rparr>))))"

text \<open>
  \<open>resolve_input\<close> in its three parts: the lookups before the resolver is called, the checks of its answer,
  and the critical section on the manifest.
\<close>

definition resolve_lookup ::
  "string \<Rightarrow> ResolvedInputState \<Rightarrow> DeferredInputResolutionError + DeclaredInput \<times> ResolvedInput option" where
  "resolve_lookup r st =
    res_bind (ok_or (AssetUnavailable, ''requested input is not declared for this AgentRun'')
      (List.find (\<lambda>d. decl_input_ref d = r) (declared_inputs st))) (\<lambda>reference.
    Inr (reference, input_by_ref r st))"

definition resolve_check ::
  "(string \<Rightarrow> string) \<Rightarrow> DeclaredInput \<Rightarrow> DeferredInputResolutionError + ResolvedInput \<Rightarrow>
    DeferredInputResolutionError + ResolvedInput" where
  "resolve_check nfc reference answer =
    res_bind answer (\<lambda>resolved.
    res_bind (ensure (res_input_ref resolved = decl_input_ref reference \<and> same_metadata reference resolved)
      (HostUnavailable, ''deferred input resolver returned mismatched metadata'')) (\<lambda>_.
    res_bind (map_err (\<lambda>e. (HostUnavailable, e)) (validate_resolved nfc resolved)) (\<lambda>_. Inr resolved)))"

definition resolve_commit ::
  "string \<Rightarrow> ResolvedInput \<Rightarrow> ResolvedInputState \<Rightarrow> (DeferredInputResolutionError + ResolvedInput) \<times> ResolvedInputState" where
  "resolve_commit r resolved st =
    (let m = manifest st in
     case manifest_input_by_ref r m of
       Some existing \<Rightarrow>
         if existing \<noteq> resolved then (Inl (HostUnavailable, ''deferred input resolver changed an existing resolution''), st)
         else (Inr existing, st)
     | None \<Rightarrow>
         if list_ex (\<lambda>x. object_ref x = object_ref resolved \<and> source_version x = source_version resolved) (manifest_inputs m)
         then (Inl (HostUnavailable, ''deferred input resolver duplicated an object version''), st)
         else if list_ex (\<lambda>x. virtual_path x = virtual_path resolved) (manifest_inputs m)
         then (Inl (HostUnavailable, ''deferred input resolver duplicated a virtual path''), st)
         else (Inr resolved,
           st\<lparr>manifest := m\<lparr>manifest_inputs := sort_key res_input_ref (manifest_inputs m @ [resolved])\<rparr>\<rparr>))"

text \<open>The whole call, when nothing runs in between; the resolver is an argument.\<close>

definition resolve_input ::
  "(string \<Rightarrow> string) \<Rightarrow> (DeclaredInput \<Rightarrow> DeferredInputResolutionError + ResolvedInput) \<Rightarrow> string \<Rightarrow> ResolvedInputState \<Rightarrow>
    (DeferredInputResolutionError + ResolvedInput) \<times> ResolvedInputState" where
  "resolve_input nfc resolver r st =
    (case resolve_lookup r st of
       Inl e \<Rightarrow> (Inl e, st)
     | Inr (reference, existing) \<Rightarrow>
         if \<not> has_resolver st then (ok_or (HostUnavailable, ''deferred input resolver is not configured'') existing, st)
         else (case resolve_check nfc reference (resolver reference) of
             Inl e \<Rightarrow> (Inl e, st)
           | Inr resolved \<Rightarrow> resolve_commit r resolved st))"

section \<open>Interleaved calls\<close>

text \<open>
  Resolutions in flight hold the declaration they found and wait for the answer of the resolver. A step is
  an admission, the first part of a resolution, or its remaining parts with an arbitrary answer.
\<close>

record inputs_world =
  inputs_state :: ResolvedInputState
  in_flight :: "(string \<times> DeclaredInput) list"

datatype inputs_event =
    AdmitInputs "DeclaredInput list"
  | BeginResolve string
  | EndResolve nat "DeferredInputResolutionError + ResolvedInput"

definition end_resolve ::
  "(string \<Rightarrow> string) \<Rightarrow> string \<times> DeclaredInput \<Rightarrow> DeferredInputResolutionError + ResolvedInput \<Rightarrow> ResolvedInputState \<Rightarrow>
    (DeferredInputResolutionError + ResolvedInput) \<times> ResolvedInputState" where
  "end_resolve nfc call answer st =
    (case resolve_check nfc (snd call) answer of Inl e \<Rightarrow> (Inl e, st) | Inr resolved \<Rightarrow> resolve_commit (fst call) resolved st)"

inductive inputs_step :: "(string \<Rightarrow> string) \<Rightarrow> inputs_world \<Rightarrow> inputs_event \<Rightarrow> inputs_world \<Rightarrow> bool"
  for nfc :: "string \<Rightarrow> string" where
  step_admit: "admit_declared_inputs nfc ds (inputs_state w) = Ok st \<Longrightarrow>
    inputs_step nfc w (AdmitInputs ds) (w\<lparr>inputs_state := st\<rparr>)"
| step_begin: "resolve_lookup r (inputs_state w) = Inr (reference, existing) \<Longrightarrow> has_resolver (inputs_state w) \<Longrightarrow>
    inputs_step nfc w (BeginResolve r) (w\<lparr>in_flight := (r, reference) # in_flight w\<rparr>)"
| step_end: "i < length (in_flight w) \<Longrightarrow> end_resolve nfc (in_flight w ! i) answer (inputs_state w) = (outcome, st) \<Longrightarrow>
    inputs_step nfc w (EndResolve i answer)
      (w\<lparr>inputs_state := st, in_flight := take i (in_flight w) @ drop (Suc i) (in_flight w)\<rparr>)"

inductive_cases inputs_stepE: "inputs_step nfc w e w'"

section \<open>What the validators accept\<close>

definition declared_ok :: "(string \<Rightarrow> string) \<Rightarrow> DeclaredInput list \<Rightarrow> bool" where
  "declared_ok nfc ds \<longleftrightarrow> list_all (\<lambda>d. validate_declared nfc d = Ok ()) ds \<and> sorted_wrt (<) (map decl_input_ref ds)"

definition entry_ok :: "(string \<Rightarrow> string) \<Rightarrow> DeclaredInput list \<Rightarrow> ResolvedInput \<Rightarrow> bool" where
  "entry_ok nfc ds x \<longleftrightarrow> validate_resolved nfc x = Ok () \<and>
    (\<exists>d. List.find (\<lambda>d. decl_input_ref d = res_input_ref x) ds = Some d \<and> same_metadata d x)"

abbreviation version_of :: "ResolvedInput \<Rightarrow> string \<times> string" where
  "version_of x \<equiv> (object_ref x, source_version x)"

definition manifest_ok :: "(string \<Rightarrow> string) \<Rightarrow> DeclaredInput list \<Rightarrow> ResolvedInput list \<Rightarrow> bool" where
  "manifest_ok nfc ds xs \<longleftrightarrow> list_all (entry_ok nfc ds) xs \<and> sorted_wrt (<) (map res_input_ref xs) \<and>
    distinct (map version_of xs) \<and> distinct (map virtual_path xs)"

lemma is_ok_unit: "is_ok (x :: unit result) \<longleftrightarrow> x = Ok ()"
  by (cases x) (auto simp: is_ok_def)

lemma is_ok_bind: "is_ok (res_bind x f) \<longleftrightarrow> (\<exists>y. x = Inr y \<and> is_ok (f y))"
  by (cases x) (auto simp: is_ok_def)

lemma declared_fold:
  assumes "\<forall>r \<in> refs. \<exists>p. previous = Some p \<and> r \<le> p"
  shows "is_ok (fold_result (declared_step nfc) (previous, refs) ds) \<longleftrightarrow>
    declared_ok nfc ds \<and> (\<forall>p. previous = Some p \<longrightarrow> (\<forall>d \<in> set ds. p < decl_input_ref d))"
  using assms
proof (induction ds arbitrary: previous refs)
  case Nil
  then show ?case by (simp add: declared_ok_def is_ok_def)
next
  case (Cons d ds)
  let ?r = "decl_input_ref d"
  let ?fresh = "\<forall>p. previous = Some p \<longrightarrow> p < ?r"
  have step: "declared_step nfc (previous, refs) d = Ok s \<longleftrightarrow>
      validate_declared nfc d = Ok () \<and> ?fresh \<and> s = (Some ?r, insert ?r refs)" for s
  proof -
    have "?r \<notin> refs" if ?fresh using that Cons.prems by fastforce
    then show ?thesis
      by (auto simp: declared_step_def res_bind_eq_Inr ensure_eq_Inr split: option.splits)
  qed
  have IH: "is_ok (fold_result (declared_step nfc) (Some ?r, insert ?r refs) ds) \<longleftrightarrow>
      declared_ok nfc ds \<and> (\<forall>d \<in> set ds. ?r < decl_input_ref d)" if ?fresh
  proof -
    have "\<forall>r \<in> insert ?r refs. \<exists>p. Some ?r = Some p \<and> r \<le> p" using that Cons.prems by fastforce
    from Cons.IH [OF this] show ?thesis by simp
  qed
  have "is_ok (fold_result (declared_step nfc) (previous, refs) (d # ds)) \<longleftrightarrow>
      validate_declared nfc d = Ok () \<and> ?fresh \<and> is_ok (fold_result (declared_step nfc) (Some ?r, insert ?r refs) ds)"
    by (simp add: is_ok_bind step)
  also have "\<dots> \<longleftrightarrow> declared_ok nfc (d # ds) \<and> (\<forall>p. previous = Some p \<longrightarrow> (\<forall>d \<in> set (d # ds). p < decl_input_ref d))"
    using IH by (auto simp: declared_ok_def dest: less_trans)
  finally show ?case .
qed

lemma validate_declared_inputs_iff: "validate_declared_inputs nfc ds = Ok () \<longleftrightarrow> declared_ok nfc ds"
  using declared_fold [of "{}" None nfc ds]
  by (auto simp: validate_declared_inputs_def res_bind_eq_Inr is_ok_def split: sum.splits)

lemma manifest_ok_Cons:
  "manifest_ok nfc ds (x # xs) \<longleftrightarrow> entry_ok nfc ds x \<and> manifest_ok nfc ds xs \<and>
    (\<forall>y \<in> set xs. res_input_ref x < res_input_ref y) \<and>
    (\<forall>y \<in> set xs. version_of y \<noteq> version_of x \<and> virtual_path y \<noteq> virtual_path x)"
  unfolding manifest_ok_def by (auto simp: image_iff)

lemma manifest_fold:
  assumes "\<forall>r \<in> refs. \<exists>p. previous = Some p \<and> r \<le> p"
  shows "is_ok (fold_result (manifest_step nfc ds) (previous, refs, versions, paths) xs) \<longleftrightarrow>
    manifest_ok nfc ds xs \<and> (\<forall>p. previous = Some p \<longrightarrow> (\<forall>x \<in> set xs. p < res_input_ref x)) \<and>
    (\<forall>x \<in> set xs. version_of x \<notin> versions \<and> virtual_path x \<notin> paths)"
  using assms
proof (induction xs arbitrary: previous refs versions paths)
  case Nil
  then show ?case by (simp add: manifest_ok_def is_ok_def)
next
  case (Cons x xs)
  let ?r = "res_input_ref x"
  let ?fresh = "\<forall>p. previous = Some p \<longrightarrow> p < ?r"
  let ?next = "(Some ?r, insert ?r refs, insert (version_of x) versions, insert (virtual_path x) paths)"
  let ?ok = "entry_ok nfc ds x \<and> ?fresh \<and> version_of x \<notin> versions \<and> virtual_path x \<notin> paths"
  have step: "manifest_step nfc ds (previous, refs, versions, paths) x = Ok s \<longleftrightarrow> ?ok \<and> s = ?next" for s
  proof -
    have "?r \<notin> refs" if ?fresh using that Cons.prems by fastforce
    then show ?thesis
      by (auto simp: manifest_step_def entry_ok_def res_bind_eq_Inr ensure_eq_Inr ok_or_def split: option.splits)
  qed
  have IH: "is_ok (fold_result (manifest_step nfc ds) ?next xs) \<longleftrightarrow>
      manifest_ok nfc ds xs \<and> (\<forall>y \<in> set xs. ?r < res_input_ref y) \<and>
      (\<forall>y \<in> set xs. version_of y \<notin> insert (version_of x) versions \<and> virtual_path y \<notin> insert (virtual_path x) paths)" if ?fresh
  proof -
    have "\<forall>r \<in> insert ?r refs. \<exists>p. Some ?r = Some p \<and> r \<le> p" using that Cons.prems by fastforce
    from Cons.IH [OF this] show ?thesis by simp
  qed
  have "is_ok (fold_result (manifest_step nfc ds) (previous, refs, versions, paths) (x # xs)) \<longleftrightarrow>
      ?ok \<and> is_ok (fold_result (manifest_step nfc ds) ?next xs)"
    by (simp add: is_ok_bind step)
  also have "\<dots> \<longleftrightarrow> manifest_ok nfc ds (x # xs) \<and> (\<forall>p. previous = Some p \<longrightarrow> (\<forall>y \<in> set (x # xs). p < res_input_ref y)) \<and>
      (\<forall>y \<in> set (x # xs). version_of y \<notin> versions \<and> virtual_path y \<notin> paths)"
    using IH by (auto simp: manifest_ok_Cons intro: less_trans)
  finally show ?case .
qed

lemma validate_against_iff:
  "validate_against nfc agent_run digest ds m = Ok () \<longleftrightarrow>
    manifest_schema m = RESOLVED_INPUT_MANIFEST_SCHEMA \<and> require_opaque_ref nfc ''agentRunId'' agent_run = Ok () \<and>
    manifest_agent_run_id m = agent_run \<and> validate_sha256 digest = Ok () \<and> manifest_authorization_digest m = digest \<and>
    manifest_ok nfc ds (manifest_inputs m)"
  using manifest_fold [of "{}" None nfc ds "{}" "{}" "manifest_inputs m"]
  by (auto simp: validate_against_def res_bind_eq_Inr ensure_eq_Inr is_ok_def split: sum.splits)

section \<open>Strictly sorted lists\<close>

lemma find_by_key:
  "distinct (map f xs) \<Longrightarrow> List.find (\<lambda>x. f x = r) xs = Some d \<longleftrightarrow> d \<in> set xs \<and> f d = r"
  by (induction xs) auto

lemma find_by_key_None: "List.find (\<lambda>x. f x = r) xs = None \<longleftrightarrow> r \<notin> f ` set xs"
  by (auto simp: find_None_iff)

lemma find_append: "List.find P (xs @ ys) = (case List.find P xs of Some x \<Rightarrow> Some x | None \<Rightarrow> List.find P ys)"
  by (induction xs) auto

lemma strict_sorted_sort_key: "distinct (map f xs) \<Longrightarrow> sorted_wrt (<) (map f (sort_key f xs))"
  by (simp add: strict_sorted_iff distinct_map)

lemma distinct_map_sort_key: "distinct (map g (sort_key f xs)) \<longleftrightarrow> distinct (map g xs)"
  by (simp add: distinct_map)

lemma distinct_refs: "sorted_wrt (<) (map f xs) \<Longrightarrow> distinct (map f xs)" for f :: "'a \<Rightarrow> string"
  by (simp add: strict_sorted_iff)

section \<open>The invariant of a run\<close>

definition inputs_inv :: "(string \<Rightarrow> string) \<Rightarrow> inputs_world \<Rightarrow> bool" where
  "inputs_inv nfc w \<longleftrightarrow> (let st = inputs_state w in
    declared_ok nfc (declared st) \<and> declared_ok nfc (admitted st) \<and>
    decl_input_ref ` set (declared st) \<inter> decl_input_ref ` set (admitted st) = {} \<and>
    validate_against nfc (run_id st) (run_digest st) (declared_inputs st) (manifest st) = Ok () \<and>
    (\<forall>(r, d) \<in> set (in_flight w). declared_input_by_ref r st = Some d))"

lemma inputs_invD:
  assumes "inputs_inv nfc w"
  shows "declared_ok nfc (declared (inputs_state w))" "declared_ok nfc (admitted (inputs_state w))"
    "decl_input_ref ` set (declared (inputs_state w)) \<inter> decl_input_ref ` set (admitted (inputs_state w)) = {}"
    "validate_against nfc (run_id (inputs_state w)) (run_digest (inputs_state w)) (declared_inputs (inputs_state w))
      (manifest (inputs_state w)) = Ok ()"
    "\<And>r d. (r, d) \<in> set (in_flight w) \<Longrightarrow> declared_input_by_ref r (inputs_state w) = Some d"
  using assms by (auto simp: inputs_inv_def Let_def)

lemma fold_admit:
  "fold_result admit_step xs ds = Ok ns \<Longrightarrow> \<exists>ys. ns = xs @ ys \<and> set ys \<subseteq> set ds"
proof (induction ds arbitrary: xs)
  case (Cons d ds)
  then obtain xs' where xs': "admit_step xs d = Ok xs'" "fold_result admit_step xs' ds = Ok ns"
    by (auto simp: res_bind_eq_Inr)
  have "\<exists>zs. xs' = xs @ zs \<and> set zs \<subseteq> {d}" using xs'(1) by (auto simp: admit_step_def split: option.splits if_splits)
  then show ?case using Cons.IH [OF xs'(2)] by fastforce
qed simp

lemma admission_effect:
  assumes admit: "admit_declared_inputs nfc ds st = Ok st'"
  shows "\<exists>ns. declared_ok nfc ns \<and> set (declared st @ admitted st) \<subseteq> set ns \<and>
    st' = st\<lparr>admitted := filter (\<lambda>d. decl_input_ref d \<notin> decl_input_ref ` set (declared st)) ns\<rparr>"
proof -
  from admit obtain ns where n: "fold_result admit_step (declared st @ admitted st) ds = Ok ns"
      "validate_declared_inputs nfc (sort_key decl_input_ref ns) = Ok ()"
    and st': "st' = st\<lparr>admitted := filter (\<lambda>item. \<not> list_ex (\<lambda>d. decl_input_ref d = decl_input_ref item) (declared st))
      (sort_key decl_input_ref ns)\<rparr>"
    by (auto simp: admit_declared_inputs_def res_bind_eq_Inr Let_def)
  have "(\<not> list_ex (\<lambda>d. decl_input_ref d = decl_input_ref item) (declared st)) =
      (decl_input_ref item \<notin> decl_input_ref ` set (declared st))" for item :: DeclaredInput
    by (simp add: list_ex_iff image_iff) metis
  moreover have "set (declared st @ admitted st) \<subseteq> set (sort_key decl_input_ref ns)" using fold_admit [OF n(1)] by auto
  ultimately show ?thesis using n(2) st'
    by (intro exI [of _ "sort_key decl_input_ref ns"]) (simp add: validate_declared_inputs_iff)
qed

lemma declared_refs_distinct: "declared_ok nfc ds \<Longrightarrow> distinct (map decl_input_ref ds)"
  by (simp add: declared_ok_def distinct_refs)

text \<open>An admission keeps every declaration that was there.\<close>

lemma admit_keeps_declared:
  assumes "declared_ok nfc (admitted st)" and disjoint: "decl_input_ref ` set (declared st) \<inter> decl_input_ref ` set (admitted st) = {}"
    and admit: "admit_declared_inputs nfc ds st = Ok st'" and found: "declared_input_by_ref r st = Some d"
  shows "declared_input_by_ref r st' = Some d"
proof -
  obtain ns where ns: "declared_ok nfc ns" "set (declared st @ admitted st) \<subseteq> set ns"
    and st': "st' = st\<lparr>admitted := filter (\<lambda>d. decl_input_ref d \<notin> decl_input_ref ` set (declared st)) ns\<rparr>"
    using admission_effect [OF admit] by blast
  show ?thesis
  proof (cases "List.find (\<lambda>d. decl_input_ref d = r) (declared st)")
    case (Some x)
    then show ?thesis using found by (simp add: declared_input_by_ref_def declared_inputs_def find_append st')
  next
    case None
    then have "List.find (\<lambda>d. decl_input_ref d = r) (admitted st) = Some d"
      using found by (simp add: declared_input_by_ref_def declared_inputs_def find_append)
    then have d: "d \<in> set (admitted st)" "decl_input_ref d = r"
      using find_by_key [OF declared_refs_distinct [OF assms(1)]] by blast+
    have "distinct (map decl_input_ref (admitted st'))"
      using declared_refs_distinct [OF ns(1)] by (simp add: st' distinct_map_filter)
    moreover have "d \<in> set (admitted st')" using d(1) ns(2) disjoint by (auto simp: st')
    ultimately have "List.find (\<lambda>d. decl_input_ref d = r) (admitted st') = Some d" using d(2) by (simp add: find_by_key)
    then show ?thesis using None by (simp add: declared_input_by_ref_def declared_inputs_def find_append st')
  qed
qed

lemma manifest_ok_mono:
  assumes "manifest_ok nfc ds xs"
    and "\<And>r d. List.find (\<lambda>d. decl_input_ref d = r) ds = Some d \<Longrightarrow> List.find (\<lambda>d. decl_input_ref d = r) ds' = Some d"
  shows "manifest_ok nfc ds' xs"
  using assms unfolding manifest_ok_def entry_ok_def list_all_iff by blast

lemma admit_inv:
  assumes inv: "inputs_inv nfc w" and admit: "admit_declared_inputs nfc ds (inputs_state w) = Ok st'"
  shows "inputs_inv nfc (w\<lparr>inputs_state := st'\<rparr>)"
proof -
  let ?st = "inputs_state w"
  note D = inputs_invD [OF inv]
  obtain ns where ns: "declared_ok nfc ns"
    and st': "st' = ?st\<lparr>admitted := filter (\<lambda>d. decl_input_ref d \<notin> decl_input_ref ` set (declared ?st)) ns\<rparr>"
    using admission_effect [OF admit] by blast
  have keep: "declared_input_by_ref r st' = Some d" if "declared_input_by_ref r ?st = Some d" for r d
    using D(2,3) admit that by (rule admit_keeps_declared)
  have "manifest_ok nfc (declared_inputs st') (manifest_inputs (manifest ?st))"
  proof (rule manifest_ok_mono)
    show "manifest_ok nfc (declared_inputs ?st) (manifest_inputs (manifest ?st))" using D(4) by (simp add: validate_against_iff)
  qed (rule keep [unfolded declared_input_by_ref_def])
  then have "validate_against nfc (run_id st') (run_digest st') (declared_inputs st') (manifest st') = Ok ()"
    using D(4) by (simp add: validate_against_iff st')
  moreover have "declared_ok nfc (admitted st')"
    using ns by (simp add: declared_ok_def st' list_all_iff sorted_wrt_map sorted_wrt_filter)
  moreover have "declared_input_by_ref r st' = Some d" if "(r, d) \<in> set (in_flight w)" for r d
    using D(5) [OF that] by (rule keep)
  moreover have "A \<inter> decl_input_ref ` set (filter (\<lambda>d. decl_input_ref d \<notin> A) ns) = {}" for A by auto
  then have "decl_input_ref ` set (declared st') \<inter> decl_input_ref ` set (admitted st') = {}" "declared st' = declared ?st"
    unfolding st' by simp_all
  ultimately show ?thesis using D(1) by (auto simp: inputs_inv_def Let_def)
qed

lemma resolve_check_Ok:
  "resolve_check nfc d answer = Inr x \<longleftrightarrow>
    answer = Inr x \<and> res_input_ref x = decl_input_ref d \<and> same_metadata d x \<and> validate_resolved nfc x = Ok ()"
  by (cases answer) (auto simp: resolve_check_def res_bind_eq_Inr ensure_eq_Inr map_err_def split: sum.splits)

lemma resolve_commit_cases:
  assumes commit: "resolve_commit r x st = (outcome, st')" and m: "manifest_ok nfc ds (manifest_inputs (manifest st))"
    and x: "entry_ok nfc ds x" "res_input_ref x = r"
  obtains (kept) "st' = st" "outcome = Inr x \<longrightarrow> input_by_ref r st = Some x" "\<forall>y. outcome = Inr y \<longrightarrow> y = x"
  | (entered) "outcome = Inr x" "input_by_ref r st = None"
      "st' = st\<lparr>manifest := (manifest st)\<lparr>manifest_inputs := sort_key res_input_ref (manifest_inputs (manifest st) @ [x])\<rparr>\<rparr>"
      "manifest_ok nfc ds (sort_key res_input_ref (manifest_inputs (manifest st) @ [x]))"
proof (cases "manifest_input_by_ref r (manifest st)")
  case (Some y)
  then show thesis using commit by (intro kept) (auto simp: resolve_commit_def Let_def input_by_ref_def split: if_splits)
next
  case None
  let ?xs = "manifest_inputs (manifest st)"
  show thesis
  proof (cases "list_ex (\<lambda>y. object_ref y = object_ref x \<and> source_version y = source_version x) ?xs \<or>
      list_ex (\<lambda>y. virtual_path y = virtual_path x) ?xs")
    case True
    then show thesis using commit None by (intro kept) (auto simp: resolve_commit_def Let_def split: if_splits)
  next
    case False
    have refs: "distinct (map res_input_ref (?xs @ [x]))"
      using m None x(2) distinct_refs [of res_input_ref ?xs] by (auto simp: manifest_ok_def manifest_input_by_ref_def find_None_iff)
    have "distinct (map version_of (?xs @ [x]))" "distinct (map virtual_path (?xs @ [x]))"
      using m False by (auto simp: manifest_ok_def list_ex_iff)
    then have "manifest_ok nfc ds (sort_key res_input_ref (?xs @ [x]))"
      using m x(1) strict_sorted_sort_key [OF refs] unfolding manifest_ok_def distinct_map_sort_key by (simp add: list_all_iff)
    then show thesis using commit None False
      by (intro entered) (auto simp: resolve_commit_def Let_def input_by_ref_def)
  qed
qed

lemma found_ref: "declared_input_by_ref r st = Some d \<Longrightarrow> decl_input_ref d = r"
  by (auto simp: declared_input_by_ref_def find_Some_iff)

lemma end_resolve_cases:
  assumes inv: "inputs_inv nfc w" and call: "(r, d) \<in> set (in_flight w)"
    and step: "end_resolve nfc (r, d) answer (inputs_state w) = (outcome, st')"
  obtains (kept) "st' = inputs_state w" "\<forall>x. outcome = Inr x \<longrightarrow> input_by_ref r st' = Some x"
  | (entered) x where "outcome = Inr x" "res_input_ref x = r" "input_by_ref r (inputs_state w) = None" "same_metadata d x"
      "st' = (inputs_state w)\<lparr>manifest := (manifest (inputs_state w))\<lparr>manifest_inputs :=
        sort_key res_input_ref (manifest_inputs (manifest (inputs_state w)) @ [x])\<rparr>\<rparr>"
      "manifest_ok nfc (declared_inputs (inputs_state w)) (manifest_inputs (manifest st'))"
proof (cases "resolve_check nfc d answer")
  case (Inl e)
  then show thesis using step by (intro kept) (auto simp: end_resolve_def)
next
  case (Inr x)
  let ?st = "inputs_state w"
  note D = inputs_invD [OF inv]
  have d: "declared_input_by_ref r ?st = Some d" "decl_input_ref d = r" using D(5) [OF call] found_ref by auto
  have x: "res_input_ref x = r" "same_metadata d x" "entry_ok nfc (declared_inputs ?st) x"
    using Inr d by (auto simp: resolve_check_Ok entry_ok_def declared_input_by_ref_def)
  have m: "manifest_ok nfc (declared_inputs ?st) (manifest_inputs (manifest ?st))" using D(4) by (simp add: validate_against_iff)
  have "resolve_commit r x ?st = (outcome, st')" using step Inr by (simp add: end_resolve_def)
  from this m x(3,1) show thesis
  proof (rule resolve_commit_cases)
    assume k: "st' = ?st" "outcome = Inr x \<longrightarrow> input_by_ref r ?st = Some x" "\<forall>y. outcome = Inr y \<longrightarrow> y = x"
    show thesis
    proof (rule kept [OF k(1)], intro allI impI)
      fix y assume "outcome = Inr y"
      moreover from this have "y = x" using k(3) by blast
      ultimately show "input_by_ref r st' = Some y" using k(2) unfolding k(1) by blast
    qed
  next
    assume e: "outcome = Inr x" "input_by_ref r ?st = None"
      "st' = ?st\<lparr>manifest := (manifest ?st)\<lparr>manifest_inputs := sort_key res_input_ref (manifest_inputs (manifest ?st) @ [x])\<rparr>\<rparr>"
      "manifest_ok nfc (declared_inputs ?st) (sort_key res_input_ref (manifest_inputs (manifest ?st) @ [x]))"
    have "manifest_inputs (manifest st') = sort_key res_input_ref (manifest_inputs (manifest ?st) @ [x])" unfolding e(3) by simp
    then have "manifest_ok nfc (declared_inputs ?st) (manifest_inputs (manifest st'))" using e(4) by (rule ssubst)
    then show thesis by (rule entered [OF e(1) x(1) e(2) x(2) e(3)])
  qed
qed

lemma flight_rest: "(r, d) \<in> set (take i xs @ drop (Suc i) xs) \<Longrightarrow> (r, d) \<in> set xs"
  by (auto dest: in_set_takeD in_set_dropD)

lemma inputs_step_inv:
  assumes inv: "inputs_inv nfc w" and step: "inputs_step nfc w e w'"
  shows "inputs_inv nfc w'"
  using step
proof (cases rule: inputs_step.cases)
  case (step_admit ds st)
  then show ?thesis using admit_inv [OF inv] by simp
next
  case (step_begin r d existing)
  then have "declared_input_by_ref r (inputs_state w) = Some d"
    by (auto simp: resolve_lookup_def declared_input_by_ref_def res_bind_eq_Inr ok_or_def split: option.splits)
  then show ?thesis using inv step_begin(2) by (auto simp: inputs_inv_def Let_def)
next
  case (step_end i answer outcome st)
  note D = inputs_invD [OF inv]
  let ?rest = "take i (in_flight w) @ drop (Suc i) (in_flight w)"
  obtain r d where rd: "in_flight w ! i = (r, d)" by (cases "in_flight w ! i")
  have call: "(r, d) \<in> set (in_flight w)" using nth_mem [OF step_end(3)] rd by simp
  have ended: "end_resolve nfc (r, d) answer (inputs_state w) = (outcome, st)" using step_end(4) rd by simp
  have flight: "declared_input_by_ref r' (inputs_state w) = Some d'" if "(r', d') \<in> set ?rest" for r' d'
    using D(5) [OF flight_rest [OF that]] .
  from inv call ended show ?thesis
  proof (rule end_resolve_cases)
    assume "st = inputs_state w"
    then show ?thesis using step_end(2) D(1-4) flight by (auto simp: inputs_inv_def Let_def)
  next
    fix x
    assume st: "st = (inputs_state w)\<lparr>manifest := (manifest (inputs_state w))\<lparr>manifest_inputs :=
        sort_key res_input_ref (manifest_inputs (manifest (inputs_state w)) @ [x])\<rparr>\<rparr>"
      and m: "manifest_ok nfc (declared_inputs (inputs_state w)) (manifest_inputs (manifest st))"
    have same: "declared_inputs st = declared_inputs (inputs_state w)" "declared st = declared (inputs_state w)"
      "admitted st = admitted (inputs_state w)" "run_id st = run_id (inputs_state w)" "run_digest st = run_digest (inputs_state w)"
      by (simp_all add: st declared_inputs_def)
    have "validate_against nfc (run_id st) (run_digest st) (declared_inputs st) (manifest st) = Ok ()"
      using D(4) m unfolding validate_against_iff same by (simp add: st)
    moreover have "declared_input_by_ref r' st = Some d'" if "(r', d') \<in> set ?rest" for r' d'
      using flight [OF that] unfolding declared_input_by_ref_def same .
    ultimately show ?thesis using step_end(2) D(1-3) by (auto simp: inputs_inv_def Let_def same)
  qed
qed

interpretation run_inputs: invariant_system "inputs_step nfc" "inputs_inv nfc" for nfc
  by unfold_locales (rule inputs_step_inv)

definition inputs_init :: "ResolvedInputState \<Rightarrow> inputs_world" where
  "inputs_init st = \<lparr>inputs_state = st, in_flight = []\<rparr>"

lemma inputs_init_inv:
  "ResolvedInputState_new nfc agent_run digest ds m resolver = Ok st \<Longrightarrow> inputs_inv nfc (inputs_init st)"
  by (auto simp: ResolvedInputState_new_def res_bind_eq_Inr inputs_inv_def inputs_init_def Let_def declared_inputs_def
      validate_declared_inputs_iff declared_ok_def)

text \<open>Declarations and resolutions are kept by every step; the run and its authorisation never change.\<close>

definition inputs_kept :: "inputs_world \<Rightarrow> inputs_world \<Rightarrow> bool" where
  "inputs_kept w w' \<longleftrightarrow>
    (\<forall>r d. declared_input_by_ref r (inputs_state w) = Some d \<longrightarrow> declared_input_by_ref r (inputs_state w') = Some d) \<and>
    (\<forall>r x. input_by_ref r (inputs_state w) = Some x \<longrightarrow> input_by_ref r (inputs_state w') = Some x) \<and>
    run_id (inputs_state w') = run_id (inputs_state w) \<and> run_digest (inputs_state w') = run_digest (inputs_state w)"

lemma input_by_ref_iff:
  assumes "manifest_ok nfc ds (manifest_inputs (manifest st))"
  shows "input_by_ref r st = Some x \<longleftrightarrow> x \<in> set (manifest_inputs (manifest st)) \<and> res_input_ref x = r"
proof -
  have "distinct (map res_input_ref (manifest_inputs (manifest st)))"
    using assms by (intro distinct_refs) (simp add: manifest_ok_def)
  then show ?thesis unfolding input_by_ref_def manifest_input_by_ref_def by (rule find_by_key)
qed

lemma step_keeps:
  assumes inv: "inputs_inv nfc w" and step: "inputs_step nfc w e w'"
  shows "inputs_kept w w'"
  using step
proof (cases rule: inputs_step.cases)
  case (step_admit ds st)
  have "declared_input_by_ref r st = Some d" if "declared_input_by_ref r (inputs_state w) = Some d" for r d
    using inputs_invD(2,3) [OF inv] step_admit(3) that by (rule admit_keeps_declared)
  then show ?thesis using step_admit(2) admission_effect [OF step_admit(3)] by (auto simp: inputs_kept_def input_by_ref_def)
next
  case (step_begin r d existing)
  then show ?thesis by (simp add: inputs_kept_def)
next
  case (step_end i answer outcome st)
  obtain r d where rd: "in_flight w ! i = (r, d)" by (cases "in_flight w ! i")
  have call: "(r, d) \<in> set (in_flight w)" using nth_mem [OF step_end(3)] rd by simp
  have ended: "end_resolve nfc (r, d) answer (inputs_state w) = (outcome, st)" using step_end(4) rd by simp
  have old: "manifest_ok nfc (declared_inputs (inputs_state w)) (manifest_inputs (manifest (inputs_state w)))"
    using inputs_invD(4) [OF inv] by (simp add: validate_against_iff)
  from inv call ended show ?thesis
  proof (rule end_resolve_cases)
    fix x
    assume st: "st = (inputs_state w)\<lparr>manifest := (manifest (inputs_state w))\<lparr>manifest_inputs :=
        sort_key res_input_ref (manifest_inputs (manifest (inputs_state w)) @ [x])\<rparr>\<rparr>"
      and m: "manifest_ok nfc (declared_inputs (inputs_state w)) (manifest_inputs (manifest st))"
    have "input_by_ref r' st = Some y" if "input_by_ref r' (inputs_state w) = Some y" for r' y
      using that unfolding input_by_ref_iff [OF old] input_by_ref_iff [OF m] by (simp add: st)
    then show ?thesis using step_end(2) by (simp add: inputs_kept_def declared_input_by_ref_def declared_inputs_def st)
  qed (use step_end(2) in \<open>simp add: inputs_kept_def\<close>)
qed

lemma run_keeps_inputs:
  assumes "run (inputs_step nfc) w es w'" and "inputs_inv nfc w"
  shows "inputs_kept w w'"
  using assms by (rule run_inputs.run_relates) (auto simp: inputs_kept_def dest!: step_keeps)

section \<open>Paths\<close>

lemma split_on_trailing: "suffix [c] s \<Longrightarrow> [] \<in> set (split_on c s)"
  by (auto simp: suffix_def split_on_append [of _ _ "[]", simplified])

lemma validated_path_canonical:
  "validate_virtual_path nfc p = Ok () \<Longrightarrow> canonical_virtual_path p = Ok p"
  using split_on_trailing [of "CHR ''/''" p]
  by (auto simp: validate_virtual_path_def require_non_empty_def canonical_virtual_path_def Let_def res_bind_eq_Inr
      ensure_eq_Inr list_ex_iff)

lemma entry_path: "entry_ok nfc ds x \<Longrightarrow> canonical_virtual_path (virtual_path x) = Ok (virtual_path x)"
  by (auto simp: entry_ok_def validate_resolved_def res_bind_eq_Inr intro: validated_path_canonical)

lemma input_by_path_iff:
  assumes "manifest_ok nfc ds (manifest_inputs (manifest st))" and "canonical_virtual_path p = Ok q"
  shows "input_by_virtual_path p st = Ok (Some x) \<longleftrightarrow> x \<in> set (manifest_inputs (manifest st)) \<and> virtual_path x = q"
  using assms by (simp add: input_by_virtual_path_def manifest_input_by_virtual_path_def manifest_ok_def find_by_key)

section \<open>Properties\<close>

text \<open>
  C30: whatever the resolver answers and however admissions and resolutions interleave, every resolved input
  of a run stays authorised. The manifest passes its own validation against the run, its
  authorisation digest and the inputs declared at that moment, and each of its entries has exactly the
  owner, object, generation, hash, size, name and type of the declaration with its reference.
\<close>

theorem resolved_inputs_authorised:
  assumes "ResolvedInputState_new nfc agent_run digest ds m resolver = Ok st"
    and "run (inputs_step nfc) (inputs_init st) es w"
  shows "validate_against nfc agent_run digest (declared_inputs (inputs_state w)) (manifest (inputs_state w)) = Ok () \<and>
    list_all (\<lambda>x. \<exists>d. declared_input_by_ref (res_input_ref x) (inputs_state w) = Some d \<and> same_metadata d x)
      (manifest_inputs (manifest (inputs_state w)))"
proof -
  have inv0: "inputs_inv nfc (inputs_init st)" using assms(1) by (rule inputs_init_inv)
  have ids: "run_id (inputs_state w) = agent_run" "run_digest (inputs_state w) = digest"
    using run_keeps_inputs [OF assms(2) inv0] assms(1)
    by (auto simp: inputs_kept_def inputs_init_def ResolvedInputState_new_def res_bind_eq_Inr)
  have v: "validate_against nfc agent_run digest (declared_inputs (inputs_state w)) (manifest (inputs_state w)) = Ok ()"
    using inputs_invD(4) [OF run_inputs.run_inv [OF assms(2) inv0]] by (simp add: ids)
  then show ?thesis
    by (auto simp: validate_against_iff manifest_ok_def entry_ok_def list_all_iff declared_input_by_ref_def)
qed

definition sample_digest :: string where
  "sample_digest = ''sha256:'' @ replicate 64 (CHR ''a'')"

definition sample_declared :: DeclaredInput where
  "sample_declared = \<lparr>decl_schema = DECLARED_INPUT_SCHEMA, decl_input_ref = ''input_1'', decl_display_name = ''notice.pdf'',
    decl_content_type = ''application/pdf'', input_identity = \<lparr>owner_kind = ''sourceObject'', owner_id = ''srcobj_1'',
      generation = 1, identity_sha256 = sample_digest\<rparr>, decl_size_bytes = 10\<rparr>"

definition sample_resolved :: ResolvedInput where
  "sample_resolved = \<lparr>res_schema = RESOLVED_INPUT_SCHEMA, res_input_ref = ''input_1'', object_ref = ''srcobj_1'',
    res_owner_kind = ''sourceObject'', virtual_path = ''sources/notice.pdf'', res_display_name = ''notice.pdf'',
    res_content_type = ''application/pdf'', res_size_bytes = 10, res_sha256 = sample_digest, source_version = ''1'',
    evidence_kind = ''workspaceSource'', citation_allowed = True\<rparr>"

definition sample_manifest :: "ResolvedInput list \<Rightarrow> ResolvedInputManifest" where
  "sample_manifest xs = \<lparr>manifest_schema = RESOLVED_INPUT_MANIFEST_SCHEMA, manifest_agent_run_id = ''agent_run_1'',
    manifest_authorization_digest = sample_digest, manifest_inputs = xs\<rparr>"

definition sample_inputs :: "ResolvedInput list \<Rightarrow> ResolvedInputState" where
  "sample_inputs xs = \<lparr>run_id = ''agent_run_1'', run_digest = sample_digest, declared = [sample_declared], admitted = [],
    manifest = sample_manifest xs, has_resolver = True\<rparr>"

lemma sample_texts:
  "trim ''input_1'' = ''input_1''" "trim ''notice.pdf'' = ''notice.pdf''" "trim ''application/pdf'' = ''application/pdf''"
  "trim ''srcobj_1'' = ''srcobj_1''" "trim ''agent_run_1'' = ''agent_run_1''" "trim ''sourceObject'' = ''sourceObject''"
  "trim ''sources/notice.pdf'' = ''sources/notice.pdf''" "trim ''1'' = ''1''" "trim ''workspaceSource'' = ''workspaceSource''"
  by code_simp+

lemma sample_digest_ok: "validate_sha256 sample_digest = Ok ()"
  unfolding sample_digest_def by code_simp

lemma sample_path: "validate_virtual_path id ''sources/notice.pdf'' = Ok ()"
  unfolding id_def by code_simp

lemmas sample_validation = require_opaque_ref_def require_non_empty_def sample_texts sample_digest_ok sample_path

lemma sample_declared_ok: "validate_declared id sample_declared = Ok ()"
  by (simp add: validate_declared_def validate_identity_def sample_declared_def sample_validation)

lemma sample_resolved_ok: "validate_resolved id sample_resolved = Ok ()"
  by (simp add: validate_resolved_def sample_resolved_def sample_validation)

lemma sample_same: "same_metadata sample_declared sample_resolved"
proof -
  have "show_nat 1 = ''1''" by code_simp
  then show ?thesis by (simp add: same_metadata_def sample_declared_def sample_resolved_def)
qed

lemma sample_refs: "decl_input_ref sample_declared = ''input_1''" "res_input_ref sample_resolved = ''input_1''"
  by (simp_all add: sample_declared_def sample_resolved_def)

lemma sample_new:
  "ResolvedInputState_new id ''agent_run_1'' sample_digest [sample_declared] (sample_manifest []) True = Ok (sample_inputs [])"
proof -
  have "require_opaque_ref id ''agentRunId'' ''agent_run_1'' = Ok ()" by (simp add: sample_validation)
  moreover have "validate_declared_inputs id [sample_declared] = Ok ()"
    by (simp add: validate_declared_inputs_iff declared_ok_def sample_declared_ok)
  moreover have "validate_against id ''agent_run_1'' sample_digest [sample_declared] (sample_manifest []) = Ok ()"
    using calculation(1) by (simp add: validate_against_iff sample_manifest_def manifest_ok_def sample_digest_ok)
  ultimately show ?thesis by (simp add: ResolvedInputState_new_def sample_digest_ok sample_inputs_def)
qed

definition resolving_world :: inputs_world where
  "resolving_world = \<lparr>inputs_state = sample_inputs [], in_flight = [(''input_1'', sample_declared)]\<rparr>"

definition resolved_world :: inputs_world where
  "resolved_world = inputs_init (sample_inputs [sample_resolved])"

lemma sample_begin: "inputs_step id (inputs_init (sample_inputs [])) (BeginResolve ''input_1'') resolving_world"
  using step_begin [of "''input_1''" "inputs_init (sample_inputs [])" sample_declared None id]
  by (simp add: inputs_init_def resolving_world_def resolve_lookup_def declared_inputs_def sample_inputs_def sample_refs
      ok_or_def input_by_ref_def manifest_input_by_ref_def sample_manifest_def)

lemma sample_end:
  "end_resolve id (''input_1'', sample_declared) (Inr sample_resolved) (sample_inputs []) =
    (Inr sample_resolved, sample_inputs [sample_resolved])"
proof -
  have "resolve_check id sample_declared (Inr sample_resolved) = Inr sample_resolved"
    by (simp add: resolve_check_Ok sample_refs sample_same sample_resolved_ok)
  then show ?thesis
    by (simp add: end_resolve_def resolve_commit_def manifest_input_by_ref_def sample_inputs_def sample_manifest_def Let_def)
qed

lemma sample_run:
  "run (inputs_step id) (inputs_init (sample_inputs [])) [BeginResolve ''input_1'', EndResolve 0 (Inr sample_resolved)] resolved_world"
proof -
  have "inputs_step id resolving_world (EndResolve 0 (Inr sample_resolved)) resolved_world"
    using step_end [of 0 resolving_world id "Inr sample_resolved"] sample_end
    by (simp add: resolving_world_def resolved_world_def inputs_init_def)
  then show ?thesis using sample_begin by (blast intro: run_cons run_nil)
qed

theorem resolved_inputs_authorised_witness:
  "validate_against id ''agent_run_1'' sample_digest [sample_declared] (sample_manifest [sample_resolved]) = Ok ()"
  using resolved_inputs_authorised [OF sample_new sample_run]
  by (simp add: resolved_world_def inputs_init_def sample_inputs_def declared_inputs_def)

text \<open>
  C31: a declaration and a resolution are final. Once a reference is declared, or resolved to an input, no later
  interleaving of admissions and resolutions, with any answers of the resolver, changes it; and a
  resolution that was already in flight, or starts later, returns the recorded input or an error, never
  another one.
\<close>

theorem input_resolution_stable:
  assumes "ResolvedInputState_new nfc agent_run digest ds m resolver = Ok st"
    and "run (inputs_step nfc) (inputs_init st) es w" and "run (inputs_step nfc) w es' w'"
  shows "(declared_input_by_ref r (inputs_state w) = Some d \<longrightarrow> declared_input_by_ref r (inputs_state w') = Some d) \<and>
    (input_by_ref r (inputs_state w) = Some x \<longrightarrow> input_by_ref r (inputs_state w') = Some x \<and>
      (\<forall>d' answer y st'. (r, d') \<in> set (in_flight w') \<and>
        end_resolve nfc (r, d') answer (inputs_state w') = (Inr y, st') \<longrightarrow> y = x))"
proof -
  have inv: "inputs_inv nfc w" using assms(2) inputs_init_inv [OF assms(1)] by (rule run_inputs.run_inv)
  have inv': "inputs_inv nfc w'" using assms(3) inv by (rule run_inputs.run_inv)
  have kept: "inputs_kept w w'" using assms(3) inv by (rule run_keeps_inputs)
  have "y = x" if "input_by_ref r (inputs_state w') = Some x" "(r, d') \<in> set (in_flight w')"
      "end_resolve nfc (r, d') answer (inputs_state w') = (Inr y, st')" for d' answer y st'
    using inv' that(2,3) by (rule end_resolve_cases) (use that(1) in auto)
  then show ?thesis using kept unfolding inputs_kept_def by blast
qed

definition later_world :: inputs_world where
  "later_world = \<lparr>inputs_state = sample_inputs [sample_resolved], in_flight = [(''input_1'', sample_declared)]\<rparr>"

lemma sample_later: "run (inputs_step id) resolved_world [BeginResolve ''input_1''] later_world"
proof (rule run_single)
  show "inputs_step id resolved_world (BeginResolve ''input_1'') later_world"
    using step_begin [of "''input_1''" resolved_world sample_declared "Some sample_resolved" id]
    by (simp add: inputs_init_def resolved_world_def later_world_def resolve_lookup_def declared_inputs_def sample_inputs_def
        sample_refs ok_or_def input_by_ref_def manifest_input_by_ref_def sample_manifest_def)
qed

theorem input_resolution_stable_witness:
  "input_by_ref ''input_1'' (inputs_state later_world) = Some sample_resolved"
proof -
  have "input_by_ref ''input_1'' (inputs_state resolved_world) = Some sample_resolved"
    by (simp add: resolved_world_def inputs_init_def sample_inputs_def input_by_ref_def manifest_input_by_ref_def
        sample_manifest_def sample_refs)
  then show ?thesis
    using input_resolution_stable [OF sample_new sample_run sample_later, of "''input_1''" sample_declared sample_resolved]
    by blast
qed

text \<open>
  C32: a resolved input can be read where the run sees it. When a resolution returns an input, the input is
  found by its reference and by its virtual path; the path is its own canonical form, so it is relative
  and has no empty, dot or parent component, and no other input of the run has it.
\<close>

theorem resolved_input_found:
  assumes "ResolvedInputState_new nfc agent_run digest ds m resolver = Ok st"
    and "run (inputs_step nfc) (inputs_init st) es w" and "(r, d) \<in> set (in_flight w)"
    and "end_resolve nfc (r, d) answer (inputs_state w) = (Inr x, st')"
  shows "input_by_ref r st' = Some x \<and> input_by_virtual_path (virtual_path x) st' = Ok (Some x) \<and>
    canonical_virtual_path (virtual_path x) = Ok (virtual_path x) \<and>
    (\<forall>y \<in> set (manifest_inputs (manifest st')). virtual_path y = virtual_path x \<longrightarrow> y = x)"
proof -
  have inv: "inputs_inv nfc w" using assms(2) inputs_init_inv [OF assms(1)] by (rule run_inputs.run_inv)
  have old: "manifest_ok nfc (declared_inputs (inputs_state w)) (manifest_inputs (manifest (inputs_state w)))"
    using inputs_invD(4) [OF inv] by (simp add: validate_against_iff)
  have "manifest_ok nfc (declared_inputs (inputs_state w)) (manifest_inputs (manifest st')) \<and> input_by_ref r st' = Some x"
    using inv assms(3,4)
  proof (rule end_resolve_cases)
    fix y
    assume e: "Inr x = (Inr y :: DeferredInputResolutionError + ResolvedInput)" "res_input_ref y = r"
      "st' = (inputs_state w)\<lparr>manifest := (manifest (inputs_state w))\<lparr>manifest_inputs :=
        sort_key res_input_ref (manifest_inputs (manifest (inputs_state w)) @ [y])\<rparr>\<rparr>"
      "manifest_ok nfc (declared_inputs (inputs_state w)) (manifest_inputs (manifest st'))"
    have "x = y" using e(1) by simp
    then have "x \<in> set (manifest_inputs (manifest st'))" "res_input_ref x = r" using e(2) by (simp_all add: e(3))
    then show ?thesis using e(4) unfolding input_by_ref_iff [OF e(4)] by blast
  qed (use old in auto)
  then have m: "manifest_ok nfc (declared_inputs (inputs_state w)) (manifest_inputs (manifest st'))"
    and found: "input_by_ref r st' = Some x" by blast+
  have x: "x \<in> set (manifest_inputs (manifest st'))" using found unfolding input_by_ref_iff [OF m] by blast
  then have path: "canonical_virtual_path (virtual_path x) = Ok (virtual_path x)"
    using m entry_path by (auto simp: manifest_ok_def list_all_iff)
  have "inj_on virtual_path (set (manifest_inputs (manifest st')))" using m by (simp add: manifest_ok_def distinct_map)
  then show ?thesis using found path x input_by_path_iff [OF m path] by (auto dest: inj_onD)
qed

theorem resolved_input_found_witness:
  "input_by_virtual_path ''sources/notice.pdf'' (sample_inputs [sample_resolved]) = Ok (Some sample_resolved)"
proof -
  have "virtual_path sample_resolved = ''sources/notice.pdf''" by (simp add: sample_resolved_def)
  then show ?thesis
    using resolved_input_found [OF sample_new run_single [where step = "inputs_step id", OF sample_begin], of "''input_1''" sample_declared
        "Inr sample_resolved" sample_resolved "sample_inputs [sample_resolved]"] sample_end
    by (simp add: resolving_world_def)
qed

text \<open>A call that nothing interleaves with is its two steps in a row.\<close>

lemma resolve_input_steps:
  assumes "has_resolver st" and "resolve_lookup r st = Inr (d, existing)"
  shows "resolve_input nfc resolver r st = end_resolve nfc (r, d) (resolver d) st"
  using assms by (simp add: resolve_input_def end_resolve_def split: sum.splits)

end
