(* ===== verification/ContextWindow.thy ===== *)
theory ContextWindow
  imports CanonicalJson
begin

text \<open>
  The messages a model sees (\<open>core/src/runtime/context_window.rs\<close>): the projection of a session's messages
  onto its latest compaction summary, the causal user message that a summary refers to by digest, the
  verdict that is stored with the window, and the pairing of tool calls with tool results.

  The encoder and hash are those of canonical JSON; the JSON text of a value, its parser and the parser of
  an anchor reference are parameters.
\<close>

section \<open>Messages\<close>

datatype MessageRole = System | User | Assistant | Tool

record ChatMessage =
  message_id :: string
  role :: MessageRole
  content :: string
  created_at_ms :: int
  metadata :: "(string \<times> string) list"

record ModelToolCallStateV1 =
  call_id :: string
  call_name :: string
  args_json :: string

datatype ModelMessageSemanticsV1 =
    Plain
  | AssistantSemantics "string option" "ModelToolCallStateV1 list"
  | ToolResultSemantics string string string string "string option" "string list" "string option"

record 'c SessionStateSnapshot =
  session_id :: string
  messages :: "ChatMessage list"
  context_window :: "ChatMessage list"
  model_semantics :: "string \<rightharpoonup> ModelMessageSemanticsV1"
  completed_turn :: "'c option"
  updated_at_ms :: int
  session_metadata :: "string \<rightharpoonup> string"

abbreviation meta :: "string \<Rightarrow> ChatMessage \<Rightarrow> string option" where
  "meta key m \<equiv> map_of (metadata m) key"

text \<open>The JSON form of a message.\<close>

fun MessageRole_text :: "MessageRole \<Rightarrow> string" where
  "MessageRole_text System = ''System''"
| "MessageRole_text User = ''User''"
| "MessageRole_text Assistant = ''Assistant''"
| "MessageRole_text Tool = ''Tool''"

definition ChatMessage_value :: "ChatMessage \<Rightarrow> 'f Value" where
  "ChatMessage_value m = VObject
    [(''message_id'', VString (message_id m)), (''role'', VString (MessageRole_text (role m))),
     (''content'', VString (content m)), (''created_at_ms'', VNumber (JsonInt (created_at_ms m))),
     (''metadata'', VObject (map (\<lambda>(k, v). (k, VString v)) (metadata m)))]"

section \<open>The projection\<close>

definition is_prompt_compaction_user_replay :: "ChatMessage \<Rightarrow> bool" where
  "is_prompt_compaction_user_replay m \<longleftrightarrow> role m = User \<and> meta ''kind'' m = Some ''prompt_compaction_user_replay''"

definition is_context_compaction_summary :: "ChatMessage \<Rightarrow> bool" where
  "is_context_compaction_summary m \<longleftrightarrow> role m = System \<and> meta ''kind'' m = Some ''context_compaction''"

definition is_lifecycle_hook_context :: "ChatMessage \<Rightarrow> bool" where
  "is_lifecycle_hook_context m \<longleftrightarrow> role m = System \<and> meta ''lifecycle_hook_context_v1'' m = Some ''true''"

definition is_reliable_tool_chain_user_anchor :: "ChatMessage \<Rightarrow> bool" where
  "is_reliable_tool_chain_user_anchor m \<longleftrightarrow> role m = User \<and>
    meta ''kind'' m \<noteq> Some ''prompt_compaction_user_replay'' \<and>
    (case meta ''message_semantic_kind'' m of
       Some k \<Rightarrow> k \<in> set [''user_request'', ''turn_supplement'', ''answer_now'', ''host_event_input''] | None \<Rightarrow> False)"

record CompactionCausalAnchorReference =
  anchor_schema :: string
  anchor_message_id :: string
  anchor_message_sha256 :: string

abbreviation anchor_digest :: "'f json_codec \<Rightarrow> ChatMessage \<Rightarrow> string result" where
  "anchor_digest codec m \<equiv> sha256 codec ''centaeris.compaction_causal_anchor.v1'' (ChatMessage_value m)"

definition compaction_causal_anchor_reference ::
  "'f json_codec \<Rightarrow> (CompactionCausalAnchorReference \<Rightarrow> string) \<Rightarrow> ChatMessage \<Rightarrow> string result" where
  "compaction_causal_anchor_reference codec print m =
    res_bind (anchor_digest codec m) (\<lambda>digest.
    Ok (print \<lparr>anchor_schema = ''compaction_causal_anchor_v1'', anchor_message_id = message_id m,
      anchor_message_sha256 = digest\<rparr>))"

definition referenced_causal_anchor ::
  "'f json_codec \<Rightarrow> (string \<Rightarrow> CompactionCausalAnchorReference option) \<Rightarrow> ChatMessage list \<Rightarrow> ChatMessage \<Rightarrow> nat \<Rightarrow> nat \<Rightarrow>
    string + ChatMessage option" where
  "referenced_causal_anchor codec parse ms summary summary_index suffix_start =
    (case meta ''causal_user_anchor_v1_json'' summary of
       None \<Rightarrow> Inr None
     | Some raw \<Rightarrow>
         res_bind (ok_or ''context_compaction_anchor_reference_invalid'' (parse raw)) (\<lambda>reference.
         res_bind (ensure (anchor_schema reference = ''compaction_causal_anchor_v1'')
           ''context_compaction_anchor_schema_unsupported'') (\<lambda>_.
         case filter (\<lambda>(_, m). message_id m = anchor_message_id reference) (enumerate 0 ms) of
           [(position, anchor)] \<Rightarrow>
             res_bind (ensure (\<not> (suffix_start \<le> position \<or> summary_index \<le> position \<or>
                 list_ex is_reliable_tool_chain_user_anchor (drop (position + 1) (take suffix_start ms))))
               ''context_compaction_anchor_reference_conflict'') (\<lambda>_.
             res_bind (ensure (is_reliable_tool_chain_user_anchor anchor) ''context_compaction_anchor_semantics_invalid'') (\<lambda>_.
             res_bind (map_err (\<lambda>_. ''context_compaction_anchor_digest_invalid'') (anchor_digest codec anchor)) (\<lambda>actual.
             res_bind (ensure (actual = anchor_message_sha256 reference) ''context_compaction_anchor_content_changed'') (\<lambda>_.
             Inr (Some anchor)))))
         | _ \<Rightarrow> Inl ''context_compaction_anchor_missing_or_ambiguous'')))"

record MaterializationDiagnostic =
  diagnostic_reason :: string
  diagnostic_message_id :: string
  diagnostic_message_index :: nat

text \<open>The last message with a property, with its index (\<open>enumerate().rfind(..)\<close>), and the first index of one (\<open>position\<close>).\<close>

definition rfind_index :: "('a \<Rightarrow> bool) \<Rightarrow> 'a list \<Rightarrow> (nat \<times> 'a) option" where
  "rfind_index P xs = List.find (\<lambda>(_, x). P x) (rev (enumerate 0 xs))"

definition position_of :: "('a \<Rightarrow> bool) \<Rightarrow> 'a list \<Rightarrow> nat option" where
  "position_of P xs = map_option fst (List.find (\<lambda>(_, x). P x) (enumerate 0 xs))"

definition active_projection_messages ::
  "'f json_codec \<Rightarrow> (string \<Rightarrow> CompactionCausalAnchorReference option) \<Rightarrow> ChatMessage list \<Rightarrow>
    ChatMessage list \<times> MaterializationDiagnostic list" where
  "active_projection_messages codec parse ms =
    (case rfind_index is_context_compaction_summary ms of
       None \<Rightarrow> (ms, [])
     | Some (summary_index, summary) \<Rightarrow>
         let diagnostic = (\<lambda>reason. \<lparr>diagnostic_reason = reason, diagnostic_message_id = message_id summary,
               diagnostic_message_index = summary_index\<rparr>);
             (suffix_start, missing) = (case meta ''first_kept_message_id'' summary of
                 Some first_kept \<Rightarrow> (case position_of (\<lambda>m. message_id m = first_kept) ms of
                     Some index \<Rightarrow> (index, [])
                   | None \<Rightarrow> (summary_index + 1, [diagnostic ''context_compaction_first_kept_message_missing'']))
               | None \<Rightarrow> (summary_index + 1, []));
             compaction = meta ''compaction_id'' summary;
             replays = filter (\<lambda>m. is_prompt_compaction_user_replay m \<and> meta ''compaction_id'' m = compaction) ms;
             (anchors, conflicts) = (case referenced_causal_anchor codec parse ms summary summary_index suffix_start of
                 Inr (Some anchor) \<Rightarrow> ([anchor], [])
               | Inr None \<Rightarrow> ([], [])
               | Inl reason \<Rightarrow> ([], [diagnostic reason]));
             kept = filter (\<lambda>m. \<not> is_context_compaction_summary m \<and> \<not> is_prompt_compaction_user_replay m) (drop suffix_start ms)
         in (summary # replays @ anchors @ kept, missing @ conflicts))"

record ContextWindowMaterialization =
  window_messages :: "ChatMessage list"
  diagnostics :: "MaterializationDiagnostic list"
  source_message_count :: nat

definition materialize_context_window ::
  "'f json_codec \<Rightarrow> (string \<Rightarrow> CompactionCausalAnchorReference option) \<Rightarrow> ChatMessage list \<Rightarrow> ContextWindowMaterialization" where
  "materialize_context_window codec parse ms =
    (let (active, ds) = active_projection_messages codec parse ms in
     \<lparr>window_messages = active, diagnostics = ds, source_message_count = length ms\<rparr>)"

section \<open>The stored verdict\<close>

definition is_critical_compaction_materialization_diagnostic :: "string \<Rightarrow> bool" where
  "is_critical_compaction_materialization_diagnostic reason \<longleftrightarrow>
    reason = ''context_compaction_first_kept_message_missing'' \<or> prefix ''context_compaction_anchor_'' reason"

abbreviation invalid_compaction :: "string \<Rightarrow> string \<Rightarrow> string" where
  "invalid_compaction reason i \<equiv>
    ''context_window_materialization_invalid_compaction_lifecycle: reason='' @ reason @ '' messageId='' @ i"

definition ensure_valid :: "ContextWindowMaterialization \<Rightarrow> unit result" where
  "ensure_valid w =
    (case List.find (\<lambda>d. is_critical_compaction_materialization_diagnostic (diagnostic_reason d)) (diagnostics w) of
       Some d \<Rightarrow> Err (invalid_compaction (diagnostic_reason d) (diagnostic_message_id d)) | None \<Rightarrow> Ok ())"

definition metadata_value :: "ContextWindowMaterialization \<Rightarrow> 'f Value" where
  "metadata_value w = VObject
    [(''schema'', VString ''context_window_materialization_v1''), (''strategy'', VString ''active_compaction_projection''),
     (''sourceMessageCount'', VNumber (JsonInt (int (source_message_count w)))),
     (''contextMessageCount'', VNumber (JsonInt (int (length (window_messages w))))),
     (''diagnostics'', VArray (map (\<lambda>d. VObject
       [(''reason'', VString (diagnostic_reason d)), (''messageId'', VString (diagnostic_message_id d)),
        (''messageIndex'', VNumber (JsonInt (int (diagnostic_message_index d))))]) (diagnostics w)))]"

definition metadata_json :: "('f Value \<Rightarrow> string) \<Rightarrow> ContextWindowMaterialization \<Rightarrow> string" where
  "metadata_json json_text w = json_text (metadata_value w)"

definition refresh_session_context_window ::
  "'f json_codec \<Rightarrow> (string \<Rightarrow> CompactionCausalAnchorReference option) \<Rightarrow> ('f Value \<Rightarrow> string) \<Rightarrow> 'c SessionStateSnapshot \<Rightarrow>
    'c SessionStateSnapshot" where
  "refresh_session_context_window codec parse json_text s =
    (let w = materialize_context_window codec parse (messages s) in
     s\<lparr>context_window := window_messages w,
       session_metadata := (session_metadata s)(''context_window_materialization_v1_json'' \<mapsto> metadata_json json_text w)\<rparr>)"

definition diagnostic_check :: "'f Value \<Rightarrow> unit result" where
  "diagnostic_check diagnostic =
    (let reason = (case Option.bind (value_get ''reason'' diagnostic) as_str of Some r \<Rightarrow> r | None \<Rightarrow> ''unknown'') in
     if is_critical_compaction_materialization_diagnostic reason
     then Err (invalid_compaction reason
       (case Option.bind (value_get ''messageId'' diagnostic) as_str of Some i \<Rightarrow> i | None \<Rightarrow> ''unknown''))
     else Ok ())"

definition validate_context_window_materialization ::
  "(string \<Rightarrow> 'f Value result) \<Rightarrow> 'c SessionStateSnapshot \<Rightarrow> unit result" where
  "validate_context_window_materialization parse_value s =
    (case session_metadata s ''context_window_materialization_v1_json'' of
       None \<Rightarrow> Ok ()
     | Some raw \<Rightarrow>
         res_bind (map_err (\<lambda>e. ''parse context window materialization metadata failed: '' @ e) (parse_value raw)) (\<lambda>value.
         let ds = (case Option.bind (value_get ''diagnostics'' value) as_array of Some ds \<Rightarrow> ds | None \<Rightarrow> []) in
         fold_result (\<lambda>_ d. diagnostic_check d) () ds))"

section \<open>Tool calls and results\<close>

abbreviation pairing_error :: "string \<Rightarrow> string" where
  "pairing_error e \<equiv> ''context_window_materialization_invalid_tool_pairing: '' @ e"

definition assistant_tool_call_ids :: "ChatMessage \<Rightarrow> (string \<rightharpoonup> ModelMessageSemanticsV1) \<Rightarrow> string list result" where
  "assistant_tool_call_ids m semantics =
    (case semantics (message_id m) of
       Some Plain \<Rightarrow> Ok []
     | Some (AssistantSemantics _ tool_calls) \<Rightarrow> Ok (map call_id tool_calls)
     | Some _ \<Rightarrow> Err (pairing_error (''assistant message '' @ message_id m @ '' has incompatible typed semantics''))
     | None \<Rightarrow> Err (pairing_error (''assistant message '' @ message_id m @ '' has no typed semantics'')))"

definition tool_result_call_id :: "ChatMessage \<Rightarrow> (string \<rightharpoonup> ModelMessageSemanticsV1) \<Rightarrow> string result" where
  "tool_result_call_id m semantics =
    (case semantics (message_id m) of
       Some (ToolResultSemantics tool_call_id _ _ _ _ _ _) \<Rightarrow>
         if trim tool_call_id \<noteq> [] then Ok tool_call_id
         else Err (pairing_error (''tool message '' @ message_id m @ '' has incompatible typed semantics''))
     | Some _ \<Rightarrow> Err (pairing_error (''tool message '' @ message_id m @ '' has incompatible typed semantics''))
     | None \<Rightarrow> Err (pairing_error (''tool message '' @ message_id m @ '' has no typed semantics'')))"

text \<open>One iteration of the loops of \<open>validate_model_context_window\<close> and \<open>trailing_unpaired_model_tool_call_ids\<close>.\<close>

definition pairing_step :: "(string \<rightharpoonup> ModelMessageSemanticsV1) \<Rightarrow> string list \<Rightarrow> ChatMessage \<Rightarrow> string list result" where
  "pairing_step semantics pending m =
    (if pending \<noteq> [] \<and> role m \<noteq> Tool
     then Err (pairing_error (''assistant tool call '' @ hd pending @ '' must be followed by tool result before message '' @ message_id m))
     else case role m of
       Assistant \<Rightarrow> res_bind (assistant_tool_call_ids m semantics) (\<lambda>ids. Ok (pending @ ids))
     | Tool \<Rightarrow>
         res_bind (tool_result_call_id m semantics) (\<lambda>i.
         case pending of
           [] \<Rightarrow> Err (pairing_error (''tool message '' @ message_id m @ '' has no preceding assistant tool call''))
         | expected # rest \<Rightarrow>
             if expected \<noteq> i then Err (pairing_error (''tool message '' @ message_id m @ '' has tool_call_id='' @ i @ '' but expected '' @ expected))
             else Ok rest)
     | _ \<Rightarrow> Ok pending)"

definition validate_model_context_window :: "ChatMessage list \<Rightarrow> (string \<rightharpoonup> ModelMessageSemanticsV1) \<Rightarrow> unit result" where
  "validate_model_context_window ms semantics =
    res_bind (fold_result (pairing_step semantics) [] ms) (\<lambda>pending.
    case pending of
      i # _ \<Rightarrow> Err (pairing_error (''assistant tool call '' @ i @ '' has no following tool result''))
    | [] \<Rightarrow> Ok ())"

definition trailing_unpaired_model_tool_call_ids ::
  "ChatMessage list \<Rightarrow> (string \<rightharpoonup> ModelMessageSemanticsV1) \<Rightarrow> string list result" where
  "trailing_unpaired_model_tool_call_ids ms semantics = fold_result (pairing_step semantics) [] ms"

section \<open>Well-paired windows\<close>

abbreviation answers :: "(string \<rightharpoonup> ModelMessageSemanticsV1) \<Rightarrow> ChatMessage \<Rightarrow> string \<Rightarrow> bool" where
  "answers semantics t i \<equiv> role t = Tool \<and> tool_result_call_id t semantics = Ok i"

text \<open>
  The shape of a window a model accepts: system and user messages, and assistant messages each followed
  at once by the results of its tool calls, in the order of the calls.
\<close>

inductive paired :: "(string \<rightharpoonup> ModelMessageSemanticsV1) \<Rightarrow> ChatMessage list \<Rightarrow> bool"
  for semantics :: "string \<rightharpoonup> ModelMessageSemanticsV1" where
  paired_empty: "paired semantics []"
| paired_other: "role m = System \<or> role m = User \<Longrightarrow> paired semantics ms \<Longrightarrow> paired semantics (m # ms)"
| paired_calls: "role m = Assistant \<Longrightarrow> assistant_tool_call_ids m semantics = Ok ids \<Longrightarrow>
    list_all2 (answers semantics) ts ids \<Longrightarrow> paired semantics ms \<Longrightarrow> paired semantics (m # ts @ ms)"

inductive_simps paired_Cons: "paired semantics (m # ms)"

lemma pairing_step_free:
  "pairing_step semantics [] m = Ok p \<longleftrightarrow>
    (role m = System \<or> role m = User) \<and> p = [] \<or> role m = Assistant \<and> assistant_tool_call_ids m semantics = Ok p"
  by (cases "role m") (auto simp: pairing_step_def res_bind_eq_Inr)

lemma pairing_step_pending: "pairing_step semantics (c # cs) m = Ok p \<longleftrightarrow> answers semantics m c \<and> p = cs"
  by (cases "role m") (auto simp: pairing_step_def res_bind_eq_Inr)

lemma fold_paired:
  "fold_result (pairing_step semantics) pending ms = Ok [] \<longleftrightarrow>
    (\<exists>ts rest. ms = ts @ rest \<and> list_all2 (answers semantics) ts pending \<and> paired semantics rest)"
proof (induction ms arbitrary: pending)
  case Nil
  show ?case by (auto intro: paired_empty)
next
  case (Cons m ms)
  have fold: "fold_result (pairing_step semantics) q (m # ms) = Ok [] \<longleftrightarrow>
      (\<exists>p. pairing_step semantics q m = Ok p \<and> fold_result (pairing_step semantics) p ms = Ok [])" for q
    by (simp add: res_bind_eq_Inr)
  show ?case
  proof (cases pending)
    case Nil
    have "fold_result (pairing_step semantics) [] ms = Ok [] \<longleftrightarrow> paired semantics ms" using Cons.IH [of "[]"] by simp
    then have "fold_result (pairing_step semantics) pending (m # ms) = Ok [] \<longleftrightarrow> paired semantics (m # ms)"
      unfolding fold Nil pairing_step_free paired_Cons by (cases "role m") (simp_all add: Cons.IH, blast)
    then show ?thesis using Nil by simp
  next
    case c: (Cons c cs)
    show ?thesis unfolding fold c pairing_step_pending
      by (auto simp: Cons.IH list_all2_Cons2 Cons_eq_append_conv)
  qed
qed

lemma validate_pairing: "validate_model_context_window ms semantics = Ok () \<longleftrightarrow> fold_result (pairing_step semantics) [] ms = Ok []"
proof (cases "fold_result (pairing_step semantics) [] ms")
  case (Inr pending)
  then show ?thesis by (cases pending) (simp_all add: validate_model_context_window_def)
qed (simp add: validate_model_context_window_def)

lemma fold_tools:
  "list_all (\<lambda>t. role t = Tool) ts \<Longrightarrow>
    fold_result (pairing_step semantics) pending ts = Ok [] \<longleftrightarrow> list_all2 (answers semantics) ts pending"
proof (induction ts arbitrary: pending)
  case (Cons t ts)
  then show ?case
    by (cases pending) (auto simp: res_bind_eq_Inr pairing_step_free pairing_step_pending list_all2_Cons1)
qed auto

lemma fold_result_append:
  "fold_result f s (xs @ ys) = res_bind (fold_result f s xs) (\<lambda>s'. fold_result f s' ys)"
  by (induction xs arbitrary: s) (auto simp: res_bind_def split: sum.splits)

section \<open>Properties of a projection\<close>

lemma find_diagnostic:
  "fold_result (\<lambda>_ d. diagnostic_check d) () (map (\<lambda>d. VObject
      [(''reason'', VString (diagnostic_reason d)), (''messageId'', VString (diagnostic_message_id d)),
       (''messageIndex'', n d)]) ds) =
    (case List.find (\<lambda>d. is_critical_compaction_materialization_diagnostic (diagnostic_reason d)) ds of
       Some d \<Rightarrow> Err (invalid_compaction (diagnostic_reason d) (diagnostic_message_id d)) | None \<Rightarrow> Ok ())"
  by (induction ds) (simp_all add: diagnostic_check_def value_get_def as_str_def Let_def res_bind_def)

lemma rfind_index_Some:
  assumes "rfind_index P xs = Some (i, x)"
  shows "i < length xs \<and> xs ! i = x \<and> P x \<and> (\<forall>j. i < j \<and> j < length xs \<longrightarrow> \<not> P (xs ! j))"
proof -
  have len: "length (rev (enumerate 0 xs)) = length xs" by simp
  have nth: "rev (enumerate 0 xs) ! k = (length xs - Suc k, xs ! (length xs - Suc k))" if "k < length xs" for k
    using that by (simp add: rev_nth nth_enumerate_eq)
  obtain k where k: "k < length xs" "P x" "(i, x) = (length xs - Suc k, xs ! (length xs - Suc k))"
    "\<forall>j<k. \<not> P (snd (rev (enumerate 0 xs) ! j))"
    using assms nth unfolding rfind_index_def find_Some_iff len by (auto simp: case_prod_unfold)
  have "\<not> P (xs ! j)" if "i < j" "j < length xs" for j
    using k(4) [rule_format, of "length xs - Suc j"] nth [of "length xs - Suc j"] k(1,3) that by auto
  then show ?thesis using k by auto
qed

lemma anchor_reasons:
  "list_all is_critical_compaction_materialization_diagnostic
    [''context_compaction_anchor_reference_invalid'', ''context_compaction_anchor_schema_unsupported'',
     ''context_compaction_anchor_missing_or_ambiguous'', ''context_compaction_anchor_reference_conflict'',
     ''context_compaction_anchor_semantics_invalid'', ''context_compaction_anchor_digest_invalid'',
     ''context_compaction_anchor_content_changed'', ''context_compaction_first_kept_message_missing'']"
  by code_simp

lemma res_bind_reasons:
  assumes "res_bind x f = Inl e" and "\<And>e. x = Inl e \<Longrightarrow> P e" and "\<And>y. f y = Inl e \<Longrightarrow> P e"
  shows "P e"
  using assms by (cases x) auto

lemma ensure_reason: "ensure b r = Inl e \<Longrightarrow> e = r"
  by (cases b) simp_all

lemma anchor_reasons_critical:
  assumes "referenced_causal_anchor codec parse ms summary i n = Inl reason"
  shows "is_critical_compaction_materialization_diagnostic reason"
proof (cases "meta ''causal_user_anchor_v1_json'' summary")
  case None
  then show ?thesis using assms by (simp add: referenced_causal_anchor_def)
next
  case (Some raw)
  note R = anchor_reasons [unfolded list.pred_inject]
  show ?thesis
    using assms unfolding referenced_causal_anchor_def Some option.case
  proof (rule res_bind_reasons, goal_cases)
    case (1 e)
    then show ?case using R by (cases "parse raw") simp_all
  next
    case (2 reference)
    then show ?case
    proof (rule res_bind_reasons, goal_cases)
      case (1 e)
      from ensure_reason [OF this] show ?case using R by blast
    next
      case inner: (2 u)
      show ?case
      proof (cases "\<exists>position anchor. filter (\<lambda>(_, m). message_id m = anchor_message_id reference) (enumerate 0 ms) = [(position, anchor)]")
        case True
        then obtain position anchor where
          one: "filter (\<lambda>(_, m). message_id m = anchor_message_id reference) (enumerate 0 ms) = [(position, anchor)]" by blast
        show ?thesis using inner unfolding one list.case prod.case
        proof (elim res_bind_reasons, goal_cases)
          case (3 e) then show ?case using R by (cases "anchor_digest codec anchor") (simp_all add: map_err_def)
        qed (use R in \<open>auto dest!: ensure_reason\<close>)
      next
        case False
        then have "reason = ''context_compaction_anchor_missing_or_ambiguous''"
          using inner by (auto split: list.splits prod.splits)
        then show ?thesis using R by blast
      qed
    qed
  qed
qed

lemma anchor_found:
  assumes "referenced_causal_anchor codec parse ms summary i n = Inr x"
    and "meta ''causal_user_anchor_v1_json'' summary = Some raw" and "parse raw = Some reference"
  obtains p where "x = Some (ms ! p)" "p < length ms" "p < i" "message_id (ms ! p) = anchor_message_id reference"
    "is_reliable_tool_chain_user_anchor (ms ! p)" "anchor_digest codec (ms ! p) = Ok (anchor_message_sha256 reference)"
proof -
  let ?hits = "filter (\<lambda>(_, m). message_id m = anchor_message_id reference) (enumerate 0 ms)"
  have "\<exists>p a. ?hits = [(p, a)]"
    using assms(1) unfolding referenced_causal_anchor_def assms(2,3) option.case ok_or_Some res_bind_Inr
    by (auto simp: res_bind_eq_Inr split: list.splits prod.splits)
  then obtain p a where one: "?hits = [(p, a)]" by blast
  have "(p, a) \<in> set ?hits" unfolding one by simp
  then have a: "p < length ms" "a = ms ! p" "message_id (ms ! p) = anchor_message_id reference"
    by (auto simp: in_set_enumerate_eq)
  show thesis
    using assms(1) a unfolding referenced_causal_anchor_def assms(2,3) option.case ok_or_Some res_bind_Inr one list.case prod.case
    by (auto simp: res_bind_eq_Inr map_err_def split: sum.splits intro!: that [of p])
qed

lemma valid_window:
  assumes latest: "rfind_index is_context_compaction_summary ms = Some (i, summary)"
    and valid: "ensure_valid (materialize_context_window codec parse ms) = Ok ()"
  obtains n x where "referenced_causal_anchor codec parse ms summary i n = Inr x"
    "set (window_messages (materialize_context_window codec parse ms)) \<supseteq> set_option x"
proof -
  define start where "start = (case meta ''first_kept_message_id'' summary of
      Some first_kept \<Rightarrow> (case position_of (\<lambda>m. message_id m = first_kept) ms of Some index \<Rightarrow> index | None \<Rightarrow> i + 1)
    | None \<Rightarrow> i + 1)"
  show thesis
  proof (cases "referenced_causal_anchor codec parse ms summary i start")
    case (Inr x)
    then show thesis using latest
      by (intro that [of start x])
        (auto simp: materialize_context_window_def active_projection_messages_def start_def Let_def split: option.splits)
  next
    case (Inl reason)
    then have "\<exists>d \<in> set (diagnostics (materialize_context_window codec parse ms)). diagnostic_reason d = reason"
      using latest
      by (auto simp: materialize_context_window_def active_projection_messages_def start_def Let_def split: option.splits)
    then have "ensure_valid (materialize_context_window codec parse ms) \<noteq> Ok ()"
      using anchor_reasons_critical [OF Inl] by (auto simp: ensure_valid_def find_None_iff split: option.splits)
    then show thesis using valid by simp
  qed
qed

lemma MessageRole_text_inj: "MessageRole_text r = MessageRole_text r' \<longleftrightarrow> r = r'"
  by (cases r; cases r') simp_all

lemma same_message:
  assumes "same_value (ChatMessage_value a :: 'f Value) (ChatMessage_value b)"
  shows "role a = role b \<and> content a = content b \<and> created_at_ms a = created_at_ms b \<and> map_of (metadata a) = map_of (metadata b)"
proof -
  let ?f = "\<lambda>m. [(''message_id'', VString (message_id m)), (''role'', VString (MessageRole_text (role m))),
     (''content'', VString (content m)), (''created_at_ms'', VNumber (JsonInt (created_at_ms m))),
     (''metadata'', VObject (map (\<lambda>(k, v). (k, VString v)) (metadata m)))] :: (string \<times> 'f Value) list"
  have rel: "rel_option same_value (map_of (?f a) k) (map_of (?f b) k)" for k
    using assms unfolding ChatMessage_value_def same_value_object by auto
  have "same_value (VObject (map (\<lambda>(k, v). (k, VString v)) (metadata a)) :: 'f Value)
      (VObject (map (\<lambda>(k, v). (k, VString v)) (metadata b)))" using rel [of "''metadata''"] by simp
  then have md: "rel_option same_value (map_option (VString :: string \<Rightarrow> 'f Value) (map_of (metadata a) k))
      (map_option VString (map_of (metadata b) k))" for k
    by (simp add: same_value_object map_of_map)
  have "map_of (metadata a) k = map_of (metadata b) k" for k
    using md [of k] by (cases "map_of (metadata a) k"; cases "map_of (metadata b) k") simp_all
  then have "map_of (metadata a) = map_of (metadata b)" by (rule ext)
  moreover have "role a = role b" using rel [of "''role''"] by (simp add: MessageRole_text_inj)
  moreover have "content a = content b" using rel [of "''content''"] by simp
  moreover have "created_at_ms a = created_at_ms b" using rel [of "''created_at_ms''"] by simp
  ultimately show ?thesis by simp
qed

lemma message_value_wf: "distinct (map fst (metadata m)) \<Longrightarrow> value_wf (ChatMessage_value m)"
  by (simp add: ChatMessage_value_def comp_def case_prod_unfold list_all_iff)

section \<open>Properties\<close>

text \<open>
  C36: the validation of tool calls accepts exactly the well-paired windows: system and user messages, and
  assistant messages each followed at once by one result for each of their tool calls, in the order of the
  calls. The unpaired trailing calls it reports are exactly the calls whose results, appended in order, make
  the window valid.
\<close>

theorem tool_pairing_exact:
  "(validate_model_context_window ms semantics = Ok () \<longleftrightarrow> paired semantics ms) \<and>
    (trailing_unpaired_model_tool_call_ids ms semantics = Ok ids \<longrightarrow> list_all (\<lambda>t. role t = Tool) ts \<longrightarrow>
      (validate_model_context_window (ms @ ts) semantics = Ok () \<longleftrightarrow> list_all2 (answers semantics) ts ids))"
proof (intro conjI impI)
  show "validate_model_context_window ms semantics = Ok () \<longleftrightarrow> paired semantics ms"
    unfolding validate_pairing fold_paired by simp
next
  assume "trailing_unpaired_model_tool_call_ids ms semantics = Ok ids" and tools: "list_all (\<lambda>t. role t = Tool) ts"
  then show "validate_model_context_window (ms @ ts) semantics = Ok () \<longleftrightarrow> list_all2 (answers semantics) ts ids"
    unfolding validate_pairing fold_result_append trailing_unpaired_model_tool_call_ids_def
    by (simp add: fold_tools [OF tools])
qed

definition sample_message :: "string \<Rightarrow> MessageRole \<Rightarrow> (string \<times> string) list \<Rightarrow> ChatMessage" where
  "sample_message i r md = \<lparr>message_id = i, role = r, content = ''text'', created_at_ms = 1, metadata = md\<rparr>"

definition sample_semantics :: "string \<rightharpoonup> ModelMessageSemanticsV1" where
  "sample_semantics = [''a1'' \<mapsto> AssistantSemantics None [\<lparr>call_id = ''c1'', call_name = ''read'', args_json = ''{}''\<rparr>],
    ''t1'' \<mapsto> ToolResultSemantics ''c1'' ''read'' ''ok'' ''done'' None [] None]"

theorem tool_pairing_exact_witness:
  "validate_model_context_window [sample_message ''a1'' Assistant []] sample_semantics \<noteq> Ok () \<and>
   validate_model_context_window ([sample_message ''a1'' Assistant []] @ [sample_message ''t1'' Tool []]) sample_semantics = Ok ()"
proof -
  have trim: "trim ''c1'' = ''c1''" by code_simp
  have t: "trailing_unpaired_model_tool_call_ids [sample_message ''a1'' Assistant []] sample_semantics = Ok [''c1'']"
    by (simp add: trailing_unpaired_model_tool_call_ids_def pairing_step_def sample_message_def assistant_tool_call_ids_def
        sample_semantics_def)
  then have "validate_model_context_window [sample_message ''a1'' Assistant []] sample_semantics \<noteq> Ok ()"
    by (simp add: validate_pairing trailing_unpaired_model_tool_call_ids_def)
  moreover have "validate_model_context_window ([sample_message ''a1'' Assistant []] @ [sample_message ''t1'' Tool []])
      sample_semantics = Ok ()"
    using tool_pairing_exact [of "[sample_message ''a1'' Assistant []]" sample_semantics "[''c1'']" "[sample_message ''t1'' Tool []]"] t trim
    by (simp add: sample_message_def tool_result_call_id_def sample_semantics_def)
  ultimately show ?thesis by blast
qed

abbreviation anchor_of :: "ChatMessage \<Rightarrow> string \<Rightarrow> CompactionCausalAnchorReference" where
  "anchor_of m digest \<equiv> \<lparr>anchor_schema = ''compaction_causal_anchor_v1'', anchor_message_id = message_id m,
    anchor_message_sha256 = digest\<rparr>"

text \<open>
  C37: the user message that a compaction keeps by reference reaches the model unchanged. When the latest
  summary carries the reference made for a message and the window is valid, the window contains an earlier
  user message with its identity whose role, content, time and metadata are those of the referenced message,
  unless the text hashed for that message and the text hashed for the referenced one differ and have the same
  hash. The JSON encoder maps different values to different texts and the reference is read back as it was
  written.
\<close>

theorem referenced_anchor_intact:
  fixes codec :: "'f json_codec"
  assumes enc: "encoding_faithful codec"
    and read: "\<And>digest. anchor_digest codec m = Ok digest \<Longrightarrow> parse (print (anchor_of m digest)) = Some (anchor_of m digest)"
    and made: "compaction_causal_anchor_reference codec print m = Ok raw"
    and latest: "rfind_index is_context_compaction_summary ms = Some (i, summary)"
    and stored: "meta ''causal_user_anchor_v1_json'' summary = Some raw"
    and valid: "ensure_valid (materialize_context_window codec parse ms) = Ok ()"
    and wf: "distinct (map fst (metadata m))" "list_all (\<lambda>x. distinct (map fst (metadata x))) ms"
  shows "\<exists>p < i. ms ! p \<in> set (window_messages (materialize_context_window codec parse ms)) \<and>
    message_id (ms ! p) = message_id m \<and> is_reliable_tool_chain_user_anchor (ms ! p) \<and>
    (role (ms ! p) = role m \<and> content (ms ! p) = content m \<and> created_at_ms (ms ! p) = created_at_ms m \<and>
     map_of (metadata (ms ! p)) = map_of (metadata m) \<or>
     digest_collision codec ''centaeris.compaction_causal_anchor.v1'' (ChatMessage_value (ms ! p))
       ''centaeris.compaction_causal_anchor.v1'' (ChatMessage_value m))"
proof -
  obtain digest where digest: "anchor_digest codec m = Ok digest" and raw: "raw = print (anchor_of m digest)"
    using made by (auto simp: compaction_causal_anchor_reference_def res_bind_eq_Inr)
  obtain n x where x: "referenced_causal_anchor codec parse ms summary i n = Inr x"
    and win: "set (window_messages (materialize_context_window codec parse ms)) \<supseteq> set_option x"
    using latest valid by (rule valid_window)
  have parsed: "parse raw = Some (anchor_of m digest)" unfolding raw by (rule read [OF digest])
  obtain p where p: "x = Some (ms ! p)" "p < length ms" "p < i" "message_id (ms ! p) = message_id m"
    "is_reliable_tool_chain_user_anchor (ms ! p)" "anchor_digest codec (ms ! p) = Ok digest"
    using anchor_found [OF x stored parsed] by auto
  have wfp: "value_wf (ChatMessage_value (ms ! p) :: 'f Value)" "value_wf (ChatMessage_value m :: 'f Value)"
    using wf p(2) by (simp_all add: message_value_wf list_all_length)
  have domain: "CHR 0x00 \<notin> set ''centaeris.compaction_causal_anchor.v1''" by code_simp
  have "same_value (ChatMessage_value (ms ! p) :: 'f Value) (ChatMessage_value m) \<or>
      digest_collision codec ''centaeris.compaction_causal_anchor.v1'' (ChatMessage_value (ms ! p))
       ''centaeris.compaction_causal_anchor.v1'' (ChatMessage_value m)"
    using same_digest [OF enc wfp domain domain conjI [OF p(6) digest]] by blast
  then show ?thesis using p(1,3,4,5) win same_message by fastforce
qed

text \<open>
  A referenced message, the message of the session with its metadata in another order, and a message with the
  same identity and another content. The encoder knows both contents and the hash is the identity.
\<close>

definition sample_user :: ChatMessage where
  "sample_user = sample_message ''u1'' User [(''message_semantic_kind'', ''user_request''), (''a'', ''b'')]"

definition stored_user :: ChatMessage where
  "stored_user = sample_user\<lparr>metadata := rev (metadata sample_user)\<rparr>"

definition forged_user :: ChatMessage where
  "forged_user = stored_user\<lparr>content := ''forged''\<rparr>"

definition sample_summary :: ChatMessage where
  "sample_summary = sample_message ''s1'' System [(''kind'', ''context_compaction''), (''causal_user_anchor_v1_json'', ''ref'')]"

definition window_codec :: "unit json_codec" where
  "window_codec = \<lparr>encode = (\<lambda>v. if v = sort_value (ChatMessage_value sample_user) then Ok ''m''
     else if v = sort_value (ChatMessage_value forged_user) then Ok ''f'' else Err ''unsupported''),
    sha256_hex = (\<lambda>s. s)\<rparr>"

abbreviation sample_digest :: string where
  "sample_digest \<equiv> ''sha256:'' @ ''centaeris.compaction_causal_anchor.v1'' @ [CHR 0x00] @ ''m''"

lemma stored_user_same: "sort_value (ChatMessage_value stored_user :: unit Value) = sort_value (ChatMessage_value sample_user)"
  by code_simp

lemma sample_anchor_digest:
  "anchor_digest window_codec sample_user = Ok sample_digest" "anchor_digest window_codec stored_user = Ok sample_digest"
  by (simp_all add: sha256_def to_vec_def window_codec_def map_err_def stored_user_same)

definition sample_parse :: "string \<Rightarrow> CompactionCausalAnchorReference option" where
  "sample_parse s = (if s = ''ref'' then Some (anchor_of sample_user sample_digest) else None)"

lemma sample_latest: "rfind_index is_context_compaction_summary [stored_user, sample_summary] = Some (1, sample_summary)"
  by (simp add: rfind_index_def is_context_compaction_summary_def sample_summary_def sample_message_def)

lemma sample_metas:
  "meta ''causal_user_anchor_v1_json'' sample_summary = Some ''ref''" "meta ''first_kept_message_id'' sample_summary = None"
  "message_id sample_user = ''u1''" "message_id stored_user = ''u1''" "message_id sample_summary = ''s1''"
  "is_reliable_tool_chain_user_anchor stored_user" "\<not> is_reliable_tool_chain_user_anchor sample_summary"
  by (simp_all add: sample_summary_def stored_user_def sample_user_def sample_message_def is_reliable_tool_chain_user_anchor_def)

lemma sample_valid: "ensure_valid (materialize_context_window window_codec sample_parse [stored_user, sample_summary]) = Ok ()"
proof -
  have "referenced_causal_anchor window_codec sample_parse [stored_user, sample_summary] sample_summary 1 2 = Inr (Some stored_user)"
    by (simp add: referenced_causal_anchor_def sample_metas sample_parse_def sample_anchor_digest map_err_def)
  then show ?thesis
    by (simp add: ensure_valid_def materialize_context_window_def active_projection_messages_def sample_latest sample_metas
        numeral_2_eq_2 Let_def)
qed

theorem referenced_anchor_intact_witness:
  "stored_user \<in> set (window_messages (materialize_context_window window_codec sample_parse [stored_user, sample_summary])) \<and>
   content stored_user = content sample_user \<and> map_of (metadata stored_user) = map_of (metadata sample_user) \<and>
   metadata stored_user \<noteq> metadata sample_user"
proof -
  have enc: "encoding_faithful window_codec" by (auto simp: encoding_faithful_def window_codec_def split: if_splits)
  have parsed: "sample_parse ((\<lambda>_. ''ref'') (anchor_of sample_user digest)) = Some (anchor_of sample_user digest)"
    if "anchor_digest window_codec sample_user = Ok digest" for digest
    using that by (simp add: sample_parse_def sample_anchor_digest)
  have made: "compaction_causal_anchor_reference window_codec (\<lambda>_. ''ref'') sample_user = Ok ''ref''"
    by (simp add: compaction_causal_anchor_reference_def sample_anchor_digest)
  have wf: "distinct (map fst (metadata sample_user))" "list_all (\<lambda>x. distinct (map fst (metadata x))) [stored_user, sample_summary]"
    by (simp_all add: stored_user_def sample_user_def sample_summary_def sample_message_def)
  have "inj (sha256_hex window_codec)" by (simp add: window_codec_def inj_def)
  then have "\<not> digest_collision window_codec d v d' w" for d d' v w by (rule no_collision)
  with referenced_anchor_intact [where codec = window_codec and m = sample_user and parse = sample_parse
      and print = "\<lambda>_. ''ref''" and raw = "''ref''", OF enc parsed made sample_latest sample_metas(1) sample_valid wf]
  have "stored_user \<in> set (window_messages (materialize_context_window window_codec sample_parse [stored_user, sample_summary])) \<and>
      content stored_user = content sample_user \<and> map_of (metadata stored_user) = map_of (metadata sample_user)"
    by simp
  moreover have "metadata stored_user \<noteq> metadata sample_user" by (simp add: stored_user_def sample_user_def sample_message_def)
  ultimately show ?thesis by blast
qed

text \<open>The same session with the forged message has no valid window.\<close>

lemma forged_anchor_refused:
  "ensure_valid (materialize_context_window window_codec sample_parse [forged_user, sample_summary]) \<noteq> Ok ()"
proof
  assume "ensure_valid (materialize_context_window window_codec sample_parse [forged_user, sample_summary]) = Ok ()"
  moreover have "rfind_index is_context_compaction_summary [forged_user, sample_summary] = Some (1, sample_summary)"
    by (simp add: rfind_index_def is_context_compaction_summary_def sample_summary_def sample_message_def)
  ultimately obtain n x where x: "referenced_causal_anchor window_codec sample_parse [forged_user, sample_summary] sample_summary 1 n = Inr x"
    by (metis valid_window)
  have forged: "sort_value (ChatMessage_value forged_user :: unit Value) \<noteq> sort_value (ChatMessage_value sample_user)" by code_simp
  then have "anchor_digest window_codec forged_user \<noteq> Ok sample_digest"
    by (simp add: sha256_def to_vec_def window_codec_def map_err_def)
  moreover obtain p where "p < 1" "anchor_digest window_codec ([forged_user, sample_summary] ! p) = Ok sample_digest"
    using anchor_found [OF x sample_metas(1), of "anchor_of sample_user sample_digest"] by (auto simp: sample_parse_def)
  ultimately show False by simp
qed

text \<open>
  C38: the stored verdict is the verdict of the window. After a refresh the window is the projection of the
  session's messages, the messages are unchanged, and checking the stored metadata succeeds or fails, with
  the same message, exactly as checking the projection itself. The stored JSON text is read back as it
  was written.
\<close>

theorem stored_verdict_exact:
  fixes json_text :: "'f Value \<Rightarrow> string"
  assumes "\<And>w. w = materialize_context_window codec parse (messages s) \<Longrightarrow>
    parse_value (json_text (metadata_value w)) = Ok (metadata_value w :: 'f Value)"
  shows "validate_context_window_materialization parse_value (refresh_session_context_window codec parse json_text s) =
      ensure_valid (materialize_context_window codec parse (messages s)) \<and>
    context_window (refresh_session_context_window codec parse json_text s) =
      window_messages (materialize_context_window codec parse (messages s)) \<and>
    messages (refresh_session_context_window codec parse json_text s) = messages s"
proof -
  let ?w = "materialize_context_window codec parse (messages s)"
  have read: "parse_value (json_text (metadata_value ?w)) = Ok (metadata_value ?w :: 'f Value)" using assms by blast
  have "as_array (the (value_get ''diagnostics'' (metadata_value ?w :: 'f Value))) = Some (map (\<lambda>d. VObject
      [(''reason'', VString (diagnostic_reason d)), (''messageId'', VString (diagnostic_message_id d)),
       (''messageIndex'', VNumber (JsonInt (int (diagnostic_message_index d))))]) (diagnostics ?w))"
    "value_get ''diagnostics'' (metadata_value ?w :: 'f Value) \<noteq> None"
    by (simp_all add: metadata_value_def value_get_def as_array_def)
  then have "Option.bind (value_get ''diagnostics'' (metadata_value ?w :: 'f Value)) as_array = Some (map (\<lambda>d. VObject
      [(''reason'', VString (diagnostic_reason d)), (''messageId'', VString (diagnostic_message_id d)),
       (''messageIndex'', VNumber (JsonInt (int (diagnostic_message_index d))))]) (diagnostics ?w))"
    by (cases "value_get ''diagnostics'' (metadata_value ?w :: 'f Value)") simp_all
  then have "validate_context_window_materialization parse_value (refresh_session_context_window codec parse json_text s) = ensure_valid ?w"
    by (simp add: validate_context_window_materialization_def refresh_session_context_window_def metadata_json_def Let_def
        map_err_def read ensure_valid_def find_diagnostic [where n = "\<lambda>d. VNumber (JsonInt (int (diagnostic_message_index d)))"])
  then show ?thesis by (simp add: refresh_session_context_window_def Let_def)
qed

definition sample_session :: "unit SessionStateSnapshot" where
  "sample_session = \<lparr>session_id = ''s'', messages = [stored_user, sample_summary], context_window = [],
    model_semantics = Map.empty, completed_turn = None, updated_at_ms = 0, session_metadata = Map.empty\<rparr>"

theorem stored_verdict_exact_witness:
  "validate_context_window_materialization
     (\<lambda>_. Ok (metadata_value (materialize_context_window window_codec sample_parse [stored_user, sample_summary])) :: unit Value result)
     (refresh_session_context_window window_codec sample_parse (\<lambda>_. ''m'') sample_session) = Ok ()"
  using stored_verdict_exact [where codec = window_codec and parse = sample_parse and s = sample_session and json_text = "\<lambda>_. ''m''"
      and parse_value = "\<lambda>_. Ok (metadata_value (materialize_context_window window_codec sample_parse [stored_user, sample_summary]))"]
    sample_valid
  by (simp add: sample_session_def)

end
