(* ===== verification/Residency.thy ===== *)
theory Residency
  imports Machines
begin

text \<open>
  Resident sandboxes and their resources (\<open>core/src/execution/residency.rs\<close>,
  \<open>runtime_server/src/shared_resident_admission.rs\<close> and the ledger of
  \<open>runtime_server/src/postgres_store/residency.rs\<close>): every sandbox is a row that stays charged from its
  reservation until its removal is confirmed, and a new reservation is admitted against a global, a tenant
  and a host limit, with declared or with measured usage.

  Admission and insertion run in one transaction under the advisory lock of the hosts, so a reservation is one
  step on the rows. Both callers that admit are modelled; the reconciliation with the physical inventory also
  inserts rows, for sandboxes it finds running, without an admission, so the theorems speak of the ledger
  after one admission from any earlier ledger. The outcome of statements and constraints on other tables, the
  text of a database error, the clock and the memory of a starting sandbox are arguments.
\<close>

section \<open>Usage\<close>

record ResidentResourceUsage =
  sandbox_count :: nat
  memory_bytes :: nat
  cpu_milli :: nat
  pids :: nat
  workspace_bytes :: nat

abbreviation no_usage :: ResidentResourceUsage where
  "no_usage \<equiv> \<lparr>sandbox_count = 0, memory_bytes = 0, cpu_milli = 0, pids = 0, workspace_bytes = 0\<rparr>"

definition checked_add :: "ResidentResourceUsage \<Rightarrow> ResidentResourceUsage \<Rightarrow> ResidentResourceUsage result" where
  "checked_add a b =
    (let add = (\<lambda>x y. ok_or ''resident resource accounting overflow'' (u64_checked_add x y)) in
     res_bind (add (sandbox_count a) (sandbox_count b)) (\<lambda>n.
     res_bind (add (memory_bytes a) (memory_bytes b)) (\<lambda>m.
     res_bind (add (cpu_milli a) (cpu_milli b)) (\<lambda>c.
     res_bind (add (pids a) (pids b)) (\<lambda>p.
     res_bind (add (workspace_bytes a) (workspace_bytes b)) (\<lambda>w.
     Ok \<lparr>sandbox_count = n, memory_bytes = m, cpu_milli = c, pids = p, workspace_bytes = w\<rparr>))))))"

definition fits :: "ResidentResourceUsage \<Rightarrow> ResidentResourceUsage \<Rightarrow> bool" where
  "fits a limit \<longleftrightarrow> sandbox_count a \<le> sandbox_count limit \<and> memory_bytes a \<le> memory_bytes limit \<and>
    cpu_milli a \<le> cpu_milli limit \<and> pids a \<le> pids limit \<and> workspace_bytes a \<le> workspace_bytes limit"

definition admit_resident_resources ::
  "ResidentResourceUsage \<Rightarrow> ResidentResourceUsage \<Rightarrow> ResidentResourceUsage \<Rightarrow> ResidentResourceUsage \<Rightarrow> ResidentResourceUsage \<Rightarrow>
    bool result" where
  "admit_resident_resources global_used tenant_used requested global_lim tenant_lim =
    res_bind (ensure (\<not> (sandbox_count requested \<noteq> 1 \<or> memory_bytes requested = 0 \<or> cpu_milli requested = 0 \<or>
        pids requested = 0 \<or> workspace_bytes requested = 0))
      ''resident reservation must describe one bounded sandbox'') (\<lambda>_.
    res_bind (checked_add global_used requested) (\<lambda>g.
    if \<not> fits g global_lim then Ok False
    else res_bind (checked_add tenant_used requested) (\<lambda>t. Ok (fits t tenant_lim))))"

section \<open>Measured usage\<close>

record MeasuredUsage =
  memory_current_bytes :: nat
  swap_current_bytes :: nat
  pids_current :: nat
  workspace_upper_bound_bytes :: "nat option"

definition charge :: "ResidentResourceUsage \<Rightarrow> MeasuredUsage option \<Rightarrow> ResidentResourceUsage result" where
  "charge declared observed =
    (case observed of
       None \<Rightarrow> Ok declared
     | Some o' \<Rightarrow>
         res_bind (ensure (pids_current o' \<noteq> 0) ''shared resident observation has no live process'') (\<lambda>_.
         res_bind (ok_or ''shared resident memory observation overflow''
           (u64_checked_add (memory_current_bytes o') (swap_current_bytes o'))) (\<lambda>memory.
         Ok (declared\<lparr>memory_bytes := memory, pids := pids_current o',
           workspace_bytes := (case workspace_upper_bound_bytes o' of Some b \<Rightarrow> b | None \<Rightarrow> workspace_bytes declared)\<rparr>))))"

record ResidentCapacity =
  global_limit :: ResidentResourceUsage
  tenant_limit :: ResidentResourceUsage
  host_limit :: ResidentResourceUsage

definition bound_to_host :: "ResidentCapacity \<Rightarrow> nat \<Rightarrow> nat \<Rightarrow> nat \<Rightarrow> nat \<Rightarrow> ResidentCapacity result" where
  "bound_to_host c memory cpu_count memory_headroom cpu_headroom_milli =
    (let checked_sub = (\<lambda>x y. if (y::nat) \<le> x then Some (x - y) else None);
         positive = (\<lambda>v. if 0 < (v::nat) then Some v else None) in
     res_bind (ok_or ''resident host memory headroom leaves no sandbox capacity''
       (Option.bind (checked_sub memory memory_headroom) positive)) (\<lambda>memory_available.
     res_bind (ok_or ''resident host CPU headroom leaves no sandbox capacity''
       (Option.bind (Option.bind (if cpu_count * 1000 \<le> u64_max then Some (cpu_count * 1000) else None)
         (\<lambda>v. checked_sub v cpu_headroom_milli)) positive)) (\<lambda>cpu_available.
     Ok (c\<lparr>host_limit := (host_limit c)\<lparr>memory_bytes := min (memory_bytes (host_limit c)) memory_available,
       cpu_milli := min (cpu_milli (host_limit c)) cpu_available\<rparr>\<rparr>))))"

record Admission =
  global_used :: ResidentResourceUsage
  tenant_used :: ResidentResourceUsage
  host_used :: ResidentResourceUsage
  requested :: ResidentResourceUsage
  limits :: ResidentCapacity
  host_available_bytes :: nat
  host_headroom_bytes :: nat
  startup_memory_bytes :: nat
  unobserved_host_memory_bytes :: nat

abbreviation fits_shared :: "ResidentResourceUsage \<Rightarrow> ResidentResourceUsage \<Rightarrow> bool" where
  "fits_shared usage limit \<equiv> fits (usage\<lparr>cpu_milli := 0\<rparr>) limit"

definition admits :: "Admission \<Rightarrow> bool result" where
  "admits r =
    res_bind (admit_resident_resources no_usage no_usage (requested r) (requested r) (requested r)) (\<lambda>_.
    let startup_memory = min (startup_memory_bytes r) (memory_bytes (requested r)) in
    res_bind (ok_or ''shared resident host memory accounting overflow''
      (Option.bind (u64_checked_add (host_headroom_bytes r) (unobserved_host_memory_bytes r))
        (\<lambda>v. u64_checked_add v startup_memory))) (\<lambda>required_available.
    let cpu_ceiling = min (min (cpu_milli (global_limit (limits r))) (cpu_milli (tenant_limit (limits r))))
          (cpu_milli (host_limit (limits r))) in
    if \<not> cpu_milli (requested r) \<le> cpu_ceiling then Ok False
    else res_bind (checked_add (global_used r) (requested r)) (\<lambda>g.
    if \<not> fits_shared g (global_limit (limits r)) then Ok False
    else res_bind (checked_add (tenant_used r) (requested r)) (\<lambda>t.
    if \<not> fits_shared t (tenant_limit (limits r)) then Ok False
    else res_bind (checked_add (host_used r) (requested r)) (\<lambda>h.
    Ok (fits_shared h (host_limit (limits r)) \<and> required_available \<le> host_available_bytes r))))))"

record SharedHostInventory =
  sample_host_id :: string
  available_memory_bytes :: nat
  memory_headroom_bytes :: nat
  valid_until :: nat
  measured_by_container :: "string \<rightharpoonup> MeasuredUsage"

definition ensure_fresh :: "nat \<Rightarrow> string \<Rightarrow> SharedHostInventory \<Rightarrow> unit result" where
  "ensure_fresh now expected_host sample =
    res_bind (ensure (sample_host_id sample = expected_host) ''shared resident host identity mismatch'') (\<lambda>_.
    ensure (\<not> valid_until sample \<le> now) ''execution_resident_capacity_wait'')"

section \<open>The ledger\<close>

record resident_row =
  row_host :: string
  row_execution :: string
  row_workspace :: string
  row_container :: "string option"
  row_state :: string
  row_memory_bytes :: int
  row_cpu_milli :: int
  row_pids :: int
  row_workspace_bytes :: int

abbreviation u64_value :: "int \<Rightarrow> nat result" where
  "u64_value i \<equiv> (if 0 \<le> i then Ok (nat i) else Err ''out of range integral type conversion attempted'')"

definition usage :: "resident_row \<Rightarrow> ResidentResourceUsage result" where
  "usage row =
    res_bind (u64_value (row_memory_bytes row)) (\<lambda>m.
    res_bind (u64_value (row_cpu_milli row)) (\<lambda>c.
    res_bind (u64_value (row_pids row)) (\<lambda>p.
    res_bind (u64_value (row_workspace_bytes row)) (\<lambda>w.
    Ok \<lparr>sandbox_count = 1, memory_bytes = m, cpu_milli = c, pids = p, workspace_bytes = w\<rparr>))))"

type_synonym usage_sums = "ResidentResourceUsage \<times> ResidentResourceUsage \<times> ResidentResourceUsage"

definition used_step :: "string \<Rightarrow> string \<Rightarrow> usage_sums \<Rightarrow> resident_row \<Rightarrow> usage_sums result" where
  "used_step host tenant = (\<lambda>(g, t, h) row.
     res_bind (usage row) (\<lambda>resources.
     res_bind (checked_add g resources) (\<lambda>g.
     res_bind (if row_host row = host then checked_add h resources else Ok h) (\<lambda>h.
     res_bind (if row_workspace row = tenant then checked_add t resources else Ok t) (\<lambda>t.
     Ok (g, t, h))))))"

definition used :: "string \<Rightarrow> string \<Rightarrow> resident_row list \<Rightarrow> usage_sums result" where
  "used host tenant rows = fold_result (used_step host tenant) (no_usage, no_usage, no_usage) rows"

text \<open>
  With a sample of the host, confirmed sandboxes of the host that are not pending are charged what was measured.
  The readings of the clock at the start and at the end are arguments; \<open>pending\<close> are the pending executions of the
  snapshot.
\<close>

definition measured :: "string \<Rightarrow> SharedHostInventory \<Rightarrow> string list \<Rightarrow> resident_row \<Rightarrow> MeasuredUsage option" where
  "measured host sample pending row =
    (if row_host row = host \<and> row_state row = ''resident'' \<and> row_execution row \<notin> set pending
     then Option.bind (row_container row) (measured_by_container sample) else None)"

definition used_shared_step ::
  "string \<Rightarrow> string \<Rightarrow> SharedHostInventory \<Rightarrow> string list \<Rightarrow> usage_sums \<times> nat \<Rightarrow> resident_row \<Rightarrow> (usage_sums \<times> nat) result" where
  "used_shared_step host tenant sample pending = (\<lambda>((g, t, h), unobserved) row.
     res_bind (usage row) (\<lambda>declared.
     let observed = measured host sample pending row in
     res_bind (charge declared observed) (\<lambda>resources.
     res_bind (checked_add g resources) (\<lambda>g.
     res_bind (if row_host row = host then checked_add h resources else Ok h) (\<lambda>h.
     res_bind (if row_host row = host \<and> observed = None
         then ok_or ''shared unknown creation memory overflow'' (u64_checked_add unobserved (memory_bytes declared))
         else Ok unobserved) (\<lambda>unobserved.
     res_bind (if row_workspace row = tenant then checked_add t resources else Ok t) (\<lambda>t.
     Ok ((g, t, h), unobserved))))))))"

definition used_shared ::
  "nat \<Rightarrow> nat \<Rightarrow> string \<Rightarrow> string \<Rightarrow> SharedHostInventory \<Rightarrow> string list \<Rightarrow> resident_row list \<Rightarrow> (usage_sums \<times> nat) result" where
  "used_shared now now' host tenant sample pending rows =
    res_bind (ensure_fresh now host sample) (\<lambda>_.
    res_bind (fold_result (used_shared_step host tenant sample pending) ((no_usage, no_usage, no_usage), 0) rows) (\<lambda>sums.
    res_bind (ensure_fresh now' host sample) (\<lambda>_. Ok sums)))"

text \<open>
  \<open>insert\<close>, with the constraints of the table. \<open>other_constraints\<close> says whether the columns taken from
  \<open>execution_instances\<close> satisfy theirs.
\<close>

definition insert_resident ::
  "string \<Rightarrow> bool \<Rightarrow> string \<Rightarrow> string \<Rightarrow> string \<Rightarrow> string option \<Rightarrow> string \<Rightarrow> ResidentResourceUsage \<Rightarrow>
    resident_row list \<Rightarrow> resident_row list result" where
  "insert_resident sql_error other_constraints host execution workspace container state resources rows =
    (let value = (\<lambda>n. ok_or ''out of range integral type conversion attempted'' (i64_try_from n)) in
     res_bind (value (memory_bytes resources)) (\<lambda>m.
     res_bind (value (cpu_milli resources)) (\<lambda>c.
     res_bind (value (pids resources)) (\<lambda>p.
     res_bind (value (workspace_bytes resources)) (\<lambda>w.
     res_bind (ensure (other_constraints \<and> 0 < m \<and> 0 < c \<and> 0 < p \<and> 0 < w \<and>
         list_all (\<lambda>row. row_host row = host \<longrightarrow> row_execution row \<noteq> execution \<and>
           (container = None \<or> row_container row \<noteq> container)) rows)
       (''reserve resident sandbox failed: '' @ sql_error)) (\<lambda>_.
     Ok (rows @ [\<lparr>row_host = host, row_execution = execution, row_workspace = workspace, row_container = container,
       row_state = state, row_memory_bytes = m, row_cpu_milli = c, row_pids = p, row_workspace_bytes = w\<rparr>])))))))"

text \<open>The admission with declared usage, as both callers write it.\<close>

abbreviation declared_admission ::
  "ResidentCapacity \<Rightarrow> string \<Rightarrow> string \<Rightarrow> ResidentResourceUsage \<Rightarrow> resident_row list \<Rightarrow> bool result" where
  "declared_admission lim host workspace resources rows \<equiv>
    res_bind (used host workspace rows) (\<lambda>(g, t, h).
    res_bind (admit_resident_resources g t resources (global_limit lim) (tenant_limit lim)) (\<lambda>admitted.
    if \<not> admitted then Ok False
    else res_bind (checked_add h resources) (\<lambda>h. Ok (fits h (host_limit lim)))))"

text \<open>
  The reservation of a run for an environment without a holding
  (\<open>prepare_retained_instance_then_initialize\<close>) from the admission to the commit. The sample comes with the three
  readings of the clock and the pending executions of the snapshot. The statements on other tables are given by
  their outcomes: the running slot and the association before the insertion, the creation attempt after it, and
  the second association and the commit at the end.
\<close>

definition reserve_retained ::
  "unit result \<Rightarrow> unit result \<Rightarrow> unit result \<Rightarrow> string \<Rightarrow> bool \<Rightarrow> ResidentCapacity \<Rightarrow> nat \<Rightarrow> (nat \<times> nat \<times> nat \<times> SharedHostInventory \<times> string list) option \<Rightarrow>
    string \<Rightarrow> string \<Rightarrow> string \<Rightarrow> ResidentResourceUsage \<Rightarrow> resident_row list \<Rightarrow> resident_row list result" where
  "reserve_retained slot_and_association creation_attempt association_and_commit sql_error other_constraints lim startup shared host execution workspace resources rows =
    res_bind (case shared of
        Some (now, now', now'', sample, pending) \<Rightarrow>
          res_bind (used_shared now now' host workspace sample pending rows) (\<lambda>((g, t, h), pending_memory).
          admits \<lparr>global_used = g, tenant_used = t, host_used = h, requested = resources, limits = lim,
            host_available_bytes = available_memory_bytes sample, host_headroom_bytes = memory_headroom_bytes sample,
            startup_memory_bytes = startup, unobserved_host_memory_bytes = pending_memory\<rparr>)
      | None \<Rightarrow> declared_admission lim host workspace resources rows) (\<lambda>admitted.
    res_bind (ensure admitted ''execution_resident_capacity_wait'') (\<lambda>_.
    res_bind slot_and_association (\<lambda>_.
    res_bind (insert_resident sql_error other_constraints host execution workspace None ''reserved'' resources rows) (\<lambda>rows'.
    res_bind creation_attempt (\<lambda>_.
    res_bind (case shared of Some (now, now', now'', sample, pending) \<Rightarrow> ensure_fresh now'' host sample | None \<Rightarrow> Ok ()) (\<lambda>_.
    res_bind association_and_commit (\<lambda>_.
    Ok rows')))))))"

text \<open>
  The reservation of a provisioned environment (\<open>provision_environment\<close>), with the outcome of the insertion into
  \<open>execution_instances\<close>.
\<close>

definition reserve_provision ::
  "unit result \<Rightarrow> string \<Rightarrow> bool \<Rightarrow> ResidentCapacity \<Rightarrow> string \<Rightarrow> string \<Rightarrow> string \<Rightarrow> ResidentResourceUsage \<Rightarrow>
    resident_row list \<Rightarrow> resident_row list result" where
  "reserve_provision instance_row sql_error other_constraints lim host execution workspace resources rows =
    res_bind (declared_admission lim host workspace resources rows) (\<lambda>admitted.
    res_bind (ensure admitted ''execution_resident_capacity_wait'') (\<lambda>_.
    res_bind instance_row (\<lambda>_.
    insert_resident sql_error other_constraints host execution workspace None ''reserved'' resources rows)))"

section \<open>Exact sums\<close>

text \<open>The reference: sums of declarations without a width.\<close>

definition plus_usage :: "ResidentResourceUsage \<Rightarrow> ResidentResourceUsage \<Rightarrow> ResidentResourceUsage" where
  "plus_usage a b = \<lparr>sandbox_count = sandbox_count a + sandbox_count b, memory_bytes = memory_bytes a + memory_bytes b,
    cpu_milli = cpu_milli a + cpu_milli b, pids = pids a + pids b, workspace_bytes = workspace_bytes a + workspace_bytes b\<rparr>"

definition row_usage :: "resident_row \<Rightarrow> ResidentResourceUsage" where
  "row_usage row = \<lparr>sandbox_count = 1, memory_bytes = nat (row_memory_bytes row), cpu_milli = nat (row_cpu_milli row),
    pids = nat (row_pids row), workspace_bytes = nat (row_workspace_bytes row)\<rparr>"

primrec total_usage :: "resident_row list \<Rightarrow> ResidentResourceUsage" where
  "total_usage [] = no_usage"
| "total_usage (row # rows) = plus_usage (row_usage row) (total_usage rows)"

lemma plus_usage_assoc: "plus_usage (plus_usage a b) c = plus_usage a (plus_usage b c)"
  by (simp add: plus_usage_def)

lemma plus_usage_zero [simp]: "plus_usage no_usage a = a" "plus_usage a no_usage = a"
  by (simp_all add: plus_usage_def)

lemma total_usage_append: "total_usage (xs @ ys) = plus_usage (total_usage xs) (total_usage ys)"
  by (induction xs) (simp_all add: plus_usage_assoc)

lemma total_usage_count [simp]: "sandbox_count (total_usage rows) = length rows"
  by (induction rows) (simp_all add: plus_usage_def row_usage_def)

lemma checked_add_Ok: "checked_add a b = Inr c \<Longrightarrow> c = plus_usage a b"
  by (auto simp: checked_add_def plus_usage_def Let_def res_bind_eq_Inr u64_checked_add_def ok_or_def
    split: if_splits option.splits)

lemma usage_Ok: "usage row = Inr u \<Longrightarrow> u = row_usage row"
  by (auto simp: usage_def row_usage_def res_bind_eq_Inr split: if_splits)

lemma charge_count: "charge d m = Inr u \<Longrightarrow> sandbox_count u = sandbox_count d"
  by (auto simp: charge_def res_bind_eq_Inr split: option.splits)

lemma used_step_Ok:
  "used_step host tenant (g, t, h) row = Inr x \<Longrightarrow>
    x = (plus_usage g (row_usage row),
      (if row_workspace row = tenant then plus_usage t (row_usage row) else t),
      (if row_host row = host then plus_usage h (row_usage row) else h))"
  by (auto simp: used_step_def res_bind_eq_Inr dest!: usage_Ok checked_add_Ok split: if_splits)

lemma used_from:
  "fold_result (used_step host tenant) (g, t, h) rows = Inr (g', t', h') \<Longrightarrow>
    g' = plus_usage g (total_usage rows)
    \<and> t' = plus_usage t (total_usage (filter (\<lambda>r. row_workspace r = tenant) rows))
    \<and> h' = plus_usage h (total_usage (filter (\<lambda>r. row_host r = host) rows))"
proof (induction rows arbitrary: g t h)
  case Nil
  then show ?case by simp
next
  case (Cons row rows)
  from Cons.prems obtain x where x: "used_step host tenant (g, t, h) row = Inr x"
    and rest: "fold_result (used_step host tenant) x rows = Inr (g', t', h')"
    by (auto simp: res_bind_eq_Inr)
  from rest [unfolded used_step_Ok [OF x]] show ?case
    by (auto dest!: Cons.IH simp: plus_usage_assoc)
qed

lemma used_exact:
  "used host tenant rows = Inr (g, t, h) \<Longrightarrow>
    g = total_usage rows \<and> t = total_usage (filter (\<lambda>r. row_workspace r = tenant) rows)
    \<and> h = total_usage (filter (\<lambda>r. row_host r = host) rows)"
  unfolding used_def by (drule used_from) simp

text \<open>Measurement changes no sandbox count, and what is not measured keeps its declared memory.\<close>

abbreviation unmeasured :: "string \<Rightarrow> SharedHostInventory \<Rightarrow> string list \<Rightarrow> resident_row \<Rightarrow> bool" where
  "unmeasured host sample pending r \<equiv> row_host r = host \<and> measured host sample pending r = None"

lemma checked_add_count: "checked_add a b = Inr c \<Longrightarrow> sandbox_count c = sandbox_count a + sandbox_count b"
  by (drule checked_add_Ok) (simp add: plus_usage_def)

lemma row_usage_count [simp]: "sandbox_count (row_usage row) = 1"
  by (simp add: row_usage_def)

lemma used_shared_step_Ok:
  assumes "used_shared_step host tenant sample pending ((g, t, h), u) row = Inr ((g', t', h'), u')"
  shows "sandbox_count g' = sandbox_count g + 1"
    and "sandbox_count t' = sandbox_count t + (if row_workspace row = tenant then 1 else 0)"
    and "sandbox_count h' = sandbox_count h + (if row_host row = host then 1 else 0)"
    and "u' = u + (if unmeasured host sample pending row then memory_bytes (row_usage row) else 0)"
proof -
  from assms obtain d c where d: "usage row = Inr d" and c: "charge d (measured host sample pending row) = Inr c"
    and g: "checked_add g c = Inr g'"
    and h: "(if row_host row = host then checked_add h c else Ok h) = Inr h'"
    and u: "(if unmeasured host sample pending row
        then ok_or ''shared unknown creation memory overflow'' (u64_checked_add u (memory_bytes d)) else Ok u) = Inr u'"
    and t: "(if row_workspace row = tenant then checked_add t c else Ok t) = Inr t'"
    unfolding used_shared_step_def Let_def split res_bind_eq_Inr by blast
  have one: "sandbox_count c = 1" using charge_count [OF c] usage_Ok [OF d] by simp
  show "sandbox_count g' = sandbox_count g + 1" using checked_add_count [OF g] one by simp
  show "sandbox_count t' = sandbox_count t + (if row_workspace row = tenant then 1 else 0)"
    using t one by (auto dest: checked_add_count split: if_splits)
  show "sandbox_count h' = sandbox_count h + (if row_host row = host then 1 else 0)"
    using h one by (auto dest: checked_add_count split: if_splits)
  show "u' = u + (if unmeasured host sample pending row then memory_bytes (row_usage row) else 0)"
    using u usage_Ok [OF d] by (auto simp: ok_or_def u64_checked_add_def split: if_splits)
qed

lemma used_shared_from:
  "fold_result (used_shared_step host tenant sample pending) ((g, t, h), u) rows = Inr ((g', t', h'), u') \<Longrightarrow>
    sandbox_count g' = sandbox_count g + length rows
    \<and> sandbox_count t' = sandbox_count t + length (filter (\<lambda>r. row_workspace r = tenant) rows)
    \<and> sandbox_count h' = sandbox_count h + length (filter (\<lambda>r. row_host r = host) rows)
    \<and> u' = u + memory_bytes (total_usage (filter (unmeasured host sample pending) rows))"
proof (induction rows arbitrary: g t h u)
  case Nil
  then show ?case by simp
next
  case (Cons row rows)
  from Cons.prems obtain g1 t1 h1 u1 where x: "used_shared_step host tenant sample pending ((g, t, h), u) row = Inr ((g1, t1, h1), u1)"
    and rest: "fold_result (used_shared_step host tenant sample pending) ((g1, t1, h1), u1) rows = Inr ((g', t', h'), u')"
    by (auto simp: res_bind_eq_Inr)
  from Cons.IH [OF rest] used_shared_step_Ok [OF x] show ?case
    by (simp add: plus_usage_def)
qed

lemma used_shared_sums:
  assumes "used_shared now now' host tenant sample pending rows = Inr ((g, t, h), u)"
  shows "sandbox_count g = length rows"
    and "sandbox_count t = length (filter (\<lambda>r. row_workspace r = tenant) rows)"
    and "sandbox_count h = length (filter (\<lambda>r. row_host r = host) rows)"
    and "u = memory_bytes (total_usage (filter (unmeasured host sample pending) rows))"
  using assms by (auto simp: used_shared_def res_bind_eq_Inr dest!: used_shared_from)

section \<open>What an admission guarantees\<close>

lemma admit_True:
  "admit_resident_resources g t req gl tel = Inr True \<Longrightarrow>
    sandbox_count req = 1 \<and> fits (plus_usage g req) gl \<and> fits (plus_usage t req) tel"
  by (auto simp: admit_resident_resources_def res_bind_eq_Inr dest!: checked_add_Ok split: if_splits)

lemma admit_request: "admit_resident_resources g t req gl tel = Inr b \<Longrightarrow> sandbox_count req = 1"
  by (auto simp: admit_resident_resources_def res_bind_eq_Inr)

lemma declared_admission_True:
  assumes "declared_admission lim host workspace req rows = Inr True"
  shows "sandbox_count req = 1"
    and "fits (plus_usage (total_usage rows) req) (global_limit lim)"
    and "fits (plus_usage (total_usage (filter (\<lambda>r. row_workspace r = workspace) rows)) req) (tenant_limit lim)"
    and "fits (plus_usage (total_usage (filter (\<lambda>r. row_host r = host) rows)) req) (host_limit lim)"
  using assms
  by (auto simp: res_bind_eq_Inr dest!: used_exact admit_True checked_add_Ok split: if_splits)

lemma admits_True:
  assumes "admits r = Inr True"
  shows "sandbox_count (requested r) = 1"
    and "fits ((plus_usage (global_used r) (requested r))\<lparr>cpu_milli := 0\<rparr>) (global_limit (limits r))"
    and "fits ((plus_usage (tenant_used r) (requested r))\<lparr>cpu_milli := 0\<rparr>) (tenant_limit (limits r))"
    and "fits ((plus_usage (host_used r) (requested r))\<lparr>cpu_milli := 0\<rparr>) (host_limit (limits r))"
    and "host_headroom_bytes r + unobserved_host_memory_bytes r + min (startup_memory_bytes r) (memory_bytes (requested r))
      \<le> host_available_bytes r"
  using assms
  by (auto simp: admits_def Let_def res_bind_eq_Inr ok_or_def u64_checked_add_def bind_eq_Some_conv
    dest!: admit_request checked_add_Ok split: if_splits option.splits)

lemma insert_resident_Ok:
  assumes "insert_resident e oc host ex ws container st req rows = Inr rows'" and "sandbox_count req = 1"
  obtains r where "rows' = rows @ [r]" and "row_host r = host" and "row_workspace r = ws" and "row_usage r = req"
  using assms
  by (auto simp: insert_resident_def Let_def res_bind_eq_Inr ok_or_def i64_try_from_def row_usage_def split: if_splits)

lemma bound_to_host_Ok:
  assumes "bound_to_host c memory cpus memory_headroom cpu_headroom = Inr lim"
  shows "memory_bytes (host_limit lim) + memory_headroom \<le> memory" and "cpu_milli (host_limit lim) + cpu_headroom \<le> cpus * 1000"
  using assms
  by (auto simp: bound_to_host_def Let_def res_bind_eq_Inr ok_or_def bind_eq_Some_conv split: if_splits option.splits)

text \<open>C39: A reservation admitted with declared usage, for a run or for a provisioned environment, leaves the whole
  ledger within the global limit, the rows of its workspace within the tenant limit and the rows of its host
  within the host limit, for all five resources and whatever the ledger was; no row is lost or changed. When the
  limits are those bounded to the host, the headroom of its memory and of its processors stays free.\<close>

theorem admission_within_limits:
  assumes "reserve_retained slot attempt commit e oc lim startup None host ex ws req rows = Inr rows'
    \<or> reserve_provision inserted e oc lim host ex ws req rows = Inr rows'"
  shows "fits (total_usage rows') (global_limit lim)
    \<and> fits (total_usage (filter (\<lambda>r. row_workspace r = ws) rows')) (tenant_limit lim)
    \<and> fits (total_usage (filter (\<lambda>r. row_host r = host) rows')) (host_limit lim)
    \<and> butlast rows' = rows \<and> row_usage (last rows') = req
    \<and> (bound_to_host c memory cpus memory_headroom cpu_headroom = Inr lim \<longrightarrow>
        memory_bytes (total_usage (filter (\<lambda>r. row_host r = host) rows')) + memory_headroom \<le> memory
        \<and> cpu_milli (total_usage (filter (\<lambda>r. row_host r = host) rows')) + cpu_headroom \<le> cpus * 1000)"
proof -
  from assms have adm: "declared_admission lim host ws req rows = Inr True"
    and ins: "insert_resident e oc host ex ws None ''reserved'' req rows = Inr rows'"
    unfolding reserve_retained_def reserve_provision_def option.case res_bind_eq_Inr ensure_eq_Inr by auto
  obtain r where r: "rows' = rows @ [r]" "row_host r = host" "row_workspace r = ws" "row_usage r = req"
    by (rule insert_resident_Ok [OF ins declared_admission_True(1) [OF adm]])
  have host: "fits (total_usage (filter (\<lambda>r. row_host r = host) rows')) (host_limit lim)"
    using declared_admission_True(4) [OF adm] by (simp add: r total_usage_append)
  have "memory_bytes (total_usage (filter (\<lambda>r. row_host r = host) rows')) + memory_headroom \<le> memory
        \<and> cpu_milli (total_usage (filter (\<lambda>r. row_host r = host) rows')) + cpu_headroom \<le> cpus * 1000"
    if "bound_to_host c memory cpus memory_headroom cpu_headroom = Inr lim"
    using bound_to_host_Ok [OF that] host unfolding fits_def by linarith
  with host show ?thesis using declared_admission_True(2,3) [OF adm] by (simp add: r total_usage_append)
qed

lemmas residency_eval = reserve_provision_def reserve_retained_def used_def used_step_def used_shared_def used_shared_step_def
  measured_def charge_def usage_def checked_add_def fits_def admit_resident_resources_def admits_def ensure_fresh_def
  insert_resident_def u64_checked_add_def u64_max_def i64_try_from_def i64_max_def Let_def ok_or_def

text \<open>A ledger with two sandboxes of two workspaces, and limits that leave room for exactly one more.\<close>

abbreviation box_usage :: ResidentResourceUsage where
  "box_usage \<equiv> \<lparr>sandbox_count = 1, memory_bytes = 1024, cpu_milli = 1000, pids = 16, workspace_bytes = 512\<rparr>"

abbreviation box_row :: "string \<Rightarrow> string \<Rightarrow> resident_row" where
  "box_row ex ws \<equiv> \<lparr>row_host = ''h'', row_execution = ex, row_workspace = ws, row_container = Some ex, row_state = ''resident'',
    row_memory_bytes = 1024, row_cpu_milli = 1000, row_pids = 16, row_workspace_bytes = 512\<rparr>"

abbreviation three_boxes :: ResidentResourceUsage where
  "three_boxes \<equiv> \<lparr>sandbox_count = 3, memory_bytes = 3072, cpu_milli = 3000, pids = 48, workspace_bytes = 1536\<rparr>"

abbreviation box_limits :: ResidentCapacity where
  "box_limits \<equiv> \<lparr>global_limit = three_boxes, tenant_limit = three_boxes, host_limit = three_boxes\<rparr>"

abbreviation box_ledger :: "resident_row list" where
  "box_ledger \<equiv> [box_row ''a'' ''w'', box_row ''b'' ''v'']"

abbreviation box_ledger' :: "resident_row list" where
  "box_ledger' \<equiv> box_ledger @ [(box_row ''c'' ''w'')\<lparr>row_container := None, row_state := ''reserved''\<rparr>]"

abbreviation box_host_rows :: "resident_row list" where
  "box_host_rows \<equiv> filter (\<lambda>r. row_host r = ''h'') box_ledger'"

theorem admission_within_limits_witness:
  "reserve_provision (Ok ()) [] True box_limits ''h'' ''c'' ''w'' box_usage box_ledger = Inr box_ledger'
    \<and> fits (total_usage box_ledger') (global_limit box_limits)
    \<and> memory_bytes (total_usage box_host_rows) + 1024 \<le> 4096"
proof -
  have run: "reserve_provision (Ok ()) [] True box_limits ''h'' ''c'' ''w'' box_usage box_ledger = Inr box_ledger'"
    by (simp add: residency_eval)
  have "bound_to_host (box_limits\<lparr>host_limit := three_boxes\<lparr>memory_bytes := 9999\<rparr>\<rparr>) 4096 4 1024 1000 = Inr box_limits"
    by (simp add: bound_to_host_def residency_eval)
  with admission_within_limits [OF disjI2 [OF run]] run show ?thesis by blast
qed

text \<open>C40: A reservation admitted with a sample of the host keeps the number of sandboxes within the global, tenant
  and host limits, and is only granted when the memory the host has available covers its headroom, the full
  declared memory of every sandbox of the host that was not measured, and the start of the new one.\<close>

theorem shared_admission_bounded:
  assumes "reserve_retained slot attempt commit e oc lim startup (Some (now, now', now'', sample, pending)) host ex ws req rows = Inr rows'"
  shows "length rows' \<le> sandbox_count (global_limit lim)
    \<and> length (filter (\<lambda>r. row_workspace r = ws) rows') \<le> sandbox_count (tenant_limit lim)
    \<and> length (filter (\<lambda>r. row_host r = host) rows') \<le> sandbox_count (host_limit lim)
    \<and> memory_headroom_bytes sample
        + memory_bytes (total_usage (filter (\<lambda>r. row_host r = host \<and> measured host sample pending r = None) rows))
        + min startup (memory_bytes req) \<le> available_memory_bytes sample
    \<and> now'' < valid_until sample"
proof -
  from assms obtain g t h u where
      sums: "used_shared now now' host ws sample pending rows = Inr ((g, t, h), u)"
    and adm: "admits \<lparr>global_used = g, tenant_used = t, host_used = h, requested = req, limits = lim,
        host_available_bytes = available_memory_bytes sample, host_headroom_bytes = memory_headroom_bytes sample,
        startup_memory_bytes = startup, unobserved_host_memory_bytes = u\<rparr> = Inr True"
    and ins: "insert_resident e oc host ex ws None ''reserved'' req rows = Inr rows'"
    and fresh: "ensure_fresh now'' host sample = Inr ()"
    unfolding reserve_retained_def option.case prod.case res_bind_eq_Inr ensure_eq_Inr by auto
  have one: "sandbox_count req = 1" using admits_True(1) [OF adm] by simp
  obtain r where r: "rows' = rows @ [r]" "row_host r = host" "row_workspace r = ws"
    by (rule insert_resident_Ok [OF ins one])
  have "now'' < valid_until sample" using fresh by (simp add: ensure_fresh_def res_bind_eq_Inr)
  then show ?thesis using admits_True(2-) [OF adm] used_shared_sums [OF sums] one
    by (simp add: r fits_def plus_usage_def)
qed

abbreviation box_sample :: SharedHostInventory where
  "box_sample \<equiv> \<lparr>sample_host_id = ''h'', available_memory_bytes = 2304, memory_headroom_bytes = 1024, valid_until = 9,
    measured_by_container = [''a'' \<mapsto> \<lparr>memory_current_bytes = 100, swap_current_bytes = 0, pids_current = 2,
      workspace_upper_bound_bytes = None\<rparr>]\<rparr>"

theorem shared_admission_bounded_witness:
  "reserve_retained (Ok ()) (Ok ()) (Ok ()) [] True box_limits 256 (Some (1, 2, 3, box_sample, [''b''])) ''h'' ''c'' ''w'' box_usage box_ledger
      = Inr box_ledger' \<and> length box_ledger' \<le> sandbox_count (global_limit box_limits)"
proof -
  have run: "reserve_retained (Ok ()) (Ok ()) (Ok ()) [] True box_limits 256 (Some (1, 2, 3, box_sample, [''b''])) ''h'' ''c'' ''w'' box_usage box_ledger
      = Inr box_ledger'"
    by (simp add: residency_eval)
  show ?thesis by (rule conjI [OF run conjunct1 [OF shared_admission_bounded [OF run]]])
qed

end
