(* ===== verification/Spec2Isabelle.thy ===== *)
theory Spec2Isabelle
  imports JobProperties JobFlow ClaimsAndLetters SupplementFlow SessionProperties PermissionProperties
    ToolResult AgentComposition ToolConcurrency ContextNormalization ResolvedInputs ContextWindow Residency
begin

text \<open>
  A verification development of the durable runtime of Centaeris, of the contracts and gates of its tools, and of
  the admission of sandboxes.

  \<^bold>\<open>The program.\<close> The core (\<open>packages/core\<close>) defines the contracts of sessions, runtime jobs and tools; the
  SQLite adapter (\<open>packages/runtime_sqlite\<close>) implements the storage contracts in one database file. Workers
  schedule, claim, renew, finish and reclaim jobs under leases; a turn saves checkpoints that wait for jobs,
  takes in supplements that a user adds while it runs, and keeps large tool results as external context
  objects. An agent is composed of tool contracts and a model binding; the messages its model sees are a
  window on the session. Before a tool runs, the permission gate decides from its name and, for Bash, from the
  syntax tree of the script, and a budget bounds the tools that run at once. The hosted server
  (\<open>packages/runtime_server\<close>) gates workspace commands against snapshots, recovers lost sandboxes and admits new
  ones against resource limits.

  \<^bold>\<open>Shared theories.\<close> \<open>Prelude\<close> has results, Rust integers and byte strings, \<open>Utf8\<close> characters; \<open>Sql\<close> the statement
  forms over tables kept as lists of rows; \<open>Machines\<close> the interface locales \<open>invariant_system\<close>, \<open>status_machine\<close>,
  \<open>status_store\<close> and \<open>lease_store\<close>; \<open>WeakRegistry\<close> reference counts and the locale \<open>weak_registry\<close>. Each locale is
  interpreted on the model. \<open>Float64\<close> is the binary64 arithmetic of the retry delays, \<open>JsonValue\<close> JSON values, and
  \<open>CanonicalJson\<close> models \<open>core/src/runtime/canonical_json.rs\<close>: digests agree exactly for equal JSON values.

  \<^bold>\<open>Jobs.\<close> \<open>Reliability\<close> models \<open>core/src/session/reliability.rs\<close>, \<open>RuntimeDb\<close> the tables and transactions,
  and \<open>JobStore\<close>, \<open>ResourceClaims\<close> and \<open>DeadLetters\<close> the operations of \<open>sqlite_reliability.rs\<close>. \<open>StoreMachine\<close> makes
  each operation an atomic step; \<open>StoreRefinement\<close> shows that the steps refine the life cycle of a job row,
  \<open>StoreInvariant\<close> that they keep the invariant of the tables, and \<open>StoreSystem\<close> interprets the locales.
  \<open>JobProperties\<close>, \<open>JobFlow\<close> and \<open>ClaimsAndLetters\<close> hold the properties: life cycle, lease fencing, the terminal
  outbox, claiming, reclaiming, deduplication, wakes, mutual exclusion of claims, and the dead-letter ledger.

  \<^bold>\<open>Sessions.\<close> \<open>Contracts\<close> models the used part of \<open>core/src/runtime/contracts.rs\<close> and \<open>core/src/session/store.rs\<close>;
  \<open>SessionDb\<close>, \<open>ExternalContext\<close> and \<open>TurnSupplement\<close> model \<open>sqlite_runtime.rs\<close>, \<open>sqlite_transactions.rs\<close>,
  \<open>sqlite_external_context.rs\<close> and \<open>sqlite_turn_supplement.rs\<close>. \<open>SupplementQueue\<close> is the life cycle of a queue,
  \<open>SessionMachine\<close> the machine over the whole file, \<open>SessionInvariant\<close> its invariant, and \<open>SessionSystem\<close> carries
  the guarantees of the job store over to it. \<open>SupplementFlow\<close> and \<open>SessionProperties\<close> hold the properties.
  \<open>StoreSamples\<close> and \<open>SessionSamples\<close> are the concrete states of the witnesses. Runs schedule new jobs as queued jobs
  without a lease, while the scheduling call itself inserts a job of any status.
  \<open>ContextNormalization\<close> models \<open>core/src/session/external_context.rs\<close>: the type of normalised objects, their
  independence of field order, and two different contents that get the same identity, so that one
  overwrites the other. \<open>ContextWindow\<close> models \<open>core/src/runtime/context_window.rs\<close>: exact pairing of tool calls,
  intact causal anchors, and stored verdicts that agree with the projection.

  \<^bold>\<open>Permissions.\<close> \<open>BashDeletion\<close> models \<open>core/src/tool/permission/bash_deletion.rs\<close> and \<open>ToolPermission\<close>
  \<open>core/src/tool/permission.rs\<close> with the tool names of \<open>catalog.rs\<close>. \<open>PermissionProperties\<close> shows when exactly an action is
  blocked, that no directly executed command of a script is skipped, that literal targets are judged by
  the path they resolve to, that the glob table is correct, that the unwrapping loop ends, and one case that
  the guard misses: a root-level glob that matches a working directory directly under the root.

  \<^bold>\<open>Tools.\<close> \<open>ToolLimits\<close> (\<open>core/src/tool/limits.rs\<close>) counts the bytes of contracts exactly; \<open>ToolContracts\<close>
  (\<open>tool/types.rs\<close>, \<open>tool/dynamic.rs\<close>) shows that the registry computes its specification; \<open>McpServers\<close>
  (\<open>extension/mcp.rs\<close>) validates declarations and \<open>AgentComposition\<close> (\<open>extension/composition.rs\<close>) shows that resolved
  compositions validate. \<open>ToolConcurrency\<close> (\<open>tool/concurrency.rs\<close>) bounds the tools that run at once in every
  interleaving and shows that a waiting one is served. \<open>ResolvedInputs\<close> (\<open>tool/inputs.rs\<close>) shows that resolved
  inputs are authorised, stable and found, whatever the resolver answers. \<open>ToolResult\<close> models
  \<open>tool/layer/result_state.rs\<close> and the recovery suffix.

  \<^bold>\<open>Hosted server.\<close> \<open>ActivityGate\<close> models \<open>runtime_server/src/execution_recovery_policy.rs\<close>: a snapshot excludes
  dispatches, waiting dispatches are admitted, and a granted recovery rests on a snapshot since which no epoch was
  raised. User commands do not pass the gate and helpers raise no epoch, so this evidence does not cover them. \<open>Residency\<close> models
  \<open>core/src/execution/residency.rs\<close>, \<open>runtime_server/src/shared_resident_admission.rs\<close>, the limits of
  \<open>resident_capacity.rs\<close> and the sums and reservations of \<open>postgres_store/residency.rs\<close>, \<open>residency/retained.rs\<close> and
  \<open>provision.rs\<close>: an admitted reservation leaves the ledger within its limits, with declared and with measured
  usage.

  \<^bold>\<open>Parameters.\<close> Code outside the repository is an argument of the definitions: the hash (\<open>sha2\<close>), the compression
  (\<open>zstd\<close>), JSON encoding, text and decoding (\<open>serde_json\<close>; what it documents to read back is \<open>json_reads_back\<close>), the Bash grammar (\<open>tree_sitter\<close>), Unicode normalisation,
  URL parsing and the semaphore (\<open>tokio\<close>); so are the answers of the input resolver, clocks, host samples and the
  texts of database errors. What a property needs of them is a hypothesis of the property, and its witness
  instantiates them. Where a conclusion rests on the hash, its exception is a collision of the two texts that were
  hashed, never the existence of some collision.

  \<^bold>\<open>Bounds and fuel.\<close> No operation of the model has fuel: loops are structural recursions or have a termination proof,
  those over a shell word and over wrapper commands by the length of the rest. The fuelled
  \<open>unwrap_loop\<close> only states how many iterations suffice, one more than there are arguments. Signed 64-bit
  values are integers with checked or saturating operations where the code uses them, unsigned ones naturals
  with the same.

  \<^bold>\<open>Not modelled.\<close> Column decoding (rows are typed), schema creation and migration (comparison of SQL text), the connection
  threads, admission and metrics around the store, and crashes inside a transaction (SQLite makes it atomic). The
  transcript store (\<open>sqlite_transcript.rs\<close>) appears by its tables only, as far as the deletion of a session reaches them.
  Of the PostgreSQL store only the admission of sandboxes is modelled: its job tables repeat the contracts
  of the SQLite store in SQL with row locks, and reconciliation of the ledger with the physical inventory,
  which inserts the sandboxes it finds without an admission, joins tables that are not modelled. The
  network policy of the core (\<open>execution/policy.rs\<close>) and the schedules of the local host are left out. Tool bodies,
  the agent loop, model clients, hosts, transports, the Django API, the Python worker and the front ends are
  concurrency and I/O over files, processes and third-party services.
\<close>

end
